(* ===== verification/KPrelude.thy ===== *)
theory KPrelude
  imports Main "HOL-Library.Word"
begin

unbundle bit_operations_syntax

section \<open>Shared types, results and byte-level encodings\<close>

text \<open>
  The Go values the proxy works on and what its components share.  A \<open>byte\<close> is an
  8-bit word, a Go \<open>[]byte\<close> a list of them (\<open>option\<close> where the code tells \<open>nil\<close>
  from an empty slice), a Go \<open>string\<close> a HOL \<open>string\<close> (a list of 8-bit characters,
  as a Go string is a sequence of bytes).  The fixed-width integers are words; Go's
  \<open>int\<close> is a HOL \<open>int\<close> where the code only holds lengths and offsets in it.

  A Go function that returns an \<open>error\<close> or that can panic gives a \<open>result\<close>:
  \<open>Inl (GoErr e)\<close> for a returned error, \<open>Inl (GoPanic msg)\<close> for a run-time panic,
  \<open>Inr v\<close> for a value.  The theory also holds the parts of Go's standard library the
  protocol code uses: \<open>encoding/binary\<close> (big-endian integers, varints),
  \<open>strconv.Itoa\<close> and the \<open>string\<close>/\<open>[]byte\<close> conversions, with their round trips.
\<close>

named_theorems go_simps "unfolding rules for the model's operations"
named_theorems wire_simps "rewriting of wire images"

type_synonym byte = "8 word"

subsection \<open>Errors and results\<close>

datatype goerror =
    ErrInsufficientData
  | PacketEncodingError string
  | PacketDecodingError string
  | SchemaEncodingError string
  | SchemaDecodingError string
  | KErr "16 word"
  | ErrNew string
  | WrapErr string goerror
  | IoEOF
  | IoUnexpectedEOF
  | IoShortWrite
  | OsErrDeadlineExceeded
  | NetErr string
  | VarintOverflow

datatype gofail = GoErr goerror | GoPanic string

type_synonym 'a result = "gofail + 'a"

definition rbind :: "'a result \<Rightarrow> ('a \<Rightarrow> 'b result) \<Rightarrow> 'b result" where
  "rbind m f = (case m of Inl e \<Rightarrow> Inl e | Inr a \<Rightarrow> f a)"

lemma rbind_simps [simp]:
  "rbind (Inl e) f = Inl e"
  "rbind (Inr a) f = f a"
  by (simp_all add: rbind_def)

lemma rbind_assoc: "rbind (rbind m f) g = rbind m (\<lambda>a. rbind (f a) g)"
  by (cases m) simp_all

lemma rbind_Inr_conv: "rbind m f = Inr b \<longleftrightarrow> (\<exists>a. m = Inr a \<and> f a = Inr b)"
  by (cases m) simp_all

definition is_panic :: "'a result \<Rightarrow> bool" where
  "is_panic r = (case r of Inl (GoPanic _) \<Rightarrow> True | _ \<Rightarrow> False)"

lemma is_panic_simps [simp]:
  "\<not> is_panic (Inr a)"
  "\<not> is_panic (Inl (GoErr e))"
  "is_panic (Inl (GoPanic s))"
  by (simp_all add: is_panic_def)

definition slice_from :: "'a list \<Rightarrow> nat \<Rightarrow> 'a list result" where
  "slice_from xs k =
     (if k \<le> length xs then Inr (drop k xs) else Inl (GoPanic ''slice bounds out of range''))"

text \<open>
  \<open>xs[lo:hi]\<close> and \<open>xs[k]\<close>: both panic out of range.  (Go slices up to the capacity; the buffers that
  are decoded were made with their length, so that both are the same.)
\<close>

definition go_slice :: "'a list \<Rightarrow> nat \<Rightarrow> int \<Rightarrow> 'a list result" where
  "go_slice xs lo hi =
     (if int lo \<le> hi \<and> hi \<le> int (length xs) then Inr (take (nat hi - lo) (drop lo xs))
      else Inl (GoPanic ''slice bounds out of range''))"

definition go_index :: "'a list \<Rightarrow> nat \<Rightarrow> 'a result" where
  "go_index xs k = (if k < length xs then Inr (xs ! k) else Inl (GoPanic ''index out of range''))"

subsection \<open>Strings and byte slices\<close>

definition go_bytes :: "string \<Rightarrow> byte list" where
  "go_bytes s = map of_char s"

definition go_string :: "byte list \<Rightarrow> string" where
  "go_string bs = map (\<lambda>b. char_of (unat b)) bs"

lemma of_char_char_of_byte [simp]: "(of_char (char_of (unat (b :: byte)) :: char) :: byte) = b"
proof -
  have "unat b < 2 ^ LENGTH(8)" by (rule unsigned_less)
  then have "(of_nat (of_char (char_of (unat b) :: char)) :: byte) = b" by simp
  then show ?thesis by (simp only: of_nat_of_char)
qed

lemma unat_of_char_byte: "unat (of_char c :: byte) = of_char c"
proof -
  have "unat (of_nat (of_char c :: nat) :: byte) = (of_char c :: nat)"
    by (simp add: unat_of_nat)
  then show ?thesis by (simp only: of_nat_of_char)
qed

lemma char_of_of_char_byte [simp]: "char_of (unat (of_char c :: byte)) = c"
  by (simp only: unat_of_char_byte char_of_char)

lemma go_bytes_string [simp]: "go_bytes (go_string bs) = bs"
  by (simp add: go_bytes_def go_string_def comp_def)

lemma go_string_bytes [simp]: "go_string (go_bytes s) = s"
  by (simp add: go_bytes_def go_string_def comp_def)

lemma length_go_bytes [simp]: "length (go_bytes s) = length s"
  by (simp add: go_bytes_def)

lemma length_go_string [simp]: "length (go_string bs) = length bs"
  by (simp add: go_string_def)

lemma go_bytes_append [simp]: "go_bytes (s @ t) = go_bytes s @ go_bytes t"
  by (simp add: go_bytes_def)

subsection \<open>Decimal numerals\<close>

fun nat_digits :: "nat \<Rightarrow> string" where
  "nat_digits n =
     (if n < 10 then [char_of (48 + n)] else nat_digits (n div 10) @ [char_of (48 + n mod 10)])"

declare nat_digits.simps [simp del]

definition go_itoa :: "int \<Rightarrow> string" where
  "go_itoa i = (if i < 0 then ''-'' @ nat_digits (nat (- i)) else nat_digits (nat i))"

definition digit_val :: "char \<Rightarrow> nat option" where
  "digit_val c = (let n = of_char c :: nat in if 48 \<le> n \<and> n \<le> 57 then Some (n - 48) else None)"

fun digits_val :: "nat \<Rightarrow> string \<Rightarrow> nat option" where
  "digits_val acc [] = Some acc"
| "digits_val acc (c # cs) =
     (case digit_val c of None \<Rightarrow> None | Some d \<Rightarrow> digits_val (10 * acc + d) cs)"

definition atoi_syntax :: "string \<Rightarrow> goerror" where
  "atoi_syntax s = ErrNew (''strconv.Atoi: parsing '' @ s @ '': invalid syntax'')"

definition atoi_range :: "string \<Rightarrow> goerror" where
  "atoi_range s = ErrNew (''strconv.Atoi: parsing '' @ s @ '': value out of range'')"

definition go_atoi :: "string \<Rightarrow> int result" where
  "go_atoi s =
     (let neg = (s \<noteq> [] \<and> hd s = CHR ''-'');
          body = (if s \<noteq> [] \<and> (hd s = CHR ''-'' \<or> hd s = CHR ''+'') then tl s else s)
      in if body = [] then Inl (GoErr (atoi_syntax s))
         else case digits_val 0 body of
                None \<Rightarrow> Inl (GoErr (atoi_syntax s))
              | Some n \<Rightarrow>
                  (let v = (if neg then - int n else int n)
                   in if v < - (2 ^ 63) \<or> 2 ^ 63 \<le> v then Inl (GoErr (atoi_range s)) else Inr v))"

lemma digit_val_char_of [simp]: "d < 10 \<Longrightarrow> digit_val (char_of (48 + d)) = Some d"
  by (simp add: digit_val_def)

lemma digits_val_append:
  "digits_val acc (s @ t) = (case digits_val acc s of None \<Rightarrow> None | Some n \<Rightarrow> digits_val n t)"
  by (induction s arbitrary: acc) (auto split: option.splits)

lemma nat_digits_nonempty [simp]: "nat_digits n \<noteq> []"
  by (subst nat_digits.simps) simp

lemma digits_val_nat_digits: "digits_val 0 (nat_digits n) = Some n"
proof (induction n rule: nat_digits.induct)
  case (1 n)
  show ?case
  proof (cases "n < 10")
    case True
    then show ?thesis by (subst nat_digits.simps) simp
  next
    case False
    with 1 have "digits_val 0 (nat_digits (n div 10)) = Some (n div 10)" by simp
    with False show ?thesis
      by (subst nat_digits.simps) (simp add: digits_val_append)
  qed
qed

lemma nat_digits_digit: "c \<in> set (nat_digits n) \<Longrightarrow> 48 \<le> (of_char c :: nat) \<and> (of_char c :: nat) \<le> 57"
proof (induction n rule: nat_digits.induct)
  case (1 n)
  then show ?case
    by (subst (asm) nat_digits.simps) (auto split: if_splits)
qed

lemma nat_digits_no_sign:
  "hd (nat_digits n) \<noteq> CHR ''-''" "hd (nat_digits n) \<noteq> CHR ''+''"
  using nat_digits_digit [of "hd (nat_digits n)" n] by (auto simp: hd_in_set)

lemma go_atoi_itoa:
  assumes "- (2 ^ 63) \<le> i" "i < 2 ^ 63"
  shows "go_atoi (go_itoa i) = Inr i"
proof (cases "i < 0")
  case True
  with assms show ?thesis
    by (simp add: go_atoi_def go_itoa_def digits_val_nat_digits)
next
  case False
  with assms show ?thesis
    by (simp add: go_atoi_def go_itoa_def digits_val_nat_digits nat_digits_no_sign)
qed

subsection \<open>Big-endian integers\<close>

definition be16 :: "16 word \<Rightarrow> byte list" where
  "be16 v = [ucast (drop_bit 8 v), ucast v]"

definition be32 :: "32 word \<Rightarrow> byte list" where
  "be32 v = [ucast (drop_bit 24 v), ucast (drop_bit 16 v), ucast (drop_bit 8 v), ucast v]"

definition be64 :: "64 word \<Rightarrow> byte list" where
  "be64 v = [ucast (drop_bit 56 v), ucast (drop_bit 48 v), ucast (drop_bit 40 v),
     ucast (drop_bit 32 v), ucast (drop_bit 24 v), ucast (drop_bit 16 v),
     ucast (drop_bit 8 v), ucast v]"

definition get_be16 :: "byte list \<Rightarrow> 16 word" where
  "get_be16 b = ucast (b ! 1) OR push_bit 8 (ucast (b ! 0))"

definition get_be32 :: "byte list \<Rightarrow> 32 word" where
  "get_be32 b = ((ucast (b ! 3) OR push_bit 8 (ucast (b ! 2))) OR push_bit 16 (ucast (b ! 1)))
     OR push_bit 24 (ucast (b ! 0))"

definition get_be64 :: "byte list \<Rightarrow> 64 word" where
  "get_be64 b = ((((((ucast (b ! 7) OR push_bit 8 (ucast (b ! 6))) OR push_bit 16 (ucast (b ! 5)))
     OR push_bit 24 (ucast (b ! 4))) OR push_bit 32 (ucast (b ! 3))) OR push_bit 40 (ucast (b ! 2)))
     OR push_bit 48 (ucast (b ! 1))) OR push_bit 56 (ucast (b ! 0))"

text \<open>\<open>binary.BigEndian.Uint16(b)\<close> and the like panic when \<open>b\<close> is too short.\<close>

definition read_be :: "nat \<Rightarrow> (byte list \<Rightarrow> 'a) \<Rightarrow> byte list \<Rightarrow> 'a result" where
  "read_be n get b = (if n \<le> length b then Inr (get b) else Inl (GoPanic ''index out of range''))"

definition BigEndian_Uint16 :: "byte list \<Rightarrow> 16 word result" where
  "BigEndian_Uint16 = read_be 2 get_be16"

definition BigEndian_Uint32 :: "byte list \<Rightarrow> 32 word result" where
  "BigEndian_Uint32 = read_be 4 get_be32"

definition BigEndian_Uint64 :: "byte list \<Rightarrow> 64 word result" where
  "BigEndian_Uint64 = read_be 8 get_be64"

lemma length_be [simp]: "length (be16 v) = 2" "length (be32 w) = 4" "length (be64 x) = 8"
  by (simp_all add: be16_def be32_def be64_def)

text \<open>Each further byte adds the next eight bits to the part already read.\<close>

lemma byte_of_word: "(ucast (ucast (v :: 'a::len word) :: byte) :: 'a word) = take_bit 8 v"
  by (rule bit_word_eqI) (auto simp: bit_simps)

lemma add_byte:
  fixes v :: "'a::len word"
  assumes "m = k + 8"
  shows "take_bit k v OR push_bit k (take_bit 8 (drop_bit k v)) = take_bit m v"
  using assms
  by (intro bit_word_eqI) (auto simp: bit_simps)

lemma take_bit_all: "LENGTH('a) \<le> k \<Longrightarrow> take_bit k (v :: 'a::len word) = v"
  by (rule bit_word_eqI) (auto simp: bit_simps)

lemmas add_bytes = byte_of_word add_byte [of 16 8] add_byte [of 24 16] add_byte [of 32 24]
  add_byte [of 40 32] add_byte [of 48 40] add_byte [of 56 48] add_byte [of 64 56]

lemma get_be16_be16 [simp]: "get_be16 (be16 v @ r) = v"
  by (simp add: get_be16_def be16_def add_bytes take_bit_all)

lemma get_be32_be32 [simp]: "get_be32 (be32 v @ r) = v"
  by (simp add: get_be32_def be32_def add_bytes take_bit_all)

lemma get_be64_be64 [simp]: "get_be64 (be64 v @ r) = v"
  by (simp add: get_be64_def be64_def add_bytes take_bit_all)

text \<open>
  \<open>uuid.UUID\<close> of the vendored \<open>google/uuid\<close> is the array type \<open>[16]byte\<close>; a pair of 64-bit
  words has exactly its values.
\<close>

datatype uuid = UUID "64 word" "64 word"

definition uuid_bytes :: "uuid \<Rightarrow> byte list" where
  "uuid_bytes u = (case u of UUID hi lo \<Rightarrow> be64 hi @ be64 lo)"

definition uuid_of_bytes :: "byte list \<Rightarrow> uuid" where
  "uuid_of_bytes b = UUID (get_be64 b) (get_be64 (drop 8 b))"

lemma length_uuid_bytes [simp]: "length (uuid_bytes u) = 16"
  by (simp add: uuid_bytes_def split: uuid.splits)

lemma uuid_of_bytes_bytes [simp]: "uuid_of_bytes (uuid_bytes u) = u"
  using get_be64_be64 [where r = "[]"]
  by (simp add: uuid_of_bytes_def uuid_bytes_def split: uuid.splits)

end
