(* ===== verification/KErrors.thy ===== *)
theory KErrors
  imports KPrelude
begin

section \<open>Broker error codes\<close>

text \<open>
  \<open>proxy/protocol/errors.go\<close>: the \<open>KError\<close> type (an \<open>int16\<close>, here a 16-bit word),
  its named constants and the message \<open>KError.Error()\<close> gives for each.  The proxy
  compares a broker's code with \<open>ErrNoError\<close> after a SASL exchange and puts the message
  in the error it returns.  The error types of the file (\<open>ErrInsufficientData\<close>,
  \<open>PacketEncodingError\<close>, \<open>PacketDecodingError\<close>, \<open>SchemaEncodingError\<close>,
  \<open>SchemaDecodingError\<close>) are constructors of \<open>goerror\<close>; \<open>error_text\<close> is their
  \<open>Error()\<close> method.
\<close>

type_synonym kerror = "16 word"

text \<open>The named constants, in the order the source declares them.\<close>

definition kerror_constants :: "(string \<times> kerror) list" where
  "kerror_constants = [
     (''ErrNoError'', 0),
     (''ErrUnknown'', - 1),
     (''ErrOffsetOutOfRange'', 1),
     (''ErrInvalidMessage'', 2),
     (''ErrUnknownTopicOrPartition'', 3),
     (''ErrInvalidMessageSize'', 4),
     (''ErrLeaderNotAvailable'', 5),
     (''ErrNotLeaderForPartition'', 6),
     (''ErrRequestTimedOut'', 7),
     (''ErrBrokerNotAvailable'', 8),
     (''ErrReplicaNotAvailable'', 9),
     (''ErrMessageSizeTooLarge'', 10),
     (''ErrStaleControllerEpochCode'', 11),
     (''ErrOffsetMetadataTooLarge'', 12),
     (''ErrNetworkException'', 13),
     (''ErrOffsetsLoadInProgress'', 14),
     (''ErrConsumerCoordinatorNotAvailable'', 15),
     (''ErrNotCoordinatorForConsumer'', 16),
     (''ErrInvalidTopic'', 17),
     (''ErrMessageSetSizeTooLarge'', 18),
     (''ErrNotEnoughReplicas'', 19),
     (''ErrNotEnoughReplicasAfterAppend'', 20),
     (''ErrInvalidRequiredAcks'', 21),
     (''ErrIllegalGeneration'', 22),
     (''ErrInconsistentGroupProtocol'', 23),
     (''ErrInvalidGroupId'', 24),
     (''ErrUnknownMemberId'', 25),
     (''ErrInvalidSessionTimeout'', 26),
     (''ErrRebalanceInProgress'', 27),
     (''ErrInvalidCommitOffsetSize'', 28),
     (''ErrTopicAuthorizationFailed'', 29),
     (''ErrGroupAuthorizationFailed'', 30),
     (''ErrClusterAuthorizationFailed'', 31),
     (''ErrInvalidTimestamp'', 32),
     (''ErrUnsupportedSASLMechanism'', 33),
     (''ErrIllegalSASLState'', 34),
     (''ErrUnsupportedVersion'', 35),
     (''ErrTopicAlreadyExists'', 36),
     (''ErrInvalidPartitions'', 37),
     (''ErrInvalidReplicationFactor'', 38),
     (''ErrInvalidReplicaAssignment'', 39),
     (''ErrInvalidConfig'', 40),
     (''ErrNotController'', 41),
     (''ErrInvalidRequest'', 42),
     (''ErrUnsupportedForMessageFormat'', 43),
     (''ErrPolicyViolation'', 44),
     (''ErrOutOfOrderSequenceNumber'', 45),
     (''ErrDuplicateSequenceNumber'', 46),
     (''ErrInvalidProducerEpoch'', 47),
     (''ErrInvalidTxnState'', 48),
     (''ErrInvalidProducerIDMapping'', 49),
     (''ErrInvalidTransactionTimeout'', 50),
     (''ErrConcurrentTransactions'', 51),
     (''ErrTransactionCoordinatorFenced'', 52),
     (''ErrTransactionalIDAuthorizationFailed'', 53),
     (''ErrSecurityDisabled'', 54),
     (''ErrOperationNotAttempted'', 55),
     (''ErrKafkaStorageError'', 56),
     (''ErrLogDirNotFound'', 57),
     (''ErrSASLAuthenticationFailed'', 58),
     (''ErrUnknownProducerID'', 59),
     (''ErrReassignmentInProgress'', 60)]"

text \<open>The \<open>switch\<close> of \<open>KError.Error()\<close>: the case of each constant and its message.\<close>

definition kerror_messages :: "(kerror \<times> string) list" where
  "kerror_messages = [
     (0, ''kafka server: Not an error, why are you printing me?''),
     (- 1, ''kafka server: Unexpected (unknown?) server error.''),
     (1, ''kafka server: The requested offset is outside the range of offsets maintained by the server for the given topic/partition.''),
     (2, ''kafka server: Message contents does not match its CRC.''),
     (3, ''kafka server: Request was for a topic or partition that does not exist on this broker.''),
     (4, ''kafka server: The message has a negative size.''),
     (5, ''kafka server: In the middle of a leadership election, there is currently no leader for this partition and hence it is unavailable for writes.''),
     (6, ''kafka server: Tried to send a message to a replica that is not the leader for some partition. Your metadata is out of date.''),
     (7, ''kafka server: Request exceeded the user-specified time limit in the request.''),
     (8, ''kafka server: Broker not available. Not a client facing error, we should never receive this!!!''),
     (9, ''kafka server: Replica information not available, one or more brokers are down.''),
     (10, ''kafka server: Message was too large, server rejected it to avoid allocation error.''),
     (11, ''kafka server: StaleControllerEpochCode (internal error code for broker-to-broker communication).''),
     (12, ''kafka server: Specified a string larger than the configured maximum for offset metadata.''),
     (13, ''kafka server: The server disconnected before a response was received.''),
     (14, ''kafka server: The broker is still loading offsets after a leader change for that offset's topic partition.''),
     (15, ''kafka server: Offset's topic has not yet been created.''),
     (16, ''kafka server: Request was for a consumer group that is not coordinated by this broker.''),
     (17, ''kafka server: The request attempted to perform an operation on an invalid topic.''),
     (18, ''kafka server: The request included message batch larger than the configured segment size on the server.''),
     (19, ''kafka server: Messages are rejected since there are fewer in-sync replicas than required.''),
     (20, ''kafka server: Messages are written to the log, but to fewer in-sync replicas than required.''),
     (21, ''kafka server: The number of required acks is invalid (should be either -1, 0, or 1).''),
     (22, ''kafka server: The provided generation id is not the current generation.''),
     (23, ''kafka server: The provider group protocol type is incompatible with the other members.''),
     (24, ''kafka server: The provided group id was empty.''),
     (25, ''kafka server: The provided member is not known in the current generation.''),
     (26, ''kafka server: The provided session timeout is outside the allowed range.''),
     (27, ''kafka server: A rebalance for the group is in progress. Please re-join the group.''),
     (28, ''kafka server: The provided commit metadata was too large.''),
     (29, ''kafka server: The client is not authorized to access this topic.''),
     (30, ''kafka server: The client is not authorized to access this group.''),
     (31, ''kafka server: The client is not authorized to send this request type.''),
     (32, ''kafka server: The timestamp of the message is out of acceptable range.''),
     (33, ''kafka server: The broker does not support the requested SASL mechanism.''),
     (34, ''kafka server: Request is not valid given the current SASL state.''),
     (35, ''kafka server: The version of API is not supported.''),
     (36, ''kafka server: Topic with this name already exists.''),
     (37, ''kafka server: Number of partitions is invalid.''),
     (38, ''kafka server: Replication-factor is invalid.''),
     (39, ''kafka server: Replica assignment is invalid.''),
     (40, ''kafka server: Configuration is invalid.''),
     (41, ''kafka server: This is not the correct controller for this cluster.''),
     (42, ''kafka server: This most likely occurs because of a request being malformed by the client library or the message was sent to an incompatible broker. See the broker logs for more details.''),
     (43, ''kafka server: The requested operation is not supported by the message format version.''),
     (44, ''kafka server: Request parameters do not satisfy the configured policy.''),
     (45, ''kafka server: The broker received an out of order sequence number.''),
     (46, ''kafka server: The broker received a duplicate sequence number.''),
     (47, ''kafka server: Producer attempted an operation with an old epoch.''),
     (48, ''kafka server: The producer attempted a transactional operation in an invalid state.''),
     (49, ''kafka server: The producer attempted to use a producer id which is not currently assigned to its transactional id.''),
     (50, ''kafka server: The transaction timeout is larger than the maximum value allowed by the broker (as configured by max.transaction.timeout.ms).''),
     (51, ''kafka server: The producer attempted to update a transaction while another concurrent operation on the same transaction was ongoing.''),
     (52, ''kafka server: The transaction coordinator sending a WriteTxnMarker is no longer the current coordinator for a given producer.''),
     (53, ''kafka server: Transactional ID authorization failed.''),
     (54, ''kafka server: Security features are disabled.''),
     (55, ''kafka server: The broker did not attempt to execute this operation.''),
     (56, ''kafka server: Disk error when trying to access log file on the disk.''),
     (57, ''kafka server: The specified log directory is not found in the broker config.''),
     (58, ''kafka server: SASL Authentication failed.''),
     (59, ''kafka server: The broker could not locate the producer metadata associated with the Producer ID.''),
     (60, ''kafka server: A partition reassignment is in progress.'')]"

definition KError_Error :: "kerror \<Rightarrow> string" where
  "KError_Error err =
     (case map_of kerror_messages err of
        Some m \<Rightarrow> m
      | None \<Rightarrow> ''Unknown error, how did this happen? Error code = '' @ go_itoa (sint err))"

text \<open>The \<open>Error()\<close> methods of the error types of the file.\<close>

fun error_text :: "goerror \<Rightarrow> string" where
  "error_text ErrInsufficientData =
     ''kafka: insufficient data to decode packet, more bytes expected''"
| "error_text (PacketEncodingError info) = ''kafka: error encoding packet: '' @ info"
| "error_text (PacketDecodingError info) = ''kafka: error decoding packet: '' @ info"
| "error_text (SchemaEncodingError info) = ''Schema: error encoding value: '' @ info"
| "error_text (SchemaDecodingError info) = ''Schema: error decoding value: '' @ info"
| "error_text (KErr k) = KError_Error k"
| "error_text (ErrNew s) = s"
| "error_text (WrapErr s e) = s @ '': '' @ error_text e"
| "error_text IoEOF = ''EOF''"
| "error_text IoUnexpectedEOF = ''unexpected EOF''"
| "error_text IoShortWrite = ''short write''"
| "error_text OsErrDeadlineExceeded = ''i/o timeout''"
| "error_text (NetErr s) = s"
| "error_text VarintOverflow = ''binary: varint overflows a 64-bit integer''"

definition ErrNoError :: kerror where
  "ErrNoError = 0"

lemma kerror_codes_match: "map snd kerror_constants = map fst kerror_messages"
  by code_simp

lemma kerror_codes_distinct: "distinct (map fst kerror_messages)"
  by code_simp

lemma kerror_texts_prefix:
  "list_all (\<lambda>m. take 14 m = ''kafka server: '') (map snd kerror_messages)"
  by code_simp

lemma KError_Error_named:
  assumes "(k, m) \<in> set kerror_messages"
  shows "KError_Error k = m"
  using assms by (simp add: KError_Error_def map_of_is_SomeI [OF kerror_codes_distinct])

lemma named_iff_message: "k \<in> snd ` set kerror_constants \<longleftrightarrow> (\<exists>m. (k, m) \<in> set kerror_messages)"
proof -
  have "snd ` set kerror_constants = fst ` set kerror_messages"
    using arg_cong [OF kerror_codes_match, of set] by simp
  then show ?thesis by (force simp: image_iff)
qed

lemma KError_Error_unnamed:
  assumes "k \<notin> snd ` set kerror_constants"
  shows "KError_Error k = ''Unknown error, how did this happen? Error code = '' @ go_itoa (sint k)"
proof -
  have "map_of kerror_messages k = None"
    using assms by (auto simp: named_iff_message map_of_eq_None_iff)
  then show ?thesis by (simp add: KError_Error_def)
qed

lemma kerror_message_prefix:
  "(k, m) \<in> set kerror_messages \<Longrightarrow> take 14 m = ''kafka server: ''"
  using kerror_texts_prefix by (auto simp: list_all_iff)

end
