(* ===== verification/KVarint.thy ===== *)
theory KVarint
  imports KPrelude
begin

section \<open>Unsigned varints\<close>

text \<open>
  \<open>binary.Uvarint\<close> and \<open>binary.PutUvarint\<close> of Go's \<open>encoding/binary\<close>, which the
  packet decoder and encoder call for compact lengths and tagged fields.  A 64-bit value
  is written in groups of seven bits, least significant first, the top bit of a byte
  saying that another follows; reading stops with \<open>n = 0\<close> on a truncated buffer and
  with \<open>n < 0\<close> on an overflow.  The lemmas give the round trip and the bounds on the
  number of bytes.
\<close>

fun uvarint_loop :: "nat \<Rightarrow> 64 word \<Rightarrow> nat \<Rightarrow> byte list \<Rightarrow> 64 word \<times> int" where
  "uvarint_loop i x s [] = (0, 0)"
| "uvarint_loop i x s (b # bs) =
     (if i = 10 then (0, - (int i + 1))
      else if b < 0x80 then
        (if i = 9 \<and> b > 1 then (0, - (int i + 1)) else (x OR push_bit s (ucast b), int i + 1))
      else uvarint_loop (Suc i) (x OR push_bit s (ucast (b AND 0x7F))) (s + 7) bs)"

definition binary_Uvarint :: "byte list \<Rightarrow> 64 word \<times> int" where
  "binary_Uvarint buf = uvarint_loop 0 0 0 buf"

function put_uvarint :: "64 word \<Rightarrow> byte list" where
  "put_uvarint x =
     (if 0x80 \<le> x then (ucast x OR 0x80) # put_uvarint (drop_bit 7 x) else [ucast x])"
  by pat_completeness auto

lemma unat_drop_bit: "unat (drop_bit n (w :: 'a::len word)) = unat w div 2 ^ n"
proof -
  have "unat (drop_bit n w) = drop_bit n (unat w)"
    by (simp add: unsigned_drop_bit_eq take_bit_nat_eq_self unsigned_less)
  then show ?thesis by (simp only: drop_bit_eq_div [where 'a = nat])
qed

termination put_uvarint
proof (relation "measure unat")
  fix x :: "64 word"
  assume "0x80 \<le> x"
  then have "0x80 \<le> unat x" by (simp add: word_le_nat_alt)
  then show "(drop_bit 7 x, x) \<in> measure unat"
    by (simp add: unat_drop_bit)
qed simp

declare put_uvarint.simps [simp del]

lemma put_uvarint_small: "x < 0x80 \<Longrightarrow> put_uvarint x = [ucast x]"
  by (subst put_uvarint.simps) (simp add: not_le [symmetric] del: not_le)

lemma put_uvarint_0 [simp]: "put_uvarint 0 = [0]"
  by (simp add: put_uvarint_small)

lemma put_uvarint_nonempty [simp]: "put_uvarint x \<noteq> []"
  by (subst put_uvarint.simps) simp

lemma length_put_uvarint_pos [simp]: "0 < length (put_uvarint x)"
  by simp

lemma length_put_uvarint_le: "unat x < 2 ^ (7 * Suc k) \<Longrightarrow> length (put_uvarint x) \<le> Suc k"
proof (induction k arbitrary: x)
  case 0
  then have "x < 0x80" by (simp add: word_less_nat_alt)
  then show ?case by (simp add: put_uvarint_small)
next
  case (Suc k)
  have "unat x div 2 ^ 7 < 2 ^ (7 * Suc k)"
    using Suc.prems by (intro less_mult_imp_div_less) (simp only: power_add [symmetric], simp add: algebra_simps)
  then have "length (put_uvarint (drop_bit 7 x)) \<le> Suc k"
    by (intro Suc.IH) (simp add: unat_drop_bit)
  then show ?case by (subst put_uvarint.simps) auto
qed

lemma length_put_uvarint_le_10: "length (put_uvarint x) \<le> 10"
proof -
  have "unat x < 2 ^ LENGTH(64)" by (rule unsigned_less)
  also have "(2 :: nat) ^ LENGTH(64) \<le> 2 ^ (7 * Suc 9)" by simp
  finally show ?thesis using length_put_uvarint_le [of x 9] by simp
qed

subsection \<open>Reading back what was written\<close>

lemma low7: "(b OR 0x80 :: byte) AND 0x7F = take_bit 7 b"
proof -
  have m: "(0x7F :: byte) = mask 7" by (simp add: mask_eq_exp_minus_1)
  have "(b OR 0x80) AND 0x7F = (b AND 0x7F) OR (0x80 AND 0x7F)"
    by (rule bit.conj_disj_distrib2)
  moreover have "(0x80 AND 0x7F :: byte) = 0" by simp
  ultimately have "(b OR 0x80) AND 0x7F = b AND 0x7F" by (simp only: or.right_neutral)
  then show ?thesis by (simp only: m take_bit_eq_mask)
qed

lemma varint_step:
  fixes v :: "64 word"
  shows "take_bit s v OR push_bit s (ucast ((ucast (drop_bit s v) OR 0x80 :: byte) AND 0x7F))
         = take_bit (s + 7) v"
  unfolding low7 by (intro bit_word_eqI) (auto simp: bit_simps)

lemma unat_ucast_byte: "unat (ucast (v :: 'a::len word) :: byte) = unat v mod 256"
  by (simp add: unsigned_ucast_eq take_bit_eq_mod)

lemma varint_last:
  fixes v :: "64 word"
  assumes "drop_bit s v < 0x80"
  shows "take_bit s v OR push_bit s (ucast (ucast (drop_bit s v) :: byte)) = v"
proof -
  from assms have "take_bit 8 (drop_bit s v) = drop_bit s v"
    by (simp add: take_bit_eq_mod word_less_nat_alt unat_mod word_unat_eq_iff)
  then show ?thesis
    by (simp add: byte_of_word)
      (intro bit_word_eqI, auto simp: bit_simps, metis le_add_diff_inverse not_le)
qed

lemma varint_more: "\<not> (w OR 0x80 :: byte) < 0x80"
proof -
  have "(0x80 :: byte) \<le> w OR 0x80" by (simp add: le_word_or1)
  then show ?thesis by simp
qed

lemma drop_bit_63: "drop_bit 63 (v :: 64 word) \<le> 1"
proof -
  have "unat v < 2 ^ LENGTH(64)" by (rule unsigned_less)
  then have "unat v div 2 ^ 63 < 2" by (simp add: less_mult_imp_div_less)
  then show ?thesis by (simp add: word_le_nat_alt unat_drop_bit)
qed

lemma uvarint_loop_put:
  assumes "i \<le> 9"
  shows "uvarint_loop i (take_bit (7 * i) v) (7 * i) (put_uvarint (drop_bit (7 * i) v) @ r)
         = (v, int (i + length (put_uvarint (drop_bit (7 * i) v))))"
  using assms
proof (induction "9 - i" arbitrary: i)
  case (0 i)
  then have i: "i = 9" by simp
  have small: "drop_bit 63 v < 0x80" "drop_bit 63 v \<le> 1" using drop_bit_63 [of v]
    by (auto simp: word_le_nat_alt word_less_nat_alt)
  have "\<not> (ucast (drop_bit 63 v) :: byte) > 1"
    using small by (auto simp: word_le_nat_alt word_less_nat_alt unat_ucast_byte)
  moreover have "(ucast (drop_bit 63 v) :: byte) < 0x80"
    using small by (auto simp: word_le_nat_alt word_less_nat_alt unat_ucast_byte)
  ultimately show ?case
    using i small varint_last [of 63 v] by (simp add: put_uvarint_small)
next
  case (Suc k i)
  show ?case
  proof (cases "0x80 \<le> drop_bit (7 * i) v")
    case True
    have "uvarint_loop (Suc i) (take_bit (7 * Suc i) v) (7 * Suc i)
            (put_uvarint (drop_bit (7 * Suc i) v) @ r)
          = (v, int (Suc i + length (put_uvarint (drop_bit (7 * Suc i) v))))"
      using Suc by (intro Suc.hyps) auto
    moreover have "put_uvarint (drop_bit (7 * i) v)
        = (ucast (drop_bit (7 * i) v) OR 0x80) # put_uvarint (drop_bit (7 * Suc i) v)"
      using True by (subst put_uvarint.simps) (simp add: add.commute)
    ultimately show ?thesis
      using Suc varint_step [of "7 * i" v] by (simp add: varint_more add.commute)
  next
    case False
    then have small: "drop_bit (7 * i) v < 0x80" by simp
    then have "(ucast (drop_bit (7 * i) v) :: byte) < 0x80"
      by (auto simp: word_less_nat_alt unat_ucast_byte)
    then show ?thesis
      using Suc small varint_last [OF small] by (simp add: put_uvarint_small)
  qed
qed

lemma binary_Uvarint_put [simp]:
  "binary_Uvarint (put_uvarint v @ r) = (v, int (length (put_uvarint v)))"
  using uvarint_loop_put [of 0 v r] by (simp add: binary_Uvarint_def)

subsection \<open>Bounds\<close>

lemma uvarint_loop_bounds:
  "\<bar>snd (uvarint_loop i x s bs)\<bar> \<le> int i + int (length bs)"
  by (induction i x s bs rule: uvarint_loop.induct) auto

lemma binary_Uvarint_bounds:
  assumes "binary_Uvarint buf = (x, n)"
  shows "n \<le> int (length buf)" "- n \<le> int (length buf)"
  using uvarint_loop_bounds [of 0 0 0 buf] assms by (auto simp: binary_Uvarint_def)

end
