(* ===== verification/RealDecoder.thy ===== *)
theory RealDecoder
  imports KVarint KErrors
begin

section \<open>The packet decoder\<close>

text \<open>
  \<open>proxy/protocol/real_decoder.go\<close>: \<open>realDecoder\<close> is a byte slice with an offset, and
  each \<open>get...\<close> method reads one Kafka primitive at the offset and advances it.  A method
  is a function from the decoder to its result and the decoder afterwards; as in the code,
  the offset also moves when the read fails.  \<open>dbind\<close> is the code's
  \<open>if err != nil { return ..., err }\<close>.  Every index, slice and allocation panics out of range, as
  in Go; that the checks before them rule this out is proved, here and in \<open>DecoderFacts\<close>.
\<close>

record realDecoder =
  rd_raw :: "byte list"
  rd_off :: nat

type_synonym 'a dec = "realDecoder \<Rightarrow> 'a result \<times> realDecoder"

definition errInvalidArrayLength :: goerror where
  "errInvalidArrayLength = PacketDecodingError ''invalid array length''"
definition errInvalidStringLength :: goerror where
  "errInvalidStringLength = PacketDecodingError ''invalid string length''"
definition errVarintOverflow :: goerror where
  "errVarintOverflow = PacketDecodingError ''varint overflow''"
definition errInvalidBool :: goerror where
  "errInvalidBool = PacketDecodingError ''invalid bool''"
definition errInvalidByteSliceLength :: goerror where
  "errInvalidByteSliceLength = PacketDecodingError ''invalid byte slice length''"
definition errInvalidCompactLength :: goerror where
  "errInvalidCompactLength = PacketDecodingError ''invalid compact length''"
definition errInvalidCompactNullableLength :: goerror where
  "errInvalidCompactNullableLength = PacketDecodingError ''invalid compact nullable length''"

definition dret :: "'a \<Rightarrow> 'a dec" where
  "dret a rd = (Inr a, rd)"

definition derr :: "goerror \<Rightarrow> 'a dec" where
  "derr e rd = (Inl (GoErr e), rd)"

definition dbind :: "'a dec \<Rightarrow> ('a \<Rightarrow> 'b dec) \<Rightarrow> 'b dec" where
  "dbind m f rd = (case m rd of (Inl e, rd') \<Rightarrow> (Inl e, rd') | (Inr a, rd') \<Rightarrow> f a rd')"

text \<open>\<open>rd.off = len(rd.raw); return ..., ErrInsufficientData\<close>, the end of every short read.\<close>

definition insufficient :: "'a dec" where
  "insufficient rd = (Inl (GoErr ErrInsufficientData), rd\<lparr>rd_off := length (rd_raw rd)\<rparr>)"

definition remaining :: "realDecoder \<Rightarrow> int" where
  "remaining rd = int (length (rd_raw rd)) - int (rd_off rd)"

text \<open>The bytes from the offset.\<close>

definition rest :: "realDecoder \<Rightarrow> byte list" where
  "rest rd = drop (rd_off rd) (rd_raw rd)"

text \<open>\<open>binary.BigEndian.Uint16(rd.raw[rd.off:]); rd.off += 2\<close> and the like, without a look at what remains.\<close>

definition read_fixed :: "nat \<Rightarrow> (byte list \<Rightarrow> 'a result) \<Rightarrow> 'a dec" where
  "read_fixed n get rd =
     (case slice_from (rd_raw rd) (rd_off rd) of
        Inl p \<Rightarrow> (Inl p, rd)
      | Inr b \<Rightarrow> (case get b of Inl p \<Rightarrow> (Inl p, rd) | Inr v \<Rightarrow> (Inr v, rd\<lparr>rd_off := rd_off rd + n\<rparr>)))"

text \<open>
  \<open>make([]T, n)\<close> panics when the slice cannot be allocated: Go's \<open>makeslice\<close> refuses a negative
  length and more than \<open>maxAlloc\<close> bytes (\<open>2^48\<close> on 64-bit Linux).
\<close>

definition maxAlloc :: int where
  "maxAlloc = 2 ^ 48"

definition make_slice :: "int \<Rightarrow> int \<Rightarrow> unit dec" where
  "make_slice elemsize n rd =
     (if n < 0 \<or> elemsize * n > maxAlloc then (Inl (GoPanic ''makeslice: len out of range''), rd)
      else (Inr (), rd))"

subsection \<open>Primitives\<close>

definition getInt8 :: "8 word dec" where
  "getInt8 rd =
     (if remaining rd < 1 then insufficient rd
      else
        (case go_index (rd_raw rd) (rd_off rd) of
           Inl p \<Rightarrow> (Inl p, rd)
         | Inr tmp \<Rightarrow> (Inr tmp, rd\<lparr>rd_off := rd_off rd + 1\<rparr>)))"

definition getInt16 :: "16 word dec" where
  "getInt16 rd = (if remaining rd < 2 then insufficient rd else read_fixed 2 BigEndian_Uint16 rd)"

definition getInt32 :: "32 word dec" where
  "getInt32 rd = (if remaining rd < 4 then insufficient rd else read_fixed 4 BigEndian_Uint32 rd)"

definition getInt64 :: "64 word dec" where
  "getInt64 rd = (if remaining rd < 8 then insufficient rd else read_fixed 8 BigEndian_Uint64 rd)"

definition getVarint :: "64 word dec" where
  "getVarint rd =
     (case slice_from (rd_raw rd) (rd_off rd) of
        Inl p \<Rightarrow> (Inl p, rd)
      | Inr buf \<Rightarrow>
          (case binary_Uvarint buf of (tmp, n) \<Rightarrow>
             if n = 0 then insufficient rd
             else if n < 0 then derr errVarintOverflow (rd\<lparr>rd_off := rd_off rd + nat (- n)\<rparr>)
             else (Inr tmp, rd\<lparr>rd_off := rd_off rd + nat n\<rparr>)))"

definition MaxUint16 :: int where
  "MaxUint16 = 65535"

definition getArrayLength :: "int dec" where
  "getArrayLength rd =
     (if remaining rd < 4 then insufficient rd
      else
        dbind (read_fixed 4 BigEndian_Uint32) (\<lambda>w.
          let tmp = sint w in
          (\<lambda>rd'. if tmp > remaining rd' then insufficient rd'
             else if tmp > 2 * MaxUint16 then derr errInvalidArrayLength rd'
             else (Inr tmp, rd'))) rd)"

definition getBool :: "bool dec" where
  "getBool = dbind getInt8 (\<lambda>b.
     if b = 0 then dret False
     else if b \<noteq> 1 then derr errInvalidBool
     else dret True)"

subsection \<open>Collections\<close>

definition getRawBytes :: "int \<Rightarrow> byte list dec" where
  "getRawBytes len rd =
     (if len < 0 then derr errInvalidByteSliceLength rd
      else if len > remaining rd then insufficient rd
      else (go_slice (rd_raw rd) (rd_off rd) (int (rd_off rd) + len), rd\<lparr>rd_off := nat (int (rd_off rd) + len)\<rparr>))"

definition getBytes :: "byte list option dec" where
  "getBytes = dbind getInt32 (\<lambda>tmp.
     if tmp = - 1 then dret None
     else dbind (getRawBytes (sint tmp)) (\<lambda>b. dret (Some b)))"

definition getVarintBytes :: "byte list option dec" where
  "getVarintBytes = dbind getVarint (\<lambda>tmp.
     if tmp = - 1 then dret None
     else dbind (getRawBytes (sint tmp)) (\<lambda>b. dret (Some b)))"

text \<open>\<open>uuid.FromBytes\<close> of the vendored \<open>google/uuid\<close>: it refuses any length but 16.\<close>

definition uuid_FromBytes :: "byte list \<Rightarrow> uuid result" where
  "uuid_FromBytes b =
     (if length b \<noteq> 16
      then Inl (GoErr (ErrNew (''invalid UUID (got '' @ go_itoa (int (length b)) @ '' bytes)'')))
      else Inr (uuid_of_bytes b))"

definition getUUID :: "uuid dec" where
  "getUUID = dbind (getRawBytes 16) (\<lambda>r rd. (uuid_FromBytes r, rd))"

definition getCompactLength :: "int dec" where
  "getCompactLength = dbind getVarint (\<lambda>len.
     let n = sint (len - 1) in
     if n < 0 then derr errInvalidCompactLength
     else (\<lambda>rd. if n > remaining rd then insufficient rd else dret n rd))"

definition getCompactNullableLength :: "int dec" where
  "getCompactNullableLength = dbind getVarint (\<lambda>len.
     let n = sint (len - 1) in
     if n < - 1 then derr errInvalidCompactNullableLength
     else (\<lambda>rd. if n > remaining rd then insufficient rd else dret n rd))"

text \<open>\<open>rd.raw[rd.off : rd.off+n]; rd.off += n\<close>, with the length that the caller has checked.\<close>

definition takeBytes :: "int \<Rightarrow> byte list dec" where
  "takeBytes n rd =
     (case go_slice (rd_raw rd) (rd_off rd) (int (rd_off rd) + n) of
        Inl p \<Rightarrow> (Inl p, rd)
      | Inr tmp \<Rightarrow> (Inr tmp, rd\<lparr>rd_off := nat (int (rd_off rd) + n)\<rparr>))"

definition getCompactBytes :: "byte list dec" where
  "getCompactBytes = dbind getCompactLength (\<lambda>n.
     if n = 0 then dret [] else takeBytes n)"

definition getStringLength :: "int dec" where
  "getStringLength = dbind getInt16 (\<lambda>len.
     let n = sint len in
     if n < - 1 then derr errInvalidStringLength
     else (\<lambda>rd. if n > remaining rd then insufficient rd else dret n rd))"

definition getString :: "string dec" where
  "getString = dbind getStringLength (\<lambda>n.
     if n = - 1 then dret [] else dbind (takeBytes n) (\<lambda>b. dret (go_string b)))"

definition getNullableString :: "string option dec" where
  "getNullableString = dbind getStringLength (\<lambda>n.
     if n = - 1 then dret None else dbind (takeBytes n) (\<lambda>b. dret (Some (go_string b))))"

definition getCompactString :: "string dec" where
  "getCompactString = dbind getCompactLength (\<lambda>n.
     if n = 0 then dret [] else dbind (takeBytes n) (\<lambda>b. dret (go_string b)))"

definition getCompactNullableString :: "string option dec" where
  "getCompactNullableString = dbind getCompactNullableLength (\<lambda>n.
     if n < 0 then dret None else dbind (takeBytes n) (\<lambda>b. dret (Some (go_string b))))"

definition getCompactArrayLength :: "int dec" where
  "getCompactArrayLength = getCompactLength"

definition getCompactNullableArrayLength :: "int dec" where
  "getCompactNullableArrayLength = getCompactNullableLength"

text \<open>The array loops: \<open>n\<close> elements, one after the other, stopping at the first error.\<close>

fun dec_times :: "nat \<Rightarrow> 'a dec \<Rightarrow> 'a list dec" where
  "dec_times 0 m = dret []"
| "dec_times (Suc n) m = dbind m (\<lambda>x. dbind (dec_times n m) (\<lambda>xs. dret (x # xs)))"

definition getInt32Array :: "32 word list option dec" where
  "getInt32Array = dbind getArrayLength (\<lambda>n.
     if n = - 1 then dret None
     else if n = 0 then dret (Some [])
     else if n < - 1 then derr errInvalidArrayLength
     else (\<lambda>rd. if remaining rd < 4 * n then insufficient rd
          else dbind (make_slice 4 n) (\<lambda>_. dbind (dec_times (nat n) (read_fixed 4 BigEndian_Uint32)) (\<lambda>ret. dret (Some ret))) rd))"

definition getInt64Array :: "64 word list option dec" where
  "getInt64Array = dbind getArrayLength (\<lambda>n.
     if n = - 1 then dret None
     else if n = 0 then dret (Some [])
     else if n < - 1 then derr errInvalidArrayLength
     else (\<lambda>rd. if remaining rd < 8 * n then insufficient rd
          else dbind (make_slice 8 n) (\<lambda>_. dbind (dec_times (nat n) (read_fixed 8 BigEndian_Uint64)) (\<lambda>ret. dret (Some ret))) rd))"

definition getStringArray :: "string list option dec" where
  "getStringArray = dbind getArrayLength (\<lambda>n.
     if n = - 1 then dret None
     else if n < - 1 then derr errInvalidArrayLength
     else dbind (make_slice 16 n) (\<lambda>_. dbind (dec_times (nat n) getString) (\<lambda>xs. dret (Some xs))))"

subsection \<open>After the checks\<close>

text \<open>The guards leave no access out of range; a guard that is missing is a panic above.\<close>

lemma read_fixed_fits:
  "int n \<le> remaining rd \<Longrightarrow> read_fixed n (read_be n get) rd = (Inr (get (rest rd)), rd\<lparr>rd_off := rd_off rd + n\<rparr>)"
  by (auto simp: read_fixed_def read_be_def slice_from_def remaining_def rest_def)

lemma getInt8_eq:
  "getInt8 rd = (if remaining rd < 1 then insufficient rd
     else (Inr (rest rd ! 0), rd\<lparr>rd_off := rd_off rd + 1\<rparr>))"
  by (auto simp: getInt8_def go_index_def remaining_def rest_def)

lemma getInt16_eq:
  "getInt16 rd = (if remaining rd < 2 then insufficient rd
     else (Inr (get_be16 (rest rd)), rd\<lparr>rd_off := rd_off rd + 2\<rparr>))"
  by (simp add: getInt16_def BigEndian_Uint16_def read_fixed_fits)

lemma getInt32_eq:
  "getInt32 rd = (if remaining rd < 4 then insufficient rd
     else (Inr (get_be32 (rest rd)), rd\<lparr>rd_off := rd_off rd + 4\<rparr>))"
  by (simp add: getInt32_def BigEndian_Uint32_def read_fixed_fits)

lemma getInt64_eq:
  "getInt64 rd = (if remaining rd < 8 then insufficient rd
     else (Inr (get_be64 (rest rd)), rd\<lparr>rd_off := rd_off rd + 8\<rparr>))"
  by (simp add: getInt64_def BigEndian_Uint64_def read_fixed_fits)

lemma getArrayLength_eq:
  "getArrayLength rd =
     (if remaining rd < 4 then insufficient rd
      else
        (let tmp = sint (get_be32 (rest rd)); rd' = rd\<lparr>rd_off := rd_off rd + 4\<rparr>
         in if tmp > remaining rd' then insufficient rd'
            else if tmp > 2 * MaxUint16 then derr errInvalidArrayLength rd'
            else (Inr tmp, rd')))"
  by (simp add: getArrayLength_def BigEndian_Uint32_def read_fixed_fits dbind_def Let_def)

lemma go_slice_fits:
  "0 \<le> n \<Longrightarrow> n \<le> remaining rd \<Longrightarrow> go_slice (rd_raw rd) (rd_off rd) (int (rd_off rd) + n) = Inr (take (nat n) (rest rd))"
  by (auto simp: go_slice_def remaining_def rest_def nat_add_distrib)

lemma getRawBytes_eq:
  "getRawBytes len rd =
     (if len < 0 then derr errInvalidByteSliceLength rd
      else if len > remaining rd then insufficient rd
      else (Inr (take (nat len) (rest rd)), rd\<lparr>rd_off := rd_off rd + nat len\<rparr>))"
  by (simp add: getRawBytes_def go_slice_fits nat_add_distrib)

lemma takeBytes_fits:
  "0 \<le> n \<Longrightarrow> n \<le> remaining rd \<Longrightarrow> takeBytes n rd = (Inr (take (nat n) (rest rd)), rd\<lparr>rd_off := rd_off rd + nat n\<rparr>)"
  by (simp add: takeBytes_def go_slice_fits nat_add_distrib)

subsection \<open>Decode\<close>

text \<open>
  \<open>Decode(buf, in)\<close> of \<open>encoder_decoder.go\<close>: a nil buffer leaves \<open>in\<close> as it was; the
  decoder must consume the whole buffer.
\<close>

definition Decode :: "byte list option \<Rightarrow> 'a dec \<Rightarrow> 'a \<Rightarrow> 'a result" where
  "Decode buf decode x0 =
     (case buf of
        None \<Rightarrow> Inr x0
      | Some b \<Rightarrow>
          (case decode \<lparr>rd_raw = b, rd_off = 0\<rparr> of
             (Inl e, helper) \<Rightarrow> Inl e
           | (Inr x, helper) \<Rightarrow>
               if rd_off helper \<noteq> length b
               then Inl (GoErr (PacketDecodingError ''invalid length''))
               else Inr x))"

end
