(* ===== verification/PacketEncoder.thy ===== *)
theory PacketEncoder
  imports KVarint KErrors
begin

section \<open>The packet encoders\<close>

text \<open>
  \<open>packet_encoder.go\<close>, \<open>prep_encoder.go\<close>, \<open>real_encoder.go\<close> and the two entry points of
  \<open>encoder_decoder.go\<close>.  A message is encoded twice through the \<open>packetEncoder\<close>
  interface: \<open>prepEncoder\<close> counts the bytes (and refuses what is too long), then
  \<open>realEncoder\<close> writes them into a buffer of exactly that size.  The interface is the
  datatype of its two implementations and each method dispatches on it, so a message's
  \<open>encode\<close> is one definition run on both.

  \<open>realEncoder\<close> never returns an error of its own; it panics when it writes past the
  buffer, and \<open>copy\<close> silently stops at the buffer's end.
\<close>

record prepEncoder =
  pe_length :: int

record realEncoder =
  re_raw :: "byte list"
  re_off :: nat

datatype packetEncoder = PrepEncoder prepEncoder | RealEncoder realEncoder

type_synonym enc = "packetEncoder \<Rightarrow> packetEncoder result"

definition MaxInt16 :: int where
  "MaxInt16 = 32767"

definition MaxInt32 :: int where
  "MaxInt32 = 2147483647"

definition MaxRequestSize :: int where
  "MaxRequestSize = 100 * 1024 * 1024"

subsection \<open>Sequencing\<close>

definition eseq :: "('s \<Rightarrow> 's result) \<Rightarrow> ('s \<Rightarrow> 's result) \<Rightarrow> 's \<Rightarrow> 's result" where
  "eseq f g s = rbind (f s) g"

definition eok :: "'s \<Rightarrow> 's result" where
  "eok s = Inr s"

definition efail :: "goerror \<Rightarrow> 's \<Rightarrow> 's result" where
  "efail e s = Inl (GoErr e)"

text \<open>\<open>for _, val := range in { if err := put(val); err != nil { return err } }\<close>\<close>

fun eloop :: "('a \<Rightarrow> 's \<Rightarrow> 's result) \<Rightarrow> 'a list \<Rightarrow> 's \<Rightarrow> 's result" where
  "eloop put [] = eok"
| "eloop put (x # xs) = eseq (put x) (eloop put xs)"

subsection \<open>prepEncoder\<close>

definition prep_add :: "int \<Rightarrow> prepEncoder \<Rightarrow> prepEncoder result" where
  "prep_add n pe = Inr (pe\<lparr>pe_length := pe_length pe + n\<rparr>)"

definition prep_putInt8 :: "8 word \<Rightarrow> prepEncoder \<Rightarrow> prepEncoder result" where
  "prep_putInt8 v = prep_add 1"

definition prep_putInt16 :: "16 word \<Rightarrow> prepEncoder \<Rightarrow> prepEncoder result" where
  "prep_putInt16 v = prep_add 2"

definition prep_putInt32 :: "32 word \<Rightarrow> prepEncoder \<Rightarrow> prepEncoder result" where
  "prep_putInt32 v = prep_add 4"

definition prep_putInt64 :: "64 word \<Rightarrow> prepEncoder \<Rightarrow> prepEncoder result" where
  "prep_putInt64 v = prep_add 8"

definition prep_putVarint :: "64 word \<Rightarrow> prepEncoder \<Rightarrow> prepEncoder result" where
  "prep_putVarint v = prep_add (int (length (put_uvarint v)))"

definition prep_putArrayLength :: "int \<Rightarrow> prepEncoder \<Rightarrow> prepEncoder result" where
  "prep_putArrayLength n =
     (if n > MaxInt32
      then efail (PacketEncodingError (''array too long ('' @ go_itoa n @ '')''))
      else prep_add 4)"

definition prep_putBool :: "bool \<Rightarrow> prepEncoder \<Rightarrow> prepEncoder result" where
  "prep_putBool b = prep_add 1"

definition prep_putRawBytes :: "byte list \<Rightarrow> prepEncoder \<Rightarrow> prepEncoder result" where
  "prep_putRawBytes b =
     (if int (length b) > MaxInt32
      then efail (PacketEncodingError (''byteslice too long ('' @ go_itoa (int (length b)) @ '')''))
      else prep_add (int (length b)))"

definition prep_putBytes :: "byte list option \<Rightarrow> prepEncoder \<Rightarrow> prepEncoder result" where
  "prep_putBytes b =
     eseq (prep_add 4) (case b of None \<Rightarrow> eok | Some b' \<Rightarrow> prep_putRawBytes b')"

definition prep_putUUID :: "uuid \<Rightarrow> prepEncoder \<Rightarrow> prepEncoder result" where
  "prep_putUUID u = prep_add 16"

definition prep_putVarintBytes :: "byte list option \<Rightarrow> prepEncoder \<Rightarrow> prepEncoder result" where
  "prep_putVarintBytes b =
     (case b of
        None \<Rightarrow> prep_putVarint (- 1)
      | Some b' \<Rightarrow> eseq (prep_putVarint (of_nat (length b'))) (prep_putRawBytes b'))"

definition prep_putCompactBytes :: "byte list \<Rightarrow> prepEncoder \<Rightarrow> prepEncoder result" where
  "prep_putCompactBytes b =
     eseq (prep_putVarint (of_nat (length b + 1)))
       (if int (length b) > MaxInt16
        then efail (PacketEncodingError (''compact bytes too long ('' @ go_itoa (int (length b)) @ '')''))
        else prep_add (int (length b)))"

definition prep_putString :: "string \<Rightarrow> prepEncoder \<Rightarrow> prepEncoder result" where
  "prep_putString s =
     eseq (prep_add 2)
       (if int (length s) > MaxInt16
        then efail (PacketEncodingError (''string too long ('' @ go_itoa (int (length s)) @ '')''))
        else prep_add (int (length s)))"

definition prep_putNullableString :: "string option \<Rightarrow> prepEncoder \<Rightarrow> prepEncoder result" where
  "prep_putNullableString s = (case s of None \<Rightarrow> prep_add 2 | Some s' \<Rightarrow> prep_putString s')"

definition prep_putStringArray :: "string list \<Rightarrow> prepEncoder \<Rightarrow> prepEncoder result" where
  "prep_putStringArray xs =
     eseq (prep_putArrayLength (int (length xs))) (eloop prep_putString xs)"

definition prep_putInt32Array :: "32 word list option \<Rightarrow> prepEncoder \<Rightarrow> prepEncoder result" where
  "prep_putInt32Array xs =
     (case xs of
        None \<Rightarrow> prep_putArrayLength (- 1)
      | Some ys \<Rightarrow> eseq (prep_putArrayLength (int (length ys))) (prep_add (4 * int (length ys))))"

definition prep_putInt64Array :: "64 word list option \<Rightarrow> prepEncoder \<Rightarrow> prepEncoder result" where
  "prep_putInt64Array xs =
     (case xs of
        None \<Rightarrow> prep_putArrayLength (- 1)
      | Some ys \<Rightarrow> eseq (prep_putArrayLength (int (length ys))) (prep_add (8 * int (length ys))))"

definition prep_putCompactString :: "string \<Rightarrow> prepEncoder \<Rightarrow> prepEncoder result" where
  "prep_putCompactString s =
     eseq (prep_putVarint (of_nat (length s + 1)))
       (if int (length s) > MaxInt16
        then efail (PacketEncodingError (''string too long ('' @ go_itoa (int (length s)) @ '')''))
        else prep_add (int (length s)))"

definition prep_putCompactNullableString ::
    "string option \<Rightarrow> prepEncoder \<Rightarrow> prepEncoder result" where
  "prep_putCompactNullableString s =
     (case s of None \<Rightarrow> prep_add 1 | Some s' \<Rightarrow> prep_putCompactString s')"

definition prep_putCompactArrayLength :: "int \<Rightarrow> prepEncoder \<Rightarrow> prepEncoder result" where
  "prep_putCompactArrayLength n =
     (if n > MaxInt16
      then efail (PacketEncodingError (''comact array too long ('' @ go_itoa n @ '')''))
      else if n = - 1
      then efail (PacketEncodingError (''comact array is null ('' @ go_itoa n @ '')''))
      else if n < - 1
      then efail (PacketEncodingError (''comact array invalid length ('' @ go_itoa n @ '')''))
      else prep_putVarint (of_int (n + 1)))"

definition prep_putCompactNullableArrayLength :: "int \<Rightarrow> prepEncoder \<Rightarrow> prepEncoder result" where
  "prep_putCompactNullableArrayLength n =
     (if n > MaxInt16
      then efail (PacketEncodingError (''comact array too long ('' @ go_itoa n @ '')''))
      else if n < - 1
      then efail (PacketEncodingError (''comact array invalid length ('' @ go_itoa n @ '')''))
      else prep_putVarint (of_int (n + 1)))"

subsection \<open>realEncoder\<close>

text \<open>
  Writing through \<open>re.raw[re.off:]\<close>: the slice expression panics when the offset is past
  the end, \<open>PutUint16\<close> and its kin when the bytes do not fit; \<open>copy\<close> writes what fits.
\<close>

definition real_put :: "byte list \<Rightarrow> realEncoder \<Rightarrow> realEncoder result" where
  "real_put bs re =
     (if re_off re + length bs \<le> length (re_raw re)
      then Inr \<lparr>re_raw = take (re_off re) (re_raw re) @ bs @ drop (re_off re + length bs) (re_raw re),
                re_off = re_off re + length bs\<rparr>
      else Inl (GoPanic ''index out of range''))"

definition real_copy :: "byte list \<Rightarrow> realEncoder \<Rightarrow> realEncoder result" where
  "real_copy bs re =
     (if re_off re \<le> length (re_raw re)
      then Inr \<lparr>re_raw = take (re_off re) (re_raw re)
                  @ take (length (re_raw re) - re_off re) bs
                  @ drop (re_off re + length bs) (re_raw re),
                re_off = re_off re + length bs\<rparr>
      else Inl (GoPanic ''slice bounds out of range''))"

definition real_putInt8 :: "8 word \<Rightarrow> realEncoder \<Rightarrow> realEncoder result" where
  "real_putInt8 v = real_put [v]"

definition real_putInt16 :: "16 word \<Rightarrow> realEncoder \<Rightarrow> realEncoder result" where
  "real_putInt16 v = real_put (be16 v)"

definition real_putInt32 :: "32 word \<Rightarrow> realEncoder \<Rightarrow> realEncoder result" where
  "real_putInt32 v = real_put (be32 v)"

definition real_putInt64 :: "64 word \<Rightarrow> realEncoder \<Rightarrow> realEncoder result" where
  "real_putInt64 v = real_put (be64 v)"

definition real_putVarint :: "64 word \<Rightarrow> realEncoder \<Rightarrow> realEncoder result" where
  "real_putVarint v = real_put (put_uvarint v)"

definition real_putArrayLength :: "int \<Rightarrow> realEncoder \<Rightarrow> realEncoder result" where
  "real_putArrayLength n = real_putInt32 (of_int n)"

definition real_putBool :: "bool \<Rightarrow> realEncoder \<Rightarrow> realEncoder result" where
  "real_putBool b = (if b then real_putInt8 1 else real_putInt8 0)"

definition real_putRawBytes :: "byte list \<Rightarrow> realEncoder \<Rightarrow> realEncoder result" where
  "real_putRawBytes b = real_copy b"

definition real_putBytes :: "byte list option \<Rightarrow> realEncoder \<Rightarrow> realEncoder result" where
  "real_putBytes b =
     (case b of
        None \<Rightarrow> real_putInt32 (- 1)
      | Some b' \<Rightarrow> eseq (real_putInt32 (of_nat (length b'))) (real_putRawBytes b'))"

definition real_putUUID :: "uuid \<Rightarrow> realEncoder \<Rightarrow> realEncoder result" where
  "real_putUUID u = real_putRawBytes (uuid_bytes u)"

definition real_putCompactBytes :: "byte list \<Rightarrow> realEncoder \<Rightarrow> realEncoder result" where
  "real_putCompactBytes b = eseq (real_putVarint (of_nat (length b + 1))) (real_copy b)"

definition real_putVarintBytes :: "byte list option \<Rightarrow> realEncoder \<Rightarrow> realEncoder result" where
  "real_putVarintBytes b =
     (case b of
        None \<Rightarrow> real_putVarint (- 1)
      | Some b' \<Rightarrow> eseq (real_putVarint (of_nat (length b'))) (real_putRawBytes b'))"

definition real_putString :: "string \<Rightarrow> realEncoder \<Rightarrow> realEncoder result" where
  "real_putString s = eseq (real_putInt16 (of_nat (length s))) (real_copy (go_bytes s))"

definition real_putNullableString :: "string option \<Rightarrow> realEncoder \<Rightarrow> realEncoder result" where
  "real_putNullableString s =
     (case s of None \<Rightarrow> real_putInt16 (- 1) | Some s' \<Rightarrow> real_putString s')"

definition real_putStringArray :: "string list \<Rightarrow> realEncoder \<Rightarrow> realEncoder result" where
  "real_putStringArray xs =
     eseq (real_putArrayLength (int (length xs))) (eloop real_putString xs)"

definition real_putInt32Array :: "32 word list option \<Rightarrow> realEncoder \<Rightarrow> realEncoder result" where
  "real_putInt32Array xs =
     (case xs of
        None \<Rightarrow> real_putArrayLength (- 1)
      | Some ys \<Rightarrow> eseq (real_putArrayLength (int (length ys))) (eloop real_putInt32 ys))"

definition real_putInt64Array :: "64 word list option \<Rightarrow> realEncoder \<Rightarrow> realEncoder result" where
  "real_putInt64Array xs =
     (case xs of
        None \<Rightarrow> real_putArrayLength (- 1)
      | Some ys \<Rightarrow> eseq (real_putArrayLength (int (length ys))) (eloop real_putInt64 ys))"

definition real_putCompactString :: "string \<Rightarrow> realEncoder \<Rightarrow> realEncoder result" where
  "real_putCompactString s =
     eseq (real_putVarint (of_nat (length s + 1))) (real_copy (go_bytes s))"

definition real_putCompactNullableString ::
    "string option \<Rightarrow> realEncoder \<Rightarrow> realEncoder result" where
  "real_putCompactNullableString s =
     (case s of None \<Rightarrow> real_putVarint 0 | Some s' \<Rightarrow> real_putCompactString s')"

definition real_putCompactArrayLength :: "int \<Rightarrow> realEncoder \<Rightarrow> realEncoder result" where
  "real_putCompactArrayLength n = real_putVarint (of_int (n + 1))"

definition real_putCompactNullableArrayLength :: "int \<Rightarrow> realEncoder \<Rightarrow> realEncoder result" where
  "real_putCompactNullableArrayLength n = real_putVarint (of_int (n + 1))"

subsection \<open>The interface\<close>

definition dispatch ::
    "(prepEncoder \<Rightarrow> prepEncoder result) \<Rightarrow> (realEncoder \<Rightarrow> realEncoder result) \<Rightarrow> enc" where
  "dispatch prep real pe =
     (case pe of
        PrepEncoder p \<Rightarrow> rbind (prep p) (\<lambda>p'. Inr (PrepEncoder p'))
      | RealEncoder r \<Rightarrow> rbind (real r) (\<lambda>r'. Inr (RealEncoder r')))"

definition putInt8 :: "8 word \<Rightarrow> enc" where
  "putInt8 v = dispatch (prep_putInt8 v) (real_putInt8 v)"

definition putInt16 :: "16 word \<Rightarrow> enc" where
  "putInt16 v = dispatch (prep_putInt16 v) (real_putInt16 v)"

definition putInt32 :: "32 word \<Rightarrow> enc" where
  "putInt32 v = dispatch (prep_putInt32 v) (real_putInt32 v)"

definition putInt64 :: "64 word \<Rightarrow> enc" where
  "putInt64 v = dispatch (prep_putInt64 v) (real_putInt64 v)"

definition putVarint :: "64 word \<Rightarrow> enc" where
  "putVarint v = dispatch (prep_putVarint v) (real_putVarint v)"

definition putArrayLength :: "int \<Rightarrow> enc" where
  "putArrayLength v = dispatch (prep_putArrayLength v) (real_putArrayLength v)"

definition putBool :: "bool \<Rightarrow> enc" where
  "putBool v = dispatch (prep_putBool v) (real_putBool v)"

definition putBytes :: "byte list option \<Rightarrow> enc" where
  "putBytes v = dispatch (prep_putBytes v) (real_putBytes v)"

definition putUUID :: "uuid \<Rightarrow> enc" where
  "putUUID v = dispatch (prep_putUUID v) (real_putUUID v)"

definition putString :: "string \<Rightarrow> enc" where
  "putString v = dispatch (prep_putString v) (real_putString v)"

definition putNullableString :: "string option \<Rightarrow> enc" where
  "putNullableString v = dispatch (prep_putNullableString v) (real_putNullableString v)"

definition putStringArray :: "string list \<Rightarrow> enc" where
  "putStringArray v = dispatch (prep_putStringArray v) (real_putStringArray v)"

definition putInt32Array :: "32 word list option \<Rightarrow> enc" where
  "putInt32Array v = dispatch (prep_putInt32Array v) (real_putInt32Array v)"

definition putInt64Array :: "64 word list option \<Rightarrow> enc" where
  "putInt64Array v = dispatch (prep_putInt64Array v) (real_putInt64Array v)"

definition putVarintBytes :: "byte list option \<Rightarrow> enc" where
  "putVarintBytes v = dispatch (prep_putVarintBytes v) (real_putVarintBytes v)"

definition putCompactBytes :: "byte list \<Rightarrow> enc" where
  "putCompactBytes v = dispatch (prep_putCompactBytes v) (real_putCompactBytes v)"

definition putCompactString :: "string \<Rightarrow> enc" where
  "putCompactString v = dispatch (prep_putCompactString v) (real_putCompactString v)"

definition putCompactNullableString :: "string option \<Rightarrow> enc" where
  "putCompactNullableString v = dispatch (prep_putCompactNullableString v) (real_putCompactNullableString v)"

definition putCompactArrayLength :: "int \<Rightarrow> enc" where
  "putCompactArrayLength v = dispatch (prep_putCompactArrayLength v) (real_putCompactArrayLength v)"

definition putCompactNullableArrayLength :: "int \<Rightarrow> enc" where
  "putCompactNullableArrayLength v = dispatch (prep_putCompactNullableArrayLength v) (real_putCompactNullableArrayLength v)"

definition offset :: "packetEncoder \<Rightarrow> int" where
  "offset pe = (case pe of PrepEncoder p \<Rightarrow> pe_length p | RealEncoder r \<Rightarrow> int (re_off r))"

subsection \<open>Encode\<close>

text \<open>
  \<open>Encode(e)\<close>; a nil encoder gives a nil slice.  The schema encoder does the same two passes
  with \<open>SchemaEncodingError\<close>, so the error of a size outside the limit is an argument.
\<close>

definition two_passes :: "(string \<Rightarrow> goerror) \<Rightarrow> enc \<Rightarrow> byte list result" where
  "two_passes too_big e =
     rbind (e (PrepEncoder \<lparr>pe_length = 0\<rparr>)) (\<lambda>p.
       if offset p < 0 \<or> offset p > MaxRequestSize
       then Inl (GoErr (too_big (''invalid request size ('' @ go_itoa (offset p) @ '')'')))
       else rbind (e (RealEncoder \<lparr>re_raw = replicate (nat (offset p)) 0, re_off = 0\<rparr>)) (\<lambda>r.
         case r of RealEncoder re \<Rightarrow> Inr (re_raw re) | PrepEncoder _ \<Rightarrow> Inr []))"

definition Encode :: "enc option \<Rightarrow> byte list option result" where
  "Encode e =
     (case e of
        None \<Rightarrow> Inr None
      | Some enc \<Rightarrow> rbind (two_passes PacketEncodingError enc) (\<lambda>b. Inr (Some b)))"

end
