(* ===== verification/Schema.thy ===== *)
theory Schema
  imports RealDecoder PacketEncoder
begin

section \<open>Schemas: self-describing Kafka structures\<close>

text \<open>
  \<open>proxy/protocol/schema.go\<close>.  The Go \<open>Schema\<close> interface is the datatype \<open>ty\<close> of its
  implementations (the primitive singletons and \<open>*schema\<close>), the \<open>Field\<close> interface the
  datatype \<open>field\<close>.  A Go \<open>interface{}\<close> value is a \<open>gvalue\<close>: the untyped nil is
  \<open>VNil\<close>, a \<open>*string\<close> that may be nil is \<open>VStrPtr\<close> (a nil \<open>*string\<close> in an interface
  is not the nil interface), a \<open>*Struct\<close> is \<open>VStructPtr\<close>.

  Each method of the source is a definition of its own; \<open>ty_encode\<close>, \<open>field_encode\<close> and
  their decoding counterparts are the dynamic dispatch through the two interfaces.
  \<open>*Struct\<close> values are never shared between places of a decoded tree, so
  \<open>Struct.Replace\<close>, which assigns to a slot, is a function to the updated struct.
\<close>

datatype ty =
    TypeBool | TypeInt16 | TypeInt32 | TypeStr | TypeNullableStr | TypeCompactStr
  | TypeCompactNullableStr | TypeUuid
  | SchemaT string "field list"
and field =
    Mfield string ty
  | Array string ty
  | CompactArray string ty
  | CompactNullableArray string ty
  | SchemaTaggedFields string

record rawTaggedField =
  rt_tag :: "64 word"
  rt_data :: "byte list option"

datatype gvalue =
    VNil
  | VBool bool
  | VInt16 "16 word"
  | VInt32 "32 word"
  | VStr string
  | VStrPtr "string option"
  | VUuid uuid
  | VArr "gvalue list"
  | VTagged "rawTaggedField list"
  | VStructPtr gstruct
and gstruct = Struct ty "gvalue list"

fun struct_schema :: "gstruct \<Rightarrow> ty" where
  "struct_schema (Struct s vs) = s"

fun struct_values :: "gstruct \<Rightarrow> gvalue list" where
  "struct_values (Struct s vs) = vs"

text \<open>\<open>%T\<close> of a value in an interface.\<close>

fun go_type :: "gvalue \<Rightarrow> string" where
  "go_type VNil = ''<nil>''"
| "go_type (VBool _) = ''bool''"
| "go_type (VInt16 _) = ''int16''"
| "go_type (VInt32 _) = ''int32''"
| "go_type (VStr _) = ''string''"
| "go_type (VStrPtr _) = ''*string''"
| "go_type (VUuid _) = ''uuid.UUID''"
| "go_type (VArr _) = ''[]interface {}''"
| "go_type (VTagged _) = ''[]protocol.rawTaggedField''"
| "go_type (VStructPtr _) = ''*protocol.Struct''"

definition not_a :: "gvalue \<Rightarrow> string \<Rightarrow> enc" where
  "not_a v what = efail (SchemaEncodingError (''value '' @ go_type v @ '' not a '' @ what))"

subsection \<open>Primitive fields\<close>

definition Bool_decode :: "gvalue dec" where
  "Bool_decode = dbind getBool (\<lambda>b. dret (VBool b))"

definition Bool_encode :: "gvalue \<Rightarrow> enc" where
  "Bool_encode v = (case v of VBool b \<Rightarrow> putBool b | _ \<Rightarrow> not_a v ''bool'')"

definition Int16_decode :: "gvalue dec" where
  "Int16_decode = dbind getInt16 (\<lambda>i. dret (VInt16 i))"

definition Int16_encode :: "gvalue \<Rightarrow> enc" where
  "Int16_encode v = (case v of VInt16 i \<Rightarrow> putInt16 i | _ \<Rightarrow> not_a v ''int16'')"

definition Int32_decode :: "gvalue dec" where
  "Int32_decode = dbind getInt32 (\<lambda>i. dret (VInt32 i))"

definition Int32_encode :: "gvalue \<Rightarrow> enc" where
  "Int32_encode v = (case v of VInt32 i \<Rightarrow> putInt32 i | _ \<Rightarrow> not_a v ''int32'')"

definition Str_decode :: "gvalue dec" where
  "Str_decode = dbind getString (\<lambda>s. dret (VStr s))"

definition Str_encode :: "gvalue \<Rightarrow> enc" where
  "Str_encode v = (case v of VStr s \<Rightarrow> putString s | _ \<Rightarrow> not_a v ''string'')"

definition NullableStr_decode :: "gvalue dec" where
  "NullableStr_decode = dbind getNullableString (\<lambda>s. dret (VStrPtr s))"

definition NullableStr_encode :: "gvalue \<Rightarrow> enc" where
  "NullableStr_encode v =
     eseq (case v of VNil \<Rightarrow> putNullableString None | _ \<Rightarrow> eok)
       (case v of VStrPtr s \<Rightarrow> putNullableString s | _ \<Rightarrow> not_a v ''*string'')"

definition CompactStr_decode :: "gvalue dec" where
  "CompactStr_decode = dbind getCompactString (\<lambda>s. dret (VStr s))"

definition CompactStr_encode :: "gvalue \<Rightarrow> enc" where
  "CompactStr_encode v = (case v of VStr s \<Rightarrow> putCompactString s | _ \<Rightarrow> not_a v ''string'')"

definition CompactNullableStr_decode :: "gvalue dec" where
  "CompactNullableStr_decode = dbind getCompactNullableString (\<lambda>s. dret (VStrPtr s))"

definition CompactNullableStr_encode :: "gvalue \<Rightarrow> enc" where
  "CompactNullableStr_encode v =
     eseq (case v of VNil \<Rightarrow> putCompactNullableString None | _ \<Rightarrow> eok)
       (case v of VStrPtr s \<Rightarrow> putCompactNullableString s | _ \<Rightarrow> not_a v ''*string'')"

definition Uuid_decode :: "gvalue dec" where
  "Uuid_decode = dbind getUUID (\<lambda>u. dret (VUuid u))"

definition Uuid_encode :: "gvalue \<Rightarrow> enc" where
  "Uuid_encode v = (case v of VUuid u \<Rightarrow> putUUID u | _ \<Rightarrow> not_a v ''uuid'')"

subsection \<open>Tagged fields\<close>

definition rawTaggedField_decode :: "rawTaggedField dec" where
  "rawTaggedField_decode = dbind getVarint (\<lambda>t. dbind getVarintBytes (\<lambda>d.
     dret \<lparr>rt_tag = t, rt_data = d\<rparr>))"

definition rawTaggedField_encode :: "rawTaggedField \<Rightarrow> enc" where
  "rawTaggedField_encode f = eseq (putVarint (rt_tag f)) (putVarintBytes (rt_data f))"

definition tagged_decode :: "rawTaggedField list dec" where
  "tagged_decode = dbind getVarint (\<lambda>numTaggedFields.
     if numTaggedFields = 0 then dret []
     else if sint numTaggedFields < 0
     then derr (ErrNew (''Negative number of tagged fields '' @ go_itoa (sint numTaggedFields)))
     else dbind (make_slice 32 (sint numTaggedFields)) (\<lambda>_.
          dec_times (nat (sint numTaggedFields)) rawTaggedField_decode))"

definition tagged_encode :: "rawTaggedField list \<Rightarrow> enc" where
  "tagged_encode fs = eseq (putVarint (of_nat (length fs))) (eloop rawTaggedField_encode fs)"

definition SchemaTaggedFields_decode :: "gvalue dec" where
  "SchemaTaggedFields_decode = dbind tagged_decode (\<lambda>fs. dret (VTagged fs))"

definition SchemaTaggedFields_encode :: "gvalue \<Rightarrow> enc" where
  "SchemaTaggedFields_encode v =
     (case v of VTagged fs \<Rightarrow> tagged_encode fs | _ \<Rightarrow> not_a v ''[]rawTaggedField'')"

subsection \<open>Arrays\<close>

definition encodeArrayElements :: "gvalue list \<Rightarrow> (gvalue \<Rightarrow> enc) \<Rightarrow> enc" where
  "encodeArrayElements xs elementEncode = eloop elementEncode xs"

definition decodeArrayElements :: "int \<Rightarrow> gvalue dec \<Rightarrow> gvalue dec" where
  "decodeArrayElements n elementDecode =
     dbind (dec_times (nat n) elementDecode) (\<lambda>xs. dret (VArr xs))"

definition Array_decode :: "gvalue dec \<Rightarrow> gvalue dec" where
  "Array_decode elem = dbind getArrayLength (\<lambda>n. decodeArrayElements n elem)"

definition Array_encode :: "(gvalue \<Rightarrow> enc) \<Rightarrow> gvalue \<Rightarrow> enc" where
  "Array_encode elem v =
     (case v of
        VArr xs \<Rightarrow> eseq (putArrayLength (int (length xs))) (encodeArrayElements xs elem)
      | _ \<Rightarrow> not_a v ''[]interface{}'')"

text \<open>\<open>errors.Wrapf(err, ...)\<close>: an error is wrapped, a panic passes through.\<close>

definition dwrap :: "string \<Rightarrow> 'a dec \<Rightarrow> 'a dec" where
  "dwrap msg m rd =
     (case m rd of
        (Inl (GoErr e), rd') \<Rightarrow> (Inl (GoErr (WrapErr msg e)), rd')
      | p \<Rightarrow> p)"

definition CompactArray_decode :: "string \<Rightarrow> gvalue dec \<Rightarrow> gvalue dec" where
  "CompactArray_decode name elem =
     dbind (dwrap (''getCompactArrayLength field '' @ name) getCompactArrayLength) (\<lambda>n.
       dwrap (''decodeArrayElements field '' @ name) (decodeArrayElements n elem))"

definition CompactArray_encode :: "(gvalue \<Rightarrow> enc) \<Rightarrow> gvalue \<Rightarrow> enc" where
  "CompactArray_encode elem v =
     (case v of
        VArr xs \<Rightarrow> eseq (putCompactArrayLength (int (length xs))) (encodeArrayElements xs elem)
      | _ \<Rightarrow> not_a v ''[]interface{}'')"

definition CompactNullableArray_decode :: "gvalue dec \<Rightarrow> gvalue dec" where
  "CompactNullableArray_decode elem = dbind getCompactNullableArrayLength (\<lambda>n.
     if n = - 1 then dret VNil else decodeArrayElements n elem)"

definition CompactNullableArray_encode :: "(gvalue \<Rightarrow> enc) \<Rightarrow> gvalue \<Rightarrow> enc" where
  "CompactNullableArray_encode elem v =
     (case v of
        VNil \<Rightarrow> putCompactNullableArrayLength (- 1)
      | VArr xs \<Rightarrow>
          eseq (putCompactNullableArrayLength (int (length xs))) (encodeArrayElements xs elem)
      | _ \<Rightarrow> not_a v ''[]interface{}'')"

subsection \<open>Structs and the dispatch\<close>

fun schema_encode_values :: "(gvalue \<Rightarrow> enc) list \<Rightarrow> gvalue list \<Rightarrow> enc" where
  "schema_encode_values (f # fs) (v # vs) = eseq (f v) (schema_encode_values fs vs)"
| "schema_encode_values fs vs = eok"

definition schema_encode :: "(gvalue \<Rightarrow> enc) list \<Rightarrow> gvalue \<Rightarrow> enc" where
  "schema_encode fs v =
     (case v of
        VStructPtr s \<Rightarrow>
          if length (struct_values s) \<noteq> length fs
          then efail (SchemaEncodingError (''length difference: values ''
                 @ go_itoa (int (length (struct_values s))) @ '', struct fields ''
                 @ go_itoa (int (length fs))))
          else schema_encode_values fs (struct_values s)
      | _ \<Rightarrow> not_a v ''*Struct'')"

fun schema_decode_values :: "gvalue dec list \<Rightarrow> gvalue list dec" where
  "schema_decode_values [] = dret []"
| "schema_decode_values (f # fs) =
     dbind f (\<lambda>v. dbind (schema_decode_values fs) (\<lambda>vs. dret (v # vs)))"

definition schema_decode :: "ty \<Rightarrow> gvalue dec list \<Rightarrow> gvalue dec" where
  "schema_decode s fs = dbind (schema_decode_values fs) (\<lambda>vs. dret (VStructPtr (Struct s vs)))"

fun ty_encode :: "ty \<Rightarrow> gvalue \<Rightarrow> enc" and field_encode :: "field \<Rightarrow> gvalue \<Rightarrow> enc" where
  "ty_encode TypeBool = Bool_encode"
| "ty_encode TypeInt16 = Int16_encode"
| "ty_encode TypeInt32 = Int32_encode"
| "ty_encode TypeStr = Str_encode"
| "ty_encode TypeNullableStr = NullableStr_encode"
| "ty_encode TypeCompactStr = CompactStr_encode"
| "ty_encode TypeCompactNullableStr = CompactNullableStr_encode"
| "ty_encode TypeUuid = Uuid_encode"
| "ty_encode (SchemaT n fs) = schema_encode (map field_encode fs)"
| "field_encode (Mfield n t) = ty_encode t"
| "field_encode (Array n t) = Array_encode (ty_encode t)"
| "field_encode (CompactArray n t) = CompactArray_encode (ty_encode t)"
| "field_encode (CompactNullableArray n t) = CompactNullableArray_encode (ty_encode t)"
| "field_encode (SchemaTaggedFields n) = SchemaTaggedFields_encode"

fun ty_decode :: "ty \<Rightarrow> gvalue dec" and field_decode :: "field \<Rightarrow> gvalue dec" where
  "ty_decode TypeBool = Bool_decode"
| "ty_decode TypeInt16 = Int16_decode"
| "ty_decode TypeInt32 = Int32_decode"
| "ty_decode TypeStr = Str_decode"
| "ty_decode TypeNullableStr = NullableStr_decode"
| "ty_decode TypeCompactStr = CompactStr_decode"
| "ty_decode TypeCompactNullableStr = CompactNullableStr_decode"
| "ty_decode TypeUuid = Uuid_decode"
| "ty_decode (SchemaT n fs) = schema_decode (SchemaT n fs) (map field_decode fs)"
| "field_decode (Mfield n t) = ty_decode t"
| "field_decode (Array n t) = Array_decode (ty_decode t)"
| "field_decode (CompactArray n t) = CompactArray_decode n (ty_decode t)"
| "field_decode (CompactNullableArray n t) = CompactNullableArray_decode (ty_decode t)"
| "field_decode (SchemaTaggedFields n) = SchemaTaggedFields_decode"

subsection \<open>Names, \<open>NewSchema\<close>\<close>

fun field_GetName :: "field \<Rightarrow> string" where
  "field_GetName (Mfield n t) = n"
| "field_GetName (Array n t) = n"
| "field_GetName (CompactArray n t) = n"
| "field_GetName (CompactNullableArray n t) = n"
| "field_GetName (SchemaTaggedFields n) = n"

fun ty_GetName :: "ty \<Rightarrow> string" where
  "ty_GetName TypeBool = ''bool''"
| "ty_GetName TypeInt16 = ''int16''"
| "ty_GetName TypeInt32 = ''int32''"
| "ty_GetName TypeStr = ''str''"
| "ty_GetName TypeNullableStr = ''nullablestr''"
| "ty_GetName TypeCompactStr = ''compactstr''"
| "ty_GetName TypeCompactNullableStr = ''compactnullablestr''"
| "ty_GetName TypeUuid = ''uuid''"
| "ty_GetName (SchemaT n fs) = n"

text \<open>\<open>GetFields\<close> is nil, and \<open>GetFieldsByName\<close> a nil map, for the primitive types.\<close>

fun ty_GetFields :: "ty \<Rightarrow> field list" where
  "ty_GetFields (SchemaT n fs) = fs"
| "ty_GetFields t = []"

text \<open>\<open>GetFieldsByName()[name]\<close>, reduced to the \<open>index\<close> of the bound field it holds.\<close>

fun fields_index :: "nat \<Rightarrow> field list \<Rightarrow> string \<Rightarrow> nat option" where
  "fields_index i [] name = None"
| "fields_index i (f # fs) name =
     (if field_GetName f = name then Some i else fields_index (Suc i) fs name)"

definition ty_GetFieldsByName :: "ty \<Rightarrow> string \<Rightarrow> nat option" where
  "ty_GetFieldsByName t name = fields_index 0 (ty_GetFields t) name"

fun newSchema_loop :: "string list \<Rightarrow> field list \<Rightarrow> unit result" where
  "newSchema_loop seen [] = Inr ()"
| "newSchema_loop seen (f # fs) =
     (if field_GetName f \<in> set seen
      then Inl (GoPanic (''Schema contains a duplicate field: '' @ field_GetName f))
      else newSchema_loop (field_GetName f # seen) fs)"

definition NewSchema :: "string \<Rightarrow> field list \<Rightarrow> ty result" where
  "NewSchema name fs = rbind (newSchema_loop [] fs) (\<lambda>_. Inr (SchemaT name fs))"

subsection \<open>\<open>Struct.Get\<close> and \<open>Struct.Replace\<close>\<close>

definition Struct_Get :: "gstruct \<Rightarrow> string \<Rightarrow> gvalue" where
  "Struct_Get s name =
     (case ty_GetFieldsByName (struct_schema s) name of
        None \<Rightarrow> VNil
      | Some i \<Rightarrow> if i \<ge> length (struct_values s) then VNil else struct_values s ! i)"

text \<open>\<open>reflect.TypeOf(v).Kind()\<close>, by its name.\<close>

fun go_kind :: "gvalue \<Rightarrow> string" where
  "go_kind VNil = ''invalid''"
| "go_kind (VBool _) = ''bool''"
| "go_kind (VInt16 _) = ''int16''"
| "go_kind (VInt32 _) = ''int32''"
| "go_kind (VStr _) = ''string''"
| "go_kind (VStrPtr _) = ''ptr''"
| "go_kind (VUuid _) = ''array''"
| "go_kind (VArr _) = ''slice''"
| "go_kind (VTagged _) = ''slice''"
| "go_kind (VStructPtr _) = ''ptr''"

definition replace_err :: "gstruct \<Rightarrow> string \<Rightarrow> string \<Rightarrow> 'a result" where
  "replace_err s name msg = Inl (GoErr (ErrNew (''field '' @ name @ '' value in struct ''
     @ ty_GetName (struct_schema s) @ '' : '' @ msg)))"

definition Struct_Replace :: "gstruct \<Rightarrow> string \<Rightarrow> gvalue \<Rightarrow> gstruct result" where
  "Struct_Replace s name value =
     (if value = VNil then replace_err s name ''new value must not be nil''
      else case ty_GetFieldsByName (struct_schema s) name of
        None \<Rightarrow> replace_err s name ''name not found''
      | Some i \<Rightarrow>
          if i \<ge> length (struct_values s)
          then replace_err s name (''index '' @ go_itoa (int i) @ '' gte ''
                 @ go_itoa (int (length (struct_values s))))
          else
            let v = struct_values s ! i in
            if v = VNil then replace_err s name ''old value not found''
            else if go_kind v \<noteq> go_kind value
            then replace_err s name (''kinds differ '' @ go_kind v @ '' to '' @ go_kind value)
            else Inr (Struct (struct_schema s) ((struct_values s)[i := value])))"

subsection \<open>\<open>DecodeSchema\<close> and \<open>EncodeSchema\<close>\<close>

definition DecodeSchema :: "byte list option \<Rightarrow> ty \<Rightarrow> gstruct option result" where
  "DecodeSchema buf schema =
     (case buf of
        None \<Rightarrow> Inr None
      | Some b \<Rightarrow>
          (case ty_decode schema \<lparr>rd_raw = b, rd_off = 0\<rparr> of
             (Inl e, helper) \<Rightarrow> Inl e
           | (Inr v, helper) \<Rightarrow>
               if rd_off helper \<noteq> length b
               then Inl (GoErr (SchemaDecodingError ''invalid length''))
               else (case v of
                       VStructPtr st \<Rightarrow> Inr (Some st)
                     | _ \<Rightarrow> Inl (GoErr (SchemaDecodingError
                              ''internal error: schema decode should return *Struct'')))))"

definition EncodeSchema :: "gstruct option \<Rightarrow> ty \<Rightarrow> byte list option result" where
  "EncodeSchema s schema =
     (case s of
        None \<Rightarrow> Inr None
      | Some st \<Rightarrow>
          rbind (two_passes SchemaEncodingError (ty_encode schema (VStructPtr st)))
            (\<lambda>b. Inr (Some b)))"

end
