(* ===== verification/DecoderFacts.thy ===== *)
theory DecoderFacts
  imports RealDecoder
begin

section \<open>Facts about the packet decoder\<close>

text \<open>
  Two judgements on decoder operations and their closure rules: \<open>safe_dec A\<close> (no panic but
  those with a message in \<open>A\<close>, the buffer kept, the offset kept inside it and never moved
  back) and \<open>reads\<close> (from a
  position right before given bytes, the operation returns a given value and stops right
  behind them).  The locale \<open>codec\<close> is the contract between a reader and the wire image of
  its values; every primitive of the decoder is an instance, and the contract is closed
  under repetition, which is what arrays use.
\<close>

subsection \<open>Safety\<close>

definition rd_ok :: "realDecoder \<Rightarrow> bool" where
  "rd_ok rd \<longleftrightarrow> rd_off rd \<le> length (rd_raw rd)"

definition safe_step :: "string set \<Rightarrow> realDecoder \<Rightarrow> 'a result \<times> realDecoder \<Rightarrow> bool" where
  "safe_step A rd p \<longleftrightarrow> (\<forall>s. fst p = Inl (GoPanic s) \<longrightarrow> s \<in> A) \<and> rd_raw (snd p) = rd_raw rd
     \<and> rd_off rd \<le> rd_off (snd p) \<and> rd_ok (snd p)"

definition safe_dec :: "string set \<Rightarrow> 'a dec \<Rightarrow> bool" where
  "safe_dec A m \<longleftrightarrow> (\<forall>rd. rd_ok rd \<longrightarrow> safe_step A rd (m rd))"

named_theorems safe_intros "closure rules of \<open>safe_dec\<close>"

lemma safe_decI: "(\<And>rd. rd_ok rd \<Longrightarrow> safe_step A rd (m rd)) \<Longrightarrow> safe_dec A m"
  by (simp add: safe_dec_def)

lemma safe_decD: "safe_dec A m \<Longrightarrow> rd_ok rd \<Longrightarrow> safe_step A rd (m rd)"
  by (simp add: safe_dec_def)

lemma safe_dret [safe_intros]: "safe_dec A (dret a)"
  by (simp add: safe_dec_def safe_step_def dret_def)

lemma safe_derr [safe_intros]: "safe_dec A (derr e)"
  by (simp add: safe_dec_def safe_step_def derr_def)

lemma safe_insufficient [safe_intros]: "safe_dec A insufficient"
  by (simp add: safe_dec_def safe_step_def insufficient_def rd_ok_def)

lemma safe_step_trans:
  "safe_step A rd (Inr a, rd') \<Longrightarrow> safe_step A rd' p \<Longrightarrow> safe_step A rd p"
  by (auto simp: safe_step_def)

text \<open>The continuation may rely on what the first operation has checked.\<close>

lemma safe_dbind_post:
  assumes m: "safe_dec A m"
    and f: "\<And>rd a rd'. rd_ok rd \<Longrightarrow> m rd = (Inr a, rd') \<Longrightarrow> rd_ok rd' \<Longrightarrow> safe_step A rd' (f a rd')"
  shows "safe_dec A (dbind m f)"
proof (rule safe_decI)
  fix rd :: realDecoder
  assume ok: "rd_ok rd"
  obtain r rd' where mr: "m rd = (r, rd')" by force
  from safe_decD [OF m ok] mr have s: "safe_step A rd (r, rd')" by simp
  show "safe_step A rd (dbind m f rd)"
  proof (cases r)
    case (Inl e)
    with s mr show ?thesis by (auto simp: dbind_def safe_step_def is_panic_def split: gofail.splits)
  next
    case (Inr a)
    with s have "rd_ok rd'" by (simp add: safe_step_def)
    with f ok mr Inr have "safe_step A rd' (f a rd')" by blast
    with s Inr have "safe_step A rd (f a rd')" by (blast intro: safe_step_trans)
    with mr Inr show ?thesis by (simp add: dbind_def)
  qed
qed

lemma safe_dbind [safe_intros]: "safe_dec A m \<Longrightarrow> (\<And>a. safe_dec A (f a)) \<Longrightarrow> safe_dec A (dbind m f)"
  by (rule safe_dbind_post) (auto dest: safe_decD)

lemma safe_if [safe_intros]: "safe_dec A m \<Longrightarrow> safe_dec A n \<Longrightarrow> safe_dec A (if b then m else n)"
  by simp

lemma safe_fixed: "safe_dec A (\<lambda>rd. if remaining rd < int n then insufficient rd
    else (Inr (g rd), rd\<lparr>rd_off := rd_off rd + n\<rparr>))"
  using safe_insufficient
  by (auto simp: safe_dec_def safe_step_def remaining_def rd_ok_def)

lemma safe_getInt8 [safe_intros]: "safe_dec A getInt8"
  using safe_fixed [of _ 1] by (simp add: getInt8_eq [abs_def])

lemma safe_getInt16 [safe_intros]: "safe_dec A getInt16"
  using safe_fixed [of _ 2] by (simp add: getInt16_eq [abs_def])

lemma safe_getInt32 [safe_intros]: "safe_dec A getInt32"
  using safe_fixed [of _ 4] by (simp add: getInt32_eq [abs_def])

lemma safe_getInt64 [safe_intros]: "safe_dec A getInt64"
  using safe_fixed [of _ 8] by (simp add: getInt64_eq [abs_def])

lemma safe_getVarint [safe_intros]: "safe_dec A getVarint"
proof (rule safe_decI)
  fix rd :: realDecoder
  assume ok: "rd_ok rd"
  obtain x n where u: "binary_Uvarint (drop (rd_off rd) (rd_raw rd)) = (x, n)" by force
  from binary_Uvarint_bounds [OF u] ok u show "safe_step A rd (getVarint rd)"
    by (auto simp: getVarint_def slice_from_def rd_ok_def safe_step_def insufficient_def derr_def)
qed

lemma safe_getArrayLength [safe_intros]: "safe_dec A getArrayLength"
  by (auto simp: safe_dec_def getArrayLength_eq Let_def safe_step_def insufficient_def derr_def
      rd_ok_def remaining_def)

lemma safe_getRawBytes [safe_intros]: "safe_dec A (getRawBytes n)"
  by (auto simp: safe_dec_def getRawBytes_eq safe_step_def insufficient_def derr_def
      rd_ok_def remaining_def)

lemma safe_check_remaining [safe_intros]:
  "safe_dec A (\<lambda>rd. if n > remaining rd then insufficient rd else dret n rd)"
  by (auto simp: safe_dec_def safe_step_def insufficient_def dret_def rd_ok_def)

lemma safe_getBool [safe_intros]: "safe_dec A getBool"
  unfolding getBool_def by (intro safe_intros)

lemma safe_getBytes [safe_intros]: "safe_dec A getBytes"
  unfolding getBytes_def by (intro safe_intros)

lemma safe_getVarintBytes [safe_intros]: "safe_dec A getVarintBytes"
  unfolding getVarintBytes_def by (intro safe_intros)

lemma safe_uuid: "safe_dec A (\<lambda>rd. (uuid_FromBytes r, rd))"
  by (simp add: safe_dec_def safe_step_def uuid_FromBytes_def)

lemma safe_getUUID [safe_intros]: "safe_dec A getUUID"
  unfolding getUUID_def by (intro safe_intros safe_uuid)

lemma safe_getCompactLength [safe_intros]: "safe_dec A getCompactLength"
  unfolding getCompactLength_def Let_def by (intro safe_intros)

lemma safe_getCompactNullableLength [safe_intros]: "safe_dec A getCompactNullableLength"
  unfolding getCompactNullableLength_def Let_def by (intro safe_intros)

lemma safe_getStringLength [safe_intros]: "safe_dec A getStringLength"
  unfolding getStringLength_def Let_def by (intro safe_intros)

text \<open>A length that was returned fits in what remains, so the slice behind it is in range.\<close>

lemma dbind_Inr:
  "dbind m f rd = (Inr b, rd'') \<longleftrightarrow>
     (\<exists>a rd'. m rd = (Inr a, rd') \<and> f a rd' = (Inr b, rd''))"
  by (auto simp: dbind_def split: prod.splits sum.splits)

lemma getCompactLength_fits:
  "getCompactLength rd = (Inr n, rd') \<Longrightarrow> 0 \<le> n \<and> n \<le> remaining rd'"
  by (auto simp: getCompactLength_def dbind_Inr Let_def derr_def dret_def insufficient_def
      split: if_splits)

lemma getCompactNullableLength_fits:
  "getCompactNullableLength rd = (Inr n, rd') \<Longrightarrow> - 1 \<le> n \<and> n \<le> remaining rd'"
  by (auto simp: getCompactNullableLength_def dbind_Inr Let_def derr_def dret_def insufficient_def
      split: if_splits)

lemma getStringLength_fits:
  "getStringLength rd = (Inr n, rd') \<Longrightarrow> - 1 \<le> n \<and> n \<le> remaining rd'"
  by (auto simp: getStringLength_def dbind_Inr Let_def derr_def dret_def insufficient_def
      split: if_splits)

lemma getStringLength_present:
  "getStringLength rd = (Inr n, rd') \<Longrightarrow> n \<noteq> - 1 \<Longrightarrow> 0 \<le> n \<and> n \<le> remaining rd'"
  using getStringLength_fits [of rd n rd'] by auto

lemma safe_takeBytes: "0 \<le> n \<Longrightarrow> n \<le> remaining rd \<Longrightarrow> rd_ok rd \<Longrightarrow> safe_step A rd (takeBytes n rd)"
  by (auto simp: takeBytes_fits safe_step_def rd_ok_def remaining_def)

lemma safe_takeBytes_ret:
  "0 \<le> n \<Longrightarrow> n \<le> remaining rd \<Longrightarrow> rd_ok rd \<Longrightarrow> safe_step A rd (dbind (takeBytes n) (\<lambda>b. dret (g b)) rd)"
  by (auto simp: takeBytes_fits safe_step_def rd_ok_def remaining_def dbind_def dret_def)

lemma safe_getCompactBytes [safe_intros]: "safe_dec A getCompactBytes"
  unfolding getCompactBytes_def
  by (rule safe_dbind_post [OF safe_getCompactLength])
    (auto dest: getCompactLength_fits intro: safe_takeBytes safe_decD [OF safe_dret])

lemma safe_getString [safe_intros]: "safe_dec A getString"
  unfolding getString_def
  by (rule safe_dbind_post [OF safe_getStringLength])
    (auto dest: getStringLength_present intro: safe_takeBytes_ret safe_decD [OF safe_dret])

lemma safe_getNullableString [safe_intros]: "safe_dec A getNullableString"
  unfolding getNullableString_def
  by (rule safe_dbind_post [OF safe_getStringLength])
    (auto dest: getStringLength_present intro: safe_takeBytes_ret safe_decD [OF safe_dret])

lemma safe_getCompactString [safe_intros]: "safe_dec A getCompactString"
  unfolding getCompactString_def
  by (rule safe_dbind_post [OF safe_getCompactLength])
    (auto dest: getCompactLength_fits intro: safe_takeBytes_ret safe_decD [OF safe_dret])

lemma safe_getCompactNullableString [safe_intros]: "safe_dec A getCompactNullableString"
  unfolding getCompactNullableString_def
  by (rule safe_dbind_post [OF safe_getCompactNullableLength])
    (auto dest: getCompactNullableLength_fits intro: safe_takeBytes_ret safe_decD [OF safe_dret])

lemma safe_dec_times [safe_intros]: "safe_dec A m \<Longrightarrow> safe_dec A (dec_times n m)"
  by (induction n) (auto intro!: safe_intros)

lemma safe_small_slice: "0 \<le> n \<Longrightarrow> sz * n \<le> maxAlloc \<Longrightarrow> safe_dec A (make_slice sz n)"
  by (simp add: safe_dec_def safe_step_def make_slice_def)

text \<open>An array that fits is read without another look at what remains.\<close>

lemma dec_times_fixed:
  "rd_ok rd \<Longrightarrow> int (k * n) \<le> remaining rd \<Longrightarrow>
     \<exists>xs. dec_times n (read_fixed k (read_be k get)) rd = (Inr xs, rd\<lparr>rd_off := rd_off rd + k * n\<rparr>)"
proof (induction n arbitrary: rd)
  case (Suc n)
  let ?rd = "rd\<lparr>rd_off := rd_off rd + k\<rparr>"
  from Suc.prems(2) have "k * Suc n + rd_off rd \<le> length (rd_raw rd)"
    unfolding remaining_def by linarith
  then have "rd_ok ?rd" "int (k * n) \<le> remaining ?rd" "int k \<le> remaining rd"
    by (auto simp: rd_ok_def remaining_def simp flip: of_nat_add of_nat_mult)
  from Suc.IH [OF this(1,2)] this(3) obtain xs where
    "dec_times n (read_fixed k (read_be k get)) ?rd = (Inr xs, ?rd\<lparr>rd_off := rd_off ?rd + k * n\<rparr>)"
    and "int k \<le> remaining rd" by blast
  then show ?case by (simp add: dbind_def read_fixed_fits dret_def add.assoc)
qed (simp add: dret_def)

lemma getArrayLength_small: "getArrayLength rd = (Inr n, rd') \<Longrightarrow> n \<le> 2 * MaxUint16"
  by (auto simp: getArrayLength_eq Let_def insufficient_def derr_def split: if_splits)

lemma safe_int_array:
  assumes "0 < n" "sz * n \<le> maxAlloc" "sz = int k"
  shows "safe_dec A (\<lambda>rd. if remaining rd < sz * n then insufficient rd
    else dbind (make_slice sz n) (\<lambda>_. dbind (dec_times (nat n) (read_fixed k (read_be k get))) (\<lambda>ret. dret (Some ret))) rd)"
proof (rule safe_decI)
  fix rd :: realDecoder
  assume ok: "rd_ok rd"
  show "safe_step A rd (if remaining rd < sz * n then insufficient rd
    else dbind (make_slice sz n) (\<lambda>_. dbind (dec_times (nat n) (read_fixed k (read_be k get))) (\<lambda>ret. dret (Some ret))) rd)"
  proof (cases "remaining rd < sz * n")
    case True
    then show ?thesis using safe_decD [OF safe_insufficient ok] by simp
  next
    case False
    with assms have le: "int (k * nat n) \<le> remaining rd" by simp
    then have "k * nat n + rd_off rd \<le> length (rd_raw rd)" unfolding remaining_def by linarith
    moreover from dec_times_fixed [OF ok le, of get] obtain xs where
      "dec_times (nat n) (read_fixed k (read_be k get)) rd = (Inr xs, rd\<lparr>rd_off := rd_off rd + k * nat n\<rparr>)" by blast
    ultimately show ?thesis
      using False assms by (simp add: dbind_def make_slice_def dret_def safe_step_def rd_ok_def)
  qed
qed

lemma safe_array_cases:
  fixes n :: int
  assumes "rd_ok rd" "0 < n \<Longrightarrow> safe_dec A m"
  shows "safe_step A rd ((if n = - 1 then dret a else if n = 0 then dret b
    else if n < - 1 then derr e else m) rd)"
proof -
  have "n = - 1 \<or> n = 0 \<or> n < - 1 \<or> 0 < n" by linarith
  then show ?thesis
    using assms safe_decD [OF safe_dret assms(1)] safe_decD [OF safe_derr assms(1)]
    by (elim disjE) (auto intro: safe_decD)
qed

lemma safe_getInt32Array [safe_intros]: "safe_dec A getInt32Array"
  unfolding getInt32Array_def BigEndian_Uint32_def
  by (rule safe_dbind_post [OF safe_getArrayLength], rule safe_array_cases)
    (auto dest!: getArrayLength_small intro!: safe_int_array simp: maxAlloc_def MaxUint16_def)

lemma safe_getInt64Array [safe_intros]: "safe_dec A getInt64Array"
  unfolding getInt64Array_def BigEndian_Uint64_def
  by (rule safe_dbind_post [OF safe_getArrayLength], rule safe_array_cases)
    (auto dest!: getArrayLength_small intro!: safe_int_array simp: maxAlloc_def MaxUint16_def)

lemma safe_getStringArray [safe_intros]: "safe_dec A getStringArray"
  unfolding getStringArray_def
proof (rule safe_dbind_post [OF safe_getArrayLength])
  fix rd n rd'
  assume "getArrayLength rd = (Inr n, rd')" and ok: "rd_ok rd'"
  then have "n \<le> 2 * MaxUint16" by (blast dest: getArrayLength_small)
  then have "safe_dec A (dbind (make_slice 16 n) (\<lambda>_. dbind (dec_times (nat n) getString) (\<lambda>xs. dret (Some xs))))" if "0 \<le> n"
    using that by (intro safe_intros safe_small_slice) (simp_all add: maxAlloc_def MaxUint16_def)
  then show "safe_step A rd' ((if n = - 1 then dret None else if n < - 1 then derr errInvalidArrayLength
      else dbind (make_slice 16 n) (\<lambda>_. dbind (dec_times (nat n) getString) (\<lambda>xs. dret (Some xs)))) rd')"
    using ok by (auto intro: safe_decD safe_dret safe_derr)
qed

end
