(* ===== verification/WireCodec.thy ===== *)
theory WireCodec
  imports DecoderFacts PacketEncoder
begin

section \<open>Wire images, the two-pass contract and the codec contract\<close>

text \<open>
  The abstract specification of the packet layer: the \<^emph>\<open>wire image\<close> of a value, a plain
  function to bytes.  \<open>encodes\<close> says that an encoding routine counts exactly the length of an
  image on the \<open>prepEncoder\<close> and writes exactly the image on the \<open>realEncoder\<close>;
  \<open>rejects\<close> that the counting pass refuses the value; \<open>reads\<close> that a decoding routine
  reads an image back.  The locales \<open>two_pass\<close> and \<open>codec\<close> are the two contracts,
  \<open>message\<close> both together, with the facts every client of the layer uses: \<open>Encode\<close>
  returns the image or fails in the counting pass, never panics, and \<open>Decode\<close> inverts it.
  The primitives of the packet layer are interpretations of the locales.
\<close>

subsection \<open>The two passes\<close>

definition re_write :: "byte list \<Rightarrow> realEncoder \<Rightarrow> realEncoder" where
  "re_write bs re =
     \<lparr>re_raw = take (re_off re) (re_raw re) @ bs @ drop (re_off re + length bs) (re_raw re),
      re_off = re_off re + length bs\<rparr>"

definition prep_counts :: "(prepEncoder \<Rightarrow> prepEncoder result) \<Rightarrow> int \<Rightarrow> bool" where
  "prep_counts p n \<longleftrightarrow> (\<forall>pe. p pe = Inr (pe\<lparr>pe_length := pe_length pe + n\<rparr>))"

definition prep_rejects :: "('s \<Rightarrow> 's result) \<Rightarrow> bool" where
  "prep_rejects p \<longleftrightarrow> (\<exists>e. \<forall>pe. p pe = Inl (GoErr e))"

definition real_writes :: "(realEncoder \<Rightarrow> realEncoder result) \<Rightarrow> byte list \<Rightarrow> bool" where
  "real_writes r bs \<longleftrightarrow>
     (\<forall>re. re_off re + length bs \<le> length (re_raw re) \<longrightarrow> r re = Inr (re_write bs re))"

definition encodes :: "enc \<Rightarrow> byte list \<Rightarrow> bool" where
  "encodes e bs \<longleftrightarrow>
     (\<forall>p. e (PrepEncoder p) = Inr (PrepEncoder (p\<lparr>pe_length := pe_length p + int (length bs)\<rparr>)))
   \<and> (\<forall>r. re_off r + length bs \<le> length (re_raw r) \<longrightarrow>
          e (RealEncoder r) = Inr (RealEncoder (re_write bs r)))"

definition rejects :: "enc \<Rightarrow> bool" where
  "rejects e \<longleftrightarrow> (\<exists>err. \<forall>p. e (PrepEncoder p) = Inl (GoErr err))"

lemma re_write_append:
  "re_off re + length bs + length cs \<le> length (re_raw re) \<Longrightarrow>
   re_write cs (re_write bs re) = re_write (bs @ cs) re"
  by (simp add: re_write_def ac_simps)

lemma re_write_room [simp]:
  "re_off re + length bs \<le> length (re_raw re) \<Longrightarrow> length (re_raw (re_write bs re)) = length (re_raw re)"
  "re_off (re_write bs re) = re_off re + length bs"
  by (simp_all add: re_write_def)

lemma re_write_Nil: "re_write [] re = re"
  by (simp add: re_write_def)

named_theorems pass_intros "closure rules of the two passes"

lemma prep_counts_add [pass_intros]: "prep_counts (prep_add n) n"
  by (simp add: prep_counts_def prep_add_def)

lemma prep_counts_eok [pass_intros]: "prep_counts eok 0"
  by (simp add: prep_counts_def eok_def)

lemma prep_counts_eseq [pass_intros]:
  "prep_counts f a \<Longrightarrow> prep_counts g b \<Longrightarrow> n = a + b \<Longrightarrow> prep_counts (eseq f g) n"
  by (simp add: prep_counts_def eseq_def add.assoc)

lemma prep_rejects_efail: "prep_rejects (efail e)"
  by (auto simp: prep_rejects_def efail_def)

lemma prep_rejects_eseq:
  "prep_rejects f \<Longrightarrow> prep_rejects (eseq f g)"
  "prep_counts f a \<Longrightarrow> prep_rejects g \<Longrightarrow> prep_rejects (eseq f g)"
  by (auto simp: prep_rejects_def prep_counts_def eseq_def)

lemma real_writes_put [pass_intros]: "real_writes (real_put bs) bs"
  by (simp add: real_writes_def real_put_def re_write_def)

lemma real_writes_copy [pass_intros]: "real_writes (real_copy bs) bs"
  by (auto simp: real_writes_def real_copy_def re_write_def)

lemma real_writes_eok [pass_intros]: "real_writes eok []"
  by (simp add: real_writes_def eok_def re_write_Nil)

lemma real_writes_eseq [pass_intros]:
  "real_writes f bs \<Longrightarrow> real_writes g cs \<Longrightarrow> real_writes (eseq f g) (bs @ cs)"
  by (simp add: real_writes_def eseq_def re_write_append add.assoc)

lemma encodes_dispatch:
  "prep_counts p (int (length bs)) \<Longrightarrow> real_writes r bs \<Longrightarrow> encodes (dispatch p r) bs"
  by (simp add: encodes_def prep_counts_def real_writes_def dispatch_def)

lemma rejects_dispatch: "prep_rejects p \<Longrightarrow> rejects (dispatch p r)"
  by (auto simp: rejects_def prep_rejects_def dispatch_def)

lemma encodes_eok: "encodes eok []"
  by (simp add: encodes_def eok_def re_write_Nil)

lemma encodes_eseq:
  "encodes f a \<Longrightarrow> encodes g b \<Longrightarrow> encodes (eseq f g) (a @ b)"
  by (simp add: encodes_def eseq_def re_write_append add.assoc)

lemma rejects_efail: "rejects (efail e)"
  by (auto simp: rejects_def efail_def)

lemma rejects_eseq1: "rejects f \<Longrightarrow> rejects (eseq f g)"
  by (auto simp: rejects_def eseq_def)

lemma rejects_eseq2: "encodes f a \<Longrightarrow> rejects g \<Longrightarrow> rejects (eseq f g)"
  by (auto simp: rejects_def encodes_def eseq_def)

lemma encodes_not_rejects: "encodes f a \<Longrightarrow> \<not> rejects f"
  by (auto simp: encodes_def rejects_def)

text \<open>What \<open>Encode\<close> and \<open>EncodeSchema\<close> make of an encoding routine.\<close>

lemma two_passes_encodes:
  assumes "encodes e bs"
  shows "two_passes big e =
    (if int (length bs) > MaxRequestSize
     then Inl (GoErr (big (''invalid request size ('' @ go_itoa (int (length bs)) @ '')'')))
     else Inr bs)"
  using assms by (simp add: two_passes_def encodes_def offset_def re_write_def)

lemma two_passes_rejects:
  assumes "rejects e"
  shows "\<exists>err. two_passes big e = Inl (GoErr err)"
  using assms by (auto simp: two_passes_def rejects_def)

locale two_pass =
  fixes put :: "'a \<Rightarrow> enc" and wire :: "'a \<Rightarrow> byte list" and accepts :: "'a \<Rightarrow> bool"
  assumes put_encodes: "accepts x \<Longrightarrow> encodes (put x) (wire x)"
    and put_rejects: "\<not> accepts x \<Longrightarrow> rejects (put x)"
begin

lemma two_passes_Inr:
  "two_passes big (put x) = Inr bs \<longleftrightarrow>
     accepts x \<and> bs = wire x \<and> int (length (wire x)) \<le> MaxRequestSize"
  using two_passes_encodes [OF put_encodes, of x big] two_passes_rejects [OF put_rejects, of x big]
  by (cases "accepts x") auto

lemma two_passes_no_panic: "\<not> is_panic (two_passes big (put x))"
  using two_passes_encodes [OF put_encodes, of x big] two_passes_rejects [OF put_rejects, of x big]
  by (cases "accepts x") auto

lemma loop_encodes: "list_all accepts xs \<Longrightarrow> encodes (eloop put xs) (concat (map wire xs))"
  by (induction xs) (auto intro: encodes_eok encodes_eseq put_encodes)

lemma loop_rejects: "\<not> list_all accepts xs \<Longrightarrow> rejects (eloop put xs)"
proof (induction xs)
  case (Cons x xs)
  then show ?case
    by (cases "accepts x") (auto intro: rejects_eseq1 put_rejects rejects_eseq2 [OF put_encodes])
qed simp

end

subsection \<open>Reading an image back\<close>

definition rd_at :: "byte list \<Rightarrow> byte list \<Rightarrow> realDecoder" where
  "rd_at pre post = \<lparr>rd_raw = pre @ post, rd_off = length pre\<rparr>"

text \<open>
  \<open>reads k m bs x\<close>: placed right before \<open>bs\<close>, with at least \<open>k\<close> more bytes behind it,
  \<open>m\<close> returns \<open>x\<close> and stops right behind \<open>bs\<close>.
\<close>

definition reads :: "nat \<Rightarrow> 'a dec \<Rightarrow> byte list \<Rightarrow> 'a \<Rightarrow> bool" where
  "reads k m bs x \<longleftrightarrow>
     (\<forall>pre post. k \<le> length post \<longrightarrow> m (rd_at pre (bs @ post)) = (Inr x, rd_at (pre @ bs) post))"

lemma readsD: "reads k m bs x \<Longrightarrow> k \<le> length post \<Longrightarrow>
    m (rd_at pre (bs @ post)) = (Inr x, rd_at (pre @ bs) post)"
  by (simp add: reads_def)

lemma reads_mono: "reads k m bs x \<Longrightarrow> k \<le> k' \<Longrightarrow> reads k' m bs x"
  by (simp add: reads_def)

lemma reads_dret: "reads k (dret x) [] x"
  by (simp add: reads_def dret_def)

lemma reads_dbind:
  assumes "reads k m bs x" "reads j (f x) cs y" "k \<le> length cs + j"
  shows "reads j (dbind m f) (bs @ cs) y"
  unfolding reads_def
proof (intro allI impI)
  fix pre post :: "byte list"
  assume "j \<le> length post"
  then have "m (rd_at pre (bs @ cs @ post)) = (Inr x, rd_at (pre @ bs) (cs @ post))"
    using assms by (intro readsD) auto
  moreover have "f x (rd_at (pre @ bs) (cs @ post)) = (Inr y, rd_at ((pre @ bs) @ cs) post)"
    using assms(2) \<open>j \<le> length post\<close> by (rule readsD)
  ultimately show "dbind m f (rd_at pre ((bs @ cs) @ post)) = (Inr y, rd_at (pre @ bs @ cs) post)"
    by (simp add: dbind_def)
qed

lemma reads_map:
  "reads k m bs x \<Longrightarrow> f x = dret y \<Longrightarrow> reads k (dbind m f) bs y"
  by (auto simp: reads_def dbind_def dret_def)

lemma reads_fixed:
  assumes "\<And>post. g (bs @ post) = x" "n = length bs"
  shows "reads 0 (\<lambda>rd. if remaining rd < int n then insufficient rd
    else (Inr (g (rest rd)), rd\<lparr>rd_off := rd_off rd + n\<rparr>)) bs x"
  using assms by (auto simp: reads_def rd_at_def remaining_def rest_def)

lemma reads_Decode:
  assumes "reads 0 m bs x"
  shows "Decode (Some bs) m x0 = Inr x"
  using readsD [OF assms, of "[]" "[]"] by (simp add: Decode_def rd_at_def)

locale codec =
  fixes get :: "'a dec" and wire :: "'a \<Rightarrow> byte list" and ok :: "'a \<Rightarrow> bool"
  assumes get_wire: "ok x \<Longrightarrow> reads 0 get (wire x) x"
begin

lemma get_list:
  "list_all ok xs \<Longrightarrow> reads 0 (dec_times (length xs) get) (concat (map wire xs)) xs"
proof (induction xs)
  case Nil
  show ?case by (simp add: reads_dret)
next
  case (Cons x xs)
  then have "reads 0 (dbind (dec_times (length xs) get) (\<lambda>ys. dret (x # ys)))
      (concat (map wire xs)) (x # xs)"
    by (intro reads_map) auto
  with Cons.prems show ?case
    by (auto intro!: reads_dbind [where k = 0] get_wire)
qed

lemma prefix_free:
  assumes "ok x" "ok y" "wire x @ r = wire y @ s"
  shows "x = y \<and> r = s"
proof -
  have "get (rd_at [] (wire x @ r)) = (Inr x, rd_at (wire x) r)"
    using readsD [OF get_wire [OF assms(1)], of r "[]"] by simp
  moreover have "get (rd_at [] (wire y @ s)) = (Inr y, rd_at (wire y) s)"
    using readsD [OF get_wire [OF assms(2)], of s "[]"] by simp
  ultimately have "x = y" using assms(3) by simp
  with assms(3) show ?thesis by simp
qed

lemma wire_inj: "ok x \<Longrightarrow> ok y \<Longrightarrow> wire x = wire y \<Longrightarrow> x = y"
  using prefix_free [of x y "[]" "[]"] by simp

lemma decode_wire: "ok x \<Longrightarrow> Decode (Some (wire x)) get x0 = Inr x"
  by (rule reads_Decode [OF get_wire])

end

locale message = two_pass put wire accepts + codec get wire ok
  for put :: "'a \<Rightarrow> enc" and get :: "'a dec" and wire accepts ok
begin

lemma decode_encode:
  assumes "Encode (Some (put x)) = Inr bs" "ok x"
  shows "Decode bs get x0 = Inr x"
proof -
  from assms(1) obtain b where "bs = Some b" "two_passes PacketEncodingError (put x) = Inr b"
    by (auto simp: Encode_def rbind_Inr_conv)
  with assms(2) show ?thesis by (simp add: two_passes_Inr decode_wire)
qed

lemma encode_no_panic: "\<not> is_panic (Encode (Some (put x)))"
  using two_passes_no_panic [of PacketEncodingError x]
  by (cases "two_passes PacketEncodingError (put x)")
    (auto simp: Encode_def is_panic_def split: gofail.splits)

end

end
