(* ===== verification/WirePrims.thy ===== *)
theory WirePrims
  imports WireCodec
begin

section \<open>The primitives as instances of the contracts\<close>

text \<open>
  The wire image of every primitive of the packet layer, the values its encoder accepts, and
  the interpretations: each \<open>put\<close> on both encoders is a \<open>two_pass\<close>, each \<open>get\<close> a
  \<open>codec\<close>, for the same image.
\<close>

definition wire_bool :: "bool \<Rightarrow> byte list" where
  "wire_bool b = [if b then 1 else 0]"

definition wire_bytes :: "byte list option \<Rightarrow> byte list" where
  "wire_bytes b = (case b of None \<Rightarrow> be32 (- 1) | Some b' \<Rightarrow> be32 (of_nat (length b')) @ b')"

definition wire_varint_bytes :: "byte list option \<Rightarrow> byte list" where
  "wire_varint_bytes b =
     (case b of None \<Rightarrow> put_uvarint (- 1) | Some b' \<Rightarrow> put_uvarint (of_nat (length b')) @ b')"

definition wire_compact_bytes :: "byte list \<Rightarrow> byte list" where
  "wire_compact_bytes b = put_uvarint (of_nat (length b + 1)) @ b"

definition wire_string :: "string \<Rightarrow> byte list" where
  "wire_string s = be16 (of_nat (length s)) @ go_bytes s"

definition wire_nullable_string :: "string option \<Rightarrow> byte list" where
  "wire_nullable_string s = (case s of None \<Rightarrow> be16 (- 1) | Some s' \<Rightarrow> wire_string s')"

definition wire_compact_string :: "string \<Rightarrow> byte list" where
  "wire_compact_string s = put_uvarint (of_nat (length s + 1)) @ go_bytes s"

definition wire_compact_nullable_string :: "string option \<Rightarrow> byte list" where
  "wire_compact_nullable_string s =
     (case s of None \<Rightarrow> put_uvarint 0 | Some s' \<Rightarrow> wire_compact_string s')"

definition wire_string_array :: "string list \<Rightarrow> byte list" where
  "wire_string_array xs = be32 (of_nat (length xs)) @ concat (map wire_string xs)"

definition wire_int32_array :: "32 word list option \<Rightarrow> byte list" where
  "wire_int32_array xs =
     (case xs of None \<Rightarrow> be32 (- 1) | Some ys \<Rightarrow> be32 (of_nat (length ys)) @ concat (map be32 ys))"

definition wire_int64_array :: "64 word list option \<Rightarrow> byte list" where
  "wire_int64_array xs =
     (case xs of None \<Rightarrow> be32 (- 1) | Some ys \<Rightarrow> be32 (of_nat (length ys)) @ concat (map be64 ys))"

definition short :: "'a list \<Rightarrow> bool" where
  "short xs \<longleftrightarrow> int (length xs) \<le> MaxInt16"

definition fits32 :: "'a list option \<Rightarrow> bool" where
  "fits32 xs \<longleftrightarrow> (case xs of None \<Rightarrow> True | Some ys \<Rightarrow> int (length ys) \<le> MaxInt32)"

definition short_opt :: "'a list option \<Rightarrow> bool" where
  "short_opt xs \<longleftrightarrow> (case xs of None \<Rightarrow> True | Some ys \<Rightarrow> short ys)"

lemmas wire_defs = wire_bool_def wire_bytes_def wire_varint_bytes_def wire_compact_bytes_def
  wire_string_def wire_nullable_string_def wire_compact_string_def
  wire_compact_nullable_string_def wire_string_array_def wire_int32_array_def wire_int64_array_def

subsection \<open>Lengths as machine integers\<close>

lemma sint_of_nat_small:
  assumes "n < 2 ^ (LENGTH('a) - 1)"
  shows "sint (of_nat n :: 'a::len word) = int n"
proof -
  have "sint (word_of_int (int n) :: 'a word) = signed_take_bit (LENGTH('a) - 1) (int n)"
    by (rule sint_sbintrunc')
  also have "\<dots> = int n"
  proof (rule signed_take_bit_int_eq_self)
    show "- (2 ^ (LENGTH('a) - 1)) \<le> int n" by (rule order_trans [of _ 0]) simp_all
    show "int n < 2 ^ (LENGTH('a) - 1)" using assms by (simp flip: of_nat_power_less_of_nat_cancel_iff)
  qed
  finally show ?thesis by (simp only: of_int_of_nat_eq)
qed

lemma sint_of_nat_16: "n \<le> 32767 \<Longrightarrow> sint (of_nat n :: 16 word) = int n"
  by (rule sint_of_nat_small) simp

lemma sint_of_nat_32: "n \<le> 2147483647 \<Longrightarrow> sint (of_nat n :: 32 word) = int n"
  by (rule sint_of_nat_small) simp

lemma sint_of_nat_64: "n < 2 ^ 63 \<Longrightarrow> sint (of_nat n :: 64 word) = int n"
  by (rule sint_of_nat_small) simp

lemma of_nat_not_minus_1:
  assumes "n < 2 ^ (LENGTH('a) - 1)"
  shows "(of_nat n :: 'a::len word) \<noteq> - 1"
proof
  assume "(of_nat n :: 'a word) = - 1"
  then have "sint (of_nat n :: 'a word) = - 1" by simp
  with sint_of_nat_small [OF assms] show False by simp
qed

lemma of_nat_32_not_minus_1: "n \<le> 2147483647 \<Longrightarrow> (of_nat n :: 32 word) \<noteq> - 1"
  by (rule of_nat_not_minus_1) simp

lemma of_nat_64_not_minus_1: "n < 2 ^ 63 \<Longrightarrow> (of_nat n :: 64 word) \<noteq> - 1"
  by (rule of_nat_not_minus_1) simp

subsection \<open>Encoders\<close>

lemmas put_defs = putInt8_def putInt16_def putInt32_def putInt64_def putVarint_def
  putArrayLength_def putBool_def putBytes_def putUUID_def putString_def putNullableString_def
  putStringArray_def putInt32Array_def putInt64Array_def putVarintBytes_def putCompactBytes_def
  putCompactString_def putCompactNullableString_def putCompactArrayLength_def
  putCompactNullableArrayLength_def

lemmas prep_defs = prep_putInt8_def prep_putInt16_def prep_putInt32_def prep_putInt64_def
  prep_putVarint_def prep_putArrayLength_def prep_putBool_def prep_putRawBytes_def
  prep_putBytes_def prep_putUUID_def prep_putVarintBytes_def prep_putCompactBytes_def
  prep_putString_def prep_putNullableString_def prep_putStringArray_def prep_putInt32Array_def
  prep_putInt64Array_def prep_putCompactString_def prep_putCompactNullableString_def
  prep_putCompactArrayLength_def prep_putCompactNullableArrayLength_def

lemmas real_defs = real_putInt8_def real_putInt16_def real_putInt32_def real_putInt64_def
  real_putVarint_def real_putArrayLength_def real_putBool_def real_putRawBytes_def
  real_putBytes_def real_putUUID_def real_putVarintBytes_def real_putCompactBytes_def
  real_putString_def real_putNullableString_def real_putStringArray_def real_putInt32Array_def
  real_putInt64Array_def real_putCompactString_def real_putCompactNullableString_def
  real_putCompactArrayLength_def real_putCompactNullableArrayLength_def

lemma real_writes_loop:
  "(\<And>x. real_writes (put x) (wire x)) \<Longrightarrow> real_writes (eloop put xs) (concat (map wire xs))"
  by (induction xs) (auto intro: pass_intros)

lemma prep_counts_loop:
  "list_all (\<lambda>x. prep_counts (put x) (n x)) xs \<Longrightarrow> prep_counts (eloop put xs) (sum_list (map n xs))"
  by (induction xs) (auto intro: pass_intros)

lemma prep_rejects_loop:
  "\<not> list_all ok xs \<Longrightarrow> (\<And>x. ok x \<Longrightarrow> prep_counts (put x) (n x)) \<Longrightarrow>
   (\<And>x. \<not> ok x \<Longrightarrow> prep_rejects (put x)) \<Longrightarrow> prep_rejects (eloop put xs)"
proof (induction xs)
  case (Cons x xs)
  then show ?case
    by (cases "ok x") (auto intro: prep_rejects_eseq)
qed simp

interpretation int8: two_pass putInt8 "\<lambda>v. [v]" "\<lambda>_. True"
  by unfold_locales (auto simp: put_defs prep_defs real_defs intro!: encodes_dispatch pass_intros)

interpretation int16: two_pass putInt16 be16 "\<lambda>_. True"
  by unfold_locales (auto simp: put_defs prep_defs real_defs intro!: encodes_dispatch pass_intros)

interpretation int32: two_pass putInt32 be32 "\<lambda>_. True"
  by unfold_locales (auto simp: put_defs prep_defs real_defs intro!: encodes_dispatch pass_intros)

interpretation int64: two_pass putInt64 be64 "\<lambda>_. True"
  by unfold_locales (auto simp: put_defs prep_defs real_defs intro!: encodes_dispatch pass_intros)

interpretation varint: two_pass putVarint put_uvarint "\<lambda>_. True"
  by unfold_locales (auto simp: put_defs prep_defs real_defs intro!: encodes_dispatch pass_intros)

interpretation boolean: two_pass putBool wire_bool "\<lambda>_. True"
  by unfold_locales
    (auto simp: put_defs prep_defs real_defs wire_bool_def intro!: encodes_dispatch pass_intros)

interpretation array_length: two_pass putArrayLength "\<lambda>n. be32 (of_int n)" "\<lambda>n. n \<le> MaxInt32"
  by unfold_locales
    (auto simp: put_defs prep_defs real_defs
      intro!: encodes_dispatch rejects_dispatch prep_rejects_efail pass_intros)

text \<open>The rules every variable-length primitive needs: a length, then the bytes, or a refusal.\<close>

lemmas pass_rules = encodes_dispatch rejects_dispatch prep_rejects_efail prep_rejects_eseq
  pass_intros

lemma prep_counts_string: "short s \<Longrightarrow> prep_counts (prep_putString s) (int (length (wire_string s)))"
  by (auto simp: prep_putString_def short_def wire_string_def intro!: pass_intros)

lemma prep_rejects_string: "\<not> short s \<Longrightarrow> prep_rejects (prep_putString s)"
  unfolding prep_putString_def short_def
  by (auto intro: prep_rejects_eseq(2) [OF prep_counts_add] prep_rejects_efail)

lemma real_writes_string: "real_writes (real_putString s) (wire_string s)"
  by (auto simp: real_putString_def real_putInt16_def wire_string_def intro!: pass_intros)

lemma prep_counts_compact_string:
  "short s \<Longrightarrow> prep_counts (prep_putCompactString s) (int (length (wire_compact_string s)))"
  by (auto simp: prep_putCompactString_def prep_putVarint_def short_def wire_compact_string_def
      intro!: pass_intros)

lemma prep_rejects_compact_string: "\<not> short s \<Longrightarrow> prep_rejects (prep_putCompactString s)"
  unfolding prep_putCompactString_def prep_putVarint_def short_def
  by (auto intro: prep_rejects_eseq(2) [OF prep_counts_add] prep_rejects_efail)

lemma real_writes_compact_string: "real_writes (real_putCompactString s) (wire_compact_string s)"
  by (auto simp: real_putCompactString_def real_putVarint_def wire_compact_string_def
      intro!: pass_intros)

interpretation str: two_pass putString wire_string short
  by unfold_locales
    (auto simp: put_defs intro: pass_rules prep_counts_string prep_rejects_string real_writes_string)

interpretation nullable_str: two_pass putNullableString wire_nullable_string short_opt
  by unfold_locales
    (auto simp: put_defs prep_putNullableString_def real_putNullableString_def real_putInt16_def
      wire_nullable_string_def short_opt_def split: option.splits
      intro!: encodes_dispatch rejects_dispatch pass_intros
        prep_counts_string prep_rejects_string real_writes_string)

interpretation compact_str: two_pass putCompactString wire_compact_string short
  by unfold_locales
    (auto simp: put_defs
      intro: pass_rules prep_counts_compact_string prep_rejects_compact_string
        real_writes_compact_string)

interpretation compact_nullable_str:
  two_pass putCompactNullableString wire_compact_nullable_string short_opt
  by unfold_locales
    (auto simp: put_defs prep_putCompactNullableString_def real_putCompactNullableString_def
      real_putVarint_def wire_compact_nullable_string_def short_opt_def split: option.splits
      intro!: encodes_dispatch rejects_dispatch pass_intros real_writes_put [of "[0]"]
        prep_counts_compact_string prep_rejects_compact_string real_writes_compact_string)

interpretation compact_bytes: two_pass putCompactBytes wire_compact_bytes short
proof unfold_locales
  fix b :: "byte list"
  show "encodes (putCompactBytes b) (wire_compact_bytes b)" if "short b"
    using that
    by (auto simp: put_defs prep_defs real_defs wire_compact_bytes_def short_def
        intro!: encodes_dispatch pass_intros)
  show "rejects (putCompactBytes b)" if "\<not> short b"
    using that unfolding put_defs prep_defs short_def
    by (auto intro: rejects_dispatch prep_rejects_eseq(2) [OF prep_counts_add] prep_rejects_efail)
qed

interpretation bytes: two_pass putBytes wire_bytes fits32
proof unfold_locales
  fix b :: "byte list option"
  show "encodes (putBytes b) (wire_bytes b)" if "fits32 b"
    using that
    by (auto simp: put_defs prep_defs real_defs wire_bytes_def fits32_def split: option.splits
        intro!: encodes_dispatch pass_intros)
  show "rejects (putBytes b)" if "\<not> fits32 b"
    using that unfolding put_defs prep_defs fits32_def
    by (auto split: option.splits
        intro: rejects_dispatch prep_rejects_eseq(2) [OF prep_counts_add] prep_rejects_efail)
qed

interpretation varint_bytes: two_pass putVarintBytes wire_varint_bytes fits32
proof unfold_locales
  fix b :: "byte list option"
  show "encodes (putVarintBytes b) (wire_varint_bytes b)" if "fits32 b"
    using that
    by (auto simp: put_defs prep_defs real_defs wire_varint_bytes_def fits32_def
        split: option.splits intro!: encodes_dispatch pass_intros)
  show "rejects (putVarintBytes b)" if "\<not> fits32 b"
    using that unfolding put_defs prep_defs fits32_def
    by (auto split: option.splits
        intro: rejects_dispatch prep_rejects_eseq(2) [OF prep_counts_add] prep_rejects_efail)
qed

interpretation uuid: two_pass putUUID uuid_bytes "\<lambda>_. True"
  by unfold_locales (auto simp: put_defs prep_defs real_defs intro!: encodes_dispatch pass_intros)

interpretation compact_array_length:
  two_pass putCompactArrayLength "\<lambda>n. put_uvarint (of_int (n + 1))" "\<lambda>n. 0 \<le> n \<and> n \<le> MaxInt16"
  by unfold_locales
    (auto simp: put_defs prep_defs real_defs
      intro!: encodes_dispatch rejects_dispatch prep_rejects_efail pass_intros)

interpretation compact_nullable_array_length:
  two_pass putCompactNullableArrayLength "\<lambda>n. put_uvarint (of_int (n + 1))"
    "\<lambda>n. - 1 \<le> n \<and> n \<le> MaxInt16"
  by unfold_locales
    (auto simp: put_defs prep_defs real_defs
      intro!: encodes_dispatch rejects_dispatch prep_rejects_efail pass_intros)

definition accepts_string_array :: "string list \<Rightarrow> bool" where
  "accepts_string_array xs \<longleftrightarrow> int (length xs) \<le> MaxInt32 \<and> list_all short xs"

interpretation string_array: two_pass putStringArray wire_string_array accepts_string_array
proof unfold_locales
  fix xs :: "string list"
  have sum: "sum_list (map (\<lambda>s. int (length (wire_string s))) xs)
      = int (length (concat (map wire_string xs)))"
    by (induction xs) auto
  show "encodes (putStringArray xs) (wire_string_array xs)" if "accepts_string_array xs"
  proof -
    have "prep_counts (eloop prep_putString xs) (int (length (concat (map wire_string xs))))"
      using that prep_counts_loop [of prep_putString "\<lambda>s. int (length (wire_string s))" xs]
      by (auto simp: accepts_string_array_def sum list_all_iff prep_counts_string)
    then show ?thesis
      using that
      by (auto simp: put_defs prep_putStringArray_def prep_putArrayLength_def
          real_putStringArray_def real_putArrayLength_def real_putInt32_def wire_string_array_def
          accepts_string_array_def
          intro!: encodes_dispatch prep_counts_eseq [OF prep_counts_add] real_writes_eseq
            real_writes_put real_writes_loop real_writes_string)
  qed
  show "rejects (putStringArray xs)" if "\<not> accepts_string_array xs"
  proof (cases "int (length xs) \<le> MaxInt32")
    case True
    with that have "prep_rejects (eloop prep_putString xs)"
      by (auto simp: accepts_string_array_def
          intro!: prep_rejects_loop prep_counts_string prep_rejects_string)
    with True show ?thesis
      by (auto simp: put_defs prep_putStringArray_def prep_putArrayLength_def
          intro!: rejects_dispatch prep_rejects_eseq(2) [OF prep_counts_add])
  next
    case False
    then show ?thesis
      by (auto simp: put_defs prep_putStringArray_def prep_putArrayLength_def
          intro!: rejects_dispatch prep_rejects_eseq(1) prep_rejects_efail)
  qed
qed

interpretation int32_array: two_pass putInt32Array wire_int32_array fits32
proof unfold_locales
  fix xs :: "32 word list option"
  have len: "length (concat (map be32 ys)) = 4 * length ys" for ys
    by (induction ys) auto
  show "encodes (putInt32Array xs) (wire_int32_array xs)" if "fits32 xs"
    using that
    by (auto simp: put_defs prep_putInt32Array_def prep_putArrayLength_def real_putInt32Array_def
        real_putArrayLength_def real_putInt32_def wire_int32_array_def fits32_def len MaxInt32_def
        split: option.splits
        intro!: encodes_dispatch prep_counts_eseq [OF prep_counts_add] prep_counts_add
          real_writes_eseq real_writes_put real_writes_loop)
  show "rejects (putInt32Array xs)" if "\<not> fits32 xs"
    using that
    by (auto simp: put_defs prep_putInt32Array_def prep_putArrayLength_def fits32_def
        split: option.splits intro!: rejects_dispatch prep_rejects_eseq(1) prep_rejects_efail)
qed

interpretation int64_array: two_pass putInt64Array wire_int64_array fits32
proof unfold_locales
  fix xs :: "64 word list option"
  have len: "length (concat (map be64 ys)) = 8 * length ys" for ys
    by (induction ys) auto
  show "encodes (putInt64Array xs) (wire_int64_array xs)" if "fits32 xs"
    using that
    by (auto simp: put_defs prep_putInt64Array_def prep_putArrayLength_def real_putInt64Array_def
        real_putArrayLength_def real_putInt64_def real_putInt32_def wire_int64_array_def fits32_def
        len MaxInt32_def split: option.splits
        intro!: encodes_dispatch prep_counts_eseq [OF prep_counts_add] prep_counts_add
          real_writes_eseq real_writes_put real_writes_loop)
  show "rejects (putInt64Array xs)" if "\<not> fits32 xs"
    using that
    by (auto simp: put_defs prep_putInt64Array_def prep_putArrayLength_def fits32_def
        split: option.splits intro!: rejects_dispatch prep_rejects_eseq(1) prep_rejects_efail)
qed

end
