(* ===== verification/WireReads.thy ===== *)
theory WireReads
  imports WirePrims
begin

section \<open>Every primitive reads its own image back\<close>

text \<open>
  The \<open>codec\<close> interpretations of the decoder's primitives, and \<open>message\<close> where the encoder
  side is complete as well.  Each side condition is what the encoder's own check establishes
  (\<open>short\<close>, \<open>fits32\<close>) or the decoder's extra limit on array lengths.
\<close>

lemma reads_getInt8: "reads 0 getInt8 [v] v"
  using reads_fixed [of "\<lambda>b. b ! 0" "[v]" v 1] by (simp add: getInt8_eq [abs_def])

lemma reads_getInt16: "reads 0 getInt16 (be16 v) v"
  using reads_fixed [of get_be16 "be16 v" v 2] by (simp add: getInt16_eq [abs_def])

lemma reads_getInt32: "reads 0 getInt32 (be32 v) v"
  using reads_fixed [of get_be32 "be32 v" v 4] by (simp add: getInt32_eq [abs_def])

lemma reads_getInt64: "reads 0 getInt64 (be64 v) v"
  using reads_fixed [of get_be64 "be64 v" v 8] by (simp add: getInt64_eq [abs_def])

lemma reads_getVarint: "reads 0 getVarint (put_uvarint v) v"
  by (auto simp: reads_def rd_at_def getVarint_def slice_from_def)

lemma reads_getBool: "reads 0 getBool (wire_bool b) b"
  unfolding getBool_def wire_bool_def
  by (rule reads_map [OF reads_getInt8]) auto

lemma reads_getArrayLength:
  assumes "- (2 ^ 31) \<le> n" "n \<le> 2 * MaxUint16"
  shows "reads (nat n) getArrayLength (be32 (of_int n)) n"
proof -
  have "sint (of_int n :: 32 word) = signed_take_bit 31 n"
    using sint_sbintrunc' [of n, where 'a = 32] by simp
  also have "\<dots> = n"
    using assms by (intro signed_take_bit_int_eq_self) (auto simp: MaxUint16_def)
  finally have n: "sint (of_int n :: 32 word) = n" .
  show ?thesis
    using assms
    by (auto simp: reads_def rd_at_def getArrayLength_eq Let_def remaining_def rest_def n)
qed

lemma reads_takeBytes: "reads 0 (takeBytes (int (length b))) b b"
  by (simp add: reads_def takeBytes_fits rd_at_def rest_def remaining_def)

lemma reads_make_slice: "0 \<le> n \<Longrightarrow> sz * n \<le> maxAlloc \<Longrightarrow> reads 0 (make_slice sz n) [] ()"
  by (simp add: reads_def make_slice_def)

lemma reads_getRawBytes: "reads 0 (getRawBytes (int (length b))) b b"
  by (simp add: reads_def getRawBytes_eq rd_at_def rest_def remaining_def)

lemma reads_getUUID: "reads 0 getUUID (uuid_bytes u) u"
  using reads_dbind [OF reads_getRawBytes [of "uuid_bytes u"],
      of 0 "\<lambda>r rd. (uuid_FromBytes r, rd)" "[]" u]
  by (auto simp: getUUID_def reads_def uuid_FromBytes_def)

lemma reads_check_remaining:
  "reads (nat n) (\<lambda>rd. if n > remaining rd then insufficient rd else dret n rd) [] n"
  by (auto simp: reads_def rd_at_def remaining_def dret_def)

lemma reads_getStringLength:
  assumes "n \<le> 32767"
  shows "reads n getStringLength (be16 (of_nat n)) (int n)"
proof -
  have "reads n (dbind getInt16 (\<lambda>len. let n = sint len in if n < - 1 then derr errInvalidStringLength
      else (\<lambda>rd. if n > remaining rd then insufficient rd else dret n rd)))
      (be16 (of_nat n) @ []) (int n)"
    using assms reads_check_remaining [of "int n"]
    by (intro reads_dbind [OF reads_getInt16]) (auto simp: sint_of_nat_16 Let_def)
  then show ?thesis by (simp add: getStringLength_def)
qed

lemma reads_getStringLength_null: "reads 0 getStringLength (be16 (- 1)) (- 1)"
proof -
  have "reads 0 (dbind getInt16 (\<lambda>len. let n = sint len in if n < - 1 then derr errInvalidStringLength
      else (\<lambda>rd. if n > remaining rd then insufficient rd else dret n rd)))
      (be16 (- 1) @ []) (- 1)"
    using reads_check_remaining [of "- 1"]
    by (intro reads_dbind [OF reads_getInt16]) (auto simp: Let_def)
  then show ?thesis by (simp add: getStringLength_def)
qed

lemma reads_getCompactLength:
  assumes "n < 2 ^ 63"
  shows "reads n getCompactLength (put_uvarint (of_nat (n + 1))) (int n)"
proof -
  have "reads n (dbind getVarint (\<lambda>len. let n = sint (len - 1) in
      if n < 0 then derr errInvalidCompactLength
      else (\<lambda>rd. if n > remaining rd then insufficient rd else dret n rd)))
      (put_uvarint (of_nat (n + 1)) @ []) (int n)"
    using reads_check_remaining [of "int n"]
    by (intro reads_dbind [OF reads_getVarint]) (auto simp: sint_of_nat_64 [OF assms] Let_def)
  then show ?thesis by (simp add: getCompactLength_def)
qed

lemma reads_getCompactNullableLength:
  assumes "n < 2 ^ 63"
  shows "reads n getCompactNullableLength (put_uvarint (of_nat (n + 1))) (int n)"
proof -
  have "reads n (dbind getVarint (\<lambda>len. let n = sint (len - 1) in
      if n < - 1 then derr errInvalidCompactNullableLength
      else (\<lambda>rd. if n > remaining rd then insufficient rd else dret n rd)))
      (put_uvarint (of_nat (n + 1)) @ []) (int n)"
    using reads_check_remaining [of "int n"]
    by (intro reads_dbind [OF reads_getVarint]) (auto simp: sint_of_nat_64 [OF assms] Let_def)
  then show ?thesis by (simp add: getCompactNullableLength_def)
qed

lemma reads_getCompactNullableLength_null:
  "reads 0 getCompactNullableLength (put_uvarint 0) (- 1)"
proof -
  have "reads 0 (dbind getVarint (\<lambda>len. let n = sint (len - 1) in
      if n < - 1 then derr errInvalidCompactNullableLength
      else (\<lambda>rd. if n > remaining rd then insufficient rd else dret n rd)))
      (put_uvarint 0 @ []) (- 1)"
    using reads_check_remaining [of "- 1"]
    by (intro reads_dbind [OF reads_getVarint]) (auto simp: Let_def)
  then show ?thesis by (simp only: getCompactNullableLength_def append_Nil2)
qed

lemma reads_take_string:
  "reads 0 (dbind (takeBytes (int (length s))) (\<lambda>b. dret (f (go_string b)))) (go_bytes s) (f s)"
  using reads_takeBytes [of "go_bytes s"] by (intro reads_map) auto

subsection \<open>Instances\<close>

interpretation int16: message putInt16 getInt16 be16 "\<lambda>_. True" "\<lambda>_. True"
  by unfold_locales (rule reads_getInt16)

interpretation int32: message putInt32 getInt32 be32 "\<lambda>_. True" "\<lambda>_. True"
  by unfold_locales (rule reads_getInt32)

interpretation int64: message putInt64 getInt64 be64 "\<lambda>_. True" "\<lambda>_. True"
  by unfold_locales (rule reads_getInt64)

interpretation varint: message putVarint getVarint put_uvarint "\<lambda>_. True" "\<lambda>_. True"
  by unfold_locales (rule reads_getVarint)

interpretation boolean: message putBool getBool wire_bool "\<lambda>_. True" "\<lambda>_. True"
  by unfold_locales (rule reads_getBool)

interpretation uuid: message putUUID getUUID uuid_bytes "\<lambda>_. True" "\<lambda>_. True"
  by unfold_locales (rule reads_getUUID)

interpretation str: message putString getString wire_string short short
proof unfold_locales
  fix s :: string
  assume s: "short s"
  then have "reads 0 (dbind getStringLength (\<lambda>n. if n = - 1 then dret []
      else dbind (takeBytes n) (\<lambda>b. dret (go_string b))))
      (be16 (of_nat (length s)) @ go_bytes s) s"
    using reads_take_string [of s "\<lambda>x. x"]
    by (intro reads_dbind [OF reads_getStringLength]) (auto simp: short_def MaxInt16_def)
  then show "reads 0 getString (wire_string s) s"
    by (simp add: getString_def wire_string_def)
qed

lemma reads_nullable_string:
  assumes "short_opt s"
  shows "reads 0 getNullableString (wire_nullable_string s) s"
proof (cases s)
  case None
  have "reads 0 (dbind getStringLength (\<lambda>n. if n = - 1 then dret None
      else dbind (takeBytes n) (\<lambda>b. dret (Some (go_string b))))) (be16 (- 1)) None"
    by (rule reads_map [OF reads_getStringLength_null]) simp
  with None show ?thesis by (simp add: getNullableString_def wire_nullable_string_def)
next
  case (Some t)
  with assms have "reads 0 (dbind getStringLength (\<lambda>n. if n = - 1 then dret None
      else dbind (takeBytes n) (\<lambda>b. dret (Some (go_string b)))))
      (be16 (of_nat (length t)) @ go_bytes t) (Some t)"
    using reads_take_string [of t Some]
    by (intro reads_dbind [OF reads_getStringLength]) (auto simp: short_opt_def short_def MaxInt16_def)
  with Some show ?thesis
    by (simp add: getNullableString_def wire_nullable_string_def wire_string_def)
qed

interpretation nullable_str:
  message putNullableString getNullableString wire_nullable_string short_opt short_opt
  by unfold_locales (rule reads_nullable_string)

definition fits63 :: "'a list \<Rightarrow> bool" where
  "fits63 xs \<longleftrightarrow> length xs < 2 ^ 63"

lemma short_fits63: "short xs \<Longrightarrow> fits63 xs"
  by (simp add: short_def fits63_def MaxInt16_def)

lemma reads_compact_string:
  assumes "fits63 s"
  shows "reads 0 getCompactString (wire_compact_string s) s"
proof -
  have "reads 0 (dbind getCompactLength (\<lambda>n. if n = 0 then dret []
      else dbind (takeBytes n) (\<lambda>b. dret (go_string b))))
      (put_uvarint (of_nat (length s + 1)) @ go_bytes s) s"
    using reads_take_string [of s "\<lambda>x. x"] assms
    by (intro reads_dbind [OF reads_getCompactLength])
      (auto simp: fits63_def reads_dret go_bytes_def)
  then show ?thesis by (simp add: getCompactString_def wire_compact_string_def)
qed

interpretation compact_str: message putCompactString getCompactString wire_compact_string short fits63
  by unfold_locales (rule reads_compact_string)

lemma reads_compact_nullable_string:
  assumes "case s of None \<Rightarrow> True | Some t \<Rightarrow> fits63 t"
  shows "reads 0 getCompactNullableString (wire_compact_nullable_string s) s"
proof (cases s)
  case None
  have "reads 0 (dbind getCompactNullableLength (\<lambda>n. if n < 0 then dret None
      else dbind (takeBytes n) (\<lambda>b. dret (Some (go_string b))))) (put_uvarint 0) None"
    by (rule reads_map [OF reads_getCompactNullableLength_null]) simp
  with None show ?thesis
    by (simp only: getCompactNullableString_def wire_compact_nullable_string_def option.case)
next
  case (Some t)
  with assms have "reads 0 (dbind getCompactNullableLength (\<lambda>n. if n < 0 then dret None
      else dbind (takeBytes n) (\<lambda>b. dret (Some (go_string b)))))
      (put_uvarint (of_nat (length t + 1)) @ go_bytes t) (Some t)"
    using reads_take_string [of t Some]
    by (intro reads_dbind [OF reads_getCompactNullableLength]) (auto simp: fits63_def)
  with Some show ?thesis
    by (simp add: getCompactNullableString_def wire_compact_nullable_string_def
        wire_compact_string_def)
qed

interpretation compact_nullable_str:
  message putCompactNullableString getCompactNullableString wire_compact_nullable_string
    short_opt "\<lambda>s. case s of None \<Rightarrow> True | Some t \<Rightarrow> fits63 t"
  by unfold_locales (rule reads_compact_nullable_string)

interpretation compact_bytes: message putCompactBytes getCompactBytes wire_compact_bytes short fits63
proof unfold_locales
  fix b :: "byte list"
  assume "fits63 b"
  then have "reads 0 (dbind getCompactLength (\<lambda>n. if n = 0 then dret [] else takeBytes n))
      (put_uvarint (of_nat (length b + 1)) @ b) b"
    using reads_takeBytes [of b]
    by (intro reads_dbind [OF reads_getCompactLength]) (auto simp: fits63_def reads_dret)
  then show "reads 0 getCompactBytes (wire_compact_bytes b) b"
    by (simp add: getCompactBytes_def wire_compact_bytes_def)
qed

lemma reads_raw_some:
  "reads 0 (dbind (getRawBytes (int (length b))) (\<lambda>b. dret (Some b))) b (Some b)"
  by (rule reads_map [OF reads_getRawBytes]) simp

interpretation bytes: message putBytes getBytes wire_bytes fits32 fits32
proof unfold_locales
  fix b :: "byte list option"
  assume fits: "fits32 b"
  show "reads 0 getBytes (wire_bytes b) b"
  proof (cases b)
    case None
    have "reads 0 getBytes (be32 (- 1)) None"
      unfolding getBytes_def by (rule reads_map [OF reads_getInt32]) simp
    with None show ?thesis by (simp add: wire_bytes_def)
  next
    case (Some c)
    with fits have len: "length c \<le> 2147483647" by (simp add: fits32_def MaxInt32_def)
    have "reads 0 getBytes (be32 (of_nat (length c)) @ c) (Some c)"
      unfolding getBytes_def using reads_raw_some [of c]
      by (intro reads_dbind [OF reads_getInt32])
        (auto simp: sint_of_nat_32 [OF len] of_nat_32_not_minus_1 [OF len])
    with Some show ?thesis by (simp add: wire_bytes_def)
  qed
qed

lemma reads_varint_bytes:
  assumes "case b of None \<Rightarrow> True | Some c \<Rightarrow> fits63 c"
  shows "reads 0 getVarintBytes (wire_varint_bytes b) b"
proof (cases b)
  case None
  have "reads 0 getVarintBytes (put_uvarint (- 1)) None"
    unfolding getVarintBytes_def by (rule reads_map [OF reads_getVarint]) simp
  with None show ?thesis by (simp add: wire_varint_bytes_def)
next
  case (Some c)
  with assms have len: "length c < 2 ^ 63" by (simp add: fits63_def)
  have "reads 0 getVarintBytes (put_uvarint (of_nat (length c)) @ c) (Some c)"
    unfolding getVarintBytes_def using reads_raw_some [of c]
    by (intro reads_dbind [OF reads_getVarint])
      (auto simp: sint_of_nat_64 [OF len] of_nat_64_not_minus_1 [OF len])
  with Some show ?thesis by (simp add: wire_varint_bytes_def)
qed

interpretation varint_bytes: message putVarintBytes getVarintBytes wire_varint_bytes
    fits32 "\<lambda>b. case b of None \<Rightarrow> True | Some c \<Rightarrow> fits63 c"
  by unfold_locales (rule reads_varint_bytes)

end
