(* ===== verification/SchemaFacts.thy ===== *)
theory SchemaFacts
  imports Schema WireReads
begin

section \<open>Correctness of the schema layer\<close>

text \<open>
  The wire image of a value under a type (\<open>wire_ty\<close>), the values the encoder accepts
  (\<open>accepts_ty\<close>) and the values the decoder can return (\<open>ok_ty\<close>), by recursion on the
  type.  Every type and field is an instance of the \<open>two_pass\<close> and \<open>codec\<close> contracts, so
  \<open>EncodeSchema\<close> returns the wire image, never panics, and \<open>DecodeSchema\<close> inverts it; what
  \<open>DecodeSchema\<close> returns satisfies \<open>ok_ty\<close>, and its only panic is the allocation of a
  tagged-field slice.
\<close>

subsection \<open>Images, accepted values, decodable values\<close>

definition wire_raw_tagged :: "rawTaggedField \<Rightarrow> byte list" where
  "wire_raw_tagged f = put_uvarint (rt_tag f) @ wire_varint_bytes (rt_data f)"

definition wire_tagged :: "rawTaggedField list \<Rightarrow> byte list" where
  "wire_tagged fs = put_uvarint (of_nat (length fs)) @ concat (map wire_raw_tagged fs)"

definition ok_raw_tagged :: "rawTaggedField \<Rightarrow> bool" where
  "ok_raw_tagged f \<longleftrightarrow> (case rt_data f of None \<Rightarrow> True | Some d \<Rightarrow> fits63 d)"

definition ok_tagged :: "rawTaggedField list \<Rightarrow> bool" where
  "ok_tagged fs \<longleftrightarrow> 32 * int (length fs) \<le> maxAlloc \<and> list_all ok_raw_tagged fs"

definition accepts_tagged :: "rawTaggedField list \<Rightarrow> bool" where
  "accepts_tagged fs \<longleftrightarrow> list_all (\<lambda>f. fits32 (rt_data f)) fs"

fun wire_values :: "(gvalue \<Rightarrow> byte list) list \<Rightarrow> gvalue list \<Rightarrow> byte list" where
  "wire_values (f # fs) (v # vs) = f v @ wire_values fs vs"
| "wire_values fs vs = []"

fun all_values :: "(gvalue \<Rightarrow> bool) list \<Rightarrow> gvalue list \<Rightarrow> bool" where
  "all_values [] [] = True"
| "all_values (f # fs) (v # vs) = (f v \<and> all_values fs vs)"
| "all_values fs vs = False"

definition wire_array :: "byte list \<Rightarrow> (gvalue \<Rightarrow> byte list) \<Rightarrow> gvalue list \<Rightarrow> byte list" where
  "wire_array len f xs = len @ concat (map f xs)"

fun wire_ty :: "ty \<Rightarrow> gvalue \<Rightarrow> byte list" and wire_field :: "field \<Rightarrow> gvalue \<Rightarrow> byte list" where
  "wire_ty TypeBool = (\<lambda>v. case v of VBool b \<Rightarrow> wire_bool b | _ \<Rightarrow> [])"
| "wire_ty TypeInt16 = (\<lambda>v. case v of VInt16 i \<Rightarrow> be16 i | _ \<Rightarrow> [])"
| "wire_ty TypeInt32 = (\<lambda>v. case v of VInt32 i \<Rightarrow> be32 i | _ \<Rightarrow> [])"
| "wire_ty TypeStr = (\<lambda>v. case v of VStr s \<Rightarrow> wire_string s | _ \<Rightarrow> [])"
| "wire_ty TypeNullableStr = (\<lambda>v. case v of VStrPtr s \<Rightarrow> wire_nullable_string s | _ \<Rightarrow> [])"
| "wire_ty TypeCompactStr = (\<lambda>v. case v of VStr s \<Rightarrow> wire_compact_string s | _ \<Rightarrow> [])"
| "wire_ty TypeCompactNullableStr =
     (\<lambda>v. case v of VStrPtr s \<Rightarrow> wire_compact_nullable_string s | _ \<Rightarrow> [])"
| "wire_ty TypeUuid = (\<lambda>v. case v of VUuid u \<Rightarrow> uuid_bytes u | _ \<Rightarrow> [])"
| "wire_ty (SchemaT n fs) =
     (\<lambda>v. case v of VStructPtr s \<Rightarrow> wire_values (map wire_field fs) (struct_values s) | _ \<Rightarrow> [])"
| "wire_field (Mfield n t) = wire_ty t"
| "wire_field (Array n t) =
     (\<lambda>v. case v of VArr xs \<Rightarrow> wire_array (be32 (of_nat (length xs))) (wire_ty t) xs | _ \<Rightarrow> [])"
| "wire_field (CompactArray n t) =
     (\<lambda>v. case v of VArr xs \<Rightarrow> wire_array (put_uvarint (of_nat (length xs + 1))) (wire_ty t) xs
        | _ \<Rightarrow> [])"
| "wire_field (CompactNullableArray n t) =
     (\<lambda>v. case v of VNil \<Rightarrow> put_uvarint 0
        | VArr xs \<Rightarrow> wire_array (put_uvarint (of_nat (length xs + 1))) (wire_ty t) xs
        | _ \<Rightarrow> [])"
| "wire_field (SchemaTaggedFields n) = (\<lambda>v. case v of VTagged fs \<Rightarrow> wire_tagged fs | _ \<Rightarrow> [])"

fun accepts_ty :: "ty \<Rightarrow> gvalue \<Rightarrow> bool" and accepts_field :: "field \<Rightarrow> gvalue \<Rightarrow> bool" where
  "accepts_ty TypeBool = (\<lambda>v. case v of VBool b \<Rightarrow> True | _ \<Rightarrow> False)"
| "accepts_ty TypeInt16 = (\<lambda>v. case v of VInt16 i \<Rightarrow> True | _ \<Rightarrow> False)"
| "accepts_ty TypeInt32 = (\<lambda>v. case v of VInt32 i \<Rightarrow> True | _ \<Rightarrow> False)"
| "accepts_ty TypeStr = (\<lambda>v. case v of VStr s \<Rightarrow> short s | _ \<Rightarrow> False)"
| "accepts_ty TypeNullableStr = (\<lambda>v. case v of VStrPtr s \<Rightarrow> short_opt s | _ \<Rightarrow> False)"
| "accepts_ty TypeCompactStr = (\<lambda>v. case v of VStr s \<Rightarrow> short s | _ \<Rightarrow> False)"
| "accepts_ty TypeCompactNullableStr = (\<lambda>v. case v of VStrPtr s \<Rightarrow> short_opt s | _ \<Rightarrow> False)"
| "accepts_ty TypeUuid = (\<lambda>v. case v of VUuid u \<Rightarrow> True | _ \<Rightarrow> False)"
| "accepts_ty (SchemaT n fs) =
     (\<lambda>v. case v of VStructPtr s \<Rightarrow> all_values (map accepts_field fs) (struct_values s) | _ \<Rightarrow> False)"
| "accepts_field (Mfield n t) = accepts_ty t"
| "accepts_field (Array n t) =
     (\<lambda>v. case v of VArr xs \<Rightarrow> int (length xs) \<le> MaxInt32 \<and> list_all (accepts_ty t) xs | _ \<Rightarrow> False)"
| "accepts_field (CompactArray n t) =
     (\<lambda>v. case v of VArr xs \<Rightarrow> short xs \<and> list_all (accepts_ty t) xs | _ \<Rightarrow> False)"
| "accepts_field (CompactNullableArray n t) =
     (\<lambda>v. case v of VNil \<Rightarrow> True | VArr xs \<Rightarrow> short xs \<and> list_all (accepts_ty t) xs | _ \<Rightarrow> False)"
| "accepts_field (SchemaTaggedFields n) =
     (\<lambda>v. case v of VTagged fs \<Rightarrow> accepts_tagged fs | _ \<Rightarrow> False)"

fun ok_ty :: "ty \<Rightarrow> gvalue \<Rightarrow> bool" and ok_field :: "field \<Rightarrow> gvalue \<Rightarrow> bool" where
  "ok_ty TypeBool = (\<lambda>v. case v of VBool b \<Rightarrow> True | _ \<Rightarrow> False)"
| "ok_ty TypeInt16 = (\<lambda>v. case v of VInt16 i \<Rightarrow> True | _ \<Rightarrow> False)"
| "ok_ty TypeInt32 = (\<lambda>v. case v of VInt32 i \<Rightarrow> True | _ \<Rightarrow> False)"
| "ok_ty TypeStr = (\<lambda>v. case v of VStr s \<Rightarrow> short s | _ \<Rightarrow> False)"
| "ok_ty TypeNullableStr = (\<lambda>v. case v of VStrPtr s \<Rightarrow> short_opt s | _ \<Rightarrow> False)"
| "ok_ty TypeCompactStr = (\<lambda>v. case v of VStr s \<Rightarrow> fits63 s | _ \<Rightarrow> False)"
| "ok_ty TypeCompactNullableStr =
     (\<lambda>v. case v of VStrPtr s \<Rightarrow> (case s of None \<Rightarrow> True | Some t \<Rightarrow> fits63 t) | _ \<Rightarrow> False)"
| "ok_ty TypeUuid = (\<lambda>v. case v of VUuid u \<Rightarrow> True | _ \<Rightarrow> False)"
| "ok_ty (SchemaT n fs) =
     (\<lambda>v. case v of
        VStructPtr s \<Rightarrow> struct_schema s = SchemaT n fs \<and> all_values (map ok_field fs) (struct_values s)
      | _ \<Rightarrow> False)"
| "ok_field (Mfield n t) = ok_ty t"
| "ok_field (Array n t) =
     (\<lambda>v. case v of VArr xs \<Rightarrow> int (length xs) \<le> 2 * MaxUint16 \<and> list_all (ok_ty t) xs | _ \<Rightarrow> False)"
| "ok_field (CompactArray n t) =
     (\<lambda>v. case v of VArr xs \<Rightarrow> fits63 xs \<and> list_all (ok_ty t) xs | _ \<Rightarrow> False)"
| "ok_field (CompactNullableArray n t) =
     (\<lambda>v. case v of VNil \<Rightarrow> True | VArr xs \<Rightarrow> fits63 xs \<and> list_all (ok_ty t) xs | _ \<Rightarrow> False)"
| "ok_field (SchemaTaggedFields n) = (\<lambda>v. case v of VTagged fs \<Rightarrow> ok_tagged fs | _ \<Rightarrow> False)"

subsection \<open>Encoding\<close>

lemma rejects_not_a: "rejects (not_a v what)"
  by (simp add: not_a_def rejects_efail)

lemma two_pass_case:
  assumes "\<And>v. (accepts v \<and> encodes (put v) (wire v)) \<or> (\<not> accepts v \<and> rejects (put v))"
  shows "two_pass put wire accepts"
  using assms by unfold_locales blast+

interpretation raw_tagged: two_pass rawTaggedField_encode wire_raw_tagged "\<lambda>f. fits32 (rt_data f)"
  by unfold_locales
    (auto simp: rawTaggedField_encode_def wire_raw_tagged_def
      intro: encodes_eseq rejects_eseq2 varint.put_encodes varint_bytes.put_encodes
        varint_bytes.put_rejects)

interpretation tagged: two_pass tagged_encode wire_tagged accepts_tagged
  by unfold_locales
    (auto simp: tagged_encode_def wire_tagged_def accepts_tagged_def
      intro: encodes_eseq rejects_eseq2 varint.put_encodes raw_tagged.loop_encodes
        raw_tagged.loop_rejects)

lemma two_pass_array:
  assumes e: "two_pass e w a" and l: "\<And>n :: nat. (ok n \<and> encodes (len n) (lw n)) \<or> (\<not> ok n \<and> rejects (len n))"
  shows "(ok (length xs) \<and> list_all a xs \<and>
          encodes (eseq (len (length xs)) (encodeArrayElements xs e)) (wire_array (lw (length xs)) w xs))
       \<or> (\<not> (ok (length xs) \<and> list_all a xs) \<and> rejects (eseq (len (length xs)) (encodeArrayElements xs e)))"
proof -
  have "encodes (eloop e xs) (concat (map w xs))" if "list_all a xs"
    using two_pass.loop_encodes [OF e that] .
  moreover have "rejects (eloop e xs)" if "\<not> list_all a xs"
    using two_pass.loop_rejects [OF e that] .
  ultimately show ?thesis
    using l [of "length xs"]
    by (auto simp: encodeArrayElements_def wire_array_def
        intro: encodes_eseq rejects_eseq1 rejects_eseq2)
qed

lemma array_length_cases:
  "int n \<le> MaxInt32 \<and> encodes (putArrayLength (int n)) (be32 (of_nat n)) \<or>
   \<not> int n \<le> MaxInt32 \<and> rejects (putArrayLength (int n))"
  using array_length.put_encodes [of "int n"] array_length.put_rejects [of "int n"]
  by (cases "int n \<le> MaxInt32") auto

lemma compact_array_length_cases:
  "int n \<le> MaxInt16 \<and> encodes (putCompactArrayLength (int n)) (put_uvarint (of_nat (n + 1))) \<or>
   \<not> int n \<le> MaxInt16 \<and> rejects (putCompactArrayLength (int n))"
  using compact_array_length.put_encodes [of "int n"] compact_array_length.put_rejects [of "int n"]
  by (cases "int n \<le> MaxInt16") (auto simp: add.commute)

lemma compact_nullable_array_length_cases:
  "int n \<le> MaxInt16 \<and> encodes (putCompactNullableArrayLength (int n)) (put_uvarint (of_nat (n + 1))) \<or>
   \<not> int n \<le> MaxInt16 \<and> rejects (putCompactNullableArrayLength (int n))"
  using compact_nullable_array_length.put_encodes [of "int n"]
    compact_nullable_array_length.put_rejects [of "int n"]
  by (cases "int n \<le> MaxInt16") (auto simp: add.commute)

text \<open>The fields of a struct, in order.\<close>

lemma schema_values_two_pass:
  assumes "\<And>f. f \<in> set fs \<Longrightarrow> two_pass (field_encode f) (wire_field f) (accepts_field f)"
  shows "length vs = length fs \<Longrightarrow>
    (all_values (map accepts_field fs) vs \<and>
       encodes (schema_encode_values (map field_encode fs) vs) (wire_values (map wire_field fs) vs))
    \<or> (\<not> all_values (map accepts_field fs) vs \<and>
       rejects (schema_encode_values (map field_encode fs) vs))"
  using assms
proof (induction fs arbitrary: vs)
  case Nil
  then show ?case by (simp add: encodes_eok)
next
  case (Cons f fs)
  from Cons.prems(1) obtain v vs' where vs: "vs = v # vs'" "length vs' = length fs"
    by (cases vs) auto
  have f: "two_pass (field_encode f) (wire_field f) (accepts_field f)"
    using Cons.prems(2) by simp
  have IH: "(all_values (map accepts_field fs) vs' \<and>
       encodes (schema_encode_values (map field_encode fs) vs') (wire_values (map wire_field fs) vs'))
    \<or> (\<not> all_values (map accepts_field fs) vs' \<and>
       rejects (schema_encode_values (map field_encode fs) vs'))"
    using Cons.IH [OF vs(2)] Cons.prems(2) by simp
  show ?case
    using IH two_pass.put_encodes [OF f, of v] two_pass.put_rejects [OF f, of v]
    by (cases "accepts_field f v")
      (auto simp: vs(1) intro: encodes_eseq rejects_eseq1 rejects_eseq2)
qed

lemma all_values_length: "all_values ps vs \<Longrightarrow> length vs = length ps"
  by (induction ps vs rule: all_values.induct) auto

text \<open>Each type in turn, the nested ones from their elements.\<close>

lemma two_pass_fixed:
  "two_pass (ty_encode TypeBool) (wire_ty TypeBool) (accepts_ty TypeBool)"
  "two_pass (ty_encode TypeInt16) (wire_ty TypeInt16) (accepts_ty TypeInt16)"
  "two_pass (ty_encode TypeInt32) (wire_ty TypeInt32) (accepts_ty TypeInt32)"
  "two_pass (ty_encode TypeUuid) (wire_ty TypeUuid) (accepts_ty TypeUuid)"
  by (rule two_pass_case;
      auto simp: Bool_encode_def Int16_encode_def Int32_encode_def Uuid_encode_def rejects_not_a
        intro: boolean.put_encodes int16.put_encodes int32.put_encodes uuid.put_encodes split: gvalue.splits)+

lemma two_pass_strings:
  "two_pass (ty_encode TypeStr) (wire_ty TypeStr) (accepts_ty TypeStr)"
  "two_pass (ty_encode TypeCompactStr) (wire_ty TypeCompactStr) (accepts_ty TypeCompactStr)"
  by (rule two_pass_case;
      auto simp: Str_encode_def CompactStr_encode_def rejects_not_a
        intro: str.put_encodes str.put_rejects compact_str.put_encodes compact_str.put_rejects split: gvalue.splits)+

lemma two_pass_nullable_str: "two_pass (ty_encode TypeNullableStr) (wire_ty TypeNullableStr) (accepts_ty TypeNullableStr)"
proof (rule two_pass_case)
  fix v
  show "(accepts_ty TypeNullableStr v \<and> encodes (ty_encode TypeNullableStr v) (wire_ty TypeNullableStr v))
      \<or> (\<not> accepts_ty TypeNullableStr v \<and> rejects (ty_encode TypeNullableStr v))"
    using encodes_eseq [OF encodes_eok nullable_str.put_encodes]
      rejects_eseq2 [OF encodes_eok nullable_str.put_rejects]
      rejects_eseq2 [OF encodes_eok rejects_not_a]
      rejects_eseq2 [OF nullable_str.put_encodes [of None] rejects_not_a]
    by (cases v) (auto simp: NullableStr_encode_def short_opt_def)
qed

lemma two_pass_compact_nullable_str: "two_pass (ty_encode TypeCompactNullableStr) (wire_ty TypeCompactNullableStr) (accepts_ty TypeCompactNullableStr)"
proof (rule two_pass_case)
  fix v
  show "(accepts_ty TypeCompactNullableStr v \<and>
         encodes (ty_encode TypeCompactNullableStr v) (wire_ty TypeCompactNullableStr v))
      \<or> (\<not> accepts_ty TypeCompactNullableStr v \<and> rejects (ty_encode TypeCompactNullableStr v))"
    using encodes_eseq [OF encodes_eok compact_nullable_str.put_encodes]
      rejects_eseq2 [OF encodes_eok compact_nullable_str.put_rejects]
      rejects_eseq2 [OF encodes_eok rejects_not_a]
      rejects_eseq2 [OF compact_nullable_str.put_encodes [of None] rejects_not_a]
    by (cases v) (auto simp: CompactNullableStr_encode_def short_opt_def)
qed

lemma two_pass_schema:
  assumes "\<And>f. f \<in> set fs \<Longrightarrow> two_pass (field_encode f) (wire_field f) (accepts_field f)"
  shows "two_pass (ty_encode (SchemaT n fs)) (wire_ty (SchemaT n fs)) (accepts_ty (SchemaT n fs))"
proof (rule two_pass_case)
  fix v
  show "(accepts_ty (SchemaT n fs) v \<and> encodes (ty_encode (SchemaT n fs) v) (wire_ty (SchemaT n fs) v))
      \<or> (\<not> accepts_ty (SchemaT n fs) v \<and> rejects (ty_encode (SchemaT n fs) v))"
  proof (cases v)
    case (VStructPtr s)
    show ?thesis
      using schema_values_two_pass [OF assms, of fs "struct_values s"]
        all_values_length [of "map accepts_field fs" "struct_values s"]
      by (cases "length (struct_values s) = length fs")
        (auto simp: VStructPtr schema_encode_def rejects_efail)
  qed (auto simp: schema_encode_def rejects_not_a)
qed

lemma null_array_length: "encodes (putCompactNullableArrayLength (- 1)) (put_uvarint 0)"
  using compact_nullable_array_length.put_encodes [of "- 1"] by (simp add: MaxInt16_def)

lemma two_pass_arrays:
  assumes "two_pass (ty_encode t) (wire_ty t) (accepts_ty t)"
  shows "two_pass (field_encode (Array n t)) (wire_field (Array n t)) (accepts_field (Array n t))"
    and "two_pass (field_encode (CompactArray n t)) (wire_field (CompactArray n t)) (accepts_field (CompactArray n t))"
    and "two_pass (field_encode (CompactNullableArray n t)) (wire_field (CompactNullableArray n t)) (accepts_field (CompactNullableArray n t))"
  using two_pass_array [OF assms, of "\<lambda>n. int n \<le> MaxInt32", OF array_length_cases]
    two_pass_array [OF assms, of "\<lambda>n. int n \<le> MaxInt16", OF compact_array_length_cases]
    two_pass_array [OF assms, of "\<lambda>n. int n \<le> MaxInt16", OF compact_nullable_array_length_cases] null_array_length
  by (intro two_pass_case;
      force simp: Array_encode_def CompactArray_encode_def CompactNullableArray_encode_def rejects_not_a short_def
        split: gvalue.splits)+

lemma two_pass_tagged: "two_pass (field_encode (SchemaTaggedFields n)) (wire_field (SchemaTaggedFields n)) (accepts_field (SchemaTaggedFields n))"
  by (rule two_pass_case)
    (auto simp: SchemaTaggedFields_encode_def rejects_not_a intro: tagged.put_encodes
      tagged.put_rejects split: gvalue.splits)

lemma two_pass_ty_field:
  "two_pass (ty_encode t) (wire_ty t) (accepts_ty t)"
  "two_pass (field_encode f) (wire_field f) (accepts_field f)"
proof (induction t and f rule: ty_encode_field_encode.induct)
  case (9 n fs)
  then show ?case by (rule two_pass_schema)
next
  case (10 n t)
  then show ?case by simp
qed (rule two_pass_fixed two_pass_strings two_pass_nullable_str two_pass_compact_nullable_str
    two_pass_arrays two_pass_tagged; assumption)+

interpretation ty: two_pass "ty_encode t" "wire_ty t" "accepts_ty t" for t
  by (rule two_pass_ty_field)

lemma EncodeSchema_Inr:
  "EncodeSchema (Some s) t = Inr b \<longleftrightarrow>
     accepts_ty t (VStructPtr s) \<and> b = Some (wire_ty t (VStructPtr s))
     \<and> int (length (wire_ty t (VStructPtr s))) \<le> MaxRequestSize"
  by (auto simp: EncodeSchema_def rbind_Inr_conv ty.two_passes_Inr)

lemma EncodeSchema_not_panic: "\<not> is_panic (EncodeSchema s t)"
proof (cases s)
  case (Some st)
  then show ?thesis
    using ty.two_passes_no_panic [of SchemaEncodingError t "VStructPtr st"]
    by (cases "two_passes SchemaEncodingError (ty_encode t (VStructPtr st))")
      (auto simp: EncodeSchema_def is_panic_def split: gofail.splits)
qed (simp add: EncodeSchema_def)

end
