(* ===== verification/SchemaDecode.thy ===== *)
theory SchemaDecode
  imports SchemaFacts
begin

section \<open>Decoding under a schema\<close>

text \<open>
  The decoder side of the schema layer: every type reads its own wire image back
  (\<open>codec\<close>), its only panic is the allocation of a tagged-field slice, and what it returns
  is a well-formed value of the type (\<open>ok_ty\<close>).  Reading an array back needs its length not
  to exceed the bytes that follow (the decoder's own check), so the element type must take
  at least one byte: \<open>good_ty\<close> says so of every array below a type, and all the schemas of
  the program satisfy it.
\<close>

fun pos_ty :: "ty \<Rightarrow> bool" and pos_field :: "field \<Rightarrow> bool" where
  "pos_ty (SchemaT n fs) = list_ex pos_field fs"
| "pos_ty t = True"
| "pos_field (Mfield n t) = pos_ty t"
| "pos_field f = True"

fun good_ty :: "ty \<Rightarrow> bool" and good_field :: "field \<Rightarrow> bool" where
  "good_ty (SchemaT n fs) = list_all good_field fs"
| "good_ty t = True"
| "good_field (Mfield n t) = good_ty t"
| "good_field (Array n t) = (pos_ty t \<and> good_ty t)"
| "good_field (CompactArray n t) = (pos_ty t \<and> good_ty t)"
| "good_field (CompactNullableArray n t) = (pos_ty t \<and> good_ty t)"
| "good_field (SchemaTaggedFields n) = True"

fun untagged_ty :: "ty \<Rightarrow> bool" and untagged_field :: "field \<Rightarrow> bool" where
  "untagged_ty (SchemaT n fs) = list_all untagged_field fs"
| "untagged_ty t = True"
| "untagged_field (Mfield n t) = untagged_ty t"
| "untagged_field (Array n t) = untagged_ty t"
| "untagged_field (CompactArray n t) = untagged_ty t"
| "untagged_field (CompactNullableArray n t) = untagged_ty t"
| "untagged_field (SchemaTaggedFields n) = False"

subsection \<open>No type of positive size has an empty image\<close>

lemma be_nonempty [simp]: "be16 v \<noteq> []" "be32 w \<noteq> []" "be64 x \<noteq> []"
  by (simp_all add: be16_def be32_def be64_def)

lemma wire_prim_nonempty [simp]:
  "wire_bool b \<noteq> []" "wire_string s \<noteq> []" "wire_compact_string s \<noteq> []"
  "wire_nullable_string os \<noteq> []" "wire_compact_nullable_string os \<noteq> []" "uuid_bytes u \<noteq> []"
  "wire_tagged fs \<noteq> []" "wire_array (be32 w) f xs \<noteq> []" "wire_array (put_uvarint x) f xs \<noteq> []"
  by (auto simp: wire_bool_def wire_string_def wire_compact_string_def wire_nullable_string_def
      wire_compact_nullable_string_def uuid_bytes_def wire_tagged_def wire_array_def
      split: option.splits uuid.splits)

lemma wire_values_nonempty:
  "list_ex pos_field fs \<Longrightarrow> all_values (map ok_field fs) vs \<Longrightarrow>
   (\<And>f v. f \<in> set fs \<Longrightarrow> pos_field f \<Longrightarrow> ok_field f v \<Longrightarrow> wire_field f v \<noteq> []) \<Longrightarrow>
   wire_values (map wire_field fs) vs \<noteq> []"
proof (induction fs arbitrary: vs)
  case (Cons f fs)
  then obtain v vs' where "vs = v # vs'" by (cases vs) auto
  with Cons show ?case by auto
qed simp

lemma ok_schemaE:
  assumes "ok_ty (SchemaT n fs) v"
  obtains vs where "v = VStructPtr (Struct (SchemaT n fs) vs)" "all_values (map ok_field fs) vs"
proof (cases v)
  case (VStructPtr s)
  with assms that show ?thesis by (cases s) auto
qed (use assms in auto)

lemma wire_nonempty:
  "pos_ty t \<Longrightarrow> ok_ty t v \<Longrightarrow> wire_ty t v \<noteq> []"
  "pos_field f \<Longrightarrow> ok_field f v \<Longrightarrow> wire_field f v \<noteq> []"
proof (induction t and f arbitrary: v and v rule: ty_encode_field_encode.induct)
  case (9 n fs)
  from "9.prems"(2) obtain vs where v: "v = VStructPtr (Struct (SchemaT n fs) vs)"
    and vs: "all_values (map ok_field fs) vs"
    by (rule ok_schemaE)
  with 9 show ?case
    by (auto dest: wire_values_nonempty)
qed (auto split: gvalue.splits)

lemma length_concat_ge:
  "(\<And>x. x \<in> set xs \<Longrightarrow> f x \<noteq> []) \<Longrightarrow> length xs \<le> length (concat (map f xs))"
proof (induction xs)
  case (Cons x xs)
  then have "1 \<le> length (f x)" "length xs \<le> length (concat (map f xs))"
    by (auto simp: Suc_le_eq)
  then show ?case by simp
qed simp

subsection \<open>Round trip\<close>

lemma reads_dwrap: "reads k m bs x \<Longrightarrow> reads k (dwrap s m) bs x"
  by (simp add: reads_def dwrap_def)

interpretation raw_tagged: codec rawTaggedField_decode wire_raw_tagged ok_raw_tagged
proof unfold_locales
  fix f :: rawTaggedField
  assume ok: "ok_raw_tagged f"
  have same: "\<lparr>rt_tag = rt_tag f, rt_data = rt_data f\<rparr> = f" by simp
  have d: "reads 0 (dbind getVarintBytes (\<lambda>d. dret \<lparr>rt_tag = rt_tag f, rt_data = d\<rparr>))
      (wire_varint_bytes (rt_data f)) f"
    using ok by (intro reads_map [OF varint_bytes.get_wire]) (auto simp: ok_raw_tagged_def same)
  show "reads 0 rawTaggedField_decode (wire_raw_tagged f) f"
    unfolding rawTaggedField_decode_def wire_raw_tagged_def
    by (rule reads_dbind [OF varint.get_wire [OF TrueI], where j = 0]) (simp_all add: d)
qed

interpretation tagged: codec tagged_decode wire_tagged ok_tagged
proof unfold_locales
  fix fs :: "rawTaggedField list"
  assume ok: "ok_tagged fs"
  then have n: "length fs < 2 ^ 63" "32 * int (length fs) \<le> maxAlloc"
    by (auto simp: ok_tagged_def maxAlloc_def)
  note s = sint_of_nat_64 [OF n(1)]
  show "reads 0 tagged_decode (wire_tagged fs) fs"
  proof (cases "fs = []")
    case True
    have "reads 0 tagged_decode (put_uvarint 0) []"
      unfolding tagged_decode_def by (rule reads_map [OF varint.get_wire]) simp_all
    with True show ?thesis by (simp add: wire_tagged_def)
  next
    case False
    have nz: "(of_nat (length fs) :: 64 word) \<noteq> 0"
    proof
      assume "(of_nat (length fs) :: 64 word) = 0"
      then have "sint (of_nat (length fs) :: 64 word) = 0" by simp
      with s False show False by simp
    qed
    have "reads 0 (dbind (make_slice 32 (int (length fs))) (\<lambda>_.
        dec_times (length fs) rawTaggedField_decode)) ([] @ concat (map wire_raw_tagged fs)) fs"
      using n ok
      by (intro reads_dbind [OF reads_make_slice] raw_tagged.get_list) (auto simp: ok_tagged_def)
    then show ?thesis
      unfolding tagged_decode_def wire_tagged_def
      by (intro reads_dbind [OF varint.get_wire]) (auto simp: s nz)
  qed
qed

lemma reads_elements:
  assumes "codec d w ok" "list_all ok xs"
  shows "reads 0 (decodeArrayElements (int (length xs)) d) (concat (map w xs)) (VArr xs)"
  unfolding decodeArrayElements_def
  using codec.get_list [OF assms] by (intro reads_map) auto

lemma reads_values:
  assumes "\<And>f v. f \<in> set fs \<Longrightarrow> ok_field f v \<Longrightarrow> reads 0 (field_decode f) (wire_field f v) v"
  shows "all_values (map ok_field fs) vs \<Longrightarrow>
    reads 0 (schema_decode_values (map field_decode fs)) (wire_values (map wire_field fs) vs) vs"
  using assms
proof (induction fs arbitrary: vs)
  case Nil
  then show ?case by (cases vs) (simp_all add: reads_dret)
next
  case (Cons f fs)
  then obtain v vs' where vs: "vs = v # vs'" by (cases vs) auto
  have "reads 0 (dbind (schema_decode_values (map field_decode fs)) (\<lambda>vs. dret (v # vs)))
      (wire_values (map wire_field fs) vs') (v # vs')"
    using Cons vs by (intro reads_map [OF Cons.IH]) auto
  with Cons.prems vs show ?case
    by (auto intro!: reads_dbind [where k = 0])
qed

lemma wire_length_le:
  assumes "pos_ty t" "list_all (ok_ty t) xs"
  shows "length xs \<le> length (concat (map (wire_ty t) xs))"
  using assms by (intro length_concat_ge wire_nonempty(1)) (auto simp: list_all_iff)

text \<open>Each type in turn, the nested ones from their elements.\<close>

lemma reads_scalar:
  "ok_ty TypeBool v \<Longrightarrow> reads 0 (ty_decode TypeBool) (wire_ty TypeBool v) v"
  "ok_ty TypeInt16 v \<Longrightarrow> reads 0 (ty_decode TypeInt16) (wire_ty TypeInt16 v) v"
  "ok_ty TypeInt32 v \<Longrightarrow> reads 0 (ty_decode TypeInt32) (wire_ty TypeInt32 v) v"
  "ok_ty TypeStr v \<Longrightarrow> reads 0 (ty_decode TypeStr) (wire_ty TypeStr v) v"
  "ok_ty TypeNullableStr v \<Longrightarrow> reads 0 (ty_decode TypeNullableStr) (wire_ty TypeNullableStr v) v"
  "ok_ty TypeCompactStr v \<Longrightarrow> reads 0 (ty_decode TypeCompactStr) (wire_ty TypeCompactStr v) v"
  "ok_ty TypeCompactNullableStr v \<Longrightarrow>
     reads 0 (ty_decode TypeCompactNullableStr) (wire_ty TypeCompactNullableStr v) v"
  "ok_ty TypeUuid v \<Longrightarrow> reads 0 (ty_decode TypeUuid) (wire_ty TypeUuid v) v"
  by (auto simp: Bool_decode_def Int16_decode_def Int32_decode_def Str_decode_def NullableStr_decode_def
      CompactStr_decode_def CompactNullableStr_decode_def Uuid_decode_def split: gvalue.splits
      intro: reads_map [OF boolean.get_wire] reads_map [OF int16.get_wire] reads_map [OF int32.get_wire]
        reads_map [OF str.get_wire] reads_map [OF nullable_str.get_wire] reads_map [OF compact_str.get_wire]
        reads_map [OF compact_nullable_str.get_wire] reads_map [OF uuid.get_wire])

lemma reads_schema:
  assumes "\<And>f v. f \<in> set fs \<Longrightarrow> ok_field f v \<Longrightarrow> reads 0 (field_decode f) (wire_field f v) v"
    and "ok_ty (SchemaT n fs) v"
  shows "reads 0 (ty_decode (SchemaT n fs)) (wire_ty (SchemaT n fs) v) v"
proof -
  from assms(2) obtain vs where v: "v = VStructPtr (Struct (SchemaT n fs) vs)"
    and vs: "all_values (map ok_field fs) vs"
    by (rule ok_schemaE)
  with reads_values [OF assms(1) vs] show ?thesis
    by (auto simp: schema_decode_def intro: reads_map)
qed

lemma reads_array:
  assumes "codec (ty_decode t) (wire_ty t) (ok_ty t)" "pos_ty t" "ok_field (Array n t) w"
  shows "reads 0 (field_decode (Array n t)) (wire_field (Array n t) w) w"
proof -
  from assms(3) obtain xs where v: "w = VArr xs" and xs: "list_all (ok_ty t) xs" "int (length xs) \<le> 2 * MaxUint16"
    by (cases w) auto
  show ?thesis
    using reads_getArrayLength [of "int (length xs)"] reads_elements [OF assms(1) xs(1)] xs
      wire_length_le [OF assms(2), of xs]
    by (auto simp: v Array_decode_def wire_array_def intro!: reads_dbind)
qed

lemma reads_compact_array:
  assumes "codec (ty_decode t) (wire_ty t) (ok_ty t)" "pos_ty t" "ok_field (CompactArray n t) w"
  shows "reads 0 (field_decode (CompactArray n t)) (wire_field (CompactArray n t) w) w"
proof -
  from assms(3) obtain xs where v: "w = VArr xs" and xs: "list_all (ok_ty t) xs" "fits63 xs"
    by (cases w) auto
  show ?thesis
    using reads_dwrap [OF reads_getCompactLength [of "length xs"]]
      reads_dwrap [OF reads_elements [OF assms(1) xs(1)]] xs wire_length_le [OF assms(2), of xs]
    by (auto simp: v CompactArray_decode_def getCompactArrayLength_def wire_array_def fits63_def
        intro!: reads_dbind)
qed

lemma reads_compact_nullable_array:
  assumes "codec (ty_decode t) (wire_ty t) (ok_ty t)" "pos_ty t" "ok_field (CompactNullableArray n t) w"
  shows "reads 0 (field_decode (CompactNullableArray n t)) (wire_field (CompactNullableArray n t) w) w"
proof (cases w)
  case VNil
  then show ?thesis
    by (auto simp: CompactNullableArray_decode_def getCompactNullableArrayLength_def
        simp del: put_uvarint_0 intro: reads_map [OF reads_getCompactNullableLength_null])
next
  case (VArr xs)
  with assms(3) have xs: "list_all (ok_ty t) xs" "fits63 xs" by auto
  show ?thesis
    using reads_getCompactNullableLength [of "length xs"] reads_elements [OF assms(1) xs(1)] xs
      wire_length_le [OF assms(2), of xs]
    by (auto simp: VArr CompactNullableArray_decode_def getCompactNullableArrayLength_def
        wire_array_def fits63_def intro!: reads_dbind)
qed (use assms(3) in auto)

lemma reads_ty_field:
  "good_ty t \<Longrightarrow> ok_ty t v \<Longrightarrow> reads 0 (ty_decode t) (wire_ty t v) v"
  "good_field f \<Longrightarrow> ok_field f w \<Longrightarrow> reads 0 (field_decode f) (wire_field f w) w"
proof (induction t and f arbitrary: v and w rule: ty_encode_field_encode.induct)
  case (9 n fs)
  from "9.IH" "9.prems"(1) show ?case
    by (intro reads_schema [OF _ "9.prems"(2)]) (auto simp: list_all_iff)
next
  case (11 n t)
  then show ?case by (intro reads_array) (unfold_locales, auto)
next
  case (12 n t)
  then show ?case by (intro reads_compact_array) (unfold_locales, auto)
next
  case (13 n t)
  then show ?case by (intro reads_compact_nullable_array) (unfold_locales, auto)
next
  case (14 n)
  then show ?case
    by (auto simp: SchemaTaggedFields_decode_def split: gvalue.splits
        intro: reads_map [OF tagged.get_wire])
qed ((rule reads_scalar; assumption) | simp)+

interpretation ty: message "ty_encode t" "ty_decode t" "wire_ty t" "accepts_ty t"
    "\<lambda>v. good_ty t \<and> ok_ty t v" for t
  by unfold_locales (auto intro: reads_ty_field)

lemma DecodeSchema_wire:
  assumes "good_ty t" "ok_ty t (VStructPtr s)"
  shows "DecodeSchema (Some (wire_ty t (VStructPtr s))) t = Inr (Some s)"
  using readsD [OF reads_ty_field(1) [OF assms], of "[]" "[]"]
  by (simp add: DecodeSchema_def rd_at_def)

end
