(* ===== verification/ResponseSchemas.thy ===== *)
theory ResponseSchemas
  imports SchemaDecode
begin

section \<open>The response schemas\<close>

text \<open>
  \<open>createMetadataResponseSchemaVersions\<close> and \<open>createFindCoordinatorResponseSchemaVersions\<close> of
  \<open>proxy/protocol/responses.go\<close>: one definition per schema, in the source's order and under
  its local names.  \<open>NewSchema\<close> panics on a duplicate field, so a schema is a \<open>result\<close>; the
  two package variables are initialised from the tables, and the lemmas at the end evaluate
  them: every schema exists, and lies in the class for which the schema layer is a codec.
\<close>

definition brokersKeyName :: string where
  "brokersKeyName = ''brokers''"
definition hostKeyName :: string where
  "hostKeyName = ''host''"
definition portKeyName :: string where
  "portKeyName = ''port''"
definition nodeKeyName :: string where
  "nodeKeyName = ''node_id''"
definition coordinatorKeyName :: string where
  "coordinatorKeyName = ''coordinator''"
definition coordinatorsKeyName :: string where
  "coordinatorsKeyName = ''coordinators''"

lemmas key_names = brokersKeyName_def hostKeyName_def portKeyName_def nodeKeyName_def
  coordinatorKeyName_def coordinatorsKeyName_def

definition metadataBrokerV0 :: "ty result" where
  "metadataBrokerV0 =
     NewSchema ''metadata_broker_v0'' [
       Mfield nodeKeyName TypeInt32,
       Mfield hostKeyName TypeStr,
       Mfield portKeyName TypeInt32]"

definition partitionMetadataV0 :: "ty result" where
  "partitionMetadataV0 =
     NewSchema ''partition_metadata_v0'' [
       Mfield ''error_code'' TypeInt16,
       Mfield ''partition'' TypeInt32,
       Mfield ''leader'' TypeInt32,
       Array ''replicas'' TypeInt32,
       Array ''isr'' TypeInt32]"

definition topicMetadataV0 :: "ty result" where
  "topicMetadataV0 =
     rbind partitionMetadataV0 (\<lambda>partitionMetadataV0_ty.
     NewSchema ''topic_metadata_v0'' [
       Mfield ''error_code'' TypeInt16,
       Mfield ''topic'' TypeStr,
       Array ''partition_metadata'' partitionMetadataV0_ty])"

definition metadataResponseV0 :: "ty result" where
  "metadataResponseV0 =
     rbind metadataBrokerV0 (\<lambda>metadataBrokerV0_ty.
     rbind topicMetadataV0 (\<lambda>topicMetadataV0_ty.
     NewSchema ''metadata_response_v0'' [
       Array brokersKeyName metadataBrokerV0_ty,
       Array ''topic_metadata'' topicMetadataV0_ty]))"

definition metadataBrokerV1 :: "ty result" where
  "metadataBrokerV1 =
     NewSchema ''metadata_broker_v1'' [
       Mfield nodeKeyName TypeInt32,
       Mfield hostKeyName TypeStr,
       Mfield portKeyName TypeInt32,
       Mfield ''rack'' TypeNullableStr]"

definition metadataBrokerSchema9 :: "ty result" where
  "metadataBrokerSchema9 =
     NewSchema ''metadata_broker_schema9'' [
       Mfield nodeKeyName TypeInt32,
       Mfield hostKeyName TypeCompactStr,
       Mfield portKeyName TypeInt32,
       Mfield ''rack'' TypeCompactNullableStr,
       SchemaTaggedFields ''broker_tagged_fields'']"

definition partitionMetadataV1 :: "ty result" where
  "partitionMetadataV1 = partitionMetadataV0"

definition partitionMetadataV2 :: "ty result" where
  "partitionMetadataV2 =
     NewSchema ''partition_metadata_v2'' [
       Mfield ''error_code'' TypeInt16,
       Mfield ''partition'' TypeInt32,
       Mfield ''leader'' TypeInt32,
       Array ''replicas'' TypeInt32,
       Array ''isr'' TypeInt32,
       Array ''offline_replicas'' TypeInt32]"

definition partitionMetadataV7 :: "ty result" where
  "partitionMetadataV7 =
     NewSchema ''partition_metadata_v7'' [
       Mfield ''error_code'' TypeInt16,
       Mfield ''partition'' TypeInt32,
       Mfield ''leader'' TypeInt32,
       Mfield ''leader_epoch'' TypeInt32,
       Array ''replicas'' TypeInt32,
       Array ''isr'' TypeInt32,
       Array ''offline_replicas'' TypeInt32]"

definition partitionMetadataSchema9 :: "ty result" where
  "partitionMetadataSchema9 =
     NewSchema ''partition_metadata_schema9'' [
       Mfield ''error_code'' TypeInt16,
       Mfield ''partition'' TypeInt32,
       Mfield ''leader'' TypeInt32,
       Mfield ''leader_epoch'' TypeInt32,
       CompactArray ''replicas'' TypeInt32,
       CompactArray ''isr'' TypeInt32,
       CompactArray ''offline_replicas'' TypeInt32,
       SchemaTaggedFields ''partition_metadata_tagged_fields'']"

definition topicMetadataV1 :: "ty result" where
  "topicMetadataV1 =
     rbind partitionMetadataV1 (\<lambda>partitionMetadataV1_ty.
     NewSchema ''topic_metadata_v1'' [
       Mfield ''error_code'' TypeInt16,
       Mfield ''topic'' TypeStr,
       Mfield ''is_internal'' TypeBool,
       Array ''partition_metadata'' partitionMetadataV1_ty])"

definition topicMetadataV2 :: "ty result" where
  "topicMetadataV2 =
     rbind partitionMetadataV2 (\<lambda>partitionMetadataV2_ty.
     NewSchema ''topic_metadata_v2'' [
       Mfield ''error_code'' TypeInt16,
       Mfield ''topic'' TypeStr,
       Mfield ''is_internal'' TypeBool,
       Array ''partition_metadata'' partitionMetadataV2_ty])"

definition topicMetadataV7 :: "ty result" where
  "topicMetadataV7 =
     rbind partitionMetadataV7 (\<lambda>partitionMetadataV7_ty.
     NewSchema ''topic_metadata_v7'' [
       Mfield ''error_code'' TypeInt16,
       Mfield ''topic'' TypeStr,
       Mfield ''is_internal'' TypeBool,
       Array ''partition_metadata'' partitionMetadataV7_ty])"

definition topicMetadataV8 :: "ty result" where
  "topicMetadataV8 =
     rbind partitionMetadataV7 (\<lambda>partitionMetadataV7_ty.
     NewSchema ''topic_metadata_v8'' [
       Mfield ''error_code'' TypeInt16,
       Mfield ''name'' TypeStr,
       Mfield ''is_internal'' TypeBool,
       Array ''partition_metadata'' partitionMetadataV7_ty,
       Mfield ''topic_authorized_operations'' TypeInt32])"

definition topicMetadataSchema9 :: "ty result" where
  "topicMetadataSchema9 =
     rbind partitionMetadataSchema9 (\<lambda>partitionMetadataSchema9_ty.
     NewSchema ''topic_metadata_schema9'' [
       Mfield ''error_code'' TypeInt16,
       Mfield ''name'' TypeCompactStr,
       Mfield ''is_internal'' TypeBool,
       CompactArray ''partition_metadata'' partitionMetadataSchema9_ty,
       Mfield ''topic_authorized_operations'' TypeInt32,
       SchemaTaggedFields ''topic_metadata_tagged_fields''])"

definition topicMetadataSchema10 :: "ty result" where
  "topicMetadataSchema10 =
     rbind partitionMetadataSchema9 (\<lambda>partitionMetadataSchema9_ty.
     NewSchema ''topic_metadata_schema10'' [
       Mfield ''error_code'' TypeInt16,
       Mfield ''name'' TypeCompactStr,
       Mfield ''topic_id'' TypeUuid,
       Mfield ''is_internal'' TypeBool,
       CompactArray ''partition_metadata'' partitionMetadataSchema9_ty,
       Mfield ''topic_authorized_operations'' TypeInt32,
       SchemaTaggedFields ''topic_metadata_tagged_fields''])"

definition topicMetadataSchema12 :: "ty result" where
  "topicMetadataSchema12 =
     rbind partitionMetadataSchema9 (\<lambda>partitionMetadataSchema9_ty.
     NewSchema ''topic_metadata_schema12'' [
       Mfield ''error_code'' TypeInt16,
       Mfield ''name'' TypeCompactNullableStr,
       Mfield ''topic_id'' TypeUuid,
       Mfield ''is_internal'' TypeBool,
       CompactArray ''partition_metadata'' partitionMetadataSchema9_ty,
       Mfield ''topic_authorized_operations'' TypeInt32,
       SchemaTaggedFields ''topic_metadata_tagged_fields''])"

definition metadataResponseV1 :: "ty result" where
  "metadataResponseV1 =
     rbind metadataBrokerV1 (\<lambda>metadataBrokerV1_ty.
     rbind topicMetadataV1 (\<lambda>topicMetadataV1_ty.
     NewSchema ''metadata_response_v1'' [
       Array brokersKeyName metadataBrokerV1_ty,
       Mfield ''controller_id'' TypeInt32,
       Array ''topic_metadata'' topicMetadataV1_ty]))"

definition metadataResponseV2 :: "ty result" where
  "metadataResponseV2 =
     rbind metadataBrokerV1 (\<lambda>metadataBrokerV1_ty.
     rbind topicMetadataV1 (\<lambda>topicMetadataV1_ty.
     NewSchema ''metadata_response_v2'' [
       Array brokersKeyName metadataBrokerV1_ty,
       Mfield ''cluster_id'' TypeNullableStr,
       Mfield ''controller_id'' TypeInt32,
       Array ''topic_metadata'' topicMetadataV1_ty]))"

definition metadataResponseV3 :: "ty result" where
  "metadataResponseV3 =
     rbind metadataBrokerV1 (\<lambda>metadataBrokerV1_ty.
     rbind topicMetadataV1 (\<lambda>topicMetadataV1_ty.
     NewSchema ''metadata_response_v3'' [
       Mfield ''throttle_time_ms'' TypeInt32,
       Array brokersKeyName metadataBrokerV1_ty,
       Mfield ''cluster_id'' TypeNullableStr,
       Mfield ''controller_id'' TypeInt32,
       Array ''topic_metadata'' topicMetadataV1_ty]))"

definition metadataResponseV4 :: "ty result" where
  "metadataResponseV4 = metadataResponseV3"

definition metadataResponseV5 :: "ty result" where
  "metadataResponseV5 =
     rbind metadataBrokerV1 (\<lambda>metadataBrokerV1_ty.
     rbind topicMetadataV2 (\<lambda>topicMetadataV2_ty.
     NewSchema ''metadata_response_v5'' [
       Mfield ''throttle_time_ms'' TypeInt32,
       Array brokersKeyName metadataBrokerV1_ty,
       Mfield ''cluster_id'' TypeNullableStr,
       Mfield ''controller_id'' TypeInt32,
       Array ''topic_metadata'' topicMetadataV2_ty]))"

definition metadataResponseV6 :: "ty result" where
  "metadataResponseV6 = metadataResponseV5"

definition metadataResponseV7 :: "ty result" where
  "metadataResponseV7 =
     rbind metadataBrokerV1 (\<lambda>metadataBrokerV1_ty.
     rbind topicMetadataV7 (\<lambda>topicMetadataV7_ty.
     NewSchema ''metadata_response_v7'' [
       Mfield ''throttle_time_ms'' TypeInt32,
       Array brokersKeyName metadataBrokerV1_ty,
       Mfield ''cluster_id'' TypeNullableStr,
       Mfield ''controller_id'' TypeInt32,
       Array ''topic_metadata'' topicMetadataV7_ty]))"

definition metadataResponseV8 :: "ty result" where
  "metadataResponseV8 =
     rbind metadataBrokerV1 (\<lambda>metadataBrokerV1_ty.
     rbind topicMetadataV8 (\<lambda>topicMetadataV8_ty.
     NewSchema ''metadata_response_v8'' [
       Mfield ''throttle_time_ms'' TypeInt32,
       Array brokersKeyName metadataBrokerV1_ty,
       Mfield ''cluster_id'' TypeNullableStr,
       Mfield ''controller_id'' TypeInt32,
       Array ''topic_metadata'' topicMetadataV8_ty,
       Mfield ''cluster_authorized_operations'' TypeInt32]))"

definition metadataResponseV9 :: "ty result" where
  "metadataResponseV9 =
     rbind metadataBrokerSchema9 (\<lambda>metadataBrokerSchema9_ty.
     rbind topicMetadataSchema9 (\<lambda>topicMetadataSchema9_ty.
     NewSchema ''metadata_response_v9'' [
       Mfield ''throttle_time_ms'' TypeInt32,
       CompactArray brokersKeyName metadataBrokerSchema9_ty,
       Mfield ''cluster_id'' TypeCompactNullableStr,
       Mfield ''controller_id'' TypeInt32,
       CompactArray ''topic_metadata'' topicMetadataSchema9_ty,
       Mfield ''cluster_authorized_operations'' TypeInt32,
       SchemaTaggedFields ''response_tagged_fields'']))"

definition metadataResponseV10 :: "ty result" where
  "metadataResponseV10 =
     rbind metadataBrokerSchema9 (\<lambda>metadataBrokerSchema9_ty.
     rbind topicMetadataSchema10 (\<lambda>topicMetadataSchema10_ty.
     NewSchema ''metadata_response_v10'' [
       Mfield ''throttle_time_ms'' TypeInt32,
       CompactArray brokersKeyName metadataBrokerSchema9_ty,
       Mfield ''cluster_id'' TypeCompactNullableStr,
       Mfield ''controller_id'' TypeInt32,
       CompactArray ''topic_metadata'' topicMetadataSchema10_ty,
       Mfield ''cluster_authorized_operations'' TypeInt32,
       SchemaTaggedFields ''response_tagged_fields'']))"

definition metadataResponseV11 :: "ty result" where
  "metadataResponseV11 =
     rbind metadataBrokerSchema9 (\<lambda>metadataBrokerSchema9_ty.
     rbind topicMetadataSchema10 (\<lambda>topicMetadataSchema10_ty.
     NewSchema ''metadata_response_v11'' [
       Mfield ''throttle_time_ms'' TypeInt32,
       CompactArray brokersKeyName metadataBrokerSchema9_ty,
       Mfield ''cluster_id'' TypeCompactNullableStr,
       Mfield ''controller_id'' TypeInt32,
       CompactArray ''topic_metadata'' topicMetadataSchema10_ty,
       SchemaTaggedFields ''response_tagged_fields'']))"

definition metadataResponseV12 :: "ty result" where
  "metadataResponseV12 =
     rbind metadataBrokerSchema9 (\<lambda>metadataBrokerSchema9_ty.
     rbind topicMetadataSchema12 (\<lambda>topicMetadataSchema12_ty.
     NewSchema ''metadata_response_v12'' [
       Mfield ''throttle_time_ms'' TypeInt32,
       CompactArray brokersKeyName metadataBrokerSchema9_ty,
       Mfield ''cluster_id'' TypeCompactNullableStr,
       Mfield ''controller_id'' TypeInt32,
       CompactArray ''topic_metadata'' topicMetadataSchema12_ty,
       SchemaTaggedFields ''response_tagged_fields'']))"

definition metadataResponseV13 :: "ty result" where
  "metadataResponseV13 =
     rbind metadataBrokerSchema9 (\<lambda>metadataBrokerSchema9_ty.
     rbind topicMetadataSchema12 (\<lambda>topicMetadataSchema12_ty.
     NewSchema ''metadata_response_v13'' [
       Mfield ''throttle_time_ms'' TypeInt32,
       CompactArray brokersKeyName metadataBrokerSchema9_ty,
       Mfield ''cluster_id'' TypeCompactNullableStr,
       Mfield ''controller_id'' TypeInt32,
       CompactArray ''topic_metadata'' topicMetadataSchema12_ty,
       Mfield ''error_code'' TypeInt16,
       SchemaTaggedFields ''response_tagged_fields'']))"

definition findCoordinatorBrokerV0 :: "ty result" where
  "findCoordinatorBrokerV0 =
     NewSchema ''find_coordinator_broker_v0'' [
       Mfield nodeKeyName TypeInt32,
       Mfield hostKeyName TypeStr,
       Mfield portKeyName TypeInt32]"

definition findCoordinatorBrokerSchema9 :: "ty result" where
  "findCoordinatorBrokerSchema9 =
     NewSchema ''find_coordinator_broker_schema9'' [
       Mfield nodeKeyName TypeInt32,
       Mfield hostKeyName TypeCompactStr,
       Mfield portKeyName TypeInt32]"

definition findCoordinatorResponseV0 :: "ty result" where
  "findCoordinatorResponseV0 =
     rbind findCoordinatorBrokerV0 (\<lambda>findCoordinatorBrokerV0_ty.
     NewSchema ''find_coordinator_response_v0'' [
       Mfield ''error_code'' TypeInt16,
       Mfield coordinatorKeyName findCoordinatorBrokerV0_ty])"

definition findCoordinatorResponseV1 :: "ty result" where
  "findCoordinatorResponseV1 =
     rbind findCoordinatorBrokerV0 (\<lambda>findCoordinatorBrokerV0_ty.
     NewSchema ''find_coordinator_response_v1'' [
       Mfield ''throttle_time_ms'' TypeInt32,
       Mfield ''error_code'' TypeInt16,
       Mfield ''error_message'' TypeNullableStr,
       Mfield coordinatorKeyName findCoordinatorBrokerV0_ty])"

definition findCoordinatorResponseV2 :: "ty result" where
  "findCoordinatorResponseV2 = findCoordinatorResponseV1"

definition findCoordinatorResponseV3 :: "ty result" where
  "findCoordinatorResponseV3 =
     rbind findCoordinatorBrokerSchema9 (\<lambda>findCoordinatorBrokerSchema9_ty.
     NewSchema ''find_coordinator_response_v3'' [
       Mfield ''throttle_time_ms'' TypeInt32,
       Mfield ''error_code'' TypeInt16,
       Mfield ''error_message'' TypeCompactNullableStr,
       Mfield coordinatorKeyName findCoordinatorBrokerSchema9_ty,
       SchemaTaggedFields ''response_tagged_fields''])"

definition findCoordinatorCoordinatorsSchema4 :: "ty result" where
  "findCoordinatorCoordinatorsSchema4 =
     rbind findCoordinatorBrokerSchema9 (\<lambda>findCoordinatorBrokerSchema9_ty.
     NewSchema ''find_coordinator_coordinators_schema4'' [
       Mfield ''key'' TypeCompactStr,
       Mfield coordinatorKeyName findCoordinatorBrokerSchema9_ty,
       Mfield ''error_code'' TypeInt16,
       Mfield ''error_message'' TypeCompactNullableStr,
       SchemaTaggedFields ''coordinators_tagged_fields''])"

definition findCoordinatorResponseV4 :: "ty result" where
  "findCoordinatorResponseV4 =
     rbind findCoordinatorCoordinatorsSchema4 (\<lambda>findCoordinatorCoordinatorsSchema4_ty.
     NewSchema ''find_coordinator_response_v4'' [
       Mfield ''throttle_time_ms'' TypeInt32,
       CompactArray coordinatorsKeyName findCoordinatorCoordinatorsSchema4_ty,
       SchemaTaggedFields ''response_tagged_fields''])"

definition findCoordinatorResponseV5 :: "ty result" where
  "findCoordinatorResponseV5 = findCoordinatorResponseV4"

definition findCoordinatorResponseV6 :: "ty result" where
  "findCoordinatorResponseV6 = findCoordinatorResponseV5"

text \<open>Each entry of a table is evaluated in turn; the first panic is the panic of the table.\<close>

fun all_schemas :: "ty result list \<Rightarrow> ty list result" where
  "all_schemas [] = Inr []"
| "all_schemas (r # rs) = rbind r (\<lambda>t. rbind (all_schemas rs) (\<lambda>ts. Inr (t # ts)))"

definition createMetadataResponseSchemaVersions :: "ty list result" where
  "createMetadataResponseSchemaVersions = all_schemas [
     metadataResponseV0, metadataResponseV1, metadataResponseV2, metadataResponseV3,
     metadataResponseV4, metadataResponseV5, metadataResponseV6, metadataResponseV7,
     metadataResponseV8, metadataResponseV9, metadataResponseV10, metadataResponseV11,
     metadataResponseV12, metadataResponseV13]"

definition createFindCoordinatorResponseSchemaVersions :: "ty list result" where
  "createFindCoordinatorResponseSchemaVersions = all_schemas [
     findCoordinatorResponseV0, findCoordinatorResponseV1, findCoordinatorResponseV2,
     findCoordinatorResponseV3, findCoordinatorResponseV4, findCoordinatorResponseV5,
     findCoordinatorResponseV6]"

text \<open>
  The package variables.  A panic here would stop the program while it starts; the lemmas
  below show that there is none.
\<close>

definition init_schema :: "ty result \<Rightarrow> ty" where
  "init_schema r = (case r of Inr t \<Rightarrow> t | Inl _ \<Rightarrow> SchemaT [] [])"

definition init_table :: "ty list result \<Rightarrow> ty list" where
  "init_table r = (case r of Inr ts \<Rightarrow> ts | Inl _ \<Rightarrow> [])"

definition metadataResponseSchemaVersions :: "ty list" where
  "metadataResponseSchemaVersions = init_table createMetadataResponseSchemaVersions"

definition findCoordinatorResponseSchemaVersions :: "ty list" where
  "findCoordinatorResponseSchemaVersions = init_table createFindCoordinatorResponseSchemaVersions"

lemmas schema_defs = metadataBrokerV0_def partitionMetadataV0_def topicMetadataV0_def
  metadataResponseV0_def metadataBrokerV1_def metadataBrokerSchema9_def partitionMetadataV1_def
  partitionMetadataV2_def partitionMetadataV7_def partitionMetadataSchema9_def
  topicMetadataV1_def topicMetadataV2_def topicMetadataV7_def topicMetadataV8_def
  topicMetadataSchema9_def topicMetadataSchema10_def topicMetadataSchema12_def
  metadataResponseV1_def metadataResponseV2_def metadataResponseV3_def metadataResponseV4_def
  metadataResponseV5_def metadataResponseV6_def metadataResponseV7_def metadataResponseV8_def
  metadataResponseV9_def metadataResponseV10_def metadataResponseV11_def metadataResponseV12_def
  metadataResponseV13_def findCoordinatorBrokerV0_def findCoordinatorBrokerSchema9_def
  findCoordinatorResponseV0_def findCoordinatorResponseV1_def findCoordinatorResponseV2_def
  findCoordinatorResponseV3_def findCoordinatorCoordinatorsSchema4_def
  findCoordinatorResponseV4_def findCoordinatorResponseV5_def findCoordinatorResponseV6_def

subsection \<open>The tables evaluate\<close>

lemma NewSchema_distinct:
  "distinct (map field_GetName fs) \<Longrightarrow> NewSchema n fs = Inr (SchemaT n fs)"
proof -
  have "newSchema_loop seen fs = Inr ()"
    if "distinct (map field_GetName fs)" "set seen \<inter> field_GetName ` set fs = {}" for seen
    using that by (induction fs arbitrary: seen) auto
  then show "distinct (map field_GetName fs) \<Longrightarrow> NewSchema n fs = Inr (SchemaT n fs)"
    by (simp add: NewSchema_def)
qed

lemma createMetadata_ok:
  "createMetadataResponseSchemaVersions = Inr metadataResponseSchemaVersions"
  by code_simp

lemma createFindCoordinator_ok:
  "createFindCoordinatorResponseSchemaVersions = Inr findCoordinatorResponseSchemaVersions"
  by code_simp

lemma schema_tables_length:
  "length metadataResponseSchemaVersions = 14" "length findCoordinatorResponseSchemaVersions = 7"
  by code_simp+

lemma schema_tables_good:
  "list_all good_ty metadataResponseSchemaVersions"
  "list_all good_ty findCoordinatorResponseSchemaVersions"
  by code_simp+

text \<open>The versions with tagged fields are the flexible ones: metadata from 9, find-coordinator from 3.\<close>

lemma schema_tables_untagged:
  "map untagged_ty metadataResponseSchemaVersions = replicate 9 True @ replicate 5 False"
  "map untagged_ty findCoordinatorResponseSchemaVersions = replicate 3 True @ replicate 4 False"
  by code_simp+

end
