(* ===== verification/SchemaSafety.thy ===== *)
theory SchemaSafety
  imports SchemaDecode
begin

section \<open>What schema decoding can return, and how it can fail\<close>

text \<open>
  Decoding under any schema keeps the decoder inside its buffer and can panic in one place
  only, the allocation of the slice of a \<open>SchemaTaggedFields\<close>: a type without tagged fields
  decodes without panics (\<open>safe_ty_field\<close>).  What a decoder returns is a well-formed value of
  its type (\<open>yields_ty_field\<close>), so that every decoded struct can be taken apart by the
  response modifiers without a failing type assertion.
\<close>

subsection \<open>Panics\<close>

definition makeslice_panic :: string where
  "makeslice_panic = ''makeslice: len out of range''"

lemma safe_make_slice: "makeslice_panic \<in> A \<Longrightarrow> safe_dec A (make_slice sz n)"
  by (auto simp: safe_dec_def safe_step_def make_slice_def makeslice_panic_def)

lemma safe_rawTaggedField_decode [safe_intros]: "safe_dec A rawTaggedField_decode"
  unfolding rawTaggedField_decode_def by (intro safe_intros)

lemma safe_tagged_decode: "makeslice_panic \<in> A \<Longrightarrow> safe_dec A tagged_decode"
  unfolding tagged_decode_def by (intro safe_intros safe_make_slice)

lemma safe_decodeArrayElements [safe_intros]: "safe_dec A m \<Longrightarrow> safe_dec A (decodeArrayElements n m)"
  unfolding decodeArrayElements_def by (intro safe_intros)

lemma safe_dwrap [safe_intros]: "safe_dec A m \<Longrightarrow> safe_dec A (dwrap s m)"
  by (fastforce simp: safe_dec_def safe_step_def dwrap_def split: prod.splits sum.splits gofail.splits)

lemma safe_schema_decode_values:
  "(\<And>m. m \<in> set ms \<Longrightarrow> safe_dec A m) \<Longrightarrow> safe_dec A (schema_decode_values ms)"
  by (induction ms) (auto intro!: safe_intros)

lemma safe_ty_field:
  "makeslice_panic \<in> A \<or> untagged_ty t \<Longrightarrow> safe_dec A (ty_decode t)"
  "makeslice_panic \<in> A \<or> untagged_field f \<Longrightarrow> safe_dec A (field_decode f)"
proof (induction t and f rule: ty_encode_field_encode.induct)
  case (9 n fs)
  then show ?case
    by (auto simp: schema_decode_def list_all_iff intro!: safe_dbind safe_schema_decode_values safe_dret)
next
  case (14 n)
  then show ?case
    by (auto simp: SchemaTaggedFields_decode_def intro!: safe_dbind safe_tagged_decode safe_dret)
qed (auto simp: Bool_decode_def Int16_decode_def Int32_decode_def Str_decode_def
    NullableStr_decode_def CompactStr_decode_def CompactNullableStr_decode_def Uuid_decode_def
    Array_decode_def CompactArray_decode_def CompactNullableArray_decode_def
    getCompactArrayLength_def getCompactNullableArrayLength_def intro!: safe_intros)

lemma DecodeSchema_panic_conv:
  "DecodeSchema (Some b) t = Inl (GoPanic s) \<longleftrightarrow>
     fst (ty_decode t \<lparr>rd_raw = b, rd_off = 0\<rparr>) = Inl (GoPanic s)"
  by (auto simp: DecodeSchema_def split: prod.splits sum.splits gvalue.splits)

lemma DecodeSchema_panics:
  assumes "DecodeSchema buf t = Inl (GoPanic s)"
  shows "s = makeslice_panic \<and> \<not> untagged_ty t"
proof (cases buf)
  case (Some b)
  have step: "safe_step A \<lparr>rd_raw = b, rd_off = 0\<rparr> (ty_decode t \<lparr>rd_raw = b, rd_off = 0\<rparr>)"
    if "makeslice_panic \<in> A \<or> untagged_ty t" for A
    using safe_ty_field(1) [OF that] by (auto simp: safe_dec_def rd_ok_def)
  have s: "fst (ty_decode t \<lparr>rd_raw = b, rd_off = 0\<rparr>) = Inl (GoPanic s)"
    using assms by (simp add: Some DecodeSchema_panic_conv)
  from step [of "{makeslice_panic}"] s have "s = makeslice_panic" by (simp add: safe_step_def)
  moreover from step [of "{}"] s have "\<not> untagged_ty t" by (auto simp: safe_step_def)
  ultimately show ?thesis ..
qed (use assms in \<open>simp add: DecodeSchema_def\<close>)

subsection \<open>Well-formed results\<close>

definition yields :: "('a \<Rightarrow> bool) \<Rightarrow> 'a dec \<Rightarrow> bool" where
  "yields P m \<longleftrightarrow> (\<forall>rd a rd'. m rd = (Inr a, rd') \<longrightarrow> P a)"

lemma yieldsD: "yields P m \<Longrightarrow> m rd = (Inr a, rd') \<Longrightarrow> P a"
  by (auto simp: yields_def)

lemma yields_dbind: "yields P m \<Longrightarrow> (\<And>a. P a \<Longrightarrow> yields Q (f a)) \<Longrightarrow> yields Q (dbind m f)"
  unfolding yields_def dbind_Inr by blast

lemma yields_mono: "yields P m \<Longrightarrow> (\<And>a. P a \<Longrightarrow> Q a) \<Longrightarrow> yields Q m"
  unfolding yields_def by blast

lemma yields_map: "yields P m \<Longrightarrow> (\<And>a. P a \<Longrightarrow> Q (g a)) \<Longrightarrow> yields Q (dbind m (\<lambda>a. dret (g a)))"
  by (auto simp: yields_def dbind_Inr dret_def)

lemma yields_any: "yields (\<lambda>_. True) m"
  by (simp add: yields_def)

lemma yields_derr: "yields P (derr e)"
  by (simp add: yields_def derr_def)

lemma yields_dret: "P a \<Longrightarrow> yields P (dret a)"
  by (simp add: yields_def dret_def)

lemma yields_if: "(b \<Longrightarrow> yields P m) \<Longrightarrow> (\<not> b \<Longrightarrow> yields P n) \<Longrightarrow> yields P (if b then m else n)"
  by simp

lemma yields_dwrap: "yields P m \<Longrightarrow> yields P (dwrap s m)"
  by (auto simp: yields_def dwrap_def split: prod.splits sum.splits gofail.splits)

lemma yields_dec_times:
  assumes "yields P m"
  shows "yields (\<lambda>xs. length xs = n \<and> list_all P xs) (dec_times n m)"
proof (induction n)
  case (Suc n)
  then show ?case
    by (auto intro!: yields_dbind [OF assms] yields_map [OF Suc])
qed (simp add: yields_dret)

lemma yields_takeBytes: "yields (\<lambda>b. int (length b) \<le> max 0 n) (takeBytes n)"
  by (auto simp: yields_def takeBytes_def go_slice_def split: if_splits sum.splits)

lemma yields_getRawBytes: "yields (\<lambda>b. int (length b) \<le> n) (getRawBytes n)"
  by (auto simp: yields_def getRawBytes_eq derr_def insufficient_def)

lemma sint_le:
  "sint (v :: 16 word) \<le> 32767" "sint (w :: 64 word) \<le> 9223372036854775807"
  using sint_lt [of v] sint_lt [of w] by simp_all

lemma yields_getStringLength: "yields (\<lambda>n. - 1 \<le> n \<and> n \<le> MaxInt16) getStringLength"
  by (auto simp: yields_def getStringLength_def dbind_Inr Let_def derr_def dret_def insufficient_def
      MaxInt16_def sint_le split: if_splits)

lemma yields_getCompactLength: "yields (\<lambda>n. 0 \<le> n \<and> n < 2 ^ 63) getCompactLength"
  by (auto simp: yields_def getCompactLength_def dbind_Inr Let_def derr_def dret_def insufficient_def
      split: if_splits intro: le_less_trans [OF sint_le(2)])

lemma yields_getCompactNullableLength: "yields (\<lambda>n. - 1 \<le> n \<and> n < 2 ^ 63) getCompactNullableLength"
  by (auto simp: yields_def getCompactNullableLength_def dbind_Inr Let_def derr_def dret_def
      insufficient_def split: if_splits intro: le_less_trans [OF sint_le(2)])

lemma yields_getArrayLength: "yields (\<lambda>n. n \<le> 2 * MaxUint16) getArrayLength"
  by (auto simp: yields_def getArrayLength_eq Let_def derr_def insufficient_def split: if_splits)

lemma yields_take_string:
  "(\<And>s. int (length s) \<le> max 0 n \<Longrightarrow> Q (g s)) \<Longrightarrow>
   yields Q (dbind (takeBytes n) (\<lambda>b. dret (g (go_string b))))"
  by (rule yields_map [OF yields_takeBytes]) simp

lemma yields_getString: "yields short getString"
  unfolding getString_def
  by (rule yields_dbind [OF yields_getStringLength])
    (auto intro!: yields_if yields_dret yields_take_string simp: short_def MaxInt16_def)

lemma yields_getNullableString: "yields short_opt getNullableString"
  unfolding getNullableString_def
  by (rule yields_dbind [OF yields_getStringLength])
    (auto intro!: yields_if yields_dret yields_take_string simp: short_opt_def short_def MaxInt16_def)

lemma yields_getCompactString: "yields fits63 getCompactString"
  unfolding getCompactString_def
  by (rule yields_dbind [OF yields_getCompactLength])
    (auto intro!: yields_if yields_dret yields_take_string simp: fits63_def)

lemma yields_getCompactNullableString:
  "yields (\<lambda>s. case s of None \<Rightarrow> True | Some t \<Rightarrow> fits63 t) getCompactNullableString"
  unfolding getCompactNullableString_def
  by (rule yields_dbind [OF yields_getCompactNullableLength])
    (auto intro!: yields_if yields_dret yields_take_string simp: fits63_def)

lemma yields_getVarintBytes:
  "yields (\<lambda>b. case b of None \<Rightarrow> True | Some d \<Rightarrow> fits63 d) getVarintBytes"
  unfolding getVarintBytes_def
  by (rule yields_dbind [OF yields_any])
    (auto intro!: yields_if yields_dret yields_map [OF yields_getRawBytes] simp: fits63_def
      dest!: order.trans [OF _ sint_le(2)])

lemma yields_rawTaggedField: "yields ok_raw_tagged rawTaggedField_decode"
  unfolding rawTaggedField_decode_def
  by (intro yields_dbind [OF yields_any] yields_map [OF yields_getVarintBytes])
    (auto simp: ok_raw_tagged_def)

lemma yields_tagged: "yields ok_tagged tagged_decode"
proof -
  have *: "yields ok_tagged (dbind (make_slice 32 n)
      (\<lambda>_. dec_times (nat n) rawTaggedField_decode))" for n
    using yieldsD [OF yields_dec_times [OF yields_rawTaggedField]]
    by (fastforce simp: yields_def dbind_Inr make_slice_def ok_tagged_def split: if_splits)
  show ?thesis
    unfolding tagged_decode_def
    by (rule yields_dbind [OF yields_any])
      (auto intro!: yields_if yields_dret yields_derr * simp: ok_tagged_def maxAlloc_def)
qed

lemma yields_elements:
  assumes "yields P m"
  shows "yields (\<lambda>v. \<exists>xs. v = VArr xs \<and> length xs = nat n \<and> list_all P xs)
    (decodeArrayElements n m)"
  unfolding decodeArrayElements_def by (rule yields_map [OF yields_dec_times [OF assms]]) auto

lemma yields_values:
  "(\<And>f. f \<in> set fs \<Longrightarrow> yields (ok_field f) (field_decode f)) \<Longrightarrow>
   yields (all_values (map ok_field fs)) (schema_decode_values (map field_decode fs))"
proof (induction fs)
  case (Cons f fs)
  then have "yields (ok_field f) (field_decode f)"
    "yields (all_values (map ok_field fs)) (schema_decode_values (map field_decode fs))" by auto
  then show ?case
    by (auto intro!: yields_dbind [of "ok_field f"] yields_map)
qed (auto intro: yields_dret)

lemma yields_ty_field:
  "yields (ok_ty t) (ty_decode t)"
  "yields (ok_field f) (field_decode f)"
proof (induction t and f rule: ty_encode_field_encode.induct)
  case (9 n fs)
  have "yields (all_values (map ok_field fs)) (schema_decode_values (map field_decode fs))"
    using 9 by (intro yields_values)
  then show ?case by (auto simp: schema_decode_def intro: yields_map)
next
  case (11 n t)
  show ?case
    by (auto simp: Array_decode_def MaxUint16_def intro!: yields_dbind [OF yields_getArrayLength]
        yields_mono [OF yields_elements [OF 11]])
next
  case (12 n t)
  show ?case
    by (auto simp: CompactArray_decode_def getCompactArrayLength_def fits63_def
        intro!: yields_dbind [OF yields_dwrap [OF yields_getCompactLength]] yields_dwrap
          yields_mono [OF yields_elements [OF 12]])
next
  case (13 n t)
  show ?case
    by (auto simp: CompactNullableArray_decode_def getCompactNullableArrayLength_def fits63_def
        intro!: yields_dbind [OF yields_getCompactNullableLength] yields_if yields_dret
          yields_mono [OF yields_elements [OF 13]])
qed (auto simp: Bool_decode_def Int16_decode_def Int32_decode_def Str_decode_def
    NullableStr_decode_def CompactStr_decode_def CompactNullableStr_decode_def Uuid_decode_def
    SchemaTaggedFields_decode_def
    intro: yields_map [OF yields_any] yields_map [OF yields_getString]
      yields_map [OF yields_getNullableString] yields_map [OF yields_getCompactString]
      yields_map [OF yields_getCompactNullableString] yields_map [OF yields_tagged])

lemma DecodeSchema_ok:
  assumes "DecodeSchema buf t = Inr (Some s)"
  shows "ok_ty t (VStructPtr s)"
proof (cases buf)
  case (Some b)
  obtain r rd where d: "ty_decode t \<lparr>rd_raw = b, rd_off = 0\<rparr> = (r, rd)" by force
  with assms Some have "r = Inr (VStructPtr s)"
    by (auto simp: DecodeSchema_def split: sum.splits if_splits gvalue.splits)
  with d show ?thesis by (auto intro: yieldsD [OF yields_ty_field(1)])
qed (use assms in \<open>simp add: DecodeSchema_def\<close>)

end
