(* ===== verification/StructAccess.thy ===== *)
theory StructAccess
  imports SchemaSafety
begin

section \<open>Access to the fields of a decoded struct\<close>

text \<open>
  What \<open>Struct.Get\<close> and \<open>Struct.Replace\<close> do on a struct that is a value of its own schema
  (\<open>wf_struct\<close>, which every decoded struct is): a read gives a value of the field's type, a
  write to a field of the schema succeeds with a value of the same kind, is read back by the
  next read, and leaves the other fields alone.  \<open>struct_set\<close> is the assignment to a slot.
\<close>

definition struct_set :: "gstruct \<Rightarrow> string \<Rightarrow> gvalue \<Rightarrow> gstruct" where
  "struct_set s name v =
     (case ty_GetFieldsByName (struct_schema s) name of
        None \<Rightarrow> s
      | Some i \<Rightarrow> Struct (struct_schema s) ((struct_values s)[i := v]))"

definition field_at :: "ty \<Rightarrow> string \<Rightarrow> field option" where
  "field_at t name = map_option (\<lambda>i. ty_GetFields t ! i) (ty_GetFieldsByName t name)"

definition wf_struct :: "gstruct \<Rightarrow> bool" where
  "wf_struct s \<longleftrightarrow> (\<exists>n fs. struct_schema s = SchemaT n fs) \<and> ok_ty (struct_schema s) (VStructPtr s)"

text \<open>The weaker property that a write of any value keeps: one value per field.\<close>

definition shaped :: "gstruct \<Rightarrow> bool" where
  "shaped s \<longleftrightarrow> length (struct_values s) = length (ty_GetFields (struct_schema s))"

definition encodable :: "gstruct \<Rightarrow> bool" where
  "encodable s \<longleftrightarrow> accepts_ty (struct_schema s) (VStructPtr s)"

lemma fields_index_Some:
  "fields_index i fs name = Some j \<Longrightarrow>
     i \<le> j \<and> j - i < length fs \<and> field_GetName (fs ! (j - i)) = name"
proof (induction fs arbitrary: i)
  case (Cons f fs)
  show ?case
  proof (cases "field_GetName f = name")
    case False
    with Cons.IH [of "Suc i"] Cons.prems have "Suc i \<le> j" "j - Suc i < length fs"
      "field_GetName (fs ! (j - Suc i)) = name" by auto
    then show ?thesis by (cases "j - i") (auto simp: Suc_diff_le diff_Suc split: nat.splits)
  qed (use Cons.prems in auto)
qed simp

lemma all_values_nth:
  "all_values (map p fs) vs \<Longrightarrow> i < length fs \<Longrightarrow> p (fs ! i) (vs ! i)"
proof (induction fs arbitrary: vs i)
  case (Cons f fs)
  then obtain v vs' where "vs = v # vs'" by (cases vs) auto
  with Cons show ?case by (cases i) auto
qed simp

lemma all_values_update:
  "all_values (map p fs) vs \<Longrightarrow> i < length fs \<Longrightarrow> p (fs ! i) v \<Longrightarrow> all_values (map p fs) (vs[i := v])"
proof (induction fs arbitrary: vs i)
  case (Cons f fs)
  then obtain w vs' where "vs = w # vs'" by (cases vs) auto
  with Cons show ?case by (cases i) auto
qed simp

lemma index_distinct:
  assumes "ty_GetFieldsByName t name = Some i" "ty_GetFieldsByName t name' = Some j" "name \<noteq> name'"
  shows "i \<noteq> j"
  using assms fields_index_Some [of 0 "ty_GetFields t" name i]
    fields_index_Some [of 0 "ty_GetFields t" name' j]
  by (auto simp: ty_GetFieldsByName_def)

lemma field_atE:
  assumes "field_at t name = Some f"
  obtains i where "ty_GetFieldsByName t name = Some i" "i < length (ty_GetFields t)"
    "f = ty_GetFields t ! i" "field_GetName f = name"
  using assms fields_index_Some [of 0 "ty_GetFields t" name]
  by (auto simp: field_at_def ty_GetFieldsByName_def)

lemma wf_structE:
  assumes "wf_struct s"
  obtains n fs vs where "s = Struct (SchemaT n fs) vs" "all_values (map ok_field fs) vs"
    "length vs = length fs"
proof (cases s)
  case (Struct t vs)
  with assms obtain n fs where t: "t = SchemaT n fs" and vs: "all_values (map ok_field fs) vs"
    by (auto simp: wf_struct_def)
  from all_values_length [OF vs] that [OF _ vs] show ?thesis by (simp add: Struct t)
qed

lemma wf_struct_shaped: "wf_struct s \<Longrightarrow> shaped s"
  by (auto simp: shaped_def elim!: wf_structE)

lemma wf_struct_Get:
  assumes "wf_struct s" "field_at (struct_schema s) name = Some f"
  shows "ok_field f (Struct_Get s name)"
proof -
  from assms(1) obtain n fs vs where s: "s = Struct (SchemaT n fs) vs"
    "all_values (map ok_field fs) vs" "length vs = length fs" by (rule wf_structE)
  from assms(2) show ?thesis
    by (rule field_atE) (use s in \<open>auto simp: Struct_Get_def all_values_nth\<close>)
qed

lemma Struct_Get_absent:
  "field_at (struct_schema s) name = None \<Longrightarrow> Struct_Get s name = VNil"
  by (simp add: field_at_def Struct_Get_def)

lemma struct_set_schema [simp]: "struct_schema (struct_set s name v) = struct_schema s"
  by (simp add: struct_set_def split: option.splits)

lemma struct_set_shaped [simp]: "shaped (struct_set s name v) \<longleftrightarrow> shaped s"
  by (simp add: shaped_def struct_set_def split: option.splits)

lemma Struct_Get_set:
  assumes "shaped s" "field_at (struct_schema s) name = Some f"
  shows "Struct_Get (struct_set s name v) name = v"
  using assms by (auto simp: shaped_def Struct_Get_def struct_set_def elim!: field_atE)

lemma Struct_Get_set_other:
  assumes "name' \<noteq> name"
  shows "Struct_Get (struct_set s name v) name' = Struct_Get s name'"
  using assms index_distinct [of "struct_schema s" name _ name']
  by (auto simp: Struct_Get_def struct_set_def split: option.splits)

lemma struct_set_Get:
  assumes "Struct_Get s name = v" "v \<noteq> VNil"
  shows "struct_set s name v = s"
  using assms by (cases s) (auto simp: Struct_Get_def struct_set_def split: option.splits if_splits)

lemma struct_set_set: "struct_set (struct_set s name v) name w = struct_set s name w"
  by (auto simp: struct_set_def split: option.splits)

lemma struct_set_commute:
  assumes "name \<noteq> name'"
  shows "struct_set (struct_set s name v) name' w = struct_set (struct_set s name' w) name v"
  using assms index_distinct [of "struct_schema s" name _ name']
  by (auto simp: struct_set_def list_update_swap split: option.splits)

lemma wf_struct_set:
  assumes "wf_struct s" "field_at (struct_schema s) name = Some f" "ok_field f v"
  shows "wf_struct (struct_set s name v)"
proof -
  from assms(1) obtain n fs vs where "s = Struct (SchemaT n fs) vs"
    "all_values (map ok_field fs) vs" by (rule wf_structE)
  with assms(2,3) show ?thesis
    by (auto simp: struct_set_def wf_struct_def elim!: field_atE intro: all_values_update)
qed

lemma encodable_Get:
  assumes "struct_schema s = SchemaT n fs" "field_at (struct_schema s) name = Some f" "encodable s"
  shows "accepts_field f (Struct_Get s name)"
proof -
  have vs: "all_values (map accepts_field fs) (struct_values s)"
    using assms(1,3) by (simp add: encodable_def)
  then have "length (struct_values s) = length fs" by (auto dest: all_values_length)
  with assms vs show ?thesis
    by (auto simp: Struct_Get_def all_values_nth elim!: field_atE)
qed

lemma Struct_Replace_set:
  assumes "shaped s" "field_at (struct_schema s) name = Some f"
    and "v \<noteq> VNil" "Struct_Get s name \<noteq> VNil" "go_kind (Struct_Get s name) = go_kind v"
  shows "Struct_Replace s name v = Inr (struct_set s name v)"
  using assms
  by (auto simp: shaped_def Struct_Replace_def struct_set_def Struct_Get_def Let_def elim!: field_atE)

text \<open>Two values of a field that are not nil have the same kind.\<close>

lemma ok_field_kind:
  "ok_field f v \<Longrightarrow> ok_field f w \<Longrightarrow> v \<noteq> VNil \<Longrightarrow> w \<noteq> VNil \<Longrightarrow> go_kind v = go_kind w"
proof (cases f)
  case (Mfield n t)
  moreover assume "ok_field f v" "ok_field f w"
  ultimately show ?thesis by (cases t) (auto split: gvalue.splits)
qed (auto split: gvalue.splits)

lemma Struct_Replace_typed:
  assumes "wf_struct s" "field_at (struct_schema s) name = Some f"
    and "ok_field f v" "v \<noteq> VNil" "Struct_Get s name \<noteq> VNil"
  shows "\<exists>s'. Struct_Replace s name v = Inr s' \<and> wf_struct s' \<and> struct_schema s' = struct_schema s
    \<and> Struct_Get s' name = v \<and> (\<forall>other. other \<noteq> name \<longrightarrow> Struct_Get s' other = Struct_Get s other)"
proof (intro exI conjI)
  have sh: "shaped s" by (rule wf_struct_shaped [OF assms(1)])
  show "Struct_Replace s name v = Inr (struct_set s name v)"
    by (rule Struct_Replace_set [OF sh assms(2,4,5)
        ok_field_kind [OF wf_struct_Get [OF assms(1,2)] assms(3,5,4)]])
  show "wf_struct (struct_set s name v)" by (rule wf_struct_set [OF assms(1-3)])
  show "Struct_Get (struct_set s name v) name = v" by (rule Struct_Get_set [OF sh assms(2)])
qed (simp_all add: Struct_Get_set_other)

lemma Struct_Replace_refused:
  assumes "field_at (struct_schema s) name = None \<or> go_kind v \<noteq> go_kind (Struct_Get s name)"
  shows "\<exists>e. Struct_Replace s name v = Inl (GoErr e)"
  using assms
  by (auto simp: Struct_Replace_def Struct_Get_def replace_err_def field_at_def Let_def split: option.splits)

end
