(* ===== verification/GoAction.thy ===== *)
theory GoAction
  imports KPrelude
begin

section \<open>Go functions that act on shared state\<close>

text \<open>
  A Go function that reads and writes state outside of its arguments (the listener table, a
  connection, the streams it copies between) is an \<open>action\<close>: it takes the state and returns
  its result with the new state.  The state is kept on an error and on a panic, as in the
  program.  \<open>abind\<close> runs two actions in sequence and stops at the first failure: it is the
  \<open>if err != nil { return err }\<close> of the source, and the unwinding of a panic.  The combinators
  do not fix the type of failures, as some functions return more than an error.
\<close>

type_synonym ('s, 'a) action = "'s \<Rightarrow> 'a result \<times> 's"

definition aret :: "'a \<Rightarrow> 's \<Rightarrow> ('e + 'a) \<times> 's" where
  "aret a \<sigma> = (Inr a, \<sigma>)"

definition aerr :: "goerror \<Rightarrow> ('s, 'a) action" where
  "aerr e \<sigma> = (Inl (GoErr e), \<sigma>)"

definition alift :: "'e + 'a \<Rightarrow> 's \<Rightarrow> ('e + 'a) \<times> 's" where
  "alift r \<sigma> = (r, \<sigma>)"

definition abind ::
  "('s \<Rightarrow> ('e + 'a) \<times> 's) \<Rightarrow> ('a \<Rightarrow> 's \<Rightarrow> ('e + 'b) \<times> 's) \<Rightarrow> 's \<Rightarrow> ('e + 'b) \<times> 's" where
  "abind m f \<sigma> = (case m \<sigma> of (Inl e, \<sigma>') \<Rightarrow> (Inl e, \<sigma>') | (Inr a, \<sigma>') \<Rightarrow> f a \<sigma>')"

lemma abind_simps [simp]:
  "abind (aret a) f = f a"
  "abind (aerr e) f = aerr e"
  by (simp_all add: fun_eq_iff abind_def aret_def aerr_def)

lemma alift_Inr [simp]: "alift (Inr a) = aret a"
  by (simp add: fun_eq_iff alift_def aret_def)

lemma abind_lift_Inl: "abind (alift (Inl e)) f = alift (Inl e)"
  by (simp add: fun_eq_iff abind_def alift_def)

lemma abind_assoc: "abind (abind m f) g = abind m (\<lambda>a. abind (f a) g)"
  by (simp add: fun_eq_iff abind_def split: prod.splits sum.splits)

lemma abind_aret [simp]: "abind m aret = m"
  by (simp add: fun_eq_iff abind_def aret_def split: prod.splits sum.splits)

lemma abind_Inr_conv:
  "abind m f \<sigma> = (Inr b, \<sigma>'') \<longleftrightarrow> (\<exists>a \<sigma>'. m \<sigma> = (Inr a, \<sigma>') \<and> f a \<sigma>' = (Inr b, \<sigma>''))"
  by (auto simp: abind_def split: prod.splits sum.splits)

lemma abind_Inl_conv:
  "abind m f \<sigma> = (Inl e, \<sigma>'') \<longleftrightarrow>
     m \<sigma> = (Inl e, \<sigma>'') \<or> (\<exists>a \<sigma>'. m \<sigma> = (Inr a, \<sigma>') \<and> f a \<sigma>' = (Inl e, \<sigma>''))"
  by (auto simp: abind_def split: prod.splits sum.splits)

lemma action_result_simps [simp]:
  "aret a \<sigma> = (Inr b, \<sigma>') \<longleftrightarrow> a = b \<and> \<sigma>' = \<sigma>"
  "aret a \<sigma> \<noteq> (Inl e, \<sigma>')"
  "aerr x \<sigma> \<noteq> (Inr b, \<sigma>')"
  "aerr x \<sigma> = (Inl e, \<sigma>') \<longleftrightarrow> e = GoErr x \<and> \<sigma>' = \<sigma>"
  "alift r \<sigma> = (r', \<sigma>') \<longleftrightarrow> r = r' \<and> \<sigma>' = \<sigma>"
  by (auto simp: aret_def aerr_def alift_def)

text \<open>The action with no panic: what the proxy's goroutines rely on.\<close>

definition no_panic :: "('s, 'a) action \<Rightarrow> bool" where
  "no_panic m \<longleftrightarrow> (\<forall>\<sigma>. \<not> is_panic (fst (m \<sigma>)))"

lemma no_panic_aret [intro]: "no_panic (aret a)"
  by (simp add: no_panic_def aret_def)

lemma no_panic_aerr [intro]: "no_panic (aerr e)"
  by (simp add: no_panic_def aerr_def)

lemma no_panic_alift: "\<not> is_panic r \<Longrightarrow> no_panic (alift r)"
  by (simp add: no_panic_def alift_def)

lemma no_panic_abind:
  assumes "no_panic m" "\<And>a. no_panic (f a)"
  shows "no_panic (abind m f)"
  unfolding no_panic_def
proof
  fix \<sigma>
  obtain r \<sigma>' where m: "m \<sigma> = (r, \<sigma>')" by force
  show "\<not> is_panic (fst (abind m f \<sigma>))"
  proof (cases r)
    case (Inl e)
    from assms(1) m Inl have "\<not> is_panic (Inl e :: 'b result)" by (auto simp: no_panic_def dest: spec [of _ \<sigma>])
    then show ?thesis by (cases e) (simp_all add: abind_def m Inl)
  next
    case (Inr a)
    then show ?thesis using assms(2) [of a] by (simp add: abind_def m no_panic_def)
  qed
qed

end
