(* ===== verification/Responses.thy ===== *)
theory Responses
  imports ResponseSchemas StructAccess GoAction
begin

section \<open>Rewriting the broker addresses of a response\<close>

text \<open>
  The operations of \<open>proxy/protocol/responses.go\<close>.  A \<open>NetAddressMappingFunc\<close> maps the
  address of a broker (host, port, node id) to the address of a listener of the proxy; it may
  start a listener, so it acts on a state of its own (\<open>action\<close>).  It may be nil.

  The source changes the decoded struct in place.  The struct is a tree that only the
  modifier holds, so each function returns the struct it leaves behind; \<open>struct_set\<close> puts a
  changed component back into its slot.
\<close>

type_synonym 's netAddressMappingFunc =
  "string \<Rightarrow> 32 word \<Rightarrow> 32 word \<Rightarrow> ('s, string \<times> 32 word) action"

text \<open>\<open>elem.(*Struct)\<close> without the comma-ok form: it panics on any other type.\<close>

definition assert_struct :: "gvalue \<Rightarrow> gstruct result" where
  "assert_struct v =
     (case v of
        VStructPtr s \<Rightarrow> Inr s
      | _ \<Rightarrow> Inl (GoPanic (''interface conversion: interface {} is '' @ go_type v
               @ '', not *protocol.Struct'')))"

fun modify_elements :: "(gstruct \<Rightarrow> ('s, gstruct) action) \<Rightarrow> gvalue list \<Rightarrow> ('s, gvalue list) action" where
  "modify_elements f [] = aret []"
| "modify_elements f (v # vs) =
     abind (alift (assert_struct v)) (\<lambda>s. abind (f s) (\<lambda>s'.
       abind (modify_elements f vs) (\<lambda>vs'. aret (VStructPtr s' # vs'))))"

text \<open>The part both functions share: read the three fields, map the address, put it back.\<close>

definition replace_if :: "bool \<Rightarrow> gstruct \<Rightarrow> string \<Rightarrow> gvalue \<Rightarrow> gstruct result" where
  "replace_if changed s name v = (if changed then Struct_Replace s name v else Inr s)"

definition modifyMetadataResponse_broker ::
  "'s netAddressMappingFunc \<Rightarrow> gstruct \<Rightarrow> ('s, gstruct) action" where
  "modifyMetadataResponse_broker fn broker =
     (case Struct_Get broker hostKeyName of
        VStr host \<Rightarrow>
          (case Struct_Get broker portKeyName of
             VInt32 port \<Rightarrow>
               (case Struct_Get broker nodeKeyName of
                  VInt32 nodeId \<Rightarrow>
                    if host = [] \<and> sint port \<le> 0 then aret broker
                    else abind (fn host port nodeId) (\<lambda>(newHost, newPort).
                      abind (alift (replace_if (host \<noteq> newHost) broker hostKeyName (VStr newHost)))
                        (\<lambda>broker. alift (replace_if (port \<noteq> newPort) broker portKeyName (VInt32 newPort))))
                | _ \<Rightarrow> aerr (ErrNew ''broker.node_id not found''))
           | _ \<Rightarrow> aerr (ErrNew ''broker.port not found''))
      | _ \<Rightarrow> aerr (ErrNew ''broker.host not found''))"

definition modifyMetadataResponse ::
  "gstruct option \<Rightarrow> 's netAddressMappingFunc option \<Rightarrow> ('s, gstruct) action" where
  "modifyMetadataResponse decodedStruct fn =
     (case decodedStruct of
        None \<Rightarrow> aerr (ErrNew ''decoded struct must not be nil'')
      | Some s \<Rightarrow>
          (case fn of
             None \<Rightarrow> aerr (ErrNew ''net address mapper must not be nil'')
           | Some f \<Rightarrow>
               (case Struct_Get s brokersKeyName of
                  VArr brokersArray \<Rightarrow>
                    abind (modify_elements (modifyMetadataResponse_broker f) brokersArray)
                      (\<lambda>bs. aret (struct_set s brokersKeyName (VArr bs)))
                | _ \<Rightarrow> aerr (ErrNew ''brokers list not found''))))"

definition modifyCoordinator :: "'s netAddressMappingFunc \<Rightarrow> gstruct \<Rightarrow> ('s, gstruct) action" where
  "modifyCoordinator fn decodedStruct =
     (case Struct_Get decodedStruct coordinatorKeyName of
        VStructPtr coordinator \<Rightarrow>
          (case Struct_Get coordinator hostKeyName of
             VStr host \<Rightarrow>
               (case Struct_Get coordinator portKeyName of
                  VInt32 port \<Rightarrow>
                    (case Struct_Get coordinator nodeKeyName of
                       VInt32 nodeId \<Rightarrow>
                         if host = [] \<and> sint port \<le> 0 then aret decodedStruct
                         else abind (fn host port nodeId) (\<lambda>(newHost, newPort).
                           abind (alift (replace_if (host \<noteq> newHost) coordinator hostKeyName
                               (VStr newHost))) (\<lambda>coordinator.
                             abind (alift (replace_if (port \<noteq> newPort) coordinator portKeyName
                                 (VInt32 newPort))) (\<lambda>coordinator.
                               aret (struct_set decodedStruct coordinatorKeyName
                                 (VStructPtr coordinator)))))
                     | _ \<Rightarrow> aerr (ErrNew ''coordinator.node_id not found''))
                | _ \<Rightarrow> aerr (ErrNew ''coordinator.port not found''))
           | _ \<Rightarrow> aerr (ErrNew ''coordinator.host not found''))
      | _ \<Rightarrow> aerr (ErrNew ''coordinator not found''))"

definition modifyFindCoordinatorResponse ::
  "gstruct option \<Rightarrow> 's netAddressMappingFunc option \<Rightarrow> ('s, gstruct) action" where
  "modifyFindCoordinatorResponse decodedStruct fn =
     (case decodedStruct of
        None \<Rightarrow> aerr (ErrNew ''decoded struct must not be nil'')
      | Some s \<Rightarrow>
          (case fn of
             None \<Rightarrow> aerr (ErrNew ''net address mapper must not be nil'')
           | Some f \<Rightarrow>
               (case Struct_Get s coordinatorsKeyName of
                  VNil \<Rightarrow> modifyCoordinator f s
                | VArr coordinatorsArray \<Rightarrow>
                    abind (modify_elements (modifyCoordinator f) coordinatorsArray)
                      (\<lambda>cs. aret (struct_set s coordinatorsKeyName (VArr cs)))
                | _ \<Rightarrow> aerr (ErrNew ''coordinators list not found''))))"

subsection \<open>\<open>ResponseModifier\<close>\<close>

type_synonym 's modifyResponseFunc =
  "gstruct option \<Rightarrow> 's netAddressMappingFunc option \<Rightarrow> ('s, gstruct) action"

record 's responseModifier =
  rm_schema :: ty
  rm_modifyResponseFunc :: "'s modifyResponseFunc"
  rm_netAddressMappingFunc :: "'s netAddressMappingFunc option"

text \<open>
  \<open>Apply\<close>.  On a nil slice \<open>DecodeSchema\<close> returns a nil struct, which both modifying
  functions refuse.
\<close>

definition responseModifier_Apply ::
  "'s responseModifier \<Rightarrow> byte list option \<Rightarrow> ('s, byte list option) action" where
  "responseModifier_Apply f resp =
     abind (alift (DecodeSchema resp (rm_schema f))) (\<lambda>decodedStruct.
       abind (rm_modifyResponseFunc f decodedStruct (rm_netAddressMappingFunc f)) (\<lambda>s.
         alift (EncodeSchema (Some s) (rm_schema f))))"

definition apiKeyMetadata :: "16 word" where
  "apiKeyMetadata = 3"

definition apiKeyFindCoordinator :: "16 word" where
  "apiKeyFindCoordinator = 10"

definition getResponseSchema :: "16 word \<Rightarrow> 16 word \<Rightarrow> ty list \<Rightarrow> ty result" where
  "getResponseSchema apiKey apiVersion schemas =
     (if sint apiVersion < 0 \<or> sint apiVersion \<ge> int (length schemas)
      then Inl (GoErr (ErrNew (''Unsupported response schema version '' @ go_itoa (sint apiVersion)
             @ '' for key '' @ go_itoa (sint apiKey) @ '' '')))
      else Inr (schemas ! nat (sint apiVersion)))"

definition newResponseModifier ::
  "16 word \<Rightarrow> 16 word \<Rightarrow> 's netAddressMappingFunc option \<Rightarrow> ty list \<Rightarrow> 's modifyResponseFunc
    \<Rightarrow> 's responseModifier result" where
  "newResponseModifier apiKey apiVersion netAddressMappingFunc schemas modifyResponseFunc =
     rbind (getResponseSchema apiKey apiVersion schemas) (\<lambda>schema.
       Inr \<lparr>rm_schema = schema, rm_modifyResponseFunc = modifyResponseFunc,
            rm_netAddressMappingFunc = netAddressMappingFunc\<rparr>)"

text \<open>A nil modifier (\<open>None\<close>) leaves the response as it is.\<close>

definition GetResponseModifier ::
  "16 word \<Rightarrow> 16 word \<Rightarrow> 's netAddressMappingFunc option \<Rightarrow> 's responseModifier option result" where
  "GetResponseModifier apiKey apiVersion addressMappingFunc =
     (if apiKey = apiKeyMetadata
      then rbind (newResponseModifier apiKey apiVersion addressMappingFunc
             metadataResponseSchemaVersions modifyMetadataResponse) (\<lambda>m. Inr (Some m))
      else if apiKey = apiKeyFindCoordinator
      then rbind (newResponseModifier apiKey apiVersion addressMappingFunc
             findCoordinatorResponseSchemaVersions modifyFindCoordinatorResponse) (\<lambda>m. Inr (Some m))
      else Inr None)"

end
