(* ===== verification/ResponseFacts.thy ===== *)
theory ResponseFacts
  imports Responses
begin

section \<open>Correctness of the address rewriting\<close>

text \<open>
  The abstract specification: a response carries a list of broker addresses
  (\<open>response_addresses\<close>), \<open>map_addresses\<close> puts each of them but the blank ones through the
  mapping, in order, and \<open>response_put\<close> is the response with the new hosts and ports.  The
  locale \<open>address_holder\<close> is the contract of a struct that holds one address: what modifying
  it does, and the laws of a lens between the struct and its address, which say that nothing
  but the address changes.  It is interpreted on the brokers of a metadata response and on
  the holders of a coordinator; the response-level theorems rest on those instances.
\<close>

subsection \<open>The abstract specification\<close>

type_synonym address = "string \<times> 32 word \<times> 32 word"

fun map_address :: "'s netAddressMappingFunc \<Rightarrow> address \<Rightarrow> ('s, string \<times> 32 word) action" where
  "map_address fn (host, port, node) =
     (if host = [] \<and> sint port \<le> 0 then aret (host, port) else fn host port node)"

fun map_addresses :: "'s netAddressMappingFunc \<Rightarrow> address list \<Rightarrow> ('s, (string \<times> 32 word) list) action" where
  "map_addresses fn [] = aret []"
| "map_addresses fn (a # as) =
     abind (map_address fn a) (\<lambda>hp. abind (map_addresses fn as) (\<lambda>hps. aret (hp # hps)))"

lemma map_addresses_length:
  "map_addresses fn as \<sigma> = (Inr hps, \<sigma>') \<Longrightarrow> length hps = length as"
  by (induction as arbitrary: hps \<sigma>) (auto simp: abind_Inr_conv)

lemma map_addresses_no_panic:
  assumes "\<And>h p n. no_panic (fn h p n)"
  shows "no_panic (map_addresses fn as)"
proof (induction as)
  case (Cons a as)
  have "no_panic (map_address fn a)"
    using assms by (cases a) auto
  with Cons show ?case by (auto intro!: no_panic_abind)
qed auto

text \<open>A mapping that changes nothing.\<close>

lemma map_addresses_id:
  "map_addresses (\<lambda>h p n. aret (h, p)) as = aret (map (\<lambda>(h, p, n). (h, p)) as)"
  by (induction as) auto

fun the_struct :: "gvalue \<Rightarrow> gstruct" where
  "the_struct (VStructPtr s) = s"
| "the_struct v = Struct TypeBool []"

fun the_elements :: "gvalue \<Rightarrow> gvalue list" where
  "the_elements (VArr vs) = vs"
| "the_elements v = []"

definition elements_get :: "(gstruct \<Rightarrow> address) \<Rightarrow> gvalue list \<Rightarrow> address list" where
  "elements_get get vs = map (get \<circ> the_struct) vs"

definition elements_put ::
  "(gstruct \<Rightarrow> string \<times> 32 word \<Rightarrow> gstruct) \<Rightarrow> gvalue list \<Rightarrow> (string \<times> 32 word) list \<Rightarrow> gvalue list" where
  "elements_put put vs hps = map2 (\<lambda>v hp. VStructPtr (put (the_struct v) hp)) vs hps"

definition ok_elem :: "(gstruct \<Rightarrow> bool) \<Rightarrow> gvalue \<Rightarrow> bool" where
  "ok_elem ok v \<longleftrightarrow> (\<exists>s. v = VStructPtr s \<and> ok s)"

subsection \<open>The contract of an address holder\<close>

locale address_holder =
  fixes ok :: "gstruct \<Rightarrow> bool"
    and get :: "gstruct \<Rightarrow> address"
    and put :: "gstruct \<Rightarrow> string \<times> 32 word \<Rightarrow> gstruct"
    and modify :: "'s netAddressMappingFunc \<Rightarrow> gstruct \<Rightarrow> ('s, gstruct) action"
  assumes modify_eq: "ok s \<Longrightarrow> modify fn s = abind (map_address fn (get s)) (\<lambda>hp. aret (put s hp))"
    and get_put: "ok s \<Longrightarrow> get (put s (h, p)) = (h, p, snd (snd (get s)))"
    and put_get: "ok s \<Longrightarrow> get s = (h, p, n) \<Longrightarrow> put s (h, p) = s"
    and put_put: "ok s \<Longrightarrow> put (put s hp) hp' = put s hp'"
    and ok_put: "ok s \<Longrightarrow> short h \<Longrightarrow> ok (put s (h, p))"
    and put_encodable: "ok s \<Longrightarrow> encodable (put s (h, p)) \<Longrightarrow> short h"
    and put_schema: "struct_schema (put s hp) = struct_schema s"
begin

lemma elements_eq:
  "list_all (ok_elem ok) vs \<Longrightarrow> modify_elements (modify fn) vs =
     abind (map_addresses fn (elements_get get vs)) (\<lambda>hps. aret (elements_put put vs hps))"
proof (induction vs)
  case (Cons v vs)
  then obtain s where "v = VStructPtr s" "ok s" by (auto simp: ok_elem_def)
  with Cons show ?case
    by (simp add: assert_struct_def modify_eq abind_assoc elements_get_def elements_put_def)
qed (simp add: elements_get_def elements_put_def)

lemma elements_get_put:
  assumes "list_all (ok_elem ok) vs" "length hps = length vs"
  shows "elements_get get (elements_put put vs hps) = map2 (\<lambda>(h, p, n) (h', p'). (h', p', n)) (elements_get get vs) hps"
proof (rule nth_equalityI)
  fix i
  assume "i < length (elements_get get (elements_put put vs hps))"
  then have i: "i < length vs" "i < length hps" by (simp_all add: elements_get_def elements_put_def)
  with assms obtain s where "vs ! i = VStructPtr s" "ok s"
    by (auto simp: list_all_length ok_elem_def)
  with i show "elements_get get (elements_put put vs hps) ! i = map2 (\<lambda>(h, p, n) (h', p'). (h', p', n)) (elements_get get vs) hps ! i"
    using get_put [of s "fst (hps ! i)" "snd (hps ! i)"]
    by (simp add: elements_get_def elements_put_def case_prod_beta)
qed (simp add: elements_get_def elements_put_def)

lemma elements_put_get:
  assumes "list_all (ok_elem ok) vs"
  shows "elements_put put vs (map (\<lambda>(h, p, n). (h, p)) (elements_get get vs)) = vs"
  using assms
proof (induction vs)
  case (Cons v vs)
  then obtain s where "v = VStructPtr s" "ok s" by (auto simp: ok_elem_def)
  moreover obtain h p n where "get s = (h, p, n)" by (cases "get s") auto
  ultimately show ?case
    using Cons put_get [of s h p n] by (simp add: elements_get_def elements_put_def)
qed (simp add: elements_get_def elements_put_def)

lemma elements_put_put:
  assumes "list_all (ok_elem ok) vs" "length hps = length vs" "length hps' = length vs"
  shows "elements_put put (elements_put put vs hps) hps' = elements_put put vs hps'"
proof (rule nth_equalityI)
  fix i
  assume "i < length (elements_put put (elements_put put vs hps) hps')"
  then have i: "i < length vs" "i < length hps" "i < length hps'" using assms by (simp_all add: elements_put_def)
  with assms obtain s where "vs ! i = VStructPtr s" "ok s"
    by (auto simp: list_all_length ok_elem_def)
  with i show "elements_put put (elements_put put vs hps) hps' ! i = elements_put put vs hps' ! i"
    by (simp add: elements_put_def put_put)
qed (use assms in \<open>simp add: elements_put_def\<close>)

lemma elements_ok_put:
  assumes "list_all (ok_elem ok) vs" "length hps = length vs" "list_all (\<lambda>hp. short (fst hp)) hps"
  shows "list_all (ok_elem ok) (elements_put put vs hps)"
  unfolding list_all_length
proof (intro allI impI)
  fix i
  assume "i < length (elements_put put vs hps)"
  then have i: "i < length vs" "i < length hps" by (simp_all add: elements_put_def)
  with assms obtain s where "vs ! i = VStructPtr s" "ok s"
    by (auto simp: list_all_length ok_elem_def)
  with i assms(3) show "ok_elem ok (elements_put put vs hps ! i)"
    using ok_put [of s "fst (hps ! i)" "snd (hps ! i)"]
    by (simp add: elements_put_def ok_elem_def list_all_length)
qed

lemma elements_short:
  assumes "list_all (ok_elem ok) vs" "length hps = length vs"
    and "\<And>s. VStructPtr s \<in> set (elements_put put vs hps) \<Longrightarrow> encodable s"
  shows "list_all (\<lambda>hp. short (fst hp)) hps"
  unfolding list_all_length
proof (intro allI impI)
  fix i
  assume i: "i < length hps"
  with assms obtain s where s: "vs ! i = VStructPtr s" "ok s"
    by (auto simp: list_all_length ok_elem_def)
  with i assms(2) have "elements_put put vs hps ! i = VStructPtr (put s (fst (hps ! i), snd (hps ! i)))"
    by (simp add: elements_put_def)
  moreover from i assms(2) have "elements_put put vs hps ! i \<in> set (elements_put put vs hps)"
    by (intro nth_mem) (simp add: elements_put_def)
  ultimately have "encodable (put s (fst (hps ! i), snd (hps ! i)))"
    using assms(3) by simp
  with s(2) show "short (fst (hps ! i))" by (rule put_encodable)
qed

end

subsection \<open>Brokers\<close>

definition broker_ty :: "ty \<Rightarrow> bool" where
  "broker_ty t \<longleftrightarrow>
     (field_at t hostKeyName = Some (Mfield hostKeyName TypeStr)
      \<or> field_at t hostKeyName = Some (Mfield hostKeyName TypeCompactStr))
   \<and> field_at t portKeyName = Some (Mfield portKeyName TypeInt32)
   \<and> field_at t nodeKeyName = Some (Mfield nodeKeyName TypeInt32)"

fun the_string :: "gvalue \<Rightarrow> string" where
  "the_string (VStr s) = s"
| "the_string v = []"

fun the_int32 :: "gvalue \<Rightarrow> 32 word" where
  "the_int32 (VInt32 i) = i"
| "the_int32 v = 0"

definition broker_get :: "gstruct \<Rightarrow> address" where
  "broker_get b = (the_string (Struct_Get b hostKeyName), the_int32 (Struct_Get b portKeyName),
     the_int32 (Struct_Get b nodeKeyName))"

fun broker_put :: "gstruct \<Rightarrow> string \<times> 32 word \<Rightarrow> gstruct" where
  "broker_put b (h, p) = struct_set (struct_set b hostKeyName (VStr h)) portKeyName (VInt32 p)"

definition ok_broker :: "gstruct \<Rightarrow> bool" where
  "ok_broker b \<longleftrightarrow> wf_struct b \<and> broker_ty (struct_schema b)"

lemma key_names_distinct [simp]:
  "hostKeyName \<noteq> portKeyName" "portKeyName \<noteq> hostKeyName" "nodeKeyName \<noteq> hostKeyName"
  "nodeKeyName \<noteq> portKeyName" "brokersKeyName \<noteq> coordinatorsKeyName"
  by (simp_all add: key_names)

lemma ok_broker_Get:
  assumes "ok_broker b"
  obtains h p n where "Struct_Get b hostKeyName = VStr h" "Struct_Get b portKeyName = VInt32 p"
    "Struct_Get b nodeKeyName = VInt32 n"
proof -
  from assms have wf: "wf_struct b" and t: "broker_ty (struct_schema b)" by (simp_all add: ok_broker_def)
  have "\<exists>h. Struct_Get b hostKeyName = VStr h"
    using t wf_struct_Get [OF wf, of hostKeyName] by (auto simp: broker_ty_def split: gvalue.splits)
  moreover have "\<exists>p. Struct_Get b portKeyName = VInt32 p"
    using t wf_struct_Get [OF wf, of portKeyName] by (auto simp: broker_ty_def split: gvalue.splits)
  moreover have "\<exists>n. Struct_Get b nodeKeyName = VInt32 n"
    using t wf_struct_Get [OF wf, of nodeKeyName] by (auto simp: broker_ty_def split: gvalue.splits)
  ultimately show thesis using that by blast
qed

text \<open>Replacing a field by a value of its kind, or skipping it when nothing changes.\<close>

lemma replace_if_set:
  assumes "shaped s" "field_at (struct_schema s) name = Some f" "Struct_Get s name = v"
    and "v \<noteq> VNil" "go_kind v = go_kind v'" "v' \<noteq> VNil" "changed \<longleftrightarrow> v \<noteq> v'"
  shows "replace_if changed s name v' = Inr (struct_set s name v')"
  using assms Struct_Replace_set [OF assms(1,2)] struct_set_Get [OF assms(3)]
  by (auto simp: replace_if_def)

lemma ok_broker_shaped: "ok_broker b \<Longrightarrow> shaped b"
  by (simp add: ok_broker_def wf_struct_shaped)

lemma ok_broker_fields:
  assumes "ok_broker b"
  obtains fh where "field_at (struct_schema b) hostKeyName = Some fh"
    "field_at (struct_schema b) portKeyName = Some (Mfield portKeyName TypeInt32)"
    "fh = Mfield hostKeyName TypeStr \<or> fh = Mfield hostKeyName TypeCompactStr"
  using assms by (auto simp: ok_broker_def broker_ty_def)

lemma broker_put_conv:
  "broker_put b hp =
     struct_set (struct_set b hostKeyName (VStr (fst hp))) portKeyName (VInt32 (snd hp))"
  by (cases hp) simp

lemma broker_modify_eq:
  assumes "ok_broker b"
  shows "modifyMetadataResponse_broker fn b =
    abind (map_address fn (broker_get b)) (\<lambda>hp. aret (broker_put b hp))"
proof -
  from assms obtain h p n where g: "Struct_Get b hostKeyName = VStr h"
    "Struct_Get b portKeyName = VInt32 p" "Struct_Get b nodeKeyName = VInt32 n"
    by (rule ok_broker_Get)
  from assms obtain fh where f: "field_at (struct_schema b) hostKeyName = Some fh"
    "field_at (struct_schema b) portKeyName = Some (Mfield portKeyName TypeInt32)"
    by (rule ok_broker_fields)
  have "replace_if (h \<noteq> h') b hostKeyName (VStr h') = Inr (struct_set b hostKeyName (VStr h'))" for h'
    using f g by (intro replace_if_set [OF ok_broker_shaped [OF assms]]) auto
  moreover have "replace_if (p \<noteq> p') (struct_set b hostKeyName (VStr h')) portKeyName (VInt32 p') =
      Inr (broker_put b (h', p'))" for h' p'
    unfolding broker_put.simps using f g ok_broker_shaped [OF assms]
    by (intro replace_if_set) (auto simp: Struct_Get_set_other)
  moreover have "broker_put b (h, p) = b"
    using g by (simp add: struct_set_Get)
  ultimately show ?thesis
    using g by (auto simp: modifyMetadataResponse_broker_def broker_get_def case_prod_beta'
        broker_put_conv)
qed

lemma broker_get_put:
  assumes "ok_broker b"
  shows "broker_get (broker_put b (h, p)) = (h, p, snd (snd (broker_get b)))"
  using assms ok_broker_shaped [OF assms]
  by (elim ok_broker_fields) (auto simp: broker_get_def Struct_Get_set_other Struct_Get_set)

lemma broker_put_get:
  assumes "ok_broker b" "broker_get b = (h, p, n)"
  shows "broker_put b (h, p) = b"
  using assms by (elim ok_broker_Get) (auto simp: broker_get_def struct_set_Get)

lemma broker_put_put: "broker_put (broker_put b hp) hp' = broker_put b hp'"
  by (cases hp; cases hp')
    (simp add: struct_set_commute [of portKeyName hostKeyName] struct_set_set)

lemma broker_put_schema [simp]: "struct_schema (broker_put b hp) = struct_schema b"
  by (cases hp) simp

lemma broker_ok_put:
  assumes "ok_broker b" "short h"
  shows "ok_broker (broker_put b (h, p))"
proof -
  from assms(1) have wf: "wf_struct b" and t: "broker_ty (struct_schema b)" by (simp_all add: ok_broker_def)
  from assms(1) obtain fh where f: "field_at (struct_schema b) hostKeyName = Some fh"
    "field_at (struct_schema b) portKeyName = Some (Mfield portKeyName TypeInt32)"
    "fh = Mfield hostKeyName TypeStr \<or> fh = Mfield hostKeyName TypeCompactStr"
    by (rule ok_broker_fields)
  have "wf_struct (struct_set b hostKeyName (VStr h))"
    using f assms(2) by (intro wf_struct_set [OF wf f(1)]) (auto intro: short_fits63)
  then have "wf_struct (broker_put b (h, p))"
    using f by (simp add: wf_struct_set [where f = "Mfield portKeyName TypeInt32"])
  with t show ?thesis by (simp add: ok_broker_def)
qed

lemma broker_put_encodable:
  assumes "ok_broker b" "encodable (broker_put b (h, p))"
  shows "short h"
proof -
  from assms(1) obtain fh where f: "field_at (struct_schema b) hostKeyName = Some fh"
    "fh = Mfield hostKeyName TypeStr \<or> fh = Mfield hostKeyName TypeCompactStr"
    by (rule ok_broker_fields)
  from assms(1) obtain n fs where "struct_schema b = SchemaT n fs"
    by (auto simp: ok_broker_def wf_struct_def)
  then have "accepts_field fh (Struct_Get (broker_put b (h, p)) hostKeyName)"
    using f assms(2) by (intro encodable_Get) auto
  moreover have "Struct_Get (broker_put b (h, p)) hostKeyName = VStr h"
    using broker_get_put [OF assms(1)] f ok_broker_shaped [OF assms(1)]
    by (simp add: Struct_Get_set_other Struct_Get_set)
  ultimately show ?thesis using f(2) by auto
qed

interpretation broker: address_holder ok_broker broker_get broker_put modifyMetadataResponse_broker
  by unfold_locales
    (simp_all add: broker_modify_eq broker_get_put broker_put_get broker_put_put broker_ok_put
      broker_put_encodable del: broker_put.simps)

subsection \<open>Coordinator holders\<close>

definition holder_ty :: "ty \<Rightarrow> bool" where
  "holder_ty t \<longleftrightarrow>
     (case field_at t coordinatorKeyName of Some (Mfield n bt) \<Rightarrow> broker_ty bt | _ \<Rightarrow> False)"

definition ok_holder :: "gstruct \<Rightarrow> bool" where
  "ok_holder s \<longleftrightarrow> wf_struct s \<and> holder_ty (struct_schema s)"

definition holder_broker :: "gstruct \<Rightarrow> gstruct" where
  "holder_broker s = the_struct (Struct_Get s coordinatorKeyName)"

definition holder_get :: "gstruct \<Rightarrow> address" where
  "holder_get s = broker_get (holder_broker s)"

definition holder_put :: "gstruct \<Rightarrow> string \<times> 32 word \<Rightarrow> gstruct" where
  "holder_put s hp =
     struct_set s coordinatorKeyName (VStructPtr (broker_put (holder_broker s) hp))"

lemma broker_tyE:
  assumes "broker_ty t"
  obtains n fs where "t = SchemaT n fs"
proof (cases t)
  case (SchemaT n fs)
  with that show ?thesis .
qed (use assms in \<open>simp_all add: broker_ty_def field_at_def ty_GetFieldsByName_def\<close>)

lemma ok_ty_broker:
  assumes "broker_ty t" "ok_ty t v"
  obtains b where "v = VStructPtr b" "ok_broker b" "struct_schema b = t"
proof -
  from assms(1) obtain n fs where t: "t = SchemaT n fs" by (rule broker_tyE)
  with assms(2) obtain vs where v: "v = VStructPtr (Struct t vs)" by (blast elim: ok_schemaE)
  have "ok_broker (Struct t vs)"
    using assms t v by (simp add: ok_broker_def wf_struct_def)
  with v that show ?thesis by simp
qed

lemma ok_holder_broker:
  assumes "ok_holder s"
  obtains n bt b where "field_at (struct_schema s) coordinatorKeyName = Some (Mfield n bt)"
    "broker_ty bt" "Struct_Get s coordinatorKeyName = VStructPtr b" "ok_broker b"
    "struct_schema b = bt" "holder_broker s = b"
proof -
  from assms obtain n bt where f: "field_at (struct_schema s) coordinatorKeyName = Some (Mfield n bt)"
    "broker_ty bt"
    by (auto simp: ok_holder_def holder_ty_def split: option.splits field.splits)
  with assms have "ok_ty bt (Struct_Get s coordinatorKeyName)"
    using wf_struct_Get [of s coordinatorKeyName] by (auto simp: ok_holder_def)
  with f(2) obtain b where "Struct_Get s coordinatorKeyName = VStructPtr b" "ok_broker b"
    "struct_schema b = bt" by (rule ok_ty_broker)
  with f that show ?thesis by (simp add: holder_broker_def)
qed

lemma ok_holder_shaped: "ok_holder s \<Longrightarrow> shaped s"
  by (simp add: ok_holder_def wf_struct_shaped)

lemma modifyCoordinator_broker:
  assumes "Struct_Get s coordinatorKeyName = VStructPtr b" "ok_broker b"
  shows "modifyCoordinator fn s = abind (modifyMetadataResponse_broker fn b)
    (\<lambda>b'. aret (struct_set s coordinatorKeyName (VStructPtr b')))"
proof -
  from assms(2) obtain h p n where g: "Struct_Get b hostKeyName = VStr h"
    "Struct_Get b portKeyName = VInt32 p" "Struct_Get b nodeKeyName = VInt32 n"
    by (rule ok_broker_Get)
  with assms(1) show ?thesis
    by (auto simp: modifyCoordinator_def modifyMetadataResponse_broker_def abind_assoc
        case_prod_beta' struct_set_Get)
qed

lemma holder_modify_eq:
  assumes "ok_holder s"
  shows "modifyCoordinator fn s = abind (map_address fn (holder_get s)) (\<lambda>hp. aret (holder_put s hp))"
  using assms
  by (elim ok_holder_broker)
    (simp add: modifyCoordinator_broker broker_modify_eq abind_assoc holder_get_def holder_put_def)

lemma holder_broker_put:
  assumes "ok_holder s"
  shows "holder_broker (holder_put s hp) = broker_put (holder_broker s) hp"
  using assms ok_holder_shaped [OF assms]
  by (elim ok_holder_broker) (simp add: holder_broker_def holder_put_def Struct_Get_set)

lemma holder_put_schema [simp]: "struct_schema (holder_put s hp) = struct_schema s"
  by (simp add: holder_put_def)

lemma holder_ok_put:
  assumes "ok_holder s" "short h"
  shows "ok_holder (holder_put s (h, p))"
proof -
  from assms(1) obtain n bt b where f: "field_at (struct_schema s) coordinatorKeyName = Some (Mfield n bt)"
    "ok_broker b" "struct_schema b = bt" "holder_broker s = b"
    by (rule ok_holder_broker)
  have "ok_broker (broker_put b (h, p))"
    by (rule broker_ok_put [OF f(2) assms(2)])
  then have "ok_ty bt (VStructPtr (broker_put b (h, p)))"
    using f(3) by (simp add: ok_broker_def wf_struct_def del: broker_put.simps)
  with assms(1) f show ?thesis
    by (simp add: ok_holder_def holder_put_def wf_struct_set del: broker_put.simps)
qed

lemma holder_put_encodable:
  assumes "ok_holder s" "encodable (holder_put s (h, p))"
  shows "short h"
proof -
  from assms(1) obtain n bt b where f: "field_at (struct_schema s) coordinatorKeyName = Some (Mfield n bt)"
    "ok_broker b" "struct_schema b = bt" "holder_broker s = b"
    by (rule ok_holder_broker)
  from assms(1) obtain m fs where "struct_schema s = SchemaT m fs"
    by (auto simp: ok_holder_def wf_struct_def)
  then have "accepts_field (Mfield n bt) (Struct_Get (holder_put s (h, p)) coordinatorKeyName)"
    using f assms(2) by (intro encodable_Get) auto
  then have "encodable (broker_put b (h, p))"
    using f ok_holder_shaped [OF assms(1)]
    by (simp add: holder_put_def Struct_Get_set encodable_def del: broker_put.simps)
  with f(2) show ?thesis by (rule broker_put_encodable)
qed

interpretation holder: address_holder ok_holder holder_get holder_put modifyCoordinator
proof unfold_locales
  fix s h p n hp hp'
  assume ok: "ok_holder s"
  then obtain b where b: "Struct_Get s coordinatorKeyName = VStructPtr b" "ok_broker b"
    "holder_broker s = b" by (rule ok_holder_broker)
  show "holder_get (holder_put s (h, p)) = (h, p, snd (snd (holder_get s)))"
    using broker_get_put [OF b(2)] b(3) by (simp add: holder_get_def holder_broker_put [OF ok])
  show "holder_put s (h, p) = s" if "holder_get s = (h, p, n)"
    using that broker_put_get [OF b(2), of h p n] b
    by (simp add: holder_get_def holder_put_def struct_set_Get del: broker_put.simps)
  show "holder_put (holder_put s hp) hp' = holder_put s hp'"
    by (simp add: holder_put_def [of "holder_put s hp"] holder_broker_put [OF ok] broker_put_put)
      (simp add: holder_put_def struct_set_set)
qed (auto intro: holder_modify_eq holder_ok_put holder_put_encodable)

end
