(* ===== verification/ResponseRewrite.thy ===== *)
theory ResponseRewrite
  imports ResponseFacts
begin

section \<open>Whole responses\<close>

text \<open>
  The addresses of a whole response and the theorem that its modifier maps exactly them.
  \<open>response_ty\<close> is the shape of a schema the modifier of an API key can work on; every schema
  of the two tables has it.  The addresses of a response form a lens over the decoded struct
  as well, so that a rewritten response differs from the original one in the mapped hosts and
  ports only.
\<close>

definition metadata_ty :: "ty \<Rightarrow> bool" where
  "metadata_ty t \<longleftrightarrow>
     (case field_at t brokersKeyName of
        Some (Array n bt) \<Rightarrow> broker_ty bt
      | Some (CompactArray n bt) \<Rightarrow> broker_ty bt
      | _ \<Rightarrow> False)"

definition coordinators_ty :: "ty \<Rightarrow> bool" where
  "coordinators_ty t \<longleftrightarrow>
     (case field_at t coordinatorsKeyName of
        Some (Array n ht) \<Rightarrow> holder_ty ht
      | Some (CompactArray n ht) \<Rightarrow> holder_ty ht
      | _ \<Rightarrow> False)"

definition coordinator_ty :: "ty \<Rightarrow> bool" where
  "coordinator_ty t \<longleftrightarrow> field_at t coordinatorsKeyName = None \<and> holder_ty t"

definition response_ty :: "16 word \<Rightarrow> ty \<Rightarrow> bool" where
  "response_ty apiKey t \<longleftrightarrow> good_ty t \<and>
     (if apiKey = apiKeyMetadata then metadata_ty t
      else apiKey = apiKeyFindCoordinator \<and> (coordinators_ty t \<or> coordinator_ty t))"

lemma schema_tables_response_ty:
  "list_all (response_ty apiKeyMetadata) metadataResponseSchemaVersions"
  "list_all (response_ty apiKeyFindCoordinator) findCoordinatorResponseSchemaVersions"
  by code_simp+

subsection \<open>The elements of an array field\<close>

definition array_of :: "gstruct \<Rightarrow> string \<Rightarrow> gvalue list" where
  "array_of s name = the_elements (Struct_Get s name)"

definition array_put :: "gstruct \<Rightarrow> string \<Rightarrow> gvalue list \<Rightarrow> gstruct" where
  "array_put s name vs = struct_set s name (VArr vs)"

definition array_field :: "field \<Rightarrow> ty \<Rightarrow> bool" where
  "array_field f t \<longleftrightarrow> (\<exists>n. f = Array n t \<or> f = CompactArray n t)"

lemma array_of_wf:
  assumes "wf_struct s" "field_at (struct_schema s) name = Some f" "array_field f t"
  shows "Struct_Get s name = VArr (array_of s name) \<and> list_all (ok_ty t) (array_of s name)"
  using wf_struct_Get [OF assms(1,2)] assms(3)
  by (auto simp: array_field_def array_of_def split: gvalue.splits)

lemma array_put_wf:
  assumes "wf_struct s" "field_at (struct_schema s) name = Some f" "array_field f t"
    and "list_all (ok_ty t) vs" "length vs = length (array_of s name)"
  shows "wf_struct (array_put s name vs)"
  using wf_struct_Get [OF assms(1,2)] assms(3-) array_of_wf [OF assms(1-3)]
  by (auto simp: array_field_def array_put_def fits63_def intro!: wf_struct_set [OF assms(1,2)])

lemma array_put_of:
  assumes "wf_struct s" "field_at (struct_schema s) name = Some f"
  shows "array_of (array_put s name vs) name = vs"
  using assms by (simp add: array_of_def array_put_def Struct_Get_set wf_struct_shaped)

lemma array_put_encodable:
  assumes "wf_struct s" "field_at (struct_schema s) name = Some f" "array_field f t"
    and "encodable (array_put s name vs)"
  shows "list_all (accepts_ty t) vs"
proof -
  from assms(1) obtain n fs where "struct_schema s = SchemaT n fs" by (auto simp: wf_struct_def)
  then have "accepts_field f (Struct_Get (array_put s name vs) name)"
    using assms by (intro encodable_Get) (auto simp: array_put_def)
  then show ?thesis
    using assms by (auto simp: array_put_def Struct_Get_set wf_struct_shaped array_field_def)
qed

context address_holder begin

lemma array_ok:
  assumes "list_all (ok_ty t) vs"
    and "\<And>v. ok_ty t v \<Longrightarrow> \<exists>b. v = VStructPtr b \<and> ok b \<and> struct_schema b = t"
  shows "list_all (ok_elem ok) vs"
  using assms by (fastforce simp: list_all_iff ok_elem_def)

lemma array_ok_put:
  assumes elem: "\<And>v. ok_ty t v \<Longrightarrow> \<exists>b. v = VStructPtr b \<and> ok b \<and> struct_schema b = t"
    and wf: "\<And>b. ok b \<Longrightarrow> wf_struct b"
    and vs: "list_all (ok_ty t) vs" and hps: "length hps = length vs"
    and short: "list_all (\<lambda>hp. short (fst hp)) hps"
  shows "list_all (ok_ty t) (elements_put put vs hps)"
  unfolding list_all_length
proof (intro allI impI)
  fix i
  assume i: "i < length (elements_put put vs hps)"
  then have i: "i < length vs" "i < length hps" by (simp_all add: elements_put_def)
  with vs obtain b where b: "vs ! i = VStructPtr b" "ok b" "struct_schema b = t"
    by (metis elem list_all_length)
  have "short (fst (hps ! i))" using short i by (simp add: list_all_length)
  with b have "wf_struct (put b (hps ! i))"
    using wf ok_put [of b "fst (hps ! i)" "snd (hps ! i)"] by simp
  with b i show "ok_ty t (elements_put put vs hps ! i)"
    by (simp add: elements_put_def wf_struct_def put_schema)
qed

lemma array_short:
  assumes elem: "\<And>v. ok_ty t v \<Longrightarrow> \<exists>b. v = VStructPtr b \<and> ok b \<and> struct_schema b = t"
    and vs: "list_all (ok_ty t) vs" and hps: "length hps = length vs"
    and acc: "list_all (accepts_ty t) (elements_put put vs hps)"
  shows "list_all (\<lambda>hp. short (fst hp)) hps"
proof (rule elements_short [OF _ hps])
  show "list_all (ok_elem ok) vs" by (rule array_ok [OF vs]) (rule elem)
next
  fix s
  assume s: "VStructPtr s \<in> set (elements_put put vs hps)"
  then obtain v hp where "v \<in> set vs" "s = put (the_struct v) hp"
    by (auto simp: elements_put_def dest: set_zip_leftD)
  moreover from this vs obtain b where "v = VStructPtr b" "struct_schema b = t"
    by (metis elem list_all_iff)
  ultimately have "struct_schema s = t" by (simp add: put_schema)
  with s acc show "encodable s" by (auto simp: list_all_iff encodable_def)
qed

end

subsection \<open>The contract of a modifiable response\<close>

text \<open>
  The new hosts and ports in their places, the node ids as they were.
\<close>

definition replace_addresses :: "address list \<Rightarrow> (string \<times> 32 word) list \<Rightarrow> address list" where
  "replace_addresses as hps = map2 (\<lambda>(h, p, n) (h', p'). (h', p', n)) as hps"

definition host_port :: "address \<Rightarrow> string \<times> 32 word" where
  "host_port a = (case a of (h, p, n) \<Rightarrow> (h, p))"

locale response_lens =
  fixes ok :: "gstruct \<Rightarrow> bool"
    and get :: "gstruct \<Rightarrow> address list"
    and put :: "gstruct \<Rightarrow> (string \<times> 32 word) list \<Rightarrow> gstruct"
    and modify :: "'s modifyResponseFunc"
  assumes modify_eq: "ok s \<Longrightarrow> modify (Some s) (Some fn) =
      abind (map_addresses fn (get s)) (\<lambda>hps. aret (put s hps))"
    and ok_wf: "ok s \<Longrightarrow> wf_struct s"
    and put_schema: "struct_schema (put s hps) = struct_schema s"
    and get_put: "ok s \<Longrightarrow> length hps = length (get s) \<Longrightarrow>
      get (put s hps) = replace_addresses (get s) hps"
    and put_get: "ok s \<Longrightarrow> put s (map host_port (get s)) = s"
    and put_put: "ok s \<Longrightarrow> length hps = length (get s) \<Longrightarrow> length hps' = length (get s) \<Longrightarrow>
      put (put s hps) hps' = put s hps'"
    and ok_put: "ok s \<Longrightarrow> length hps = length (get s) \<Longrightarrow> list_all (\<lambda>hp. short (fst hp)) hps \<Longrightarrow>
      ok (put s hps)"
    and put_encodable: "ok s \<Longrightarrow> length hps = length (get s) \<Longrightarrow> encodable (put s hps) \<Longrightarrow>
      list_all (\<lambda>hp. short (fst hp)) hps"
begin

definition modifier :: "ty \<Rightarrow> 's netAddressMappingFunc \<Rightarrow> 's responseModifier" where
  "modifier t fn = \<lparr>rm_schema = t, rm_modifyResponseFunc = modify,
     rm_netAddressMappingFunc = Some fn\<rparr>"

lemma apply_eq:
  assumes "DecodeSchema (Some b) t = Inr (Some s)" "ok s"
  shows "responseModifier_Apply (modifier t fn) (Some b) =
    abind (map_addresses fn (get s)) (\<lambda>hps. alift (EncodeSchema (Some (put s hps)) t))"
  using assms by (simp add: responseModifier_Apply_def modifier_def modify_eq abind_assoc)

lemma apply_result:
  assumes "DecodeSchema (Some b) t = Inr (Some s)" "ok s" "good_ty t" "struct_schema s = t"
    and "responseModifier_Apply (modifier t fn) (Some b) \<sigma> = (Inr out, \<sigma>')"
  shows "\<exists>hps b'. map_addresses fn (get s) \<sigma> = (Inr hps, \<sigma>') \<and> out = Some b' \<and>
    b' = wire_ty t (VStructPtr (put s hps)) \<and> DecodeSchema (Some b') t = Inr (Some (put s hps))"
proof -
  from assms(5) obtain hps where hps: "map_addresses fn (get s) \<sigma> = (Inr hps, \<sigma>')"
    and e: "EncodeSchema (Some (put s hps)) t = Inr out"
    by (auto simp: apply_eq [OF assms(1,2)] abind_Inr_conv)
  from e have acc: "accepts_ty t (VStructPtr (put s hps))"
    and out: "out = Some (wire_ty t (VStructPtr (put s hps)))" by (simp_all add: EncodeSchema_Inr)
  have len: "length hps = length (get s)" by (rule map_addresses_length [OF hps])
  from acc assms(4) have "encodable (put s hps)" by (simp add: encodable_def put_schema)
  then have "ok (put s hps)"
    using put_encodable [OF assms(2) len] ok_put [OF assms(2) len] by blast
  from ok_wf [OF this] have "ok_ty t (VStructPtr (put s hps))"
    using assms(4) by (simp add: wf_struct_def put_schema)
  from DecodeSchema_wire [OF assms(3) this] hps out show ?thesis by blast
qed

lemma apply_total:
  assumes "DecodeSchema (Some b) t = Inr (Some s)" "ok s"
    and "map_addresses fn (get s) \<sigma> = (Inr hps, \<sigma>')"
    and "accepts_ty t (VStructPtr (put s hps))"
    and "int (length (wire_ty t (VStructPtr (put s hps)))) \<le> MaxRequestSize"
  shows "responseModifier_Apply (modifier t fn) (Some b) \<sigma> =
    (Inr (Some (wire_ty t (VStructPtr (put s hps)))), \<sigma>')"
  using assms EncodeSchema_Inr [of "put s hps" t]
  by (simp add: apply_eq [OF assms(1,2)] abind_def alift_def)

lemma apply_panic:
  assumes "DecodeSchema (Some b) t = Inr (Some s)" "ok s" "\<And>h p n. no_panic (fn h p n)"
  shows "\<not> is_panic (fst (responseModifier_Apply (modifier t fn) (Some b) \<sigma>))"
proof -
  have "no_panic (responseModifier_Apply (modifier t fn) (Some b))"
    unfolding apply_eq [OF assms(1,2)]
    by (intro no_panic_abind map_addresses_no_panic assms(3) no_panic_alift EncodeSchema_not_panic)
  then show ?thesis by (simp add: no_panic_def)
qed

end

subsection \<open>The three kinds of response\<close>

text \<open>Arrays of holders: what the two interpretations below share.\<close>

context address_holder begin

lemma array_lens:
  assumes elem: "\<And>v. ok_ty t v \<Longrightarrow> \<exists>b. v = VStructPtr b \<and> ok b \<and> struct_schema b = t"
    and wf: "\<And>b. ok b \<Longrightarrow> wf_struct b"
    and s: "wf_struct s" and f: "field_at (struct_schema s) name = Some f" and a: "array_field f t"
  defines "vs \<equiv> array_of s name"
  shows "list_all (ok_elem ok) vs" "Struct_Get s name = VArr vs"
    and "length hps = length vs \<Longrightarrow> list_all (\<lambda>hp. short (fst hp)) hps \<Longrightarrow>
      wf_struct (array_put s name (elements_put put vs hps))"
    and "length hps = length vs \<Longrightarrow> encodable (array_put s name (elements_put put vs hps)) \<Longrightarrow>
      list_all (\<lambda>hp. short (fst hp)) hps"
proof -
  have vs: "list_all (ok_ty t) vs" using array_of_wf [OF s f a] by (simp add: vs_def)
  then show "list_all (ok_elem ok) vs" by (rule array_ok) (rule elem)
  show "Struct_Get s name = VArr vs" using array_of_wf [OF s f a] by (simp add: vs_def)
  show "wf_struct (array_put s name (elements_put put vs hps))"
    if "length hps = length vs" "list_all (\<lambda>hp. short (fst hp)) hps"
    using array_ok_put [of t vs hps] elem wf vs that
    by (intro array_put_wf [OF s f a]) (auto simp: vs_def elements_put_def)
  show "list_all (\<lambda>hp. short (fst hp)) hps"
    if "length hps = length vs" "encodable (array_put s name (elements_put put vs hps))"
    by (intro array_short [of t vs] elem vs that(1) array_put_encodable [OF s f a that(2)])
qed

end

lemma broker_elem:
  "broker_ty t \<Longrightarrow> ok_ty t v \<Longrightarrow> \<exists>b. v = VStructPtr b \<and> ok_broker b \<and> struct_schema b = t"
  by (elim ok_ty_broker) auto

lemma holder_tyE:
  assumes "holder_ty t"
  obtains n fs where "t = SchemaT n fs"
proof (cases t)
  case (SchemaT n fs)
  with that show ?thesis .
qed (use assms in \<open>simp_all add: holder_ty_def field_at_def ty_GetFieldsByName_def\<close>)

lemma holder_elem:
  assumes "holder_ty t" "ok_ty t v"
  shows "\<exists>b. v = VStructPtr b \<and> ok_holder b \<and> struct_schema b = t"
proof -
  from assms(1) obtain n fs where t: "t = SchemaT n fs" by (rule holder_tyE)
  with assms(2) obtain vs where v: "v = VStructPtr (Struct t vs)" by (blast elim: ok_schemaE)
  have "ok_holder (Struct t vs)"
    using assms t v by (simp add: ok_holder_def wf_struct_def)
  with v show ?thesis by simp
qed

definition metadata_get :: "gstruct \<Rightarrow> address list" where
  "metadata_get s = elements_get broker_get (array_of s brokersKeyName)"

definition metadata_put :: "gstruct \<Rightarrow> (string \<times> 32 word) list \<Rightarrow> gstruct" where
  "metadata_put s hps =
     array_put s brokersKeyName (elements_put broker_put (array_of s brokersKeyName) hps)"

definition coordinators_get :: "gstruct \<Rightarrow> address list" where
  "coordinators_get s = elements_get holder_get (array_of s coordinatorsKeyName)"

definition coordinators_put :: "gstruct \<Rightarrow> (string \<times> 32 word) list \<Rightarrow> gstruct" where
  "coordinators_put s hps =
     array_put s coordinatorsKeyName (elements_put holder_put (array_of s coordinatorsKeyName) hps)"

definition coordinator_get :: "gstruct \<Rightarrow> address list" where
  "coordinator_get s = [holder_get s]"

definition coordinator_put :: "gstruct \<Rightarrow> (string \<times> 32 word) list \<Rightarrow> gstruct" where
  "coordinator_put s hps = holder_put s (hd hps)"

definition ok_metadata :: "gstruct \<Rightarrow> bool" where
  "ok_metadata s \<longleftrightarrow> wf_struct s \<and> metadata_ty (struct_schema s)"

definition ok_coordinators :: "gstruct \<Rightarrow> bool" where
  "ok_coordinators s \<longleftrightarrow> wf_struct s \<and> coordinators_ty (struct_schema s)"

definition ok_coordinator :: "gstruct \<Rightarrow> bool" where
  "ok_coordinator s \<longleftrightarrow> wf_struct s \<and> coordinator_ty (struct_schema s)"

lemma ok_metadataE:
  assumes "ok_metadata s"
  obtains f t where "wf_struct s" "field_at (struct_schema s) brokersKeyName = Some f"
    "array_field f t" "broker_ty t"
  using assms by (auto simp: ok_metadata_def metadata_ty_def array_field_def split: option.splits field.splits)

lemma ok_coordinatorsE:
  assumes "ok_coordinators s"
  obtains f t where "wf_struct s" "field_at (struct_schema s) coordinatorsKeyName = Some f"
    "array_field f t" "holder_ty t"
  using assms
  by (auto simp: ok_coordinators_def coordinators_ty_def array_field_def split: option.splits field.splits)

lemma array_put_same: "Struct_Get s name = VArr vs \<Longrightarrow> array_put s name vs = s"
  by (simp add: array_put_def struct_set_Get)

lemma array_put_put: "array_put (array_put s name vs) name ws = array_put s name ws"
  by (simp add: array_put_def struct_set_set)

lemma array_put_schema [simp]: "struct_schema (array_put s name vs) = struct_schema s"
  by (simp add: array_put_def)

lemma host_port_conv: "host_port = (\<lambda>(h, p, n). (h, p))"
  by (simp add: fun_eq_iff host_port_def)

interpretation metadata: response_lens ok_metadata metadata_get metadata_put modifyMetadataResponse
proof unfold_locales
  fix s :: gstruct and hps hps' :: "(string \<times> 32 word) list" and fn
  show "struct_schema (metadata_put s hps) = struct_schema s" by (simp add: metadata_put_def)
  assume ok: "ok_metadata s"
  then obtain f t where w: "wf_struct s" and f: "field_at (struct_schema s) brokersKeyName = Some f"
    and a: "array_field f t" and t: "broker_ty t" by (rule ok_metadataE)
  have wf: "wf_struct b" if "ok_broker b" for b using that by (simp add: ok_broker_def)
  note L = broker.array_lens [OF broker_elem [OF t] wf w f a]
  have len: "length (metadata_get s) = length (array_of s brokersKeyName)"
    by (simp add: metadata_get_def elements_get_def)
  show "wf_struct s" by (rule w)
  show "modifyMetadataResponse (Some s) (Some fn) =
      abind (map_addresses fn (metadata_get s)) (\<lambda>hps. aret (metadata_put s hps))"
    using L(1,2) by (simp add: modifyMetadataResponse_def broker.elements_eq abind_assoc metadata_get_def
        metadata_put_def array_put_def)
  show "metadata_put s (map host_port (metadata_get s)) = s"
    using L(1,2) by (simp add: metadata_get_def metadata_put_def host_port_conv
        broker.elements_put_get array_put_same)
  assume hps: "length hps = length (metadata_get s)"
  show "metadata_get (metadata_put s hps) = replace_addresses (metadata_get s) hps"
    using hps L(1) len by (simp add: metadata_get_def metadata_put_def array_put_of [OF w f]
        broker.elements_get_put replace_addresses_def)
  show "ok_metadata (metadata_put s hps)" if "list_all (\<lambda>hp. short (fst hp)) hps"
    using that hps len L(3) ok by (simp add: ok_metadata_def metadata_put_def)
  show "list_all (\<lambda>hp. short (fst hp)) hps" if "encodable (metadata_put s hps)"
    using that hps len L(4) by (simp add: metadata_put_def)
  assume hps': "length hps' = length (metadata_get s)"
  show "metadata_put (metadata_put s hps) hps' = metadata_put s hps'"
    using hps hps' len L(1) by (simp add: metadata_put_def array_put_of [OF w f] array_put_put
        broker.elements_put_put)
qed

interpretation coordinators: response_lens ok_coordinators coordinators_get coordinators_put
    modifyFindCoordinatorResponse
proof unfold_locales
  fix s :: gstruct and hps hps' :: "(string \<times> 32 word) list" and fn
  show "struct_schema (coordinators_put s hps) = struct_schema s" by (simp add: coordinators_put_def)
  assume ok: "ok_coordinators s"
  then obtain f t where w: "wf_struct s" and f: "field_at (struct_schema s) coordinatorsKeyName = Some f"
    and a: "array_field f t" and t: "holder_ty t" by (rule ok_coordinatorsE)
  have wf: "wf_struct b" if "ok_holder b" for b using that by (simp add: ok_holder_def)
  note L = holder.array_lens [OF holder_elem [OF t] wf w f a]
  have len: "length (coordinators_get s) = length (array_of s coordinatorsKeyName)"
    by (simp add: coordinators_get_def elements_get_def)
  show "wf_struct s" by (rule w)
  show "modifyFindCoordinatorResponse (Some s) (Some fn) =
      abind (map_addresses fn (coordinators_get s)) (\<lambda>hps. aret (coordinators_put s hps))"
    using L(1,2) by (simp add: modifyFindCoordinatorResponse_def holder.elements_eq abind_assoc
        coordinators_get_def coordinators_put_def array_put_def)
  show "coordinators_put s (map host_port (coordinators_get s)) = s"
    using L(1,2) by (simp add: coordinators_get_def coordinators_put_def host_port_conv
        holder.elements_put_get array_put_same)
  assume hps: "length hps = length (coordinators_get s)"
  show "coordinators_get (coordinators_put s hps) = replace_addresses (coordinators_get s) hps"
    using hps L(1) len by (simp add: coordinators_get_def coordinators_put_def array_put_of [OF w f]
        holder.elements_get_put replace_addresses_def)
  show "ok_coordinators (coordinators_put s hps)" if "list_all (\<lambda>hp. short (fst hp)) hps"
    using that hps len L(3) ok by (simp add: ok_coordinators_def coordinators_put_def)
  show "list_all (\<lambda>hp. short (fst hp)) hps" if "encodable (coordinators_put s hps)"
    using that hps len L(4) by (simp add: coordinators_put_def)
  assume hps': "length hps' = length (coordinators_get s)"
  show "coordinators_put (coordinators_put s hps) hps' = coordinators_put s hps'"
    using hps hps' len L(1) by (simp add: coordinators_put_def array_put_of [OF w f] array_put_put
        holder.elements_put_put)
qed

lemma length_one: "length xs = Suc 0 \<Longrightarrow> xs = [hd xs]"
  by (cases xs) auto

interpretation coordinator: response_lens ok_coordinator coordinator_get coordinator_put
    modifyFindCoordinatorResponse
proof unfold_locales
  fix s :: gstruct and hps hps' :: "(string \<times> 32 word) list" and fn
  show "struct_schema (coordinator_put s hps) = struct_schema s" by (simp add: coordinator_put_def)
  assume ok: "ok_coordinator s"
  then have h: "ok_holder s" and none: "field_at (struct_schema s) coordinatorsKeyName = None"
    by (simp_all add: ok_coordinator_def coordinator_ty_def ok_holder_def)
  show "wf_struct s" using ok by (simp add: ok_coordinator_def)
  show "modifyFindCoordinatorResponse (Some s) (Some fn) =
      abind (map_addresses fn (coordinator_get s)) (\<lambda>hps. aret (coordinator_put s hps))"
    using Struct_Get_absent [OF none] holder.modify_eq [OF h]
    by (simp add: modifyFindCoordinatorResponse_def coordinator_get_def coordinator_put_def abind_assoc)
  show "coordinator_put s (map host_port (coordinator_get s)) = s"
    using holder.put_get [OF h]
    by (simp add: coordinator_put_def coordinator_get_def host_port_def split: prod.splits)
  assume "length hps = length (coordinator_get s)"
  then have hps: "hps = [hd hps]" by (intro length_one) (simp add: coordinator_get_def)
  show "coordinator_get (coordinator_put s hps) = replace_addresses (coordinator_get s) hps"
    using holder.get_put [OF h, of "fst (hd hps)" "snd (hd hps)"]
    by (subst (2) hps) (simp add: coordinator_get_def coordinator_put_def replace_addresses_def case_prod_beta)
  show "ok_coordinator (coordinator_put s hps)" if "list_all (\<lambda>hp. short (fst hp)) hps"
  proof -
    from that have "short (fst (hd hps))" by (subst (asm) hps) simp
    from holder.ok_put [OF h this, of "snd (hd hps)"] ok show ?thesis
      by (simp add: ok_coordinator_def coordinator_put_def ok_holder_def)
  qed
  show "list_all (\<lambda>hp. short (fst hp)) hps" if "encodable (coordinator_put s hps)"
    using that holder.put_encodable [OF h, of "fst (hd hps)" "snd (hd hps)"]
    by (subst hps) (simp add: coordinator_put_def)
  show "coordinator_put (coordinator_put s hps) hps' = coordinator_put s hps'"
    by (simp add: coordinator_put_def holder.put_put [OF h])
qed

subsection \<open>Responses by API key\<close>

definition response_addresses :: "16 word \<Rightarrow> gstruct \<Rightarrow> address list" where
  "response_addresses apiKey s =
     (if apiKey = apiKeyMetadata then metadata_get s
      else if coordinators_ty (struct_schema s) then coordinators_get s
      else coordinator_get s)"

definition response_put :: "16 word \<Rightarrow> gstruct \<Rightarrow> (string \<times> 32 word) list \<Rightarrow> gstruct" where
  "response_put apiKey s hps =
     (if apiKey = apiKeyMetadata then metadata_put s hps
      else if coordinators_ty (struct_schema s) then coordinators_put s hps
      else coordinator_put s hps)"

lemma getResponseSchema_Inr:
  "getResponseSchema k v schemas = Inr t \<longleftrightarrow>
     0 \<le> sint v \<and> sint v < int (length schemas) \<and> t = schemas ! nat (sint v)"
  by (auto simp: getResponseSchema_def)

lemma GetResponseModifier_Some:
  assumes "GetResponseModifier k v fn = Inr (Some m)"
  shows "response_ty k (rm_schema m) \<and> rm_netAddressMappingFunc m = fn \<and>
    rm_modifyResponseFunc m =
      (if k = apiKeyMetadata then modifyMetadataResponse else modifyFindCoordinatorResponse)"
proof -
  have "response_ty k (schemas ! i)" if "list_all (response_ty k) schemas" "i < length schemas" for schemas i
    using that by (simp add: list_all_length)
  with assms show ?thesis
    using schema_tables_response_ty
    by (auto simp: GetResponseModifier_def newResponseModifier_def rbind_Inr_conv getResponseSchema_Inr
        nat_less_iff split: if_splits)
qed

lemma response_ty_cases:
  assumes "response_ty k t" "wf_struct s" "struct_schema s = t"
  obtains "k = apiKeyMetadata" "ok_metadata s"
  | "k = apiKeyFindCoordinator" "k \<noteq> apiKeyMetadata" "ok_coordinators s" "coordinators_ty t"
  | "k = apiKeyFindCoordinator" "k \<noteq> apiKeyMetadata" "ok_coordinator s" "\<not> coordinators_ty t"
  using assms
  by (auto simp: response_ty_def ok_metadata_def ok_coordinators_def ok_coordinator_def split: if_splits)

lemma DecodeSchema_wf:
  assumes "response_ty k t" "DecodeSchema buf t = Inr (Some s)"
  shows "wf_struct s" "struct_schema s = t"
proof -
  obtain n fs where t: "t = SchemaT n fs"
  proof (cases t)
    case (SchemaT n fs)
    with that show ?thesis .
  qed (use assms(1) in \<open>simp_all add: response_ty_def metadata_ty_def coordinators_ty_def
      coordinator_ty_def holder_ty_def field_at_def ty_GetFieldsByName_def split: if_splits\<close>)
  have "ok_ty t (VStructPtr s)" by (rule DecodeSchema_ok [OF assms(2)])
  with t show "wf_struct s" "struct_schema s = t" by (auto simp: wf_struct_def)
qed

end
