(* ===== verification/ResponseProps.thy ===== *)
theory ResponseProps
  imports ResponseRewrite
begin

section \<open>What the proxy does to a metadata or find-coordinator response\<close>

text \<open>
  The theorems on \<open>GetResponseModifier\<close> and \<open>Apply\<close> for whole responses, over every supported
  API key and version.
\<close>

lemma modifier_cases:
  assumes "GetResponseModifier k v (Some fn) = Inr (Some m)"
    and "DecodeSchema (Some b) (rm_schema m) = Inr (Some s)"
  obtains "k = apiKeyMetadata" "ok_metadata s" "m = metadata.modifier (rm_schema m) fn"
      "good_ty (rm_schema m)" "struct_schema s = rm_schema m"
  | "k \<noteq> apiKeyMetadata" "ok_coordinators s" "coordinators_ty (struct_schema s)"
      "m = coordinators.modifier (rm_schema m) fn" "good_ty (rm_schema m)" "struct_schema s = rm_schema m"
  | "k \<noteq> apiKeyMetadata" "ok_coordinator s" "\<not> coordinators_ty (struct_schema s)"
      "m = coordinator.modifier (rm_schema m) fn" "good_ty (rm_schema m)" "struct_schema s = rm_schema m"
proof -
  note m = GetResponseModifier_Some [OF assms(1)]
  then have r: "response_ty k (rm_schema m)" by simp
  note d = DecodeSchema_wf [OF r assms(2)]
  have g: "good_ty (rm_schema m)" using r by (simp add: response_ty_def)
  from r d show thesis
    by (rule response_ty_cases)
      (use m d g that in \<open>auto simp: metadata.modifier_def coordinators.modifier_def
         coordinator.modifier_def\<close>)
qed

lemmas response_ops = response_addresses_def response_put_def

lemma response_lens_laws:
  assumes "GetResponseModifier k v (Some fn) = Inr (Some m)"
    and "DecodeSchema (Some b) (rm_schema m) = Inr (Some s)"
  shows "response_put k s (map host_port (response_addresses k s)) = s"
    and "length hps = length (response_addresses k s) \<Longrightarrow>
      response_addresses k (response_put k s hps) = replace_addresses (response_addresses k s) hps"
    and "length hps = length (response_addresses k s) \<Longrightarrow>
      length hps' = length (response_addresses k s) \<Longrightarrow>
      response_put k (response_put k s hps) hps' = response_put k s hps'"
  using assms
  by (elim modifier_cases; simp add: response_ops metadata.put_get coordinators.put_get
      coordinator.put_get metadata.get_put coordinators.get_put coordinator.get_put metadata.put_put
      coordinators.put_put coordinator.put_put metadata.put_schema coordinators.put_schema
      coordinator.put_schema)+

lemma Apply_decoded:
  assumes "GetResponseModifier k v (Some fn) = Inr (Some m)"
    and "DecodeSchema (Some b) (rm_schema m) = Inr (Some s)"
  shows "responseModifier_Apply m (Some b) =
    abind (map_addresses fn (response_addresses k s)) (\<lambda>hps.
      alift (EncodeSchema (Some (response_put k s hps)) (rm_schema m)))"
proof -
  have s: "rm_schema (metadata.modifier t fn) = t" "rm_schema (coordinators.modifier t fn) = t"
    "rm_schema (coordinator.modifier t fn) = t" for t
    by (simp_all add: metadata.modifier_def coordinators.modifier_def coordinator.modifier_def)
  show ?thesis
    using assms(1,2)
  proof (rule modifier_cases)
    assume c: "k = apiKeyMetadata" "ok_metadata s" "m = metadata.modifier (rm_schema m) fn"
    show ?thesis
      using metadata.apply_eq [OF assms(2) c(2), of fn] c(1)
      by (subst c(3)) (simp add: response_ops)
  next
    assume c: "k \<noteq> apiKeyMetadata" "ok_coordinators s" "coordinators_ty (struct_schema s)"
      "m = coordinators.modifier (rm_schema m) fn"
    show ?thesis
      using coordinators.apply_eq [OF assms(2) c(2), of fn] c(1,3)
      by (subst c(4)) (simp add: response_ops)
  next
    assume c: "k \<noteq> apiKeyMetadata" "ok_coordinator s" "\<not> coordinators_ty (struct_schema s)"
      "m = coordinator.modifier (rm_schema m) fn"
    show ?thesis
      using coordinator.apply_eq [OF assms(2) c(2), of fn] c(1,3)
      by (subst c(4)) (simp add: response_ops)
  qed
qed

lemma Apply_decodes:
  assumes "GetResponseModifier k v (Some fn) = Inr (Some m)"
    and "responseModifier_Apply m (Some b) \<sigma> = (Inr out, \<sigma>')"
  obtains s hps b' where "DecodeSchema (Some b) (rm_schema m) = Inr (Some s)"
    "map_addresses fn (response_addresses k s) \<sigma> = (Inr hps, \<sigma>')"
    "out = Some b'" "b' = wire_ty (rm_schema m) (VStructPtr (response_put k s hps))"
    "DecodeSchema (Some b') (rm_schema m) = Inr (Some (response_put k s hps))"
proof -
  obtain d where d: "DecodeSchema (Some b) (rm_schema m) = Inr d"
    using assms(2) by (cases "DecodeSchema (Some b) (rm_schema m)")
      (auto simp: responseModifier_Apply_def abind_Inr_conv)
  then obtain s where s: "DecodeSchema (Some b) (rm_schema m) = Inr (Some s)"
    by (auto simp: DecodeSchema_def split: prod.splits sum.splits if_splits gvalue.splits)
  show thesis
    using assms(1) s
  proof (rule modifier_cases)
    assume c: "k = apiKeyMetadata" "ok_metadata s" "m = metadata.modifier (rm_schema m) fn"
      "good_ty (rm_schema m)" "struct_schema s = rm_schema m"
    from metadata.apply_result [OF s c(2,4,5), of fn \<sigma> out \<sigma>'] assms(2) c(1) s that show thesis
      by (auto simp: response_ops c(3) [symmetric])
  next
    assume c: "k \<noteq> apiKeyMetadata" "ok_coordinators s" "coordinators_ty (struct_schema s)"
      "m = coordinators.modifier (rm_schema m) fn" "good_ty (rm_schema m)" "struct_schema s = rm_schema m"
    from coordinators.apply_result [OF s c(2,5,6), of fn \<sigma> out \<sigma>'] assms(2) c(1,3) s that show thesis
      by (auto simp: response_ops c(4) [symmetric])
  next
    assume c: "k \<noteq> apiKeyMetadata" "ok_coordinator s" "\<not> coordinators_ty (struct_schema s)"
      "m = coordinator.modifier (rm_schema m) fn" "good_ty (rm_schema m)" "struct_schema s = rm_schema m"
    from coordinator.apply_result [OF s c(2,5,6), of fn \<sigma> out \<sigma>'] assms(2) c(1,3) s that show thesis
      by (auto simp: response_ops c(4) [symmetric])
  qed
qed

subsection \<open>A response to try the theorems on\<close>

text \<open>A version-0 metadata response with the one broker \<open>(1, "kb", 9092)\<close> and no topics.\<close>

definition sample_response :: "byte list" where
  "sample_response = [0,0,0,1, 0,0,0,1, 0,2,107,98, 0,0,35,132, 0,0,0,0]"

definition sample_struct :: gstruct where
  "sample_struct = Struct (metadataResponseSchemaVersions ! 0)
     [VArr [VStructPtr (Struct (init_schema metadataBrokerV0) [VInt32 1, VStr ''kb'', VInt32 9092])],
      VArr []]"

text \<open>A mapping that counts its calls and sends every broker to one host.\<close>

definition sample_mapping :: "nat netAddressMappingFunc" where
  "sample_mapping h p n \<sigma> = (Inr (''proxy'', p + 1), \<sigma> + 1)"

definition sample_modifier :: "nat responseModifier" where
  "sample_modifier = \<lparr>rm_schema = metadataResponseSchemaVersions ! 0,
     rm_modifyResponseFunc = modifyMetadataResponse,
     rm_netAddressMappingFunc = Some sample_mapping\<rparr>"

lemma sample_GetResponseModifier:
  "GetResponseModifier 3 0 (Some sample_mapping) = Inr (Some sample_modifier)"
  using schema_tables_length
  by (simp add: GetResponseModifier_def newResponseModifier_def getResponseSchema_def
      apiKeyMetadata_def sample_modifier_def)

lemma sample_decode:
  "DecodeSchema (Some sample_response) (rm_schema sample_modifier) = Inr (Some sample_struct)"
  by (simp only: sample_modifier_def responseModifier.simps) code_simp

lemma sample_apply:
  "responseModifier_Apply sample_modifier (Some sample_response) 0 =
    (Inr (Some [0,0,0,1, 0,0,0,1, 0,5,112,114,111,120,121, 0,0,35,133, 0,0,0,0]), 1)"
  by code_simp

subsection \<open>The properties\<close>

lemma DecodeSchema_Some_not_nil: "DecodeSchema (Some b) t \<noteq> Inr None"
  by (auto simp: DecodeSchema_def split: prod.splits sum.splits if_splits gvalue.splits)

text \<open>
  C1: The response modifier refines its specification.  For every API key and version that has
  a modifier, \<open>Apply\<close> on a response fails as its decoding does; on a response that decodes to
  a struct \<open>s\<close> it runs the mapping on the broker addresses of \<open>s\<close>, in order and on nothing
  else, and encodes \<open>s\<close> with the hosts and ports the mapping returned.
\<close>

theorem Apply_refines_map_addresses:
  assumes "GetResponseModifier k v (Some fn) = Inr (Some m)"
  shows "responseModifier_Apply m (Some b) =
    (case DecodeSchema (Some b) (rm_schema m) of
       Inl e \<Rightarrow> alift (Inl e)
     | Inr d \<Rightarrow>
         abind (map_addresses fn (response_addresses k (the d))) (\<lambda>hps.
           alift (EncodeSchema (Some (response_put k (the d) hps)) (rm_schema m))))"
proof (cases "DecodeSchema (Some b) (rm_schema m)")
  case (Inl e)
  then show ?thesis by (simp add: responseModifier_Apply_def abind_lift_Inl)
next
  case (Inr d)
  with DecodeSchema_Some_not_nil obtain s where "d = Some s" by (cases d) auto
  with Inr Apply_decoded [OF assms] show ?thesis by simp
qed

lemma Apply_refines_map_addresses_witness:
  "responseModifier_Apply sample_modifier (Some sample_response) 0 =
    abind (map_addresses sample_mapping (response_addresses 3 sample_struct)) (\<lambda>hps.
      alift (EncodeSchema (Some (response_put 3 sample_struct hps)) (rm_schema sample_modifier))) 0"
  using Apply_refines_map_addresses [OF sample_GetResponseModifier, of sample_response]
  by (simp add: sample_decode)

text \<open>
  C5: A rewritten response differs from the original in broker addresses only.  When \<open>Apply\<close>
  returns, its result is a response of the same version that the client decodes; the
  addresses in it are those the mapping gave for the addresses of the original, the node ids
  are the original ones, and putting the original addresses back gives the original response.
\<close>

theorem Apply_changes_addresses_only:
  assumes "GetResponseModifier k v (Some fn) = Inr (Some m)"
    and "responseModifier_Apply m (Some b) \<sigma> = (Inr out, \<sigma>')"
  shows "\<exists>s s' hps. DecodeSchema (Some b) (rm_schema m) = Inr (Some s)
    \<and> DecodeSchema out (rm_schema m) = Inr (Some s')
    \<and> map_addresses fn (response_addresses k s) \<sigma> = (Inr hps, \<sigma>')
    \<and> response_addresses k s' = replace_addresses (response_addresses k s) hps
    \<and> response_put k s' (map host_port (response_addresses k s)) = s"
proof -
  from assms obtain s hps b' where d: "DecodeSchema (Some b) (rm_schema m) = Inr (Some s)"
    and h: "map_addresses fn (response_addresses k s) \<sigma> = (Inr hps, \<sigma>')" and o: "out = Some b'"
    and d': "DecodeSchema (Some b') (rm_schema m) = Inr (Some (response_put k s hps))"
    by (rule Apply_decodes)
  have len: "length hps = length (response_addresses k s)" by (rule map_addresses_length [OF h])
  note laws = response_lens_laws [OF assms(1) d]
  have "response_put k (response_put k s hps) (map host_port (response_addresses k s)) = s"
    using laws(3) [OF len, of "map host_port (response_addresses k s)"] laws(1) by simp
  with d d' h o laws(2) [OF len] show ?thesis by blast
qed

lemma Apply_changes_addresses_only_witness:
  "\<exists>s' hps. DecodeSchema
      (Some [0,0,0,1, 0,0,0,1, 0,5,112,114,111,120,121, 0,0,35,133, 0,0,0,0])
      (rm_schema sample_modifier) = Inr (Some s')
    \<and> response_addresses 3 s' = replace_addresses (response_addresses 3 sample_struct) hps
    \<and> response_put 3 s' (map host_port (response_addresses 3 sample_struct)) = sample_struct"
  using Apply_changes_addresses_only [OF sample_GetResponseModifier sample_apply]
  by (auto simp: sample_decode)

lemma wf_encode:
  assumes "GetResponseModifier k v (Some fn) = Inr (Some m)"
    and "wf_struct s" "struct_schema s = rm_schema m"
  shows "DecodeSchema (Some (wire_ty (rm_schema m) (VStructPtr s))) (rm_schema m) = Inr (Some s)"
  using GetResponseModifier_Some [OF assms(1)] assms(2,3)
  by (intro DecodeSchema_wire) (auto simp: response_ty_def wf_struct_def)

lemma identity_GetResponseModifier:
  "GetResponseModifier 3 0 (Some (\<lambda>h p n. aret (h, p))) =
    Inr (Some \<lparr>rm_schema = metadataResponseSchemaVersions ! 0,
      rm_modifyResponseFunc = modifyMetadataResponse,
      rm_netAddressMappingFunc = Some (\<lambda>h p n. aret (h, p))\<rparr>)"
  using schema_tables_length
  by (simp add: GetResponseModifier_def newResponseModifier_def getResponseSchema_def
      apiKeyMetadata_def)

lemma sample_wf:
  "wf_struct sample_struct" "struct_schema sample_struct = metadataResponseSchemaVersions ! 0"
  using DecodeSchema_wf [OF _ sample_decode, of 3] GetResponseModifier_Some [OF sample_GetResponseModifier]
  by (simp_all add: sample_struct_def)

lemma sample_encode:
  "EncodeSchema (Some sample_struct) (metadataResponseSchemaVersions ! 0) = Inr (Some sample_response)"
  by code_simp

text \<open>
  A mapping that changes no address leaves the response as it is, byte for byte: on the
  encoding of any decodable struct, \<open>Apply\<close> is the identity.
\<close>

theorem Apply_identity:
  assumes "GetResponseModifier k v (Some (\<lambda>h p n. aret (h, p))) = Inr (Some m)"
    and "wf_struct s" "struct_schema s = rm_schema m"
    and "EncodeSchema (Some s) (rm_schema m) = Inr (Some b)"
  shows "responseModifier_Apply m (Some b) \<sigma> = (Inr (Some b), \<sigma>)"
proof -
  from assms(4) have b: "b = wire_ty (rm_schema m) (VStructPtr s)" by (simp add: EncodeSchema_Inr)
  have d: "DecodeSchema (Some b) (rm_schema m) = Inr (Some s)"
    unfolding b by (rule wf_encode [OF assms(1-3)])
  show ?thesis
    using Apply_decoded [OF assms(1) d] response_lens_laws(1) [OF assms(1) d] assms(4)
    by (simp add: map_addresses_id host_port_conv [symmetric])
qed

lemma Apply_identity_witness:
  "responseModifier_Apply \<lparr>rm_schema = metadataResponseSchemaVersions ! 0,
      rm_modifyResponseFunc = modifyMetadataResponse,
      rm_netAddressMappingFunc = Some (\<lambda>h p n. aret (h, p))\<rparr> (Some sample_response) (0 :: nat) =
    (Inr (Some sample_response), 0)"
  by (rule Apply_identity [OF identity_GetResponseModifier sample_wf(1)])
    (simp_all add: sample_wf(2) sample_encode)

subsection \<open>Types\<close>

text \<open>
  C19: Decoded values have the types of their schema.  A struct that \<open>DecodeSchema\<close> returns is a
  value of the schema, in all its nested arrays and structs.  Reading a field by its name gives a
  value of the field's type, so that no type assertion on it fails.  \<open>Replace\<close> with a value of the
  field's type succeeds where neither the old value nor the new one is nil: the struct is then a
  value of the schema again, the field has the new value and every other field its old one.
  \<open>Replace\<close> with a name the schema does not have, or with a value of another kind, is refused.
\<close>

theorem decoded_values_are_typed:
  assumes "DecodeSchema buf t = Inr (Some s)"
  shows "ok_ty t (VStructPtr s)
    \<and> (\<forall>name f. field_at t name = Some f \<longrightarrow> ok_field f (Struct_Get s name)
         \<and> (\<forall>v. ok_field f v \<and> v \<noteq> VNil \<and> Struct_Get s name \<noteq> VNil \<longrightarrow>
              (\<exists>s'. Struct_Replace s name v = Inr s' \<and> ok_ty t (VStructPtr s') \<and> Struct_Get s' name = v
                \<and> (\<forall>other. other \<noteq> name \<longrightarrow> Struct_Get s' other = Struct_Get s other))))
    \<and> (\<forall>name v. field_at t name = None \<or> go_kind v \<noteq> go_kind (Struct_Get s name) \<longrightarrow>
         (\<exists>e. Struct_Replace s name v = Inl (GoErr e)))"
proof -
  have ok: "ok_ty t (VStructPtr s)" by (rule DecodeSchema_ok [OF assms])
  then obtain n fs where t: "t = SchemaT n fs" by (cases t) auto
  with ok have wf: "wf_struct s" and schema: "struct_schema s = t" by (auto simp: wf_struct_def)
  have "\<exists>s'. Struct_Replace s name v = Inr s' \<and> ok_ty t (VStructPtr s') \<and> Struct_Get s' name = v
      \<and> (\<forall>other. other \<noteq> name \<longrightarrow> Struct_Get s' other = Struct_Get s other)"
    if "field_at t name = Some f" "ok_field f v" "v \<noteq> VNil" "Struct_Get s name \<noteq> VNil" for name f v
    using Struct_Replace_typed [OF wf, of name f v] that schema by (auto simp: wf_struct_def)
  with ok wf_struct_Get [OF wf] Struct_Replace_refused [of s] schema show ?thesis by blast
qed

lemma decoded_values_are_typed_witness:
  "ok_ty (rm_schema sample_modifier) (VStructPtr sample_struct)
   \<and> (\<exists>e. Struct_Replace sample_struct ''brokers'' (VStr ''none'') = Inl (GoErr e))"
proof -
  have "go_kind (VStr ''none'') \<noteq> go_kind (Struct_Get sample_struct ''brokers'')"
    by (simp add: sample_struct_def) code_simp
  with decoded_values_are_typed [OF sample_decode] show ?thesis by blast
qed

text \<open>
  C32: The only panic of \<open>Apply\<close>.  With a mapping that does not panic, \<open>Apply\<close> can panic on
  one thing alone, the allocation of the tagged fields that a flexible response announces: on
  metadata before version 9 and find-coordinator before version 3 it never does.
\<close>

theorem Apply_panics_on_tagged_fields_only:
  assumes "GetResponseModifier k v (Some fn) = Inr (Some m)" "\<And>h p n. no_panic (fn h p n)"
    and "fst (responseModifier_Apply m resp \<sigma>) = Inl (GoPanic msg)"
  shows "msg = makeslice_panic \<and> \<not> untagged_ty (rm_schema m)"
proof (cases resp)
  case None
  have "rm_modifyResponseFunc m None f = aerr (ErrNew ''decoded struct must not be nil'')" for f
    using GetResponseModifier_Some [OF assms(1)]
    by (simp add: modifyMetadataResponse_def modifyFindCoordinatorResponse_def)
  with assms(3) None show ?thesis
    by (simp add: responseModifier_Apply_def DecodeSchema_def aerr_def)
next
  case (Some b)
  show ?thesis
  proof (cases "DecodeSchema (Some b) (rm_schema m)")
    case (Inl e)
    with assms(3) Some have "DecodeSchema (Some b) (rm_schema m) = Inl (GoPanic msg)"
      by (simp add: responseModifier_Apply_def abind_lift_Inl alift_def)
    then show ?thesis by (rule DecodeSchema_panics)
  next
    case (Inr d)
    with DecodeSchema_Some_not_nil obtain s where d: "DecodeSchema (Some b) (rm_schema m) = Inr (Some s)"
      by (cases d) auto
    have "no_panic (responseModifier_Apply m (Some b))"
      unfolding Apply_decoded [OF assms(1) d]
      by (intro no_panic_abind map_addresses_no_panic assms(2) no_panic_alift EncodeSchema_not_panic)
    then have "\<not> is_panic (fst (responseModifier_Apply m resp \<sigma>))" by (simp add: no_panic_def Some)
    with assms(3) show ?thesis by simp
  qed
qed

text \<open>A version-4 find-coordinator response that announces 2^63 - 1 tagged fields.\<close>

definition hostile_response :: "byte list" where
  "hostile_response = [0,0,0,0, 1, 255,255,255,255,255,255,255,255,127]"

definition hostile_modifier :: "nat responseModifier" where
  "hostile_modifier = \<lparr>rm_schema = findCoordinatorResponseSchemaVersions ! 4,
     rm_modifyResponseFunc = modifyFindCoordinatorResponse,
     rm_netAddressMappingFunc = Some sample_mapping\<rparr>"

lemma hostile_GetResponseModifier:
  "GetResponseModifier 10 4 (Some sample_mapping) = Inr (Some hostile_modifier)"
  using schema_tables_length
  by (simp add: GetResponseModifier_def newResponseModifier_def getResponseSchema_def
      apiKeyMetadata_def apiKeyFindCoordinator_def hostile_modifier_def)

lemma schema_decode_values_fails:
  assumes "schema_decode_values ms rd = (Inr vs, rd')" "m rd' = (Inl e, rd'')"
  shows "schema_decode_values (ms @ [m]) rd = (Inl e, rd'')"
  using assms
proof (induction ms arbitrary: vs rd)
  case Nil
  then show ?case by (simp add: dbind_def dret_def)
next
  case (Cons f fs)
  then obtain a rd1 ws where "f rd = (Inr a, rd1)" "schema_decode_values fs rd1 = (Inr ws, rd')"
    by (auto simp: dbind_Inr dret_def)
  with Cons show ?case by (auto simp: dbind_def)
qed

lemma tagged_decode_panics:
  assumes "getVarint rd = (Inr n, rd')" "maxAlloc < 32 * sint n"
  shows "SchemaTaggedFields_decode rd = (Inl (GoPanic makeslice_panic), rd')"
proof -
  have "n \<noteq> 0" "\<not> sint n < 0" using assms(2) by (auto simp: maxAlloc_def)
  with assms show ?thesis
    by (simp add: SchemaTaggedFields_decode_def tagged_decode_def dbind_def make_slice_def
        makeslice_panic_def)
qed

lemma hostile_prefix:
  "schema_decode_values (map field_decode (take 2 (ty_GetFields (rm_schema hostile_modifier))))
     \<lparr>rd_raw = hostile_response, rd_off = 0\<rparr> =
   (Inr [VInt32 0, VArr []], \<lparr>rd_raw = hostile_response, rd_off = 5\<rparr>)"
  "getVarint \<lparr>rd_raw = hostile_response, rd_off = 5\<rparr> =
   (Inr 9223372036854775807, \<lparr>rd_raw = hostile_response, rd_off = 14\<rparr>)"
  "rm_schema hostile_modifier = SchemaT ''find_coordinator_response_v4''
     (take 2 (ty_GetFields (rm_schema hostile_modifier)) @ [SchemaTaggedFields ''response_tagged_fields''])"
  by code_simp+

lemma hostile_panics:
  "fst (responseModifier_Apply hostile_modifier (Some hostile_response) 0) =
    Inl (GoPanic ''makeslice: len out of range'')"
proof -
  let ?fs = "take 2 (ty_GetFields (rm_schema hostile_modifier))"
  have "SchemaTaggedFields_decode \<lparr>rd_raw = hostile_response, rd_off = 5\<rparr> =
      (Inl (GoPanic makeslice_panic), \<lparr>rd_raw = hostile_response, rd_off = 14\<rparr>)"
    by (rule tagged_decode_panics [OF hostile_prefix(2)]) (simp add: maxAlloc_def)
  from schema_decode_values_fails [where m = SchemaTaggedFields_decode, OF hostile_prefix(1) this]
  have "ty_decode (SchemaT n (?fs @ [SchemaTaggedFields m])) \<lparr>rd_raw = hostile_response, rd_off = 0\<rparr> =
      (Inl (GoPanic makeslice_panic), \<lparr>rd_raw = hostile_response, rd_off = 14\<rparr>)" for n m
    by (simp add: schema_decode_def dbind_def)
  then have "DecodeSchema (Some hostile_response) (rm_schema hostile_modifier) =
      Inl (GoPanic makeslice_panic)"
    by (subst hostile_prefix(3)) (simp only: DecodeSchema_def, simp)
  then show ?thesis
    by (simp add: responseModifier_Apply_def abind_lift_Inl alift_def makeslice_panic_def)
qed

lemma sample_mapping_no_panic: "no_panic (sample_mapping h p n)"
  by (simp add: no_panic_def sample_mapping_def)

lemma Apply_panics_on_tagged_fields_only_witness:
  "''makeslice: len out of range'' = makeslice_panic \<and> \<not> untagged_ty (rm_schema hostile_modifier)"
  by (rule Apply_panics_on_tagged_fields_only [OF hostile_GetResponseModifier sample_mapping_no_panic
      hostile_panics])

text \<open>
  A flexible response can make the proxy panic: the number of tagged fields is not checked
  against the bytes that follow, so a 14-byte find-coordinator response (version 4) that
  announces \<open>2^63 - 1\<close> of them panics in the allocation of the slice.
\<close>

theorem flexible_response_can_panic:
  "\<exists>m. GetResponseModifier 10 4 (Some sample_mapping) = Inr (Some m) \<and>
    fst (responseModifier_Apply m (Some hostile_response) 0) =
      Inl (GoPanic ''makeslice: len out of range'')"
  using hostile_GetResponseModifier hostile_panics by blast

text \<open>
  Which responses are rewritten: metadata in versions 0 to 13 and find-coordinator in
  versions 0 to 6, under the schema of the version; any other version of these two is an
  error, and every other API key has no modifier.
\<close>

theorem GetResponseModifier_table:
  "GetResponseModifier k v fn =
    (if k = apiKeyMetadata \<and> 0 \<le> sint v \<and> sint v < 14
     then Inr (Some \<lparr>rm_schema = metadataResponseSchemaVersions ! nat (sint v),
       rm_modifyResponseFunc = modifyMetadataResponse, rm_netAddressMappingFunc = fn\<rparr>)
     else if k = apiKeyFindCoordinator \<and> 0 \<le> sint v \<and> sint v < 7
     then Inr (Some \<lparr>rm_schema = findCoordinatorResponseSchemaVersions ! nat (sint v),
       rm_modifyResponseFunc = modifyFindCoordinatorResponse, rm_netAddressMappingFunc = fn\<rparr>)
     else if k = apiKeyMetadata \<or> k = apiKeyFindCoordinator
     then Inl (GoErr (ErrNew (''Unsupported response schema version '' @ go_itoa (sint v)
       @ '' for key '' @ go_itoa (sint k) @ '' '')))
     else Inr None)"
proof -
  have "apiKeyFindCoordinator \<noteq> apiKeyMetadata" by (simp add: apiKeyMetadata_def apiKeyFindCoordinator_def)
  with schema_tables_length show ?thesis
    by (cases "k = apiKeyMetadata"; cases "k = apiKeyFindCoordinator")
      (simp_all add: GetResponseModifier_def newResponseModifier_def getResponseSchema_def)
qed

end
