(* ===== verification/Messages.thy ===== *)
theory Messages
  imports SchemaDecode KErrors
begin

section \<open>Requests, SASL messages and response headers\<close>

text \<open>
  The messages the proxy itself encodes and decodes: \<open>Request\<close> and \<open>RequestV2\<close> with their
  bodies (\<open>sasl_handshake.go\<close>, \<open>sasl_authenticate_v0/v1/v2.go\<close>), the SASL responses,
  \<open>ResponseHeader\<close>, \<open>ResponseHeaderV1\<close>, \<open>TaggedFields\<close> and \<open>RequestKeyVersion\<close> with its
  table of response header versions.  A Go struct is a record; the interface \<open>ProtocolBody\<close>
  is the datatype of the structs that implement it.  A \<open>decode\<close> method that fills its
  receiver is a decoder that returns the filled struct.
\<close>

subsection \<open>\<open>TaggedFields\<close>\<close>

record TaggedFields =
  tf_values :: "rawTaggedField list"

text \<open>The check of the dynamic type that \<open>SchemaTaggedFields.decode\<close> returned.\<close>

definition raw_tagged_of :: "gvalue \<Rightarrow> rawTaggedField list dec" where
  "raw_tagged_of v =
     (case v of
        VTagged fs \<Rightarrow> dret fs
      | _ \<Rightarrow> derr (PacketDecodingError (''taggedFields type '' @ go_type v)))"

definition TaggedFields_decode :: "TaggedFields dec" where
  "TaggedFields_decode = dbind SchemaTaggedFields_decode (\<lambda>taggedFields.
     dbind (raw_tagged_of taggedFields) (\<lambda>fs. dret \<lparr>tf_values = fs\<rparr>))"

definition TaggedFields_encode :: "TaggedFields \<Rightarrow> enc" where
  "TaggedFields_encode r = SchemaTaggedFields_encode (VTagged (tf_values r))"

subsection \<open>SASL handshake\<close>

record SaslHandshakeRequestV0orV1 =
  shq_Version :: "16 word"
  shq_Mechanism :: string

definition SaslHandshakeRequestV0orV1_encode :: "SaslHandshakeRequestV0orV1 \<Rightarrow> enc" where
  "SaslHandshakeRequestV0orV1_encode r =
     (if shq_Version r \<noteq> 0 \<and> shq_Version r \<noteq> 1
      then efail (ErrNew ''SaslHandshakeRequestV0orV1 expects version 0 or 1'')
      else putString (shq_Mechanism r))"

definition SaslHandshakeRequestV0orV1_decode ::
  "SaslHandshakeRequestV0orV1 \<Rightarrow> SaslHandshakeRequestV0orV1 dec" where
  "SaslHandshakeRequestV0orV1_decode r =
     (if shq_Version r \<noteq> 0 \<and> shq_Version r \<noteq> 1
      then derr (ErrNew ''SaslHandshakeRequestV0orV1 expects version 0 or 1'')
      else dbind getString (\<lambda>m. dret (r\<lparr>shq_Mechanism := m\<rparr>)))"

record SaslHandshakeResponseV0orV1 =
  shr_Err :: kerror
  shr_EnabledMechanisms :: "string list option"

text \<open>A nil slice is encoded as an empty one.\<close>

definition nil_slice :: "'a list option \<Rightarrow> 'a list" where
  "nil_slice xs = (case xs of None \<Rightarrow> [] | Some ys \<Rightarrow> ys)"

definition SaslHandshakeResponseV0orV1_encode :: "SaslHandshakeResponseV0orV1 \<Rightarrow> enc" where
  "SaslHandshakeResponseV0orV1_encode r =
     eseq (putInt16 (shr_Err r)) (putStringArray (nil_slice (shr_EnabledMechanisms r)))"

definition SaslHandshakeResponseV0orV1_decode :: "SaslHandshakeResponseV0orV1 dec" where
  "SaslHandshakeResponseV0orV1_decode = dbind getInt16 (\<lambda>kerr. dbind getStringArray (\<lambda>ms.
     dret \<lparr>shr_Err = kerr, shr_EnabledMechanisms = ms\<rparr>))"

subsection \<open>SASL authenticate\<close>

record SaslAuthenticateRequestV0 =
  sq0_SaslAuthBytes :: "byte list option"

definition SaslAuthenticateRequestV0_encode :: "SaslAuthenticateRequestV0 \<Rightarrow> enc" where
  "SaslAuthenticateRequestV0_encode r = putBytes (sq0_SaslAuthBytes r)"

definition SaslAuthenticateRequestV0_decode :: "SaslAuthenticateRequestV0 dec" where
  "SaslAuthenticateRequestV0_decode = dbind getBytes (\<lambda>b. dret \<lparr>sq0_SaslAuthBytes = b\<rparr>)"

record SaslAuthenticateResponseV0 =
  sr0_Err :: kerror
  sr0_ErrMsg :: "string option"
  sr0_SaslAuthBytes :: "byte list option"

definition SaslAuthenticateResponseV0_encode :: "SaslAuthenticateResponseV0 \<Rightarrow> enc" where
  "SaslAuthenticateResponseV0_encode r =
     eseq (putInt16 (sr0_Err r)) (eseq (putNullableString (sr0_ErrMsg r))
       (putBytes (sr0_SaslAuthBytes r)))"

definition SaslAuthenticateResponseV0_decode :: "SaslAuthenticateResponseV0 dec" where
  "SaslAuthenticateResponseV0_decode = dbind getInt16 (\<lambda>kerr. dbind getNullableString (\<lambda>msg.
     dbind getBytes (\<lambda>b. dret \<lparr>sr0_Err = kerr, sr0_ErrMsg = msg, sr0_SaslAuthBytes = b\<rparr>)))"

record SaslAuthenticateRequestV1 =
  sq1_SaslAuthBytes :: "byte list option"

definition SaslAuthenticateRequestV1_encode :: "SaslAuthenticateRequestV1 \<Rightarrow> enc" where
  "SaslAuthenticateRequestV1_encode r = putBytes (sq1_SaslAuthBytes r)"

definition SaslAuthenticateRequestV1_decode :: "SaslAuthenticateRequestV1 dec" where
  "SaslAuthenticateRequestV1_decode = dbind getBytes (\<lambda>b. dret \<lparr>sq1_SaslAuthBytes = b\<rparr>)"

record SaslAuthenticateResponseV1 =
  sr1_Err :: kerror
  sr1_ErrMsg :: "string option"
  sr1_SaslAuthBytes :: "byte list option"
  sr1_SessionLifetimeMs :: "64 word"

definition SaslAuthenticateResponseV1_encode :: "SaslAuthenticateResponseV1 \<Rightarrow> enc" where
  "SaslAuthenticateResponseV1_encode r =
     eseq (putInt16 (sr1_Err r)) (eseq (putNullableString (sr1_ErrMsg r))
       (eseq (putBytes (sr1_SaslAuthBytes r)) (putInt64 (sr1_SessionLifetimeMs r))))"

definition SaslAuthenticateResponseV1_decode :: "SaslAuthenticateResponseV1 dec" where
  "SaslAuthenticateResponseV1_decode = dbind getInt16 (\<lambda>kerr. dbind getNullableString (\<lambda>msg.
     dbind getBytes (\<lambda>b. dbind getInt64 (\<lambda>ms.
       dret \<lparr>sr1_Err = kerr, sr1_ErrMsg = msg, sr1_SaslAuthBytes = b, sr1_SessionLifetimeMs = ms\<rparr>))))"

record SaslAuthenticateRequestV2 =
  sq2_SaslAuthBytes :: "byte list"
  sq2_TaggedFields :: TaggedFields

definition SaslAuthenticateRequestV2_encode :: "SaslAuthenticateRequestV2 \<Rightarrow> enc" where
  "SaslAuthenticateRequestV2_encode r =
     eseq (putCompactBytes (sq2_SaslAuthBytes r)) (TaggedFields_encode (sq2_TaggedFields r))"

definition SaslAuthenticateRequestV2_decode :: "SaslAuthenticateRequestV2 dec" where
  "SaslAuthenticateRequestV2_decode = dbind getCompactBytes (\<lambda>b. dbind TaggedFields_decode (\<lambda>tf.
     dret \<lparr>sq2_SaslAuthBytes = b, sq2_TaggedFields = tf\<rparr>))"

record SaslAuthenticateResponseV2 =
  sr2_Err :: kerror
  sr2_ErrMsg :: "string option"
  sr2_SaslAuthBytes :: "byte list"
  sr2_SessionLifetimeMs :: "64 word"
  sr2_TaggedFields :: TaggedFields

definition SaslAuthenticateResponseV2_encode :: "SaslAuthenticateResponseV2 \<Rightarrow> enc" where
  "SaslAuthenticateResponseV2_encode r =
     eseq (putInt16 (sr2_Err r)) (eseq (putCompactNullableString (sr2_ErrMsg r))
       (eseq (putCompactBytes (sr2_SaslAuthBytes r)) (eseq (putInt64 (sr2_SessionLifetimeMs r))
         (TaggedFields_encode (sr2_TaggedFields r)))))"

definition SaslAuthenticateResponseV2_decode :: "SaslAuthenticateResponseV2 dec" where
  "SaslAuthenticateResponseV2_decode = dbind getInt16 (\<lambda>kerr. dbind getCompactNullableString (\<lambda>msg.
     dbind getCompactBytes (\<lambda>b. dbind getInt64 (\<lambda>ms. dbind TaggedFields_decode (\<lambda>tf.
       dret \<lparr>sr2_Err = kerr, sr2_ErrMsg = msg, sr2_SaslAuthBytes = b, sr2_SessionLifetimeMs = ms,
         sr2_TaggedFields = tf\<rparr>)))))"

subsection \<open>\<open>ProtocolBody\<close>\<close>

datatype ProtocolBody =
    BodySaslHandshake SaslHandshakeRequestV0orV1
  | BodySaslAuthenticateV0 SaslAuthenticateRequestV0
  | BodySaslAuthenticateV1 SaslAuthenticateRequestV1
  | BodySaslAuthenticateV2 SaslAuthenticateRequestV2

fun body_key :: "ProtocolBody \<Rightarrow> 16 word" where
  "body_key (BodySaslHandshake r) = 17"
| "body_key (BodySaslAuthenticateV0 r) = 36"
| "body_key (BodySaslAuthenticateV1 r) = 36"
| "body_key (BodySaslAuthenticateV2 r) = 36"

fun body_version :: "ProtocolBody \<Rightarrow> 16 word" where
  "body_version (BodySaslHandshake r) = shq_Version r"
| "body_version (BodySaslAuthenticateV0 r) = 0"
| "body_version (BodySaslAuthenticateV1 r) = 1"
| "body_version (BodySaslAuthenticateV2 r) = 2"

fun body_encode :: "ProtocolBody \<Rightarrow> enc" where
  "body_encode (BodySaslHandshake r) = SaslHandshakeRequestV0orV1_encode r"
| "body_encode (BodySaslAuthenticateV0 r) = SaslAuthenticateRequestV0_encode r"
| "body_encode (BodySaslAuthenticateV1 r) = SaslAuthenticateRequestV1_encode r"
| "body_encode (BodySaslAuthenticateV2 r) = SaslAuthenticateRequestV2_encode r"

fun body_decode :: "ProtocolBody \<Rightarrow> ProtocolBody dec" where
  "body_decode (BodySaslHandshake r) =
     dbind (SaslHandshakeRequestV0orV1_decode r) (\<lambda>r. dret (BodySaslHandshake r))"
| "body_decode (BodySaslAuthenticateV0 r) =
     dbind SaslAuthenticateRequestV0_decode (\<lambda>r. dret (BodySaslAuthenticateV0 r))"
| "body_decode (BodySaslAuthenticateV1 r) =
     dbind SaslAuthenticateRequestV1_decode (\<lambda>r. dret (BodySaslAuthenticateV1 r))"
| "body_decode (BodySaslAuthenticateV2 r) =
     dbind SaslAuthenticateRequestV2_decode (\<lambda>r. dret (BodySaslAuthenticateV2 r))"

subsection \<open>Requests\<close>

record Request =
  rq_CorrelationID :: "32 word"
  rq_ClientID :: string
  rq_Body :: "ProtocolBody option"

text \<open>A call of a method of a nil \<open>Body\<close> is a nil dereference.\<close>

definition nil_body :: enc where
  "nil_body pe = Inl (GoPanic ''invalid memory address or nil pointer dereference'')"

definition request_mismatch :: "ProtocolBody \<Rightarrow> 16 word \<Rightarrow> 16 word \<Rightarrow> goerror" where
  "request_mismatch b key version = PacketDecodingError
     (''expected request key,version '' @ go_itoa (sint (body_key b)) @ '','' @
      go_itoa (sint (body_version b)) @ '' but got '' @ go_itoa (sint key) @ '','' @
      go_itoa (sint version))"

definition Request_encode :: "Request \<Rightarrow> enc" where
  "Request_encode r =
     (case rq_Body r of
        None \<Rightarrow> nil_body
      | Some body \<Rightarrow>
          eseq (putInt16 (body_key body)) (eseq (putInt16 (body_version body))
            (eseq (putInt32 (rq_CorrelationID r)) (eseq (putString (rq_ClientID r))
              (body_encode body)))))"

definition Request_decode :: "Request \<Rightarrow> Request dec" where
  "Request_decode r =
     (case rq_Body r of
        None \<Rightarrow> derr (PacketDecodingError ''unknown body decoder'')
      | Some body \<Rightarrow>
          dbind getInt16 (\<lambda>key. dbind getInt16 (\<lambda>version.
            if body_key body \<noteq> key \<or> body_version body \<noteq> version
            then derr (request_mismatch body key version)
            else dbind getInt32 (\<lambda>correlationID. dbind getString (\<lambda>clientID.
              dbind (body_decode body) (\<lambda>b.
                dret \<lparr>rq_CorrelationID = correlationID, rq_ClientID = clientID,
                  rq_Body = Some b\<rparr>))))))"

record RequestV2 =
  rq2_CorrelationID :: "32 word"
  rq2_ClientID :: string
  rq2_TaggedFields :: TaggedFields
  rq2_Body :: "ProtocolBody option"

definition RequestV2_encode :: "RequestV2 \<Rightarrow> enc" where
  "RequestV2_encode r =
     (case rq2_Body r of
        None \<Rightarrow> nil_body
      | Some body \<Rightarrow>
          eseq (putInt16 (body_key body)) (eseq (putInt16 (body_version body))
            (eseq (putInt32 (rq2_CorrelationID r)) (eseq (putString (rq2_ClientID r))
              (eseq (TaggedFields_encode (rq2_TaggedFields r)) (body_encode body))))))"

definition RequestV2_decode :: "RequestV2 \<Rightarrow> RequestV2 dec" where
  "RequestV2_decode r =
     (case rq2_Body r of
        None \<Rightarrow> derr (PacketDecodingError ''unknown body decoder'')
      | Some body \<Rightarrow>
          dbind getInt16 (\<lambda>key. dbind getInt16 (\<lambda>version.
            if body_key body \<noteq> key \<or> body_version body \<noteq> version
            then derr (request_mismatch body key version)
            else dbind getInt32 (\<lambda>correlationID. dbind getString (\<lambda>clientID.
              dbind TaggedFields_decode (\<lambda>tf. dbind (body_decode body) (\<lambda>b.
                dret \<lparr>rq2_CorrelationID = correlationID, rq2_ClientID = clientID,
                  rq2_TaggedFields = tf, rq2_Body = Some b\<rparr>)))))))"

subsection \<open>Headers\<close>

definition too_small :: "32 word \<Rightarrow> goerror" where
  "too_small n = PacketDecodingError (''message of length '' @ go_itoa (sint n) @ '' too small'')"

record ResponseHeader =
  rh_Length :: "32 word"
  rh_CorrelationID :: "32 word"

definition ResponseHeader_decode :: "ResponseHeader dec" where
  "ResponseHeader_decode = dbind getInt32 (\<lambda>len.
     if sint len \<le> 4 then derr (too_small len)
     else dbind getInt32 (\<lambda>c. dret \<lparr>rh_Length = len, rh_CorrelationID = c\<rparr>))"

definition ResponseHeader_encode :: "ResponseHeader \<Rightarrow> enc" where
  "ResponseHeader_encode r = eseq (putInt32 (rh_Length r)) (putInt32 (rh_CorrelationID r))"

record ResponseHeaderV1 =
  rh1_Length :: "32 word"
  rh1_CorrelationID :: "32 word"
  rh1_RawTaggedFields :: "rawTaggedField list"

definition ResponseHeaderV1_decode :: "ResponseHeaderV1 dec" where
  "ResponseHeaderV1_decode = dbind getInt32 (\<lambda>len.
     if sint len \<le> 4 then derr (too_small len)
     else dbind getInt32 (\<lambda>c. dbind SchemaTaggedFields_decode (\<lambda>taggedFields.
       dbind (raw_tagged_of taggedFields) (\<lambda>fs.
         dret \<lparr>rh1_Length = len, rh1_CorrelationID = c, rh1_RawTaggedFields = fs\<rparr>))))"

definition ResponseHeaderV1_encode :: "ResponseHeaderV1 \<Rightarrow> enc" where
  "ResponseHeaderV1_encode r = eseq (putInt32 (rh1_Length r)) (eseq (putInt32 (rh1_CorrelationID r))
     (SchemaTaggedFields_encode (VTagged (rh1_RawTaggedFields r))))"

record RequestKeyVersion =
  rkv_Length :: "32 word"
  rkv_ApiKey :: "16 word"
  rkv_ApiVersion :: "16 word"

definition RequestKeyVersion_decode :: "RequestKeyVersion dec" where
  "RequestKeyVersion_decode = dbind getInt32 (\<lambda>len.
     if sint len \<le> 4 then derr (too_small len)
     else dbind getInt16 (\<lambda>key. dbind getInt16 (\<lambda>version.
       dret \<lparr>rkv_Length = len, rkv_ApiKey = key, rkv_ApiVersion = version\<rparr>)))"

text \<open>
  The table of \<open>ResponseHeaderVersion\<close>: for an API key, the rule that gives the header
  version from the request's API version.  \<open>FlexibleFrom v\<close> is
  \<open>if r.ApiVersion >= v { return 1 } else { return 0 }\<close>, \<open>Always v\<close> is \<open>return v\<close>.  The
  table is split into runs of keys, in the order of the \<open>switch\<close>.
\<close>

datatype header_rule = FlexibleFrom int | Always "16 word"

definition header_rules_0_23 :: "(int \<times> header_rule) list" where
  "header_rules_0_23 = [
    (0, FlexibleFrom 9), (1, FlexibleFrom 12), (2, FlexibleFrom 6), (3, FlexibleFrom 9),
    (4, FlexibleFrom 4), (5, FlexibleFrom 2), (6, FlexibleFrom 6), (7, FlexibleFrom 3),
    (8, FlexibleFrom 8), (9, FlexibleFrom 6), (10, FlexibleFrom 3), (11, FlexibleFrom 6),
    (12, FlexibleFrom 4), (13, FlexibleFrom 4), (14, FlexibleFrom 4), (15, FlexibleFrom 5),
    (16, FlexibleFrom 3), (17, Always 0), (18, Always 0), (19, FlexibleFrom 5),
    (20, FlexibleFrom 4), (21, FlexibleFrom 2), (22, FlexibleFrom 2), (23, FlexibleFrom 4)]"

definition header_rules_24_47 :: "(int \<times> header_rule) list" where
  "header_rules_24_47 = [
    (24, FlexibleFrom 3), (25, FlexibleFrom 3), (26, FlexibleFrom 3), (27, FlexibleFrom 1),
    (28, FlexibleFrom 3), (29, FlexibleFrom 2), (30, FlexibleFrom 2), (31, FlexibleFrom 2),
    (32, FlexibleFrom 4), (33, FlexibleFrom 2), (34, FlexibleFrom 2), (35, FlexibleFrom 2),
    (36, FlexibleFrom 2), (37, FlexibleFrom 2), (38, FlexibleFrom 2), (39, FlexibleFrom 2),
    (40, FlexibleFrom 2), (41, FlexibleFrom 2), (42, FlexibleFrom 2), (43, FlexibleFrom 2),
    (44, FlexibleFrom 1), (45, Always 1), (46, Always 1), (47, Always 0)]"

definition header_rules_48_67 :: "(int \<times> header_rule) list" where
  "header_rules_48_67 = [
    (48, FlexibleFrom 1), (49, FlexibleFrom 1), (50, Always 1), (51, Always 1),
    (52, Always 1), (53, Always 0), (54, Always 0), (55, Always 1), (56, Always 1),
    (57, Always 1), (58, Always 1), (59, Always 1), (60, Always 1), (61, Always 1),
    (62, Always 1), (63, Always 1), (64, Always 1), (65, Always 1), (66, Always 1),
    (67, Always 1)]"

definition header_rules_68_87 :: "(int \<times> header_rule) list" where
  "header_rules_68_87 = [
    (68, Always 1), (69, Always 1), (70, Always 1), (71, Always 1), (72, Always 1),
    (73, Always 1), (74, Always 1), (75, Always 1), (76, Always 1), (77, Always 1),
    (78, Always 1), (79, Always 1), (80, Always 1), (81, Always 1), (82, Always 1),
    (83, Always 1), (84, Always 1), (85, Always 1), (86, Always 1), (87, Always 1)]"

definition header_rules :: "(int \<times> header_rule) list" where
  "header_rules = header_rules_0_23 @ header_rules_24_47 @ header_rules_48_67 @ header_rules_68_87"

fun rule_version :: "16 word \<Rightarrow> header_rule \<Rightarrow> 16 word" where
  "rule_version v (FlexibleFrom n) = (if sint v \<ge> n then 1 else 0)"
| "rule_version v (Always n) = n"

definition ResponseHeaderVersion :: "RequestKeyVersion \<Rightarrow> 16 word" where
  "ResponseHeaderVersion r =
     (case map_of header_rules (sint (rkv_ApiKey r)) of
        Some rule \<Rightarrow> rule_version (rkv_ApiVersion r) rule
      | None \<Rightarrow> 1)"

record ResponseHeaderTaggedFields =
  rhtf_version :: "16 word"

definition NewResponseHeaderTaggedFields :: "RequestKeyVersion \<Rightarrow> ResponseHeaderTaggedFields result" where
  "NewResponseHeaderTaggedFields req =
     (let version = ResponseHeaderVersion req in
      if sint version < 0
      then Inl (GoErr (PacketDecodingError (''ResponseHeaderVersion: unknown ApiKey '' @
             go_itoa (sint (rkv_ApiKey req)))))
      else Inr \<lparr>rhtf_version = version\<rparr>)"

end
