(* ===== verification/MessageFacts.thy ===== *)
theory MessageFacts
  imports Messages ResponseSchemas
begin

section \<open>Round trips of the messages\<close>

text \<open>
  \<open>passes e w a\<close>: an encoding routine writes exactly \<open>w\<close> if \<open>a\<close> holds, and is refused by the
  counting pass otherwise.  It composes along the code (\<open>passes_eseq\<close>), so that the wire image
  and the accepted values of a message are read off its \<open>encode\<close> method; the \<open>reads\<close>
  judgement does the same for \<open>decode\<close>.  Each message type interprets the \<open>message\<close> contract.
\<close>

definition passes :: "enc \<Rightarrow> byte list \<Rightarrow> bool \<Rightarrow> bool" where
  "passes e w a \<longleftrightarrow> (a \<and> encodes e w) \<or> (\<not> a \<and> rejects e)"

named_theorems passes_intros "closure rules of \<open>passes\<close>"

lemma passes_eseq [passes_intros]:
  "passes f v a \<Longrightarrow> passes g w b \<Longrightarrow> passes (eseq f g) (v @ w) (a \<and> b)"
  by (auto simp: passes_def intro: encodes_eseq rejects_eseq1 rejects_eseq2)

lemma passes_two_pass: "two_pass put wire accepts \<Longrightarrow> passes (put x) (wire x) (accepts x)"
  by (auto simp: passes_def two_pass_def)

lemma two_passI:
  assumes "\<And>x. passes (put x) (wire x) (accepts x)"
  shows "two_pass put wire accepts"
  using assms by unfold_locales (auto simp: passes_def dest: encodes_not_rejects)

lemmas passes_prims [passes_intros] =
  passes_two_pass [OF int16.two_pass_axioms] passes_two_pass [OF int32.two_pass_axioms]
  passes_two_pass [OF int64.two_pass_axioms] passes_two_pass [OF str.two_pass_axioms]
  passes_two_pass [OF nullable_str.two_pass_axioms] passes_two_pass [OF bytes.two_pass_axioms]
  passes_two_pass [OF compact_bytes.two_pass_axioms]
  passes_two_pass [OF compact_nullable_str.two_pass_axioms]
  passes_two_pass [OF string_array.two_pass_axioms]

subsection \<open>String arrays\<close>

lemma reads_string_array:
  assumes "int (length xs) \<le> 2 * MaxUint16" "list_all short xs"
  shows "reads 0 getStringArray (wire_string_array xs) (Some xs)"
proof -
  have "length xs \<le> length (concat (map wire_string xs))"
    by (rule length_concat_ge) simp
  moreover have "reads 0 (dbind (dec_times (length xs) getString) (\<lambda>xs. dret (Some xs)))
      (concat (map wire_string xs)) (Some xs)"
    using str.get_list [OF assms(2)] by (rule reads_map) simp
  from reads_dbind [OF reads_make_slice [of "int (length xs)" 16] this] assms(1)
  have "reads 0 (dbind (make_slice 16 (int (length xs))) (\<lambda>_. dbind (dec_times (length xs) getString) (\<lambda>xs. dret (Some xs))))
      (concat (map wire_string xs)) (Some xs)" by (simp add: maxAlloc_def MaxUint16_def)
  ultimately show ?thesis
    using assms reads_getArrayLength [of "int (length xs)"]
    unfolding getStringArray_def wire_string_array_def
    by (intro reads_dbind [where j = 0]) (auto simp: of_int_of_nat_eq)
qed

subsection \<open>Tagged fields\<close>

definition wire_TaggedFields :: "TaggedFields \<Rightarrow> byte list" where
  "wire_TaggedFields r = wire_tagged (tf_values r)"

lemma dbind_dret: "dbind (dret a) f = f a"
  by (simp add: fun_eq_iff dbind_def dret_def)

lemma TaggedFields_encode_tagged: "TaggedFields_encode r = tagged_encode (tf_values r)"
  by (simp add: TaggedFields_encode_def SchemaTaggedFields_encode_def)

lemma reads_SchemaTaggedFields:
  assumes "ok_tagged fs"
  shows "reads 0 SchemaTaggedFields_decode (wire_tagged fs) (VTagged fs)"
  unfolding SchemaTaggedFields_decode_def by (rule reads_map [OF tagged.get_wire [OF assms]]) simp

interpretation tagged_fields: message TaggedFields_encode TaggedFields_decode wire_TaggedFields
    "\<lambda>r. accepts_tagged (tf_values r)" "\<lambda>r. ok_tagged (tf_values r)"
proof unfold_locales
  fix r :: TaggedFields
  show "encodes (TaggedFields_encode r) (wire_TaggedFields r)" if "accepts_tagged (tf_values r)"
    using tagged.put_encodes [OF that] by (simp add: TaggedFields_encode_tagged wire_TaggedFields_def)
  show "rejects (TaggedFields_encode r)" if "\<not> accepts_tagged (tf_values r)"
    using tagged.put_rejects [OF that] by (simp add: TaggedFields_encode_tagged)
  show "reads 0 TaggedFields_decode (wire_TaggedFields r) r" if "ok_tagged (tf_values r)"
    unfolding TaggedFields_decode_def wire_TaggedFields_def
    by (rule reads_map [OF reads_SchemaTaggedFields [OF that]]) (cases r, simp add: raw_tagged_of_def dbind_dret)
qed

lemmas passes_tagged [passes_intros] = passes_two_pass [OF tagged_fields.two_pass_axioms]

subsection \<open>SASL messages\<close>

text \<open>A decoder that starts with an operation whose image comes first.\<close>

lemma reads_step:
  assumes "reads 0 m bs x" "reads 0 (f x) cs y"
  shows "reads 0 (dbind m f) (bs @ cs) y"
  by (rule reads_dbind [where x = x, OF assms(1)]) (simp_all add: assms(2))

lemma reads_last:
  assumes "reads 0 m bs x" "f x = dret y"
  shows "reads 0 (dbind m f) bs y"
  by (rule reads_map [where x = x, OF assms(1)]) (rule assms(2))

lemmas reads_prims = reads_getInt16 reads_getInt32 reads_getInt64 str.get_wire nullable_str.get_wire
  bytes.get_wire compact_bytes.get_wire compact_nullable_str.get_wire tagged_fields.get_wire

definition wire_SaslHandshakeResponse :: "SaslHandshakeResponseV0orV1 \<Rightarrow> byte list" where
  "wire_SaslHandshakeResponse r =
     be16 (shr_Err r) @ wire_string_array (nil_slice (shr_EnabledMechanisms r))"

interpretation sasl_handshake_response: message SaslHandshakeResponseV0orV1_encode
    SaslHandshakeResponseV0orV1_decode wire_SaslHandshakeResponse
    "\<lambda>r. True \<and> accepts_string_array (nil_slice (shr_EnabledMechanisms r))"
    "\<lambda>r. \<exists>ms. shr_EnabledMechanisms r = Some ms \<and> int (length ms) \<le> 2 * MaxUint16 \<and> list_all short ms"
proof (intro message.intro two_passI codec.intro)
  show "passes (SaslHandshakeResponseV0orV1_encode r) (wire_SaslHandshakeResponse r)
      (True \<and> accepts_string_array (nil_slice (shr_EnabledMechanisms r)))" for r
    unfolding SaslHandshakeResponseV0orV1_encode_def wire_SaslHandshakeResponse_def
    by (intro passes_intros)
next
  fix r :: SaslHandshakeResponseV0orV1
  assume "\<exists>ms. shr_EnabledMechanisms r = Some ms \<and> int (length ms) \<le> 2 * MaxUint16 \<and> list_all short ms"
  then obtain ms where ms: "shr_EnabledMechanisms r = Some ms" "int (length ms) \<le> 2 * MaxUint16"
    "list_all short ms" by blast
  show "reads 0 SaslHandshakeResponseV0orV1_decode (wire_SaslHandshakeResponse r) r"
    unfolding SaslHandshakeResponseV0orV1_decode_def wire_SaslHandshakeResponse_def ms nil_slice_def
      option.case
    by (rule reads_step reads_prims reads_last [OF reads_string_array [OF ms(2,3)]])+
      (cases r, use ms(1) in simp)
qed

definition wire_SaslAuthenticateResponseV0 :: "SaslAuthenticateResponseV0 \<Rightarrow> byte list" where
  "wire_SaslAuthenticateResponseV0 r = be16 (sr0_Err r) @ wire_nullable_string (sr0_ErrMsg r) @ wire_bytes (sr0_SaslAuthBytes r)"

interpretation sasl_authenticate_response_v0: message SaslAuthenticateResponseV0_encode SaslAuthenticateResponseV0_decode wire_SaslAuthenticateResponseV0
    "\<lambda>r. True \<and> short_opt (sr0_ErrMsg r) \<and> fits32 (sr0_SaslAuthBytes r)" "\<lambda>r. short_opt (sr0_ErrMsg r) \<and> fits32 (sr0_SaslAuthBytes r)"
proof (intro message.intro two_passI codec.intro)
  show "passes (SaslAuthenticateResponseV0_encode r) (wire_SaslAuthenticateResponseV0 r) (True \<and> short_opt (sr0_ErrMsg r) \<and> fits32 (sr0_SaslAuthBytes r))" for r
    unfolding SaslAuthenticateResponseV0_encode_def wire_SaslAuthenticateResponseV0_def by (intro passes_intros)
next
  fix r :: SaslAuthenticateResponseV0
  assume "short_opt (sr0_ErrMsg r) \<and> fits32 (sr0_SaslAuthBytes r)"
  then show "reads 0 SaslAuthenticateResponseV0_decode (wire_SaslAuthenticateResponseV0 r) r"
    unfolding SaslAuthenticateResponseV0_decode_def wire_SaslAuthenticateResponseV0_def
    by (cases r) (simp, (rule reads_step reads_prims reads_last | simp)+)
qed

definition wire_SaslAuthenticateResponseV1 :: "SaslAuthenticateResponseV1 \<Rightarrow> byte list" where
  "wire_SaslAuthenticateResponseV1 r = be16 (sr1_Err r) @ wire_nullable_string (sr1_ErrMsg r) @
     wire_bytes (sr1_SaslAuthBytes r) @ be64 (sr1_SessionLifetimeMs r)"

interpretation sasl_authenticate_response_v1: message SaslAuthenticateResponseV1_encode SaslAuthenticateResponseV1_decode wire_SaslAuthenticateResponseV1
    "\<lambda>r. True \<and> short_opt (sr1_ErrMsg r) \<and> fits32 (sr1_SaslAuthBytes r) \<and> True" "\<lambda>r. short_opt (sr1_ErrMsg r) \<and> fits32 (sr1_SaslAuthBytes r)"
proof (intro message.intro two_passI codec.intro)
  show "passes (SaslAuthenticateResponseV1_encode r) (wire_SaslAuthenticateResponseV1 r) (True \<and> short_opt (sr1_ErrMsg r) \<and> fits32 (sr1_SaslAuthBytes r) \<and> True)" for r
    unfolding SaslAuthenticateResponseV1_encode_def wire_SaslAuthenticateResponseV1_def by (intro passes_intros)
next
  fix r :: SaslAuthenticateResponseV1
  assume "short_opt (sr1_ErrMsg r) \<and> fits32 (sr1_SaslAuthBytes r)"
  then show "reads 0 SaslAuthenticateResponseV1_decode (wire_SaslAuthenticateResponseV1 r) r"
    unfolding SaslAuthenticateResponseV1_decode_def wire_SaslAuthenticateResponseV1_def
    by (cases r) (simp, (rule reads_step reads_prims reads_last | simp)+)
qed

definition wire_SaslAuthenticateResponseV2 :: "SaslAuthenticateResponseV2 \<Rightarrow> byte list" where
  "wire_SaslAuthenticateResponseV2 r = be16 (sr2_Err r) @ wire_compact_nullable_string (sr2_ErrMsg r) @
     wire_compact_bytes (sr2_SaslAuthBytes r) @ be64 (sr2_SessionLifetimeMs r) @
     wire_TaggedFields (sr2_TaggedFields r)"

interpretation sasl_authenticate_response_v2: message SaslAuthenticateResponseV2_encode SaslAuthenticateResponseV2_decode wire_SaslAuthenticateResponseV2
    "\<lambda>r. True \<and> short_opt (sr2_ErrMsg r) \<and> short (sr2_SaslAuthBytes r) \<and> True \<and>
      accepts_tagged (tf_values (sr2_TaggedFields r))" "\<lambda>r. (case sr2_ErrMsg r of None \<Rightarrow> True | Some t \<Rightarrow> fits63 t) \<and> fits63 (sr2_SaslAuthBytes r) \<and>
      ok_tagged (tf_values (sr2_TaggedFields r))"
proof (intro message.intro two_passI codec.intro)
  show "passes (SaslAuthenticateResponseV2_encode r) (wire_SaslAuthenticateResponseV2 r) (True \<and> short_opt (sr2_ErrMsg r) \<and> short (sr2_SaslAuthBytes r) \<and> True \<and>
      accepts_tagged (tf_values (sr2_TaggedFields r)))" for r
    unfolding SaslAuthenticateResponseV2_encode_def wire_SaslAuthenticateResponseV2_def by (intro passes_intros)
next
  fix r :: SaslAuthenticateResponseV2
  assume "(case sr2_ErrMsg r of None \<Rightarrow> True | Some t \<Rightarrow> fits63 t) \<and> fits63 (sr2_SaslAuthBytes r) \<and>
      ok_tagged (tf_values (sr2_TaggedFields r))"
  then show "reads 0 SaslAuthenticateResponseV2_decode (wire_SaslAuthenticateResponseV2 r) r"
    unfolding SaslAuthenticateResponseV2_decode_def wire_SaslAuthenticateResponseV2_def
    by (cases r) (simp, (rule reads_step reads_prims reads_last | simp)+)
qed


subsection \<open>Bodies and requests\<close>

fun wire_body :: "ProtocolBody \<Rightarrow> byte list" where
  "wire_body (BodySaslHandshake r) = wire_string (shq_Mechanism r)"
| "wire_body (BodySaslAuthenticateV0 r) = wire_bytes (sq0_SaslAuthBytes r)"
| "wire_body (BodySaslAuthenticateV1 r) = wire_bytes (sq1_SaslAuthBytes r)"
| "wire_body (BodySaslAuthenticateV2 r) =
     wire_compact_bytes (sq2_SaslAuthBytes r) @ wire_TaggedFields (sq2_TaggedFields r)"

fun accepts_body :: "ProtocolBody \<Rightarrow> bool" where
  "accepts_body (BodySaslHandshake r) =
     ((shq_Version r = 0 \<or> shq_Version r = 1) \<and> short (shq_Mechanism r))"
| "accepts_body (BodySaslAuthenticateV0 r) = fits32 (sq0_SaslAuthBytes r)"
| "accepts_body (BodySaslAuthenticateV1 r) = fits32 (sq1_SaslAuthBytes r)"
| "accepts_body (BodySaslAuthenticateV2 r) =
     (short (sq2_SaslAuthBytes r) \<and> accepts_tagged (tf_values (sq2_TaggedFields r)))"

text \<open>
  \<open>body_for b0 b\<close>: decoding into \<open>b0\<close> can give \<open>b\<close>, which is of the same type and version.
  The bound of \<open>makeslice\<close> on the number of tagged fields is the decoder's.
\<close>

fun body_for :: "ProtocolBody \<Rightarrow> ProtocolBody \<Rightarrow> bool" where
  "body_for (BodySaslHandshake r0) (BodySaslHandshake r) = (shq_Version r0 = shq_Version r)"
| "body_for (BodySaslAuthenticateV0 r0) (BodySaslAuthenticateV0 r) = True"
| "body_for (BodySaslAuthenticateV1 r0) (BodySaslAuthenticateV1 r) = True"
| "body_for (BodySaslAuthenticateV2 r0) (BodySaslAuthenticateV2 r) =
     ok_tagged (tf_values (sq2_TaggedFields r))"
| "body_for b0 b = False"

lemma body_for_key: "body_for b0 b \<Longrightarrow> body_key b0 = body_key b \<and> body_version b0 = body_version b"
  by (induction b0 b rule: body_for.induct) auto

interpretation body: two_pass body_encode wire_body accepts_body
proof (intro two_passI)
  fix b
  show "passes (body_encode b) (wire_body b) (accepts_body b)"
  proof (cases b)
    case (BodySaslHandshake r)
    have "passes (putString (shq_Mechanism r)) (wire_string (shq_Mechanism r)) (short (shq_Mechanism r))"
      by (intro passes_intros)
    then show ?thesis
      by (auto simp: BodySaslHandshake SaslHandshakeRequestV0orV1_encode_def passes_def rejects_efail)
  qed (auto simp: SaslAuthenticateRequestV0_encode_def SaslAuthenticateRequestV1_encode_def
      SaslAuthenticateRequestV2_encode_def intro: passes_intros)
qed

lemma reads_body:
  assumes "body_for b0 b" "accepts_body b"
  shows "reads 0 (body_decode b0) (wire_body b) b"
  using assms
proof (induction b0 b rule: body_for.induct)
  case (1 r0 r)
  have "reads 0 (SaslHandshakeRequestV0orV1_decode r0) (wire_string (shq_Mechanism r)) r"
    using 1 unfolding SaslHandshakeRequestV0orV1_decode_def
    by (cases r; cases r0) (auto intro!: reads_last [OF str.get_wire])
  then show ?case by (auto intro: reads_last)
next
  case (2 r0 r)
  have "reads 0 SaslAuthenticateRequestV0_decode (wire_bytes (sq0_SaslAuthBytes r)) r"
    using 2 unfolding SaslAuthenticateRequestV0_decode_def
    by (cases r) (auto intro!: reads_last [OF bytes.get_wire])
  then show ?case by (auto intro: reads_last)
next
  case (3 r0 r)
  have "reads 0 SaslAuthenticateRequestV1_decode (wire_bytes (sq1_SaslAuthBytes r)) r"
    using 3 unfolding SaslAuthenticateRequestV1_decode_def
    by (cases r) (auto intro!: reads_last [OF bytes.get_wire])
  then show ?case by (auto intro: reads_last)
next
  case (4 r0 r)
  have "reads 0 SaslAuthenticateRequestV2_decode
      (wire_compact_bytes (sq2_SaslAuthBytes r) @ wire_TaggedFields (sq2_TaggedFields r)) r"
    using 4 unfolding SaslAuthenticateRequestV2_decode_def
    by (cases r) (auto intro!: reads_step [OF compact_bytes.get_wire]
        reads_last [OF tagged_fields.get_wire] intro: short_fits63)
  then show ?case by (auto intro: reads_last)
qed auto

lemmas passes_body [passes_intros] = passes_two_pass [OF body.two_pass_axioms]

definition wire_Request :: "Request \<Rightarrow> byte list" where
  "wire_Request r =
     be16 (body_key (the (rq_Body r))) @ be16 (body_version (the (rq_Body r))) @
     be32 (rq_CorrelationID r) @ wire_string (rq_ClientID r) @ wire_body (the (rq_Body r))"

definition wire_RequestV2 :: "RequestV2 \<Rightarrow> byte list" where
  "wire_RequestV2 r =
     be16 (body_key (the (rq2_Body r))) @ be16 (body_version (the (rq2_Body r))) @
     be32 (rq2_CorrelationID r) @ wire_string (rq2_ClientID r) @
     wire_TaggedFields (rq2_TaggedFields r) @ wire_body (the (rq2_Body r))"

lemma Request_passes:
  assumes "rq_Body r = Some b"
  shows "passes (Request_encode r) (wire_Request r) (short (rq_ClientID r) \<and> accepts_body b)"
proof -
  have "passes (Request_encode r) (wire_Request r)
      (True \<and> True \<and> True \<and> short (rq_ClientID r) \<and> accepts_body b)"
    unfolding Request_encode_def wire_Request_def assms option.case option.sel by (intro passes_intros)
  then show ?thesis by simp
qed

lemma RequestV2_passes:
  assumes "rq2_Body r = Some b"
  shows "passes (RequestV2_encode r) (wire_RequestV2 r)
    (short (rq2_ClientID r) \<and> accepts_tagged (tf_values (rq2_TaggedFields r)) \<and> accepts_body b)"
proof -
  have "passes (RequestV2_encode r) (wire_RequestV2 r)
      (True \<and> True \<and> True \<and> short (rq2_ClientID r) \<and>
       accepts_tagged (tf_values (rq2_TaggedFields r)) \<and> accepts_body b)"
    unfolding RequestV2_encode_def wire_RequestV2_def assms option.case option.sel by (intro passes_intros)
  then show ?thesis by simp
qed

lemma reads_if_False: "\<not> b \<Longrightarrow> reads k n bs x \<Longrightarrow> reads k (if b then m else n) bs x"
  by simp

lemma reads_Request:
  assumes "rq_Body r0 = Some b0" "rq_Body r = Some b" "body_for b0 b" "accepts_body b"
    and "short (rq_ClientID r)"
  shows "reads 0 (Request_decode r0) (wire_Request r) r"
proof -
  have same: "\<not> (body_key b0 \<noteq> body_key b \<or> body_version b0 \<noteq> body_version b)"
    using body_for_key [OF assms(3)] by simp
  show ?thesis
    unfolding Request_decode_def wire_Request_def assms(1,2) option.case option.sel
    by (rule reads_step reads_getInt16 reads_getInt32 str.get_wire [OF assms(5)]
        reads_if_False [OF same] reads_last [OF reads_body [OF assms(3,4)]])+
      (cases r, use assms(2) in simp)
qed

lemma reads_RequestV2:
  assumes "rq2_Body r0 = Some b0" "rq2_Body r = Some b" "body_for b0 b" "accepts_body b"
    and "short (rq2_ClientID r)" "ok_tagged (tf_values (rq2_TaggedFields r))"
  shows "reads 0 (RequestV2_decode r0) (wire_RequestV2 r) r"
proof -
  have same: "\<not> (body_key b0 \<noteq> body_key b \<or> body_version b0 \<noteq> body_version b)"
    using body_for_key [OF assms(3)] by simp
  show ?thesis
    unfolding RequestV2_decode_def wire_RequestV2_def assms(1,2) option.case option.sel
    by (rule reads_step reads_getInt16 reads_getInt32 str.get_wire [OF assms(5)] tagged_fields.get_wire [OF assms(6)]
        reads_if_False [OF same] reads_last [OF reads_body [OF assms(3,4)]])+
      (cases r, use assms(2) in simp)
qed

end
