(* ===== verification/MessageProps.thy ===== *)
theory MessageProps
  imports MessageFacts ResponseProps
begin

section \<open>What holds of the messages\<close>

text \<open>
  The theorems on requests, SASL responses and headers: round trips, the freedom from panics
  of their decoding, and the agreement of the table of response header versions with the
  response schemas.
\<close>

subsection \<open>Requests\<close>

lemma Encode_passes:
  assumes "passes e w a" "Encode (Some e) = Inr bs"
  shows "bs = Some w \<and> a"
proof -
  from assms(2) obtain b where "bs = Some b" "two_passes PacketEncodingError e = Inr b"
    by (auto simp: Encode_def rbind_Inr_conv)
  with assms(1) two_passes_encodes [of e w PacketEncodingError]
    two_passes_rejects [of e PacketEncodingError] show ?thesis
    by (auto simp: passes_def split: if_splits)
qed

text \<open>
  C18: Requests round-trip.  If \<open>Encode\<close> succeeds on a request, then decoding the bytes into a
  request whose body has the type and version of the encoded one gives the request back.
\<close>

theorem Request_roundtrip:
  assumes "Encode (Some (Request_encode r)) = Inr bs"
    and "rq_Body r = Some b" "rq_Body r0 = Some b0" "body_for b0 b"
  shows "Decode bs (Request_decode r0) r0 = Inr r"
  using Encode_passes [OF Request_passes [OF assms(2)] assms(1)]
    reads_Decode [OF reads_Request [OF assms(3,2,4)], of r0] by auto

definition sample_request :: Request where
  "sample_request = \<lparr>rq_CorrelationID = 7, rq_ClientID = ''proxy'',
     rq_Body = Some (BodySaslHandshake \<lparr>shq_Version = 1, shq_Mechanism = ''OAUTHBEARER''\<rparr>)\<rparr>"

definition empty_request :: Request where
  "empty_request = \<lparr>rq_CorrelationID = 0, rq_ClientID = [],
     rq_Body = Some (BodySaslHandshake \<lparr>shq_Version = 1, shq_Mechanism = []\<rparr>)\<rparr>"

lemma Request_roundtrip_witness:
  "Decode (Some [0,17, 0,1, 0,0,0,7, 0,5,112,114,111,120,121,
      0,11,79,65,85,84,72,66,69,65,82,69,82]) (Request_decode empty_request) empty_request =
    Inr sample_request"
proof (rule Request_roundtrip)
  show "Encode (Some (Request_encode sample_request)) = Inr (Some [0,17, 0,1, 0,0,0,7,
      0,5,112,114,111,120,121, 0,11,79,65,85,84,72,66,69,65,82,69,82])"
    by code_simp
qed (simp add: sample_request_def empty_request_def)+

text \<open>
  Flexible requests round-trip: the same for \<open>RequestV2\<close>, whose header carries tagged
  fields.
\<close>

theorem RequestV2_roundtrip:
  assumes "Encode (Some (RequestV2_encode r)) = Inr bs"
    and "rq2_Body r = Some b" "rq2_Body r0 = Some b0" "body_for b0 b"
    and "ok_tagged (tf_values (rq2_TaggedFields r))"
  shows "Decode bs (RequestV2_decode r0) r0 = Inr r"
  using Encode_passes [OF RequestV2_passes [OF assms(2)] assms(1)]
    reads_Decode [OF reads_RequestV2 [OF assms(3,2,4)], of r0] assms(5) by auto

definition sample_request_v2 :: RequestV2 where
  "sample_request_v2 = \<lparr>rq2_CorrelationID = 2, rq2_ClientID = ''kp'', rq2_TaggedFields = \<lparr>tf_values = []\<rparr>,
     rq2_Body = Some (BodySaslAuthenticateV2
       \<lparr>sq2_SaslAuthBytes = [1, 2, 3], sq2_TaggedFields = \<lparr>tf_values = []\<rparr>\<rparr>)\<rparr>"

definition empty_request_v2 :: RequestV2 where
  "empty_request_v2 = \<lparr>rq2_CorrelationID = 0, rq2_ClientID = [], rq2_TaggedFields = \<lparr>tf_values = []\<rparr>,
     rq2_Body = Some (BodySaslAuthenticateV2
       \<lparr>sq2_SaslAuthBytes = [], sq2_TaggedFields = \<lparr>tf_values = []\<rparr>\<rparr>)\<rparr>"

lemma RequestV2_roundtrip_witness:
  "Decode (Some [0,36, 0,2, 0,0,0,2, 0,2,107,112, 0, 4,1,2,3, 0])
     (RequestV2_decode empty_request_v2) empty_request_v2 = Inr sample_request_v2"
proof (rule RequestV2_roundtrip)
  show "Encode (Some (RequestV2_encode sample_request_v2)) =
      Inr (Some [0,36, 0,2, 0,0,0,2, 0,2,107,112, 0, 4,1,2,3, 0])"
    by code_simp
qed (simp add: sample_request_v2_def empty_request_v2_def ok_tagged_def maxAlloc_def)+

subsection \<open>SASL responses\<close>

text \<open>
  The SASL authenticate responses the proxy reads from a broker round-trip, in all
  three versions.
\<close>

theorem SaslAuthenticateResponse_roundtrip:
  assumes "Encode (Some (SaslAuthenticateResponseV0_encode r0)) = Inr b0"
    and "Encode (Some (SaslAuthenticateResponseV1_encode r1)) = Inr b1"
    and "Encode (Some (SaslAuthenticateResponseV2_encode r2)) = Inr b2"
    and "ok_tagged (tf_values (sr2_TaggedFields r2))"
  shows "Decode b0 SaslAuthenticateResponseV0_decode x0 = Inr r0
    \<and> Decode b1 SaslAuthenticateResponseV1_decode x1 = Inr r1
    \<and> Decode b2 SaslAuthenticateResponseV2_decode x2 = Inr r2"
proof (intro conjI)
  show "Decode b0 SaslAuthenticateResponseV0_decode x0 = Inr r0"
    using Encode_passes [OF passes_two_pass [OF sasl_authenticate_response_v0.two_pass_axioms] assms(1)]
    by (intro sasl_authenticate_response_v0.decode_encode [OF assms(1)]) simp
  show "Decode b1 SaslAuthenticateResponseV1_decode x1 = Inr r1"
    using Encode_passes [OF passes_two_pass [OF sasl_authenticate_response_v1.two_pass_axioms] assms(2)]
    by (intro sasl_authenticate_response_v1.decode_encode [OF assms(2)]) simp
  show "Decode b2 SaslAuthenticateResponseV2_decode x2 = Inr r2"
    using Encode_passes [OF passes_two_pass [OF sasl_authenticate_response_v2.two_pass_axioms] assms(3)]
      assms(4)
    by (intro sasl_authenticate_response_v2.decode_encode [OF assms(3)])
      (auto simp: short_opt_def intro: short_fits63 split: option.splits)
qed

lemma SaslAuthenticateResponse_roundtrip_witness:
  "Decode (Some [0,58, 0,2,110,111, 255,255,255,255]) SaslAuthenticateResponseV0_decode
      \<lparr>sr0_Err = 0, sr0_ErrMsg = None, sr0_SaslAuthBytes = None\<rparr> =
    Inr \<lparr>sr0_Err = 58, sr0_ErrMsg = Some ''no'', sr0_SaslAuthBytes = None\<rparr>"
proof (rule SaslAuthenticateResponse_roundtrip [THEN conjunct1])
  show "Encode (Some (SaslAuthenticateResponseV0_encode
      \<lparr>sr0_Err = 58, sr0_ErrMsg = Some ''no'', sr0_SaslAuthBytes = None\<rparr>)) =
      Inr (Some [0,58, 0,2,110,111, 255,255,255,255])" by code_simp
  show "Encode (Some (SaslAuthenticateResponseV1_encode \<lparr>sr1_Err = 0, sr1_ErrMsg = None,
      sr1_SaslAuthBytes = None, sr1_SessionLifetimeMs = 0\<rparr>)) =
      Inr (Some [0,0, 255,255, 255,255,255,255, 0,0,0,0,0,0,0,0])" by code_simp
  show "Encode (Some (SaslAuthenticateResponseV2_encode \<lparr>sr2_Err = 0, sr2_ErrMsg = None,
      sr2_SaslAuthBytes = [], sr2_SessionLifetimeMs = 0, sr2_TaggedFields = \<lparr>tf_values = []\<rparr>\<rparr>)) =
      Inr (Some [0,0, 0, 1, 0,0,0,0,0,0,0,0, 0])" by code_simp
qed (simp add: ok_tagged_def maxAlloc_def)

subsection \<open>Decoding never leaves the buffer\<close>

lemma Decode_safe:
  assumes "safe_dec A m" "Decode buf m x = Inl (GoPanic s)"
  shows "s \<in> A"
proof (cases buf)
  case (Some b)
  from safe_decD [OF assms(1), of "\<lparr>rd_raw = b, rd_off = 0\<rparr>"]
  have "safe_step A \<lparr>rd_raw = b, rd_off = 0\<rparr> (m \<lparr>rd_raw = b, rd_off = 0\<rparr>)" by (simp add: rd_ok_def)
  with assms(2) Some show ?thesis
    by (auto simp: Decode_def safe_step_def split: prod.splits sum.splits if_splits)
qed (use assms(2) in \<open>simp add: Decode_def\<close>)

lemma safe_raw_tagged_of [safe_intros]: "safe_dec A (raw_tagged_of v)"
  by (auto simp: raw_tagged_of_def intro!: safe_intros split: gvalue.splits)

lemma safe_TaggedFields: "makeslice_panic \<in> A \<Longrightarrow> safe_dec A TaggedFields_decode"
  unfolding TaggedFields_decode_def SchemaTaggedFields_decode_def
  by (intro safe_intros safe_tagged_decode)

lemma safe_messages:
  "safe_dec A SaslHandshakeResponseV0orV1_decode"
  "safe_dec A SaslAuthenticateResponseV0_decode"
  "safe_dec A SaslAuthenticateResponseV1_decode"
  "safe_dec A ResponseHeader_decode"
  "safe_dec A RequestKeyVersion_decode"
  "makeslice_panic \<in> A \<Longrightarrow> safe_dec A SaslAuthenticateResponseV2_decode"
  "makeslice_panic \<in> A \<Longrightarrow> safe_dec A ResponseHeaderV1_decode"
  unfolding SaslHandshakeResponseV0orV1_decode_def SaslAuthenticateResponseV0_decode_def
    SaslAuthenticateResponseV1_decode_def ResponseHeader_decode_def RequestKeyVersion_decode_def
    SaslAuthenticateResponseV2_decode_def ResponseHeaderV1_decode_def SchemaTaggedFields_decode_def
  by (intro safe_intros safe_TaggedFields safe_tagged_decode; assumption)+

lemma safe_body: "makeslice_panic \<in> A \<or> body_version b0 \<noteq> 2 \<Longrightarrow> safe_dec A (body_decode b0)"
  by (cases b0)
    (auto simp: SaslHandshakeRequestV0orV1_decode_def SaslAuthenticateRequestV0_decode_def
      SaslAuthenticateRequestV1_decode_def SaslAuthenticateRequestV2_decode_def
      intro!: safe_intros safe_TaggedFields)

lemma safe_Request:
  "makeslice_panic \<in> A \<or> (\<forall>b. rq_Body r0 = Some b \<longrightarrow> body_version b \<noteq> 2) \<Longrightarrow>
   safe_dec A (Request_decode r0)"
  unfolding Request_decode_def
  by (cases "rq_Body r0") (auto intro!: safe_intros safe_body)

text \<open>
  C33: Decoding what arrives from the network does not panic: on any bytes, a request header,
  a response header, a request with a body of version 0 or 1 and the SASL responses of
  versions 0 and 1 are decoded or refused with an error.
\<close>

theorem Decode_no_panic:
  "\<not> is_panic (Decode buf RequestKeyVersion_decode x1)
   \<and> \<not> is_panic (Decode buf ResponseHeader_decode x2)
   \<and> \<not> is_panic (Decode buf SaslHandshakeResponseV0orV1_decode x3)
   \<and> \<not> is_panic (Decode buf SaslAuthenticateResponseV0_decode x4)
   \<and> \<not> is_panic (Decode buf SaslAuthenticateResponseV1_decode x5)
   \<and> \<not> is_panic (Decode buf (Request_decode \<lparr>rq_CorrelationID = c, rq_ClientID = cl,
         rq_Body = Some (BodySaslHandshake h)\<rparr>) x6)
   \<and> \<not> is_panic (Decode buf (Request_decode \<lparr>rq_CorrelationID = c, rq_ClientID = cl,
         rq_Body = Some (BodySaslAuthenticateV0 a0)\<rparr>) x7)
   \<and> \<not> is_panic (Decode buf (Request_decode \<lparr>rq_CorrelationID = c, rq_ClientID = cl,
         rq_Body = Some (BodySaslAuthenticateV1 a1)\<rparr>) x8)"
proof -
  have p: "\<not> is_panic (Decode buf m x)" if "safe_dec {} m" for m and x :: 'z
    using Decode_safe [OF that, of buf x] by (auto simp: is_panic_def split: sum.splits gofail.splits)
  have h: "safe_dec A (Request_decode \<lparr>rq_CorrelationID = c, rq_ClientID = cl,
      rq_Body = Some (BodySaslHandshake h)\<rparr>)" for A
    by (auto simp: Request_decode_def SaslHandshakeRequestV0orV1_decode_def intro!: safe_intros)
  show ?thesis
    by (intro conjI p safe_messages h safe_Request) simp_all
qed

subsection \<open>Headers\<close>

lemma rule_version_cases: "map_of header_rules k = Some r \<Longrightarrow> rule_version v r = 0 \<or> rule_version v r = 1"
proof -
  have "list_all (\<lambda>(k, r). case r of FlexibleFrom n \<Rightarrow> True | Always x \<Rightarrow> x = 0 \<or> x = 1) header_rules"
    by code_simp
  then show ?thesis if "map_of header_rules k = Some r"
    using map_of_SomeD [OF that] by (cases r) (auto simp: list_all_iff)
qed

text \<open>
  Every request has a response header version, 0 or 1: \<open>NewResponseHeaderTaggedFields\<close>
  never fails, and its error branch is unreachable.
\<close>

theorem NewResponseHeaderTaggedFields_total:
  "\<exists>v. NewResponseHeaderTaggedFields req = Inr \<lparr>rhtf_version = v\<rparr> \<and> (v = 0 \<or> v = 1)
     \<and> v = ResponseHeaderVersion req"
proof -
  have "ResponseHeaderVersion req = 0 \<or> ResponseHeaderVersion req = 1"
    using rule_version_cases by (auto simp: ResponseHeaderVersion_def split: option.splits)
  then show ?thesis by (auto simp: NewResponseHeaderTaggedFields_def)
qed

text \<open>
  The header table agrees with the response schemas: for a version of metadata or
  find-coordinator that the proxy rewrites, the response header has tagged fields exactly if
  the schema of the response has them.
\<close>

theorem header_version_matches_schema:
  assumes "GetResponseModifier (rkv_ApiKey req) (rkv_ApiVersion req) fn = Inr (Some m)"
  shows "ResponseHeaderVersion req = (if untagged_ty (rm_schema m) then 0 else 1)"
proof -
  let ?v = "sint (rkv_ApiVersion req)"
  have key: "sint (3 :: 16 word) = 3" "sint (10 :: 16 word) = 10" by simp_all
  have rules: "map_of header_rules 3 = Some (FlexibleFrom 9)" "map_of header_rules 10 = Some (FlexibleFrom 3)"
    by code_simp+
  consider (md) "rkv_ApiKey req = 3" "0 \<le> ?v" "?v < 14" "rm_schema m = metadataResponseSchemaVersions ! nat ?v"
    | (fc) "rkv_ApiKey req = 10" "0 \<le> ?v" "?v < 7" "rm_schema m = findCoordinatorResponseSchemaVersions ! nat ?v"
    using assms schema_tables_length
    by (auto simp: GetResponseModifier_def newResponseModifier_def rbind_Inr_conv getResponseSchema_Inr
        apiKeyMetadata_def apiKeyFindCoordinator_def split: if_splits)
  then show ?thesis
  proof cases
    case md
    have "untagged_ty (metadataResponseSchemaVersions ! i) = (i < 9)" if "i < 14" for i
      using that arg_cong [OF schema_tables_untagged(1), of "\<lambda>xs. xs ! i"] schema_tables_length
      by (auto simp: nth_append)
    with md show ?thesis
      by (simp add: ResponseHeaderVersion_def key rules nat_less_iff)
  next
    case fc
    have "untagged_ty (findCoordinatorResponseSchemaVersions ! i) = (i < 3)" if "i < 7" for i
      using that arg_cong [OF schema_tables_untagged(2), of "\<lambda>xs. xs ! i"] schema_tables_length
      by (auto simp: nth_append)
    with fc show ?thesis
      by (simp add: ResponseHeaderVersion_def key rules nat_less_iff)
  qed
qed

lemma header_version_matches_schema_witness:
  "ResponseHeaderVersion \<lparr>rkv_Length = 100, rkv_ApiKey = 10, rkv_ApiVersion = 4\<rparr> =
    (if untagged_ty (rm_schema hostile_modifier) then 0 else 1)"
  by (rule header_version_matches_schema [of _ "Some sample_mapping"])
    (simp add: hostile_GetResponseModifier)

end
