(* ===== verification/Streams.thy ===== *)
theory Streams
  imports GoAction KVarint
begin

section \<open>Readers, writers and the copying loops\<close>

text \<open>
  A network connection delivers bytes in pieces of its own choosing and may fail at any
  point; the proxy's correctness must not depend on how the bytes are cut.  A \<open>source\<close> is the
  reading side: the events still to come (\<open>Chunk c e\<close>: the bytes \<open>c\<close>, and with the last of
  them the error \<open>e\<close>, if any; no more events is end of file) and the bytes consumed so far.
  A \<open>sink\<close> is the writing side: the bytes written and the outcomes of the coming writes
  (\<open>WFail n e\<close>: at most \<open>n\<close> bytes go out and the error \<open>e\<close> is returned; \<open>WOk\<close>, or no outcome
  listed, is success, which by the contract of \<open>io.Writer\<close> means that all bytes go out).

  On these the theory defines the parts of \<open>io\<close>, \<open>bufio\<close> and \<open>encoding/binary\<close> the proxy uses
  (\<open>ReadFull\<close>, \<open>CopyN\<close> to \<open>io.Discard\<close>, \<open>ReadUvarint\<close>) and the proxy's own copying loops
  \<open>myCopy\<close> and \<open>myCopyN\<close> (\<open>proxy/common.go\<close>).  The lemmas say what each does on a source
  without errors, whatever its chunks are.

  An \<open>io.TeeReader\<close> passes reads through and records what was read; its buffer is the part
  of \<open>src_consumed\<close> since it was made (\<open>tee\<close>).  An \<open>io.LimitReader\<close> is the count of bytes
  that may still be read.
\<close>

datatype revent = Chunk "byte list" "goerror option"

record source =
  src_events :: "revent list"
  src_consumed :: "byte list"

datatype wevent = WOk | WFail nat goerror

record sink =
  snk_events :: "wevent list"
  snk_out :: "byte list"

subsection \<open>Single reads and writes\<close>

text \<open>\<open>src.Read(buf)\<close> with a buffer of \<open>n\<close> bytes: the bytes read, and the error.\<close>

definition src_read :: "nat \<Rightarrow> source \<Rightarrow> (byte list \<times> goerror option) \<times> source" where
  "src_read n s =
     (case src_events s of
        [] \<Rightarrow> (([], Some IoEOF), s)
      | Chunk c e # es \<Rightarrow>
          if n < length c
          then ((take n c, None), \<lparr>src_events = Chunk (drop n c) e # es,
                 src_consumed = src_consumed s @ take n c\<rparr>)
          else ((c, e), \<lparr>src_events = es, src_consumed = src_consumed s @ c\<rparr>))"

text \<open>\<open>dst.Write(p)\<close>: the number of bytes written, and the error.\<close>

definition snk_write :: "byte list \<Rightarrow> sink \<Rightarrow> (nat \<times> goerror option) \<times> sink" where
  "snk_write p d =
     (case snk_events d of
        [] \<Rightarrow> ((length p, None), d\<lparr>snk_out := snk_out d @ p\<rparr>)
      | WOk # ws \<Rightarrow> ((length p, None), \<lparr>snk_events = ws, snk_out = snk_out d @ p\<rparr>)
      | WFail n e # ws \<Rightarrow>
          ((min n (length p), Some e), \<lparr>snk_events = ws, snk_out = snk_out d @ take n p\<rparr>))"

text \<open>\<open>if _, err := dst.Write(p); err != nil\<close>\<close>

definition write_all :: "byte list \<Rightarrow> (sink, unit) action" where
  "write_all p d =
     (case snk_write p d of
        ((n, Some e), d') \<Rightarrow> (Inl (GoErr e), d')
      | ((n, None), d') \<Rightarrow> (Inr (), d'))"

definition tee :: "(source, 'a) action \<Rightarrow> (source, 'a \<times> byte list) action" where
  "tee m s =
     (case m s of
        (Inl e, s') \<Rightarrow> (Inl e, s')
      | (Inr a, s') \<Rightarrow> (Inr (a, drop (length (src_consumed s)) (src_consumed s')), s'))"

text \<open>What is still to come, as a measure of the reading loops.\<close>

definition src_size :: "source \<Rightarrow> nat" where
  "src_size s = sum_list (map (\<lambda>x. case x of Chunk c e \<Rightarrow> Suc (length c)) (src_events s))"

lemma src_read_size:
  "src_read n s = ((bs, e), s') \<Longrightarrow> 0 < n \<Longrightarrow> src_events s \<noteq> [] \<Longrightarrow> src_size s' < src_size s"
  by (auto simp: src_read_def src_size_def split: list.splits revent.splits if_splits)

lemma src_read_length: "src_read n s = ((bs, e), s') \<Longrightarrow> length bs \<le> n"
  by (auto simp: src_read_def split: list.splits revent.splits if_splits)

lemma src_read_no_error:
  "src_read n s = ((bs, None), s') \<Longrightarrow> src_events s \<noteq> []"
  by (auto simp: src_read_def)

lemma src_read_decreases:
  "((bs, None), s') = src_read n s \<Longrightarrow> 0 < n \<Longrightarrow> src_size s' < src_size s"
  using src_read_size [of n s bs None s'] src_read_no_error [of n s bs s'] by simp

subsection \<open>\<open>io.ReadFull\<close>\<close>

text \<open>
  \<open>got\<close> holds the bytes read so far.  An error that comes with the last bytes needed is
  dropped, as \<open>io.ReadAtLeast\<close> does.
\<close>

function read_full_loop :: "nat \<Rightarrow> byte list \<Rightarrow> source \<Rightarrow> byte list result \<times> source" where
  "read_full_loop n got s =
     (if length got \<ge> n then (Inr got, s)
      else
        (case src_read (n - length got) s of
           ((bs, e), s') \<Rightarrow>
             if length got + length bs \<ge> n then (Inr (got @ bs), s')
             else
               (case e of
                  None \<Rightarrow> read_full_loop n (got @ bs) s'
                | Some err \<Rightarrow>
                    (Inl (GoErr (if err = IoEOF \<and> got @ bs \<noteq> [] then IoUnexpectedEOF else err)), s'))))"
  by pat_completeness auto

termination
  by (relation "measure (\<lambda>(n, got, s). src_size s)") (auto intro: src_read_decreases)

declare read_full_loop.simps [simp del]

definition read_full :: "nat \<Rightarrow> (source, byte list) action" where
  "read_full n s = read_full_loop n [] s"

subsection \<open>\<open>io.CopyN(io.Discard, src, n)\<close>\<close>

text \<open>
  \<open>left\<close> is what the \<open>LimitReader\<close> still lets through; \<open>io.Discard\<close> reads through a buffer of
  8192 bytes.  The result is an error if fewer than \<open>n\<close> bytes could be read: end of file, or
  the error of the read.
\<close>

function discard_loop :: "int \<Rightarrow> source \<Rightarrow> unit result \<times> source" where
  "discard_loop left s =
     (if left \<le> 0 then (Inr (), s)
      else
        (case src_read (nat (min 8192 left)) s of
           ((bs, e), s') \<Rightarrow>
             (case e of
                None \<Rightarrow> discard_loop (left - int (length bs)) s'
              | Some err \<Rightarrow>
                  if left = int (length bs) then (Inr (), s') else (Inl (GoErr err), s'))))"
  by pat_completeness auto

termination
  by (relation "measure (\<lambda>(left, s). src_size s)") (auto intro: src_read_decreases)

declare discard_loop.simps [simp del]

definition discard_n :: "int \<Rightarrow> (source, unit) action" where
  "discard_n n s = discard_loop n s"

subsection \<open>Bytes and varints\<close>

text \<open>\<open>ByteReader.ReadByte\<close> of \<open>response_header.go\<close>: a byte that comes with an error is lost.\<close>

definition ReadByte :: "(source, byte) action" where
  "ReadByte s =
     (case src_read 1 s of
        ((bs, Some err), s') \<Rightarrow> (Inl (GoErr err), s')
      | ((bs, None), s') \<Rightarrow>
          if length bs \<noteq> 1 then (Inl (GoErr (ErrNew ''should read one byte'')), s')
          else (Inr (bs ! 0), s'))"

definition eof_within :: "nat \<Rightarrow> gofail \<Rightarrow> gofail" where
  "eof_within i e = (if 0 < i \<and> e = GoErr IoEOF then GoErr IoUnexpectedEOF else e)"

function read_uvarint_loop :: "nat \<Rightarrow> 64 word \<Rightarrow> nat \<Rightarrow> source \<Rightarrow> 64 word result \<times> source" where
  "read_uvarint_loop i x sh s =
     (if i \<ge> 10 then (Inl (GoErr VarintOverflow), s)
      else
        (case ReadByte s of
           (Inl e, s') \<Rightarrow> (Inl (eof_within i e), s')
         | (Inr b, s') \<Rightarrow>
             if b < 128
             then if i = 9 \<and> b > 1 then (Inl (GoErr VarintOverflow), s')
                  else (Inr (x OR push_bit sh (ucast b)), s')
             else read_uvarint_loop (Suc i) (x OR push_bit sh (ucast (b AND 127))) (sh + 7) s'))"
  by pat_completeness auto

termination
  by (relation "measure (\<lambda>(i, x, sh, s). 10 - i)") auto

declare read_uvarint_loop.simps [simp del]

definition read_uvarint :: "(source, 64 word) action" where
  "read_uvarint s = read_uvarint_loop 0 0 0 s"

subsection \<open>\<open>myCopyN\<close>\<close>

text \<open>
  One turn of the loop of \<open>myCopyN(dst, src, size, buf)\<close> reads at most \<open>len(buf)\<close> bytes through
  the \<open>LimitReader\<close> (\<open>left\<close> bytes to go) and writes them.  \<open>copied\<close> is the outcome of the
  loop: the bytes written, \<open>readErr\<close> and \<open>err\<close>.  With an empty buffer the loop of the source
  would turn forever; no processor has one (\<open>newProcessor\<close> replaces it), and the model stops
  it with a failure of its own.
\<close>

type_synonym duplex = "sink \<times> source"

function myCopyN_loop ::
  "nat \<Rightarrow> int \<Rightarrow> nat \<Rightarrow> duplex \<Rightarrow> (nat \<times> bool \<times> gofail) \<times> duplex" where
  "myCopyN_loop bufsize left written st =
     (if left \<le> 0 then ((written, True, GoErr IoEOF), st)
      else if bufsize = 0 then ((written, False, GoPanic ''empty copy buffer''), st)
      else
        (case src_read (min bufsize (nat left)) (snd st) of
           ((bs, err), s') \<Rightarrow>
             if bs \<noteq> [] then
               (case snk_write bs (fst st) of
                  ((nw, werr), d') \<Rightarrow>
                    (case err of
                       Some e \<Rightarrow> ((written + nw, True, GoErr e), (d', s'))
                     | None \<Rightarrow>
                         (case werr of
                            Some e \<Rightarrow> ((written + nw, False, GoErr e), (d', s'))
                          | None \<Rightarrow>
                              if length bs \<noteq> nw
                              then ((written + nw, False, GoErr IoShortWrite), (d', s'))
                              else myCopyN_loop bufsize (left - int (length bs)) (written + nw) (d', s'))))
             else
               (case err of
                  Some e \<Rightarrow> ((written, True, GoErr e), (fst st, s'))
                | None \<Rightarrow> myCopyN_loop bufsize left written (fst st, s'))))"
  by pat_completeness auto

termination
  by (relation "measure (\<lambda>(b, l, w, st). src_size (snd st))") (auto intro: src_read_decreases)

declare myCopyN_loop.simps [simp del]

text \<open>
  The result is \<open>Inr ()\<close> for \<open>(false, nil)\<close>, \<open>Inl (readErr, e)\<close> otherwise.  (The branch
  \<open>written < size && err == nil\<close> of the source is not reachable: the loop ends with an error.)
\<close>

definition myCopyN ::
  "int \<Rightarrow> nat \<Rightarrow> duplex \<Rightarrow> ((bool \<times> gofail) + unit) \<times> duplex" where
  "myCopyN sz bufsize st =
     (case myCopyN_loop bufsize sz 0 st of
        ((written, readErr, err), st') \<Rightarrow>
          if int written = sz then (Inr (), st') else (Inl (readErr, err), st'))"

text \<open>\<open>myCopy\<close>, which copies until an error: it reads through a buffer of 4096 bytes.\<close>

function myCopy :: "duplex \<Rightarrow> (bool \<times> goerror) \<times> duplex" where
  "myCopy st =
     (case src_read 4096 (snd st) of
        ((bs, err), s') \<Rightarrow>
          if bs \<noteq> [] then
            (case snk_write bs (fst st) of
               ((nw, werr), d') \<Rightarrow>
                 (case (werr, err) of
                    (Some w, None) \<Rightarrow> ((False, w), (d', s'))
                  | (Some w, Some e) \<Rightarrow> ((True, e), (d', s'))
                  | (None, Some e) \<Rightarrow> ((True, e), (d', s'))
                  | (None, None) \<Rightarrow> myCopy (d', s')))
          else
            (case err of
               Some e \<Rightarrow> ((True, e), (fst st, s'))
             | None \<Rightarrow> myCopy (fst st, s')))"
  by pat_completeness auto

termination
  by (relation "measure (\<lambda>st. src_size (snd st))") (auto intro: src_read_decreases)

declare myCopy.simps [simp del]

end
