(* ===== verification/StreamFacts.thy ===== *)
theory StreamFacts
  imports Streams
begin

section \<open>The reading operations do not depend on the chunks\<close>

text \<open>
  On a source without errors and empty reads (\<open>clean\<close>) the bytes still to come are one list (\<open>pending\<close>),
  however they are cut; \<open>delivers s bs s'\<close> says that \<open>s'\<close> is what is left of \<open>s\<close> after reading
  \<open>bs\<close>.  Each operation is characterised by \<open>pending\<close> alone.
\<close>

definition clean :: "source \<Rightarrow> bool" where
  "clean s \<longleftrightarrow> list_all (\<lambda>x. case x of Chunk c e \<Rightarrow> c \<noteq> [] \<and> e = None) (src_events s)"

definition pending :: "source \<Rightarrow> byte list" where
  "pending s = concat (map (\<lambda>x. case x of Chunk c e \<Rightarrow> c) (src_events s))"

definition delivers :: "source \<Rightarrow> byte list \<Rightarrow> source \<Rightarrow> bool" where
  "delivers s bs s' \<longleftrightarrow> clean s \<and> clean s' \<and> pending s = bs @ pending s'
     \<and> src_consumed s' = src_consumed s @ bs"

lemma delivers_refl: "clean s \<Longrightarrow> delivers s [] s"
  by (simp add: delivers_def)

lemma delivers_trans: "delivers s as t \<Longrightarrow> delivers t bs u \<Longrightarrow> delivers s (as @ bs) u"
  by (simp add: delivers_def)

lemma delivers_clean: "delivers s bs s' \<Longrightarrow> clean s'"
  by (simp add: delivers_def)

lemma delivers_pending: "delivers s bs s' \<Longrightarrow> pending s = bs @ pending s'"
  by (simp add: delivers_def)

lemma src_read_clean:
  assumes "clean s" "src_read n s = ((bs, e), s')" "0 < n"
  shows "if src_events s = [] then bs = [] \<and> e = Some IoEOF \<and> s' = s \<and> pending s = []
    else e = None \<and> delivers s bs s' \<and> length bs \<le> n \<and> bs \<noteq> []"
  using assms
  by (auto simp: src_read_def clean_def pending_def delivers_def split: list.splits revent.splits if_splits)

lemma pending_Nil: "src_events s = [] \<Longrightarrow> pending s = []"
  by (simp add: pending_def)

lemma clean_read:
  assumes "clean s" "pending s \<noteq> []" "0 < n"
  obtains bs s' where "src_read n s = ((bs, None), s')" "delivers s bs s'" "length bs \<le> n" "bs \<noteq> []"
proof -
  obtain bs e s' where r: "src_read n s = ((bs, e), s')" by (metis surj_pair)
  from src_read_clean [OF assms(1) r assms(3)] assms(2) pending_Nil [of s] that r show ?thesis
    by (auto split: if_splits)
qed

subsection \<open>\<open>io.ReadFull\<close>\<close>

lemma read_full_loop_clean:
  "clean s \<Longrightarrow> length got \<le> n \<Longrightarrow> n - length got \<le> length (pending s) \<Longrightarrow>
   \<exists>s'. read_full_loop n got s = (Inr (got @ take (n - length got) (pending s)), s')
     \<and> delivers s (take (n - length got) (pending s)) s'"
proof (induction n got s rule: read_full_loop.induct)
  case (1 n got s)
  show ?case
  proof (cases "length got \<ge> n")
    case True
    then show ?thesis
      using "1.prems" by (subst read_full_loop.simps) (auto intro: delivers_refl)
  next
    case False
    then have "pending s \<noteq> []" "0 < n - length got" using "1.prems" by auto
    with "1.prems"(1) obtain bs s' where r: "src_read (n - length got) s = ((bs, None), s')"
      and d: "delivers s bs s'" and l: "length bs \<le> n - length got" by (rule clean_read)
    show ?thesis
    proof (cases "length got + length bs \<ge> n")
      case True
      with l False have "length bs = n - length got" by simp
      with False r d True show ?thesis
        by (subst read_full_loop.simps) (auto simp: delivers_pending [OF d])
    next
      case more: False
      have "\<exists>t. read_full_loop n (got @ bs) s' =
          (Inr ((got @ bs) @ take (n - length (got @ bs)) (pending s')), t)
          \<and> delivers s' (take (n - length (got @ bs)) (pending s')) t"
        using "1.prems" False more d delivers_pending [OF d]
        by (intro "1.IH" [OF False r [symmetric] refl more refl]) (auto simp: delivers_clean)
      then obtain t where t: "read_full_loop n (got @ bs) s' =
          (Inr ((got @ bs) @ take (n - length (got @ bs)) (pending s')), t)"
        "delivers s' (take (n - length (got @ bs)) (pending s')) t" by blast
      have "take (n - length got) (pending s) = bs @ take (n - length (got @ bs)) (pending s')"
        using l by (simp add: delivers_pending [OF d])
      with t delivers_trans [OF d t(2)] show ?thesis
        using False r more by (subst read_full_loop.simps) auto
    qed
  qed
qed

lemma read_full_clean:
  assumes "clean s" "n \<le> length (pending s)"
  obtains s' where "read_full n s = (Inr (take n (pending s)), s')"
    "delivers s (take n (pending s)) s'"
  using read_full_loop_clean [of s "[]" n] assms by (auto simp: read_full_def)

lemma read_full_length:
  "read_full_loop n got s = (Inr bs, s') \<Longrightarrow> length got \<le> n \<Longrightarrow> length bs = n"
proof (induction n got s rule: read_full_loop.induct)
  case (1 n got s)
  show ?case
  proof (cases "length got \<ge> n")
    case False
    obtain b e t where r: "src_read (n - length got) s = ((b, e), t)" by (metis surj_pair)
    from src_read_length [OF r] have l: "length b \<le> n - length got" .
    show ?thesis
    proof (cases "length got + length b \<ge> n \<or> e \<noteq> None")
      case True
      then show ?thesis
        using "1.prems" False r l by (subst (asm) read_full_loop.simps) (auto split: if_splits)
    next
      case more: False
      then have "read_full_loop n (got @ b) t = (Inr bs, s')"
        using "1.prems" False r by (subst (asm) read_full_loop.simps) (auto split: if_splits)
      with more l show ?thesis
        by (intro "1.IH" [OF False r [symmetric] refl]) auto
    qed
  next
    case True
    with "1.prems" show ?thesis by (subst (asm) read_full_loop.simps) auto
  qed
qed

lemma read_full_Inr_length: "read_full n s = (Inr bs, s') \<Longrightarrow> length bs = n"
  using read_full_length [of n "[]" s bs s'] by (simp add: read_full_def)

subsection \<open>Discarding\<close>

lemma discard_loop_clean:
  "clean s \<Longrightarrow> nat left \<le> length (pending s) \<Longrightarrow>
   \<exists>s'. discard_loop left s = (Inr (), s') \<and> delivers s (take (nat left) (pending s)) s'"
proof (induction left s rule: discard_loop.induct)
  case (1 left s)
  show ?case
  proof (cases "left \<le> 0")
    case True
    then show ?thesis
      using "1.prems" by (subst discard_loop.simps) (auto intro: delivers_refl)
  next
    case False
    then have "pending s \<noteq> []" "0 < nat (min 8192 left)" using "1.prems" by auto
    with "1.prems"(1) obtain bs s' where r: "src_read (nat (min 8192 left)) s = ((bs, None), s')"
      and d: "delivers s bs s'" and l: "length bs \<le> nat (min 8192 left)" by (rule clean_read)
    have n: "nat (left - int (length bs)) = nat left - length bs" by simp
    have "\<exists>t. discard_loop (left - int (length bs)) s' = (Inr (), t)
        \<and> delivers s' (take (nat left - length bs) (pending s')) t"
      using "1.prems" False d delivers_pending [OF d]
      unfolding n [symmetric]
      by (intro "1.IH" [OF False r [symmetric] refl refl]) (auto simp: delivers_clean)
    then obtain t where t: "discard_loop (left - int (length bs)) s' = (Inr (), t)"
      "delivers s' (take (nat left - length bs) (pending s')) t" by blast
    have "take (nat left) (pending s) = bs @ take (nat left - length bs) (pending s')"
      using l by (simp add: delivers_pending [OF d])
    with t delivers_trans [OF d t(2)] show ?thesis
      using False r by (subst discard_loop.simps) auto
  qed
qed

lemma discard_n_clean:
  assumes "clean s" "nat n \<le> length (pending s)"
  obtains s' where "discard_n n s = (Inr (), s')" "delivers s (take (nat n) (pending s)) s'"
  using discard_loop_clean [OF assms] by (auto simp: discard_n_def)

subsection \<open>\<open>myCopyN\<close>\<close>

lemma myCopyN_loop_clean:
  "clean s \<Longrightarrow> snk_events d = [] \<Longrightarrow> 0 < bufsize \<Longrightarrow> nat left \<le> length (pending s) \<Longrightarrow>
   \<exists>s' rd err. myCopyN_loop bufsize left written (d, s) =
      ((written + nat left, rd, err), (d\<lparr>snk_out := snk_out d @ take (nat left) (pending s)\<rparr>, s'))
     \<and> delivers s (take (nat left) (pending s)) s'"
proof (induction "src_size s" arbitrary: s d left written rule: less_induct)
  case less
  show ?case
  proof (cases "left \<le> 0")
    case True
    then show ?thesis
      using less.prems by (subst myCopyN_loop.simps) (auto intro: delivers_refl)
  next
    case False
    have ne: "pending s \<noteq> []" "0 < min bufsize (nat left)" using False less.prems by auto
    obtain bs s' where r: "src_read (min bufsize (nat left)) s = ((bs, None), s')"
      and d: "delivers s bs s'" and l: "length bs \<le> min bufsize (nat left)" and bs: "bs \<noteq> []"
      using clean_read [OF less.prems(1) ne] by blast
    let ?d' = "d\<lparr>snk_out := snk_out d @ bs\<rparr>"
    have w: "snk_write bs d = ((length bs, None), ?d')"
      using less.prems by (simp add: snk_write_def)
    have n: "nat (left - int (length bs)) = nat left - length bs" by simp
    have tk: "take (nat left) (pending s) = bs @ take (nat left - length bs) (pending s')"
      using l by (simp add: delivers_pending [OF d])
    have "\<exists>t rd err. myCopyN_loop bufsize (left - int (length bs)) (written + length bs) (?d', s') =
        ((written + length bs + (nat left - length bs), rd, err),
         (?d'\<lparr>snk_out := snk_out ?d' @ take (nat left - length bs) (pending s')\<rparr>, t))
        \<and> delivers s' (take (nat left - length bs) (pending s')) t"
      using less.hyps [OF src_read_decreases [OF r [symmetric] ne(2)],
          of ?d' "left - int (length bs)" "written + length bs"] less.prems d
        delivers_pending [OF d] unfolding n by (auto simp: delivers_clean)
    then obtain t rd err where
      t: "myCopyN_loop bufsize (left - int (length bs)) (written + length bs) (?d', s') =
        ((written + length bs + (nat left - length bs), rd, err),
         (?d'\<lparr>snk_out := snk_out ?d' @ take (nat left - length bs) (pending s')\<rparr>, t))"
      "delivers s' (take (nat left - length bs) (pending s')) t" by blast
    have "written + length bs + (nat left - length bs) = written + nat left" using l by simp
    with t delivers_trans [OF d t(2)] show ?thesis
      using False less.prems(3) r bs w by (subst myCopyN_loop.simps) (auto simp: tk)
  qed
qed

lemma myCopyN_clean:
  assumes "clean s" "snk_events d = []" "0 < bufsize" "0 \<le> n" "nat n \<le> length (pending s)"
  obtains s' where "myCopyN n bufsize (d, s) =
      (Inr (), (d\<lparr>snk_out := snk_out d @ take (nat n) (pending s)\<rparr>, s'))"
    "delivers s (take (nat n) (pending s)) s'"
  using myCopyN_loop_clean [of s d bufsize n 0] assms
  by (auto simp: myCopyN_def)

subsection \<open>Varints\<close>

lemma ReadByte_clean:
  assumes "clean s" "pending s = b # r"
  obtains s' where "ReadByte s = (Inr b, s')" "delivers s [b] s'"
proof -
  have ne: "pending s \<noteq> []" "0 < (1 :: nat)" using assms(2) by simp_all
  obtain bs s' where s: "src_read 1 s = ((bs, None), s')" "delivers s bs s'" "length bs \<le> 1" "bs \<noteq> []"
    using clean_read [OF assms(1) ne] by blast
  then have "bs = [b]" using assms(2) delivers_pending [OF s(2)] by (cases bs) auto
  with s that show ?thesis by (simp add: ReadByte_def)
qed

text \<open>On a clean source \<open>ReadUvarint\<close> reads what \<open>binary.Uvarint\<close> reads from the pending bytes.\<close>

lemma read_uvarint_loop_clean:
  "clean s \<Longrightarrow> uvarint_loop i x sh (pending s) = (v, m) \<Longrightarrow> 0 < m \<Longrightarrow> i < 10 \<Longrightarrow>
   \<exists>s'. read_uvarint_loop i x sh s = (Inr v, s') \<and> delivers s (take (nat m - i) (pending s)) s'
     \<and> int i < m"
proof (induction i x sh s rule: read_uvarint_loop.induct)
  case (1 i x sh s)
  obtain b r where p: "pending s = b # r"
    using "1.prems" by (cases "pending s") auto
  obtain t where t: "ReadByte s = (Inr b, t)" "delivers s [b] t"
    using ReadByte_clean [OF "1.prems"(1) p] by blast
  have pt: "pending t = r" using delivers_pending [OF t(2)] p by simp
  have i: "\<not> 10 \<le> i" "i \<noteq> 10" using "1.prems" by auto
  show ?case
  proof (cases "b < 128")
    case True
    have "nat (int i + 1) - i = 1" by simp
    with True show ?thesis
      using "1.prems" i t by (subst read_uvarint_loop.simps) (auto simp: p split: if_splits)
  next
    case False
    have u: "uvarint_loop (Suc i) (x OR push_bit sh (ucast (b AND 127))) (sh + 7) (pending t) = (v, m)"
      using "1.prems"(2) False i by (simp add: p pt)
    have i10: "Suc i < 10"
    proof (rule ccontr)
      assume "\<not> Suc i < 10"
      with i have "Suc i = 10" by simp
      with u "1.prems"(3) show False by (cases "pending t") (auto split: if_splits)
    qed
    from "1.IH" [OF i(1) t(1) [symmetric] refl False delivers_clean [OF t(2)] u "1.prems"(3) i10]
    obtain s' where s': "read_uvarint_loop (Suc i) (x OR push_bit sh (ucast (b AND 127))) (sh + 7) t = (Inr v, s')"
      "delivers t (take (nat m - Suc i) (pending t)) s'" "int (Suc i) < m" by blast
    have "take (nat m - i) (pending s) = [b] @ take (nat m - Suc i) (pending t)"
      using s'(3) by (simp add: p pt take_Cons' )
    with s' delivers_trans [OF t(2) s'(2)] show ?thesis
      using i t False by (subst read_uvarint_loop.simps) auto
  qed
qed

lemma read_uvarint_clean:
  assumes "clean s" "pending s = put_uvarint x @ r"
  obtains s' where "read_uvarint s = (Inr x, s')" "delivers s (put_uvarint x) s'"
proof -
  have "uvarint_loop 0 0 0 (pending s) = (x, int (length (put_uvarint x)))"
    using binary_Uvarint_put [of x r] by (simp add: assms(2) binary_Uvarint_def)
  from read_uvarint_loop_clean [OF assms(1) this] that show ?thesis
    by (auto simp: read_uvarint_def assms(2))
qed

end
