(* ===== verification/StreamOps.thy ===== *)
theory StreamOps
  imports StreamFacts MessageFacts
begin

section \<open>Reading header parts off a stream\<close>

text \<open>
  \<open>ResponseHeaderTaggedFields.MaybeRead\<close> (\<open>response_header.go\<close>) and \<open>RequestAcksReader\<close>
  (\<open>request_produce_reader.go\<close>): they read a part of a message off a connection through an
  \<open>io.TeeReader\<close>, so that the bytes can be forwarded afterwards.
\<close>

definition awrap :: "string \<Rightarrow> ('s, 'a) action \<Rightarrow> ('s, 'a) action" where
  "awrap msg m \<sigma> =
     (case m \<sigma> of
        (Inl (GoErr e), \<sigma>') \<Rightarrow> (Inl (GoErr (WrapErr msg e)), \<sigma>')
      | p \<Rightarrow> p)"

function tagged_loop :: "int \<Rightarrow> (source, unit) action" where
  "tagged_loop left =
     (if left \<le> 0 then aret ()
      else abind (awrap ''error while reading tagged field tag'' read_uvarint) (\<lambda>tag.
           abind (awrap ''error while reading tagged field size'' read_uvarint) (\<lambda>sz.
           abind (if sz = 0 then aret ()
                  else awrap ''error while reading tagged field data'' (discard_n (sint sz))) (\<lambda>_.
           tagged_loop (left - 1)))))"
  by pat_completeness auto

termination
  by (relation "measure (\<lambda>left. nat left)") auto

declare tagged_loop.simps [simp del]

definition MaybeRead :: "ResponseHeaderTaggedFields \<Rightarrow> (source, byte list) action" where
  "MaybeRead r =
     (if sint (rhtf_version r) \<ge> 1
      then abind (tee (abind (awrap ''error while reading tagged field numTaggedFields'' read_uvarint)
             (\<lambda>numTaggedFields. tagged_loop (sint numTaggedFields)))) (\<lambda>(_, bufferRead). aret bufferRead)
      else aret [])"

subsection \<open>\<open>RequestAcksReader\<close>\<close>

text \<open>\<open>binary.Read\<close> of a 16-bit and of a 32-bit integer.\<close>

definition binary_Read16 :: "(source, 16 word) action" where
  "binary_Read16 = abind (read_full 2) (\<lambda>b. aret (get_be16 b))"

definition binary_Read32 :: "(source, 32 word) action" where
  "binary_Read32 = abind (read_full 4) (\<lambda>b. aret (get_be32 b))"

definition readAndDiscardNullableString :: "(source, unit) action" where
  "readAndDiscardNullableString = abind binary_Read16 (\<lambda>len.
     if sint len < - 1 then aerr errInvalidStringLength
     else if sint len > 0 then discard_n (sint len)
     else aret ())"

definition ReadAndDiscardHeaderV1Part :: "(source, unit) action" where
  "ReadAndDiscardHeaderV1Part = abind binary_Read32 (\<lambda>correlationID. readAndDiscardNullableString)"

definition ReadAndDiscardProduceAcks :: "(source, 16 word) action" where
  "ReadAndDiscardProduceAcks = binary_Read16"

definition ReadAndDiscardProduceTxnAcks :: "(source, 16 word) action" where
  "ReadAndDiscardProduceTxnAcks = abind readAndDiscardNullableString (\<lambda>_. binary_Read16)"

subsection \<open>What they read\<close>

text \<open>
  \<open>consumes m bs a\<close>: on any clean source that starts with \<open>bs\<close>, however it is cut, \<open>m\<close>
  returns \<open>a\<close> and stops right behind \<open>bs\<close>.
\<close>

definition consumes :: "(source, 'a) action \<Rightarrow> byte list \<Rightarrow> 'a \<Rightarrow> bool" where
  "consumes m bs a \<longleftrightarrow> (\<forall>s r. clean s \<longrightarrow> pending s = bs @ r \<longrightarrow> (\<exists>s'. m s = (Inr a, s') \<and> delivers s bs s'))"

lemma consumesE:
  assumes "consumes m bs a" "clean s" "pending s = bs @ r"
  obtains s' where "m s = (Inr a, s')" "delivers s bs s'"
  using assms by (auto simp: consumes_def)

lemma consumes_aret: "consumes (aret a) [] a"
  by (auto simp: consumes_def aret_def intro: delivers_refl)

lemma consumes_abind:
  assumes m: "consumes m bs a" and f: "consumes (f a) cs b"
  shows "consumes (abind m f) (bs @ cs) b"
  unfolding consumes_def
proof (intro allI impI)
  fix s r
  assume s: "clean s" "pending s = (bs @ cs) @ r"
  then obtain t where t: "m s = (Inr a, t)" "delivers s bs t"
    by (auto elim: consumesE [OF m])
  then have "clean t" "pending t = cs @ r" using s delivers_pending [OF t(2)] by (auto simp: delivers_clean)
  then obtain u where "f a t = (Inr b, u)" "delivers t cs u" by (auto elim: consumesE [OF f])
  with t show "\<exists>s'. abind m f s = (Inr b, s') \<and> delivers s (bs @ cs) s'"
    by (auto simp: abind_def intro: delivers_trans)
qed

lemma consumes_abind_ret: "consumes m bs a \<Longrightarrow> f a = aret b \<Longrightarrow> consumes (abind m f) bs b"
  using consumes_abind [of m bs a f "[]" b] by (simp add: consumes_aret)

lemma consumes_awrap: "consumes m bs a \<Longrightarrow> consumes (awrap s m) bs a"
  by (fastforce simp: consumes_def awrap_def)

lemma consumes_tee: "consumes m bs a \<Longrightarrow> consumes (tee m) bs (a, bs)"
  by (fastforce simp: consumes_def tee_def delivers_def)

lemma consumes_read_full: "length bs = n \<Longrightarrow> consumes (read_full n) bs bs"
  unfolding consumes_def by (auto elim!: read_full_clean [of _ n])

lemma consumes_discard:
  assumes "n \<le> 0 \<and> bs = [] \<or> n = int (length bs)"
  shows "consumes (discard_n n) bs ()"
  unfolding consumes_def
proof (intro allI impI)
  fix s r
  assume s: "clean s" "pending s = bs @ r"
  with assms have "nat n = length bs" by auto
  with s show "\<exists>s'. discard_n n s = (Inr (), s') \<and> delivers s bs s'"
    using discard_n_clean [OF s(1), of n] by auto
qed

lemma consumes_read_uvarint: "consumes read_uvarint (put_uvarint x) x"
  unfolding consumes_def by (auto elim: read_uvarint_clean)

lemma consumes_Read16: "consumes binary_Read16 (be16 v) v"
  unfolding binary_Read16_def using get_be16_be16 [of v "[]"]
  by (intro consumes_abind_ret [OF consumes_read_full]) auto

lemma consumes_Read32: "consumes binary_Read32 (be32 v) v"
  unfolding binary_Read32_def using get_be32_be32 [of v "[]"]
  by (intro consumes_abind_ret [OF consumes_read_full]) auto

lemma sint_minus_1: "sint (- 1 :: 'a::len word) = - 1"
  by (fact signed_minus_1)

lemma consumes_nullable_string:
  assumes "short_opt s"
  shows "consumes readAndDiscardNullableString (wire_nullable_string s) ()"
proof (cases s)
  case None
  then show ?thesis
    unfolding readAndDiscardNullableString_def wire_nullable_string_def
    by (auto intro!: consumes_abind_ret [OF consumes_Read16])
next
  case (Some t)
  with assms have l: "sint (of_nat (length t) :: 16 word) = int (length t)"
    by (intro sint_of_nat_16) (simp add: short_opt_def short_def MaxInt16_def)
  have disc: "consumes (discard_n (int (length t))) (go_bytes t) ()"
    by (intro consumes_discard) simp
  show ?thesis
    unfolding readAndDiscardNullableString_def Some wire_nullable_string_def wire_string_def option.case
    by (rule consumes_abind [OF consumes_Read16])
      (use disc in \<open>auto simp: l go_bytes_def consumes_aret\<close>)
qed

lemma consumes_header_part:
  assumes "short_opt cl"
  shows "consumes ReadAndDiscardHeaderV1Part (be32 c @ wire_nullable_string cl) ()"
  unfolding ReadAndDiscardHeaderV1Part_def
  by (rule consumes_abind [OF consumes_Read32 consumes_nullable_string [OF assms]])

lemma consumes_txn_acks:
  assumes "short_opt txn"
  shows "consumes ReadAndDiscardProduceTxnAcks (wire_nullable_string txn @ be16 a) a"
  unfolding ReadAndDiscardProduceTxnAcks_def
  by (rule consumes_abind [OF consumes_nullable_string [OF assms] consumes_Read16])

subsection \<open>Tagged fields of a response header\<close>

lemma consumes_raw_tagged:
  assumes "ok_raw_tagged f" "consumes (tagged_loop (left - 1)) bs ()" "0 < left"
  shows "consumes (tagged_loop left) (wire_raw_tagged f @ bs) ()"
proof -
  have data: "\<exists>sz d. wire_varint_bytes (rt_data f) = put_uvarint sz @ d
    \<and> consumes (if sz = 0 then aret ()
        else awrap ''error while reading tagged field data'' (discard_n (sint sz))) d ()"
  proof (cases "rt_data f")
    case None
    then show ?thesis
      by (intro exI [of _ "- 1"] exI [of _ "[]"])
        (auto simp: wire_varint_bytes_def intro!: consumes_awrap consumes_discard)
  next
    case (Some d)
    with assms(1) have l: "sint (of_nat (length d) :: 64 word) = int (length d)"
      by (intro sint_of_nat_64) (simp add: ok_raw_tagged_def fits63_def)
    have "consumes (if (of_nat (length d) :: 64 word) = 0 then aret ()
        else awrap ''error while reading tagged field data'' (discard_n (sint (of_nat (length d) :: 64 word)))) d ()"
    proof (cases "(of_nat (length d) :: 64 word) = 0")
      case True
      then have "d = []" using l by simp
      then show ?thesis by (simp add: consumes_aret)
    qed (auto simp: l intro!: consumes_awrap consumes_discard)
    with Some show ?thesis
      by (intro exI [of _ "of_nat (length d)"] exI [of _ d]) (simp add: wire_varint_bytes_def)
  qed
  then obtain sz d where sz: "wire_varint_bytes (rt_data f) = put_uvarint sz @ d"
    and d: "consumes (if sz = 0 then aret ()
        else awrap ''error while reading tagged field data'' (discard_n (sint sz))) d ()" by blast
  have "consumes (tagged_loop left) (put_uvarint (rt_tag f) @ put_uvarint sz @ d @ bs) ()"
    using assms(3)
    by (subst tagged_loop.simps)
      (simp, rule consumes_abind, rule consumes_awrap, rule consumes_read_uvarint,
        rule consumes_abind, rule consumes_awrap, rule consumes_read_uvarint,
        rule consumes_abind, rule d, rule assms(2))
  then show ?thesis by (simp add: wire_raw_tagged_def sz)
qed

lemma consumes_tagged_loop:
  "list_all ok_raw_tagged fs \<Longrightarrow>
   consumes (tagged_loop (int (length fs))) (concat (map wire_raw_tagged fs)) ()"
proof (induction fs)
  case Nil
  show ?case by (subst tagged_loop.simps) (simp add: consumes_aret)
next
  case (Cons f fs)
  then show ?case using consumes_raw_tagged [of f "int (length (f # fs))"] by simp
qed

lemma consumes_MaybeRead:
  assumes "ok_tagged fs"
  shows "consumes (MaybeRead \<lparr>rhtf_version = 1\<rparr>) (wire_tagged fs) (wire_tagged fs)"
proof -
  have "length fs < 2 ^ 63" using assms by (auto simp: ok_tagged_def maxAlloc_def)
  note n = sint_of_nat_64 [OF this]
  have "consumes (abind (awrap ''error while reading tagged field numTaggedFields'' read_uvarint)
      (\<lambda>numTaggedFields. tagged_loop (sint numTaggedFields))) (wire_tagged fs) ()"
    unfolding wire_tagged_def
    by (rule consumes_abind, rule consumes_awrap, rule consumes_read_uvarint)
      (use assms in \<open>simp add: n consumes_tagged_loop ok_tagged_def\<close>)
  from consumes_tee [OF this] show ?thesis
    unfolding MaybeRead_def by (auto intro!: consumes_abind_ret)
qed

lemma MaybeRead_0: "sint (rhtf_version r) < 1 \<Longrightarrow> MaybeRead r = aret []"
  by (simp add: MaybeRead_def)

end
