(* ===== verification/StreamOrder.thy ===== *)
theory StreamOrder
  imports StreamOps
begin

section \<open>What reading does to a source, step by step\<close>

text \<open>
  A relation between the states of a source that is reflexive and transitive and that holds of
  every single read holds of every operation of the proxy on it.  The locale \<open>read_order\<close> has
  the proof once, for all the loops.  \<open>less_to_come\<close> compares what is still to come (\<open>src_size\<close>), the
  measure by which the loops of the processor end; \<open>recorded\<close> says that the bytes consumed are
  recorded in order.
\<close>

locale read_order =
  fixes R :: "source \<Rightarrow> source \<Rightarrow> bool"
  assumes R_refl: "R s s"
    and R_trans: "R s t \<Longrightarrow> R t u \<Longrightarrow> R s u"
    and R_read: "src_read n s = (x, s') \<Longrightarrow> R s s'"
begin

definition moves :: "(source \<Rightarrow> 'r \<times> source) \<Rightarrow> bool" where
  "moves m \<longleftrightarrow> (\<forall>s. R s (snd (m s)))"

lemma movesI: "(\<And>s r s'. m s = (r, s') \<Longrightarrow> R s s') \<Longrightarrow> moves m"
  unfolding moves_def by (metis surj_pair snd_conv)

lemma movesD: "moves m \<Longrightarrow> m s = (r, s') \<Longrightarrow> R s s'"
  unfolding moves_def by (metis snd_conv)

lemma moves_basic: "moves (aret a)" "moves (aerr e)"
  by (simp_all add: moves_def aret_def aerr_def R_refl)

lemma moves_abind: "moves m \<Longrightarrow> (\<And>a. moves (f a)) \<Longrightarrow> moves (abind m f)"
  by (rule movesI) (auto simp: abind_def split: prod.splits sum.splits dest: movesD intro: R_trans)

lemma moves_if: "moves m \<Longrightarrow> moves n \<Longrightarrow> moves (if b then m else n)"
  by simp

lemma moves_awrap: "moves m \<Longrightarrow> moves (awrap msg m)"
  by (rule movesI) (auto simp: awrap_def split: prod.splits sum.splits gofail.splits dest: movesD)

lemma moves_tee: "moves m \<Longrightarrow> moves (tee m)"
  by (rule movesI) (auto simp: tee_def split: prod.splits sum.splits dest: movesD)

lemma read_full_loop_R: "read_full_loop n got s = (r, s') \<Longrightarrow> R s s'"
proof (induction n got s arbitrary: r s' rule: read_full_loop.induct)
  case (1 n got s)
  obtain b e t where rd: "src_read (n - length got) s = ((b, e), t)" by (metis surj_pair)
  note st = R_read [OF rd]
  show ?case
  proof (cases "length got \<ge> n \<or> length got + length b \<ge> n \<or> e \<noteq> None")
    case True
    with "1.prems" rd st R_refl show ?thesis
      by (subst (asm) read_full_loop.simps) (auto split: if_splits)
  next
    case more: False
    then have "read_full_loop n (got @ b) t = (r, s')"
      using "1.prems" rd by (subst (asm) read_full_loop.simps) (auto split: if_splits)
    with more have "R t s'" by (intro "1.IH" [OF _ rd [symmetric] refl]) auto
    with st show ?thesis by (rule R_trans)
  qed
qed

lemma discard_loop_R: "discard_loop left s = (r, s') \<Longrightarrow> R s s'"
proof (induction left s arbitrary: r s' rule: discard_loop.induct)
  case (1 left s)
  obtain b e t where rd: "src_read (nat (min 8192 left)) s = ((b, e), t)" by (metis surj_pair)
  note st = R_read [OF rd]
  show ?case
  proof (cases "left \<le> 0 \<or> e \<noteq> None")
    case True
    with "1.prems" rd st R_refl show ?thesis
      by (subst (asm) discard_loop.simps) (auto split: if_splits)
  next
    case more: False
    with "1.prems" rd have "discard_loop (left - int (length b)) t = (r, s')"
      by (subst (asm) discard_loop.simps) auto
    with more have "R t s'" by (intro "1.IH" [OF _ rd [symmetric] refl]) auto
    with st show ?thesis by (rule R_trans)
  qed
qed

lemma ReadByte_R: "ReadByte s = (r, s') \<Longrightarrow> R s s'"
  by (auto simp: ReadByte_def split: prod.splits option.splits if_splits dest!: R_read)

lemma read_uvarint_loop_R: "read_uvarint_loop i x sh s = (r, s') \<Longrightarrow> R s s'"
proof (induction i x sh s arbitrary: r s' rule: read_uvarint_loop.induct)
  case (1 i x sh s)
  obtain q t where rd: "ReadByte s = (q, t)" by force
  note st = ReadByte_R [OF rd]
  show ?case
  proof (cases "\<not> i \<ge> 10 \<and> (\<exists>b. q = Inr b \<and> \<not> b < 128)")
    case True
    then obtain b where b: "\<not> i \<ge> 10" "q = Inr b" "\<not> b < 128" by blast
    with "1.prems" rd have "read_uvarint_loop (Suc i) (x OR push_bit sh (ucast (b AND 127))) (sh + 7) t = (r, s')"
      by (subst (asm) read_uvarint_loop.simps) auto
    from R_trans [OF st "1.IH" [OF b(1) rd [symmetric] b(2,3) this]] show ?thesis .
  next
    case False
    with "1.prems" rd st R_refl show ?thesis
      by (subst (asm) read_uvarint_loop.simps) (auto split: sum.splits if_splits)
  qed
qed

lemma moves_reads:
  "moves (read_full n)" "moves (discard_n k)" "moves ReadByte" "moves read_uvarint"
  by (auto intro!: movesI simp: read_full_def discard_n_def read_uvarint_def
      dest: read_full_loop_R discard_loop_R ReadByte_R read_uvarint_loop_R)

lemmas moves_intros = moves_basic moves_abind moves_if moves_awrap moves_tee moves_reads

lemma moves_tagged_loop: "moves (tagged_loop left)"
proof (induction left rule: tagged_loop.induct)
  case (1 left)
  show ?case
    by (subst tagged_loop.simps, cases "left \<le> 0") (auto intro!: moves_intros "1.IH")
qed

lemma moves_headers:
  "moves (MaybeRead h)" "moves ReadAndDiscardHeaderV1Part" "moves ReadAndDiscardProduceAcks"
  "moves ReadAndDiscardProduceTxnAcks"
  unfolding MaybeRead_def ReadAndDiscardHeaderV1Part_def ReadAndDiscardProduceAcks_def
    ReadAndDiscardProduceTxnAcks_def readAndDiscardNullableString_def binary_Read16_def binary_Read32_def
  by (auto intro!: moves_intros moves_tagged_loop split: prod.splits)

lemma myCopyN_loop_R:
  "myCopyN_loop bufsize left written (d, s) = (x, (d', s')) \<Longrightarrow> R s s'"
proof (induction "src_size s" arbitrary: s d left written rule: less_induct)
  case less
  obtain b e t where r: "src_read (min bufsize (nat left)) s = ((b, e), t)" by (metis surj_pair)
  obtain nw we d2 where wr: "snk_write b d = ((nw, we), d2)" by (metis surj_pair)
  note st = R_read [OF r]
  show ?case
  proof (cases "0 < left \<and> bufsize \<noteq> 0 \<and> e = None \<and> (b \<noteq> [] \<longrightarrow> we = None \<and> length b = nw)")
    case True
    then have "src_size t < src_size s"
      using src_read_decreases [of b t "min bufsize (nat left)" s] r by simp
    moreover have "\<exists>l w d2. myCopyN_loop bufsize l w (d2, t) = (x, (d', s'))"
      using less.prems True r wr by (subst (asm) myCopyN_loop.simps) (auto split: if_splits)
    ultimately have "R t s'" using less.hyps by blast
    with st show ?thesis by (rule R_trans)
  next
    case False
    with less.prems r wr st R_refl show ?thesis
      by (subst (asm) myCopyN_loop.simps) (auto split: if_splits option.splits)
  qed
qed

lemma myCopyN_R: "myCopyN sz bufsize (d, s) = (r, (d', s')) \<Longrightarrow> R s s'"
  by (auto simp: myCopyN_def split: prod.splits if_splits dest: myCopyN_loop_R)

end

interpretation less_to_come: read_order "\<lambda>s s'. src_size s' \<le> src_size s"
  by unfold_locales (auto simp: src_read_def src_size_def split: list.splits revent.splits if_splits)

lemma src_read_consumed:
  "src_read n s = ((bs, e), s') \<Longrightarrow> src_consumed s' = src_consumed s @ bs"
  by (auto simp: src_read_def split: list.splits revent.splits if_splits)

interpretation recorded: read_order "\<lambda>s s'. \<exists>bs. src_consumed s' = src_consumed s @ bs"
  by unfold_locales (auto dest: src_read_consumed)

text \<open>A successful read of \<open>n\<close> bytes takes something off the source; so does a failed one but at its end.\<close>

lemma read_full_progress:
  assumes "read_full n s = (r, s')" "0 < n"
  shows "src_size s' < src_size s \<or> r = Inl (GoErr IoEOF)"
proof (cases "src_events s = []")
  case True
  with assms have "r = Inl (GoErr IoEOF)"
    by (simp add: read_full_def read_full_loop.simps src_read_def)
  then show ?thesis ..
next
  case False
  obtain b e t where rd: "src_read n s = ((b, e), t)" by (metis surj_pair)
  note lt = src_read_size [OF rd assms(2) False]
  have "t = s' \<or> read_full_loop n b t = (r, s')"
    using assms rd unfolding read_full_def
    by (subst (asm) read_full_loop.simps) (auto split: if_splits option.splits)
  then show ?thesis using lt less_to_come.read_full_loop_R by fastforce
qed

end
