(* ===== verification/StreamSound.thy ===== *)
theory StreamSound
  imports StreamOrder
begin

section \<open>What the stream operations do on any source and sink\<close>

text \<open>
  Unlike \<open>StreamFacts\<close>, nothing is assumed of the connections here: reads and writes may fail
  or stop short at any point.  \<open>grows m\<close> says that the bytes \<open>m\<close> takes off its source are
  recorded in order; for \<open>myCopyN\<close> the bytes written are a prefix of the bytes read, and on
  success both are exactly the bytes asked for.
\<close>

lemma snk_write_out:
  assumes "snk_write p d = ((n, e), d')"
  shows "n \<le> length p" "snk_out d' = snk_out d @ take n p" "e = None \<Longrightarrow> n = length p"
  using assms by (auto simp: snk_write_def min_def split: list.splits wevent.splits)

lemma write_all_out:
  assumes "write_all p d = (r, d')"
  obtains n where "snk_out d' = snk_out d @ take n p" "\<And>u. r = Inr u \<Longrightarrow> take n p = p"
proof -
  obtain n e d2 where w: "snk_write p d = ((n, e), d2)" by (metis surj_pair)
  note o = snk_write_out [OF w]
  from assms w have "d' = d2" "e = None \<or> (\<exists>x. r = Inl x)" by (auto simp: write_all_def split: option.splits)
  with o that [of n] show thesis by (cases e) auto
qed

lemma write_all_Inr: "write_all p d = (Inr u, d') \<Longrightarrow> snk_out d' = snk_out d @ p"
  by (erule write_all_out) simp

definition grows :: "(source \<Rightarrow> 'r \<times> source) \<Rightarrow> bool" where
  "grows m \<longleftrightarrow> (\<forall>s r s'. m s = (r, s') \<longrightarrow> (\<exists>bs. src_consumed s' = src_consumed s @ bs))"

lemma growsI [intro?]:
  "(\<And>s r s'. m s = (r, s') \<Longrightarrow> \<exists>bs. src_consumed s' = src_consumed s @ bs) \<Longrightarrow> grows m"
  by (auto simp: grows_def)

lemma growsD: "grows m \<Longrightarrow> m s = (r, s') \<Longrightarrow> \<exists>bs. src_consumed s' = src_consumed s @ bs"
  by (auto simp: grows_def)

lemma grows_trans:
  assumes "\<exists>bs. src_consumed s' = src_consumed s @ bs" "\<exists>bs. src_consumed s'' = src_consumed s' @ bs"
  shows "\<exists>bs. src_consumed s'' = src_consumed s @ bs"
  using assms by auto

named_theorems grows_intros "operations that record what they read"

lemma grows_moves: "grows = recorded.moves"
  by (rule ext, unfold grows_def recorded.moves_def) (metis prod.collapse snd_conv)

lemmas grows_aret = recorded.moves_basic(1) [folded grows_moves]
  and grows_aerr = recorded.moves_basic(2) [folded grows_moves]
  and grows_abind = recorded.moves_abind [folded grows_moves]
  and grows_tee = recorded.moves_tee [folded grows_moves]
  and grows_read_full = recorded.moves_reads(1) [folded grows_moves]
  and grows_discard_n = recorded.moves_reads(2) [folded grows_moves]

lemmas grows_combinators [grows_intros] =
  recorded.moves_basic [folded grows_moves] recorded.moves_abind [folded grows_moves]
  recorded.moves_if [folded grows_moves] recorded.moves_awrap [folded grows_moves]
  recorded.moves_tee [folded grows_moves] recorded.moves_reads [folded grows_moves]
  recorded.moves_tagged_loop [folded grows_moves] recorded.moves_headers [folded grows_moves]

lemma grows_read_full_loop: "read_full_loop n got s = (r, s') \<Longrightarrow>
   \<exists>bs. src_consumed s' = src_consumed s @ bs \<and> (\<forall>a. r = Inr a \<longrightarrow> a = got @ bs)
     \<and> (\<forall>e. r = Inl e \<longrightarrow> length got + length bs < n)"
proof (induction n got s arbitrary: r s' rule: read_full_loop.induct)
  case (1 n got s)
  show ?case
  proof (cases "length got \<ge> n")
    case True
    with "1.prems" show ?thesis by (subst (asm) read_full_loop.simps) auto
  next
    case False
    obtain b e t where rd: "src_read (n - length got) s = ((b, e), t)" by (metis surj_pair)
    note c = src_read_consumed [OF rd]
    show ?thesis
    proof (cases "length got + length b \<ge> n \<or> e \<noteq> None")
      case True
      with "1.prems" False rd c show ?thesis
        by (subst (asm) read_full_loop.simps) (auto split: if_splits)
    next
      case more: False
      then have "read_full_loop n (got @ b) t = (r, s')"
        using "1.prems" False rd by (subst (asm) read_full_loop.simps) (auto split: if_splits)
      with more have "\<exists>bs. src_consumed s' = src_consumed t @ bs \<and> (\<forall>a. r = Inr a \<longrightarrow> a = (got @ b) @ bs)
          \<and> (\<forall>e. r = Inl e \<longrightarrow> length (got @ b) + length bs < n)"
        by (intro "1.IH" [OF False rd [symmetric] refl]) auto
      then obtain bs where "src_consumed s' = src_consumed t @ bs" "\<forall>a. r = Inr a \<longrightarrow> a = (got @ b) @ bs"
        "\<forall>e. r = Inl e \<longrightarrow> length (got @ b) + length bs < n" by blast
      with c show ?thesis by (intro exI [of _ "b @ bs"]) auto
    qed
  qed
qed

lemma read_full_consumed: "read_full n s = (Inr bs, s') \<Longrightarrow> src_consumed s' = src_consumed s @ bs"
  using grows_read_full_loop [of n "[]" s "Inr bs" s'] by (auto simp: read_full_def)

lemma read_full_short:
  "read_full n s = (Inl e, s') \<Longrightarrow> \<exists>bs. src_consumed s' = src_consumed s @ bs \<and> length bs < n"
  using grows_read_full_loop [of n "[]" s "Inl e" s'] by (auto simp: read_full_def)

text \<open>What a \<open>TeeReader\<close> recorded is what was taken off the source.\<close>

lemma tee_consumed:
  assumes "grows m" "tee m s = (Inr (a, bs), s')"
  shows "src_consumed s' = src_consumed s @ bs"
  using assms growsD [OF assms(1)] by (fastforce simp: tee_def split: prod.splits sum.splits)

lemma MaybeRead_consumed:
  assumes "MaybeRead r s = (Inr bs, s')"
  shows "src_consumed s' = src_consumed s @ bs"
proof (cases "sint (rhtf_version r) \<ge> 1")
  case True
  have g: "grows (abind (awrap ''error while reading tagged field numTaggedFields'' read_uvarint)
      (\<lambda>numTaggedFields. tagged_loop (sint numTaggedFields)))"
    by (intro grows_intros)
  from assms True show ?thesis
    by (auto simp: MaybeRead_def abind_Inr_conv dest!: tee_consumed [OF g])
next
  case False
  with assms show ?thesis by (simp add: MaybeRead_def)
qed

subsection \<open>\<open>myCopyN\<close>\<close>

text \<open>A round of the loop: nothing to do, the last round, or a round with another after it.\<close>

lemma myCopyN_round:
  assumes run: "myCopyN_loop bufsize left written (d, s) = ((w, flag, err), (d', s'))"
  obtains (idle) "w = written \<and> d' = d \<and> s' = s"
  | (last) b e n where "0 < left" "src_read (min bufsize (nat left)) s = ((b, e), s')"
      "w = written + n" "snk_out d' = snk_out d @ take n b" "n \<le> length b"
  | (again) b t d2 where "0 < left" "0 < bufsize" "src_read (min bufsize (nat left)) s = ((b, None), t)"
      "snk_out d2 = snk_out d @ b"
      "myCopyN_loop bufsize (left - int (length b)) (written + length b) (d2, t) = ((w, flag, err), (d', s'))"
proof (cases "left \<le> 0 \<or> bufsize = 0")
  case True
  with run have "w = written \<and> d' = d \<and> s' = s" by (subst (asm) myCopyN_loop.simps) (auto split: if_splits)
  with idle show thesis by blast
next
  case False
  then have pos: "0 < left" "0 < bufsize" by auto
  obtain b e t where r: "src_read (min bufsize (nat left)) s = ((b, e), t)" by (metis surj_pair)
  obtain nw we d2 where wr: "snk_write b d = ((nw, we), d2)" by (metis surj_pair)
  note o = snk_write_out [OF wr]
  consider "b = []" "e = None" | x where "b = []" "e = Some x" | "b \<noteq> []" "e = None \<and> we = None \<and> nw = length b"
    | "b \<noteq> []" "\<not> (e = None \<and> we = None \<and> nw = length b)" by blast
  then show thesis
  proof cases
    case 1
    with run pos r have "myCopyN_loop bufsize left written (d, t) = ((w, flag, err), (d', s'))"
      by (subst (asm) myCopyN_loop.simps) auto
    with again [OF pos, of b t d] 1 r show thesis by simp
  next
    case (2 x)
    with run pos r have "w = written \<and> d' = d \<and> s' = t" by (subst (asm) myCopyN_loop.simps) auto
    with last [OF pos(1), of b e 0] 2 r show thesis by simp
  next
    case 3
    with run pos r wr have "myCopyN_loop bufsize (left - int (length b)) (written + length b) (d2, t)
        = ((w, flag, err), (d', s'))" by (subst (asm) myCopyN_loop.simps) auto
    with again [OF pos, of b t d2] 3 r o show thesis by simp
  next
    case 4
    with run pos r wr have "w = written + nw \<and> d' = d2 \<and> s' = t"
      by (subst (asm) myCopyN_loop.simps) (auto split: option.splits if_splits)
    with last [OF pos(1), of b e nw] r o show thesis by simp
  qed
qed

lemma myCopyN_loop_sound:
  "myCopyN_loop bufsize left written (d, s) = ((w, flag, err), (d', s')) \<Longrightarrow>
   \<exists>bs n. src_consumed s' = src_consumed s @ bs \<and> snk_out d' = snk_out d @ take n bs
     \<and> n \<le> length bs \<and> int (length bs) \<le> max 0 left \<and> w = written + n"
proof (induction "src_size s" arbitrary: s d left written rule: less_induct)
  case less
  from less.prems show ?case
  proof (cases rule: myCopyN_round)
    case idle
    then show ?thesis by (intro exI [of _ "[]"] exI [of _ "0::nat"]) simp
  next
    case (last b e n)
    from src_read_length [OF last(2)] last(1) have "int (length b) \<le> left" by linarith
    with last src_read_consumed [OF last(2)] show ?thesis by (intro exI [of _ b] exI [of _ n]) auto
  next
    case (again b t d2)
    have "src_size t < src_size s" using src_read_decreases [OF again(3) [symmetric]] again(1,2) by simp
    from less.hyps [OF this again(5)] obtain bs n where
      "src_consumed s' = src_consumed t @ bs" "snk_out d' = snk_out d2 @ take n bs" "n \<le> length bs"
      "int (length bs) \<le> max 0 (left - int (length b))" "w = written + length b + n" by blast
    moreover have "int (length b) \<le> left" using src_read_length [OF again(3)] again(1) by linarith
    ultimately show ?thesis using src_read_consumed [OF again(3)] again(4)
      by (intro exI [of _ "b @ bs"] exI [of _ "length b + n"]) auto
  qed
qed

lemma myCopyN_consumed:
  assumes "myCopyN sz bufsize (d, s) = (r, (d', s'))"
  obtains bs n where "src_consumed s' = src_consumed s @ bs" "snk_out d' = snk_out d @ take n bs"
    "r = Inr () \<Longrightarrow> int (length bs) = sz \<and> take n bs = bs"
proof -
  obtain w rd err where l: "myCopyN_loop bufsize sz 0 (d, s) = ((w, rd, err), (d', s'))"
    using assms by (auto simp: myCopyN_def split: prod.splits if_splits)
  from myCopyN_loop_sound [OF this] obtain bs n where
    b: "src_consumed s' = src_consumed s @ bs" "snk_out d' = snk_out d @ take n bs"
    "n \<le> length bs" "int (length bs) \<le> max 0 sz" "w = n" by auto
  moreover have "int (length bs) = sz \<and> take n bs = bs" if "r = Inr ()"
    using assms l that b by (auto simp: myCopyN_def split: if_splits)
  ultimately show thesis using that by blast
qed

end
