(* ===== verification/AuthState.thy ===== *)
theory AuthState
  imports WirePrims
begin

section \<open>The re-authentication state of a broker connection\<close>

text \<open>
  \<open>ConnectionAuthState\<close> of \<open>proxy/processor.go\<close>.  A \<open>time.Time\<close> is the count of nanoseconds
  on the clock, with \<open>None\<close> for the zero time; a \<open>time.Duration\<close> is a 64-bit word of
  nanoseconds, which wraps.  Operations that call \<open>time.Now()\<close> take the time as an argument.
  The mutex makes each operation atomic, so each is a function of the state.

  \<open>scaleSessionLifetime\<close> computes in \<open>float64\<close>.  The arithmetic is modelled exactly: \<open>round53\<close>
  rounds an integer to 53 significant bits, ties to even; the constant \<open>1.0 - 0.2\<close> is the
  double nearest to 4/5, \<open>7205759403792794 / 2^53\<close>; a product of doubles is the rounded
  product, and the conversion to \<open>Duration\<close> truncates.
\<close>

type_synonym gotime = "int option"
type_synonym duration = "64 word"

definition second :: int where
  "second = 1000000000"

definition reauthInflightCushion :: duration where
  "reauthInflightCushion = 30000000000"

fun bit_len :: "nat \<Rightarrow> nat" where
  "bit_len n = (if n = 0 then 0 else Suc (bit_len (n div 2)))"

declare bit_len.simps [simp del]

definition round53 :: "nat \<Rightarrow> nat" where
  "round53 n =
     (let k = bit_len n - 53 in
      if k = 0 then n
      else let q = n div 2 ^ k; r = n mod 2 ^ k in
        (if 2 * r > 2 ^ k \<or> (2 * r = 2 ^ k \<and> odd q) then q + 1 else q) * 2 ^ k)"

definition four_fifths :: nat where
  "four_fifths = 7205759403792794"

definition scaleSessionLifetime :: "duration \<Rightarrow> duration" where
  "scaleSessionLifetime d =
     (let scaled = (if sint d \<le> 0 then 0
                    else int (round53 (round53 (nat (sint d)) * four_fifths) div 2 ^ 53)) in
      if scaled < second then of_int second else of_int scaled)"

record ConnectionAuthState =
  cas_reauthAt :: gotime
  cas_inFlight :: bool
  cas_inFlightDeadline :: gotime
  cas_inFlightStartedAt :: gotime
  cas_sessionLifetime :: duration

definition time_add :: "int \<Rightarrow> duration \<Rightarrow> gotime" where
  "time_add t d = Some (t + sint d)"

text \<open>\<open>time.Duration(ms) * time.Millisecond\<close>, a 64-bit product.\<close>

definition ms_duration :: "64 word \<Rightarrow> duration" where
  "ms_duration ms = ms * 1000000"

definition newConnectionAuthState :: "64 word \<Rightarrow> int \<Rightarrow> ConnectionAuthState" where
  "newConnectionAuthState sessionLifetimeMs now =
     (let s = \<lparr>cas_reauthAt = None, cas_inFlight = False, cas_inFlightDeadline = None,
               cas_inFlightStartedAt = None, cas_sessionLifetime = 0\<rparr> in
      if sint sessionLifetimeMs > 0
      then s\<lparr>cas_sessionLifetime := ms_duration sessionLifetimeMs,
             cas_reauthAt := time_add now (scaleSessionLifetime (ms_duration sessionLifetimeMs))\<rparr>
      else s)"

definition NeedsReauth :: "ConnectionAuthState \<Rightarrow> int \<Rightarrow> bool" where
  "NeedsReauth s now =
     (case cas_reauthAt s of
        None \<Rightarrow> False
      | Some t \<Rightarrow> if cas_inFlight s then False else \<not> now < t)"

definition NextReadDeadline :: "ConnectionAuthState \<Rightarrow> gotime" where
  "NextReadDeadline s = (if cas_inFlight s then cas_inFlightDeadline s else cas_reauthAt s)"

definition MarkInFlight :: "int \<Rightarrow> ConnectionAuthState \<Rightarrow> ConnectionAuthState" where
  "MarkInFlight now s = s\<lparr>cas_inFlight := True,
     cas_inFlightDeadline := time_add now reauthInflightCushion,
     cas_inFlightStartedAt := Some now\<rparr>"

definition InFlightStartedAt :: "ConnectionAuthState \<Rightarrow> gotime" where
  "InFlightStartedAt s = cas_inFlightStartedAt s"

definition CompleteReauth :: "64 word \<Rightarrow> int \<Rightarrow> ConnectionAuthState \<Rightarrow> ConnectionAuthState" where
  "CompleteReauth sessionLifetimeMs now s =
     (let s = s\<lparr>cas_inFlight := False, cas_inFlightDeadline := None\<rparr> in
      if sint sessionLifetimeMs > 0
      then s\<lparr>cas_sessionLifetime := ms_duration sessionLifetimeMs,
             cas_reauthAt := time_add now (scaleSessionLifetime (ms_duration sessionLifetimeMs))\<rparr>
      else s)"

definition InFlightExpired :: "ConnectionAuthState \<Rightarrow> int \<Rightarrow> bool" where
  "InFlightExpired s now =
     (cas_inFlight s \<and> (case cas_inFlightDeadline s of None \<Rightarrow> False | Some t \<Rightarrow> now > t))"

subsection \<open>The scaling\<close>

lemma bit_len_bounds: "0 < n \<Longrightarrow> 2 ^ (bit_len n - 1) \<le> n \<and> n < 2 ^ bit_len n"
proof (induction n rule: bit_len.induct)
  case (1 n)
  show ?case
  proof (cases "n div 2 = 0")
    case True
    with 1 have "n = 1" by simp
    then show ?thesis by (simp add: bit_len.simps)
  next
    case False
    with 1 have IH: "2 ^ (bit_len (n div 2) - 1) \<le> n div 2" "n div 2 < 2 ^ bit_len (n div 2)" by auto
    have b: "bit_len n = Suc (bit_len (n div 2))" using 1 by (subst bit_len.simps) simp
    have p: "0 < bit_len (n div 2)" using False by (subst bit_len.simps) simp
    have "2 * 2 ^ (bit_len (n div 2) - 1) = (2 :: nat) ^ bit_len (n div 2)"
      using p by (cases "bit_len (n div 2)") auto
    have dm: "2 * (n div 2) \<le> n" "n < 2 * (n div 2) + 2" by presburger+
    show ?thesis
    proof
      show "2 ^ (bit_len n - 1) \<le> n"
        using order_trans [OF mult_le_mono2 [OF IH(1), of 2] dm(1)] \<open>2 * 2 ^ (bit_len (n div 2) - 1) = _\<close>
        by (simp add: b)
      have "2 * (n div 2 + 1) \<le> 2 * 2 ^ bit_len (n div 2)"
        using IH(2) by (intro mult_le_mono2) simp
      then show "n < 2 ^ bit_len n" using dm(2) by (simp add: b)
    qed
  qed
qed

lemma round53_error:
  "2 ^ 53 * round53 n \<le> n * (2 ^ 53 + 1)" "n * (2 ^ 53 - 1) \<le> 2 ^ 53 * round53 n"
proof -
  define k where "k = bit_len n - 53"
  define q where "q = n div 2 ^ k"
  define r where "r = n mod 2 ^ k"
  have n: "n = q * 2 ^ k + r" unfolding q_def r_def by (rule div_mult_mod_eq [symmetric])
  have r: "r < 2 ^ k" by (simp add: r_def)
  have "2 ^ 53 * round53 n \<le> n * (2 ^ 53 + 1) \<and> n * (2 ^ 53 - 1) \<le> 2 ^ 53 * round53 n"
  proof (cases "k = 0")
    case True
    then have "round53 n = n" by (simp add: round53_def k_def)
    then show ?thesis by simp
  next
    case False
    then have "53 < bit_len n" by (simp add: k_def)
    then have "0 < n" by (cases n) (simp_all add: bit_len.simps)
    with bit_len_bounds have "2 ^ (bit_len n - 1) \<le> n" by blast
    moreover have "bit_len n - 1 = 52 + k" using \<open>53 < bit_len n\<close> by (simp add: k_def)
    ultimately have big: "2 ^ 52 * 2 ^ k \<le> n" by (simp add: power_add)
    have "round53 n = (if 2 * r > 2 ^ k \<or> (2 * r = 2 ^ k \<and> odd q) then q + 1 else q) * 2 ^ k"
      using False by (simp add: round53_def k_def [symmetric] q_def r_def Let_def)
    then have "2 * round53 n \<le> 2 * n + 2 ^ k" "2 * n \<le> 2 * round53 n + 2 ^ k"
      using n r by (auto split: if_splits)
    with big show ?thesis by simp
  qed
  then show "2 ^ 53 * round53 n \<le> n * (2 ^ 53 + 1)" "n * (2 ^ 53 - 1) \<le> 2 ^ 53 * round53 n" by auto
qed

definition scaled_nat :: "nat \<Rightarrow> nat" where
  "scaled_nat n = round53 (round53 n * four_fifths) div 2 ^ 53"

lemma scaled_nat_bounds: "scaled_nat n \<le> n" "79 * n \<le> 100 * (scaled_nat n + 1)"
proof -
  define D where "D = round53 n"
  define R where "R = round53 (D * four_fifths)"
  have D: "2 ^ 53 * D \<le> n * (2 ^ 53 + 1)" "n * (2 ^ 53 - 1) \<le> 2 ^ 53 * D"
    using round53_error [of n] by (simp_all add: D_def)
  have R: "2 ^ 53 * R \<le> D * four_fifths * (2 ^ 53 + 1)" "D * four_fifths * (2 ^ 53 - 1) \<le> 2 ^ 53 * R"
    using round53_error [of "D * four_fifths"] by (simp_all add: R_def)
  have s: "scaled_nat n = R div 2 ^ 53" by (simp add: scaled_nat_def R_def D_def)
  show "scaled_nat n \<le> n"
    using D(1) R(1) unfolding s four_fifths_def by simp
  show "79 * n \<le> 100 * (scaled_nat n + 1)"
    using D(2) R(2) unfolding s four_fifths_def by simp
qed

lemma scaleSessionLifetime_nat:
  assumes "0 < sint d"
  shows "sint (scaleSessionLifetime d) = max second (int (scaled_nat (nat (sint d))))"
proof -
  let ?s = "int (scaled_nat (nat (sint d)))"
  have "?s \<le> sint d" using scaled_nat_bounds(1) [of "nat (sint d)"] assms by simp
  moreover have "sint d < 2 ^ 63" using sint_lt [of d] by simp
  ultimately have "sint (of_int ?s :: 64 word) = ?s"
    using sint_of_nat_small [of "scaled_nat (nat (sint d))", where 'a = 64] by simp
  moreover have "sint (of_int second :: 64 word) = second" by (simp add: second_def)
  ultimately show ?thesis
    using assms by (simp add: scaleSessionLifetime_def Let_def scaled_nat_def)
qed

subsection \<open>The states a connection goes through\<close>

text \<open>
  The request loop marks the state after \<open>NeedsReauth\<close>, the response loop completes it with the
  lifetime the broker sent.
\<close>

inductive auth_reachable :: "ConnectionAuthState \<Rightarrow> bool" where
  auth_new: "auth_reachable (newConnectionAuthState ms now)"
| auth_mark: "auth_reachable s \<Longrightarrow> NeedsReauth s now \<Longrightarrow> auth_reachable (MarkInFlight now s)"
| auth_complete: "auth_reachable s \<Longrightarrow> auth_reachable (CompleteReauth ms now s)"

definition auth_inv :: "ConnectionAuthState \<Rightarrow> bool" where
  "auth_inv s \<longleftrightarrow> (cas_inFlight s \<longleftrightarrow> cas_inFlightDeadline s \<noteq> None)
     \<and> (cas_inFlight s \<longrightarrow> cas_reauthAt s \<noteq> None)"

lemmas auth_defs = newConnectionAuthState_def MarkInFlight_def CompleteReauth_def NeedsReauth_def
  NextReadDeadline_def InFlightExpired_def InFlightStartedAt_def time_add_def Let_def

lemma auth_reachable_inv: "auth_reachable s \<Longrightarrow> auth_inv s"
proof (induction rule: auth_reachable.induct)
  case (auth_mark s now)
  then show ?case by (auto simp: auth_inv_def auth_defs split: option.splits)
qed (auto simp: auth_inv_def auth_defs)

lemma ms_duration_sint:
  assumes "0 < sint ms" "sint ms \<le> 9223372036854"
  shows "sint (ms_duration ms) = sint ms * 1000000"
proof -
  have "signed_take_bit 63 (sint ms * 1000000) = sint ms * 1000000"
    using assms by (intro signed_take_bit_int_eq_self) auto
  then show ?thesis by (simp add: ms_duration_def sint_word_ariths(3))
qed

lemma scaled_lifetime_bounds:
  assumes "1000 \<le> sint ms" "sint ms \<le> 9223372036854"
  shows "sint (scaleSessionLifetime (ms_duration ms)) \<le> sint ms * 1000000"
    "79 * (sint ms * 1000000) \<le> 100 * (sint (scaleSessionLifetime (ms_duration ms)) + 1)"
proof -
  have d: "sint (ms_duration ms) = sint ms * 1000000"
    using assms by (intro ms_duration_sint) auto
  let ?n = "nat (sint ms * 1000000)"
  have n: "int ?n = sint ms * 1000000" using assms by simp
  have sc: "sint (scaleSessionLifetime (ms_duration ms)) = max second (int (scaled_nat ?n))"
    using scaleSessionLifetime_nat [of "ms_duration ms"] d assms by simp
  have "int (scaled_nat ?n) \<le> int ?n" "int (79 * ?n) \<le> int (100 * (scaled_nat ?n + 1))"
    using scaled_nat_bounds [of ?n] by (simp_all only: of_nat_le_iff)
  then have b: "int (scaled_nat ?n) \<le> sint ms * 1000000"
    "79 * (sint ms * 1000000) \<le> 100 * (int (scaled_nat ?n) + 1)"
    unfolding n of_nat_mult of_nat_add by simp_all
  have "second \<le> sint ms * 1000000" using assms by (simp add: second_def)
  with b show "sint (scaleSessionLifetime (ms_duration ms)) \<le> sint ms * 1000000"
    "79 * (sint ms * 1000000) \<le> 100 * (sint (scaleSessionLifetime (ms_duration ms)) + 1)"
    unfolding sc by auto
qed

lemma hour_session_due: "NeedsReauth (newConnectionAuthState 3600000 0) 4000000000000"
  using scaled_lifetime_bounds(1) [of 3600000] by (simp add: auth_defs)

text \<open>
  C12: The read deadline wakes the request loop for a reason.  In every state a connection can
  reach, once the deadline that \<open>NextReadDeadline\<close> sets has passed, exactly one of two holds: a
  re-authentication is due, or the one in flight has expired; without a deadline neither can
  ever hold.
\<close>

theorem deadline_wakes_for_reauth:
  assumes "auth_reachable s"
  shows "case NextReadDeadline s of
      None \<Rightarrow> \<not> NeedsReauth s now \<and> \<not> InFlightExpired s now
    | Some t \<Rightarrow> now > t \<longrightarrow> (NeedsReauth s now \<longleftrightarrow> \<not> InFlightExpired s now)"
  using auth_reachable_inv [OF assms] by (auto simp: auth_inv_def auth_defs split: option.splits)

definition sample_auth :: ConnectionAuthState where
  "sample_auth = MarkInFlight 4000000000000 (newConnectionAuthState 3600000 0)"

lemma sample_auth_reachable: "auth_reachable sample_auth"
  unfolding sample_auth_def by (intro auth_mark auth_new hour_session_due)

lemma deadline_wakes_for_reauth_witness:
  "case NextReadDeadline sample_auth of
      None \<Rightarrow> \<not> NeedsReauth sample_auth 4100000000000 \<and> \<not> InFlightExpired sample_auth 4100000000000
    | Some t \<Rightarrow> 4100000000000 > t \<longrightarrow>
        (NeedsReauth sample_auth 4100000000000 \<longleftrightarrow> \<not> InFlightExpired sample_auth 4100000000000)"
  by (rule deadline_wakes_for_reauth [OF sample_auth_reachable])

text \<open>
  C23: The re-authentication is scheduled inside the session.  When the broker grants a session
  of at least a second and of at most 9223372036854 milliseconds, the most that fits a duration
  (about 292 years), the next re-authentication is set between 79 percent and the whole of the
  lifetime from now; the state leaves the in-flight phase.
\<close>

theorem reauth_within_session:
  assumes "1000 \<le> sint ms" "sint ms \<le> 9223372036854"
  shows "\<exists>t. cas_reauthAt (CompleteReauth ms now s) = Some t
    \<and> cas_reauthAt (newConnectionAuthState ms now) = Some t
    \<and> t \<le> now + sint ms * 1000000 \<and> 79 * (sint ms * 1000000) \<le> 100 * (t - now + 1)
    \<and> \<not> cas_inFlight (CompleteReauth ms now s)"
  using assms scaled_lifetime_bounds [OF assms]
  by (simp add: CompleteReauth_def newConnectionAuthState_def Let_def time_add_def)

lemma reauth_within_session_witness:
  "\<exists>t. cas_reauthAt (CompleteReauth 3600000 5 sample_auth) = Some t
    \<and> cas_reauthAt (newConnectionAuthState 3600000 5) = Some t
    \<and> t \<le> 5 + 3600000 * 1000000 \<and> 79 * (3600000 * 1000000) \<le> 100 * (t - 5 + 1)
    \<and> \<not> cas_inFlight (CompleteReauth 3600000 5 sample_auth)"
  using reauth_within_session [of 3600000 5 sample_auth] by simp

text \<open>
  A broker that stops requiring re-authentication is re-authenticated without pause.  After a
  re-authentication whose reply carries no session lifetime the old deadline stays, and it has
  passed: the next re-authentication is due at once, at every later time.
\<close>

theorem zero_lifetime_reauth_loops:
  assumes "NeedsReauth s now" "sint ms \<le> 0" "now \<le> later"
  shows "NeedsReauth (CompleteReauth ms later (MarkInFlight now s)) later"
  using assms by (auto simp: auth_defs split: option.splits if_splits)

lemma zero_lifetime_reauth_loops_witness:
  "NeedsReauth (CompleteReauth 0 4000000000001
     (MarkInFlight 4000000000000 (newConnectionAuthState 3600000 0))) 4000000000001"
  by (rule zero_lifetime_reauth_loops [OF hour_session_due]) simp_all

text \<open>
  A session lifetime beyond 292 years overflows the duration and is taken for one of less
  than a second: the re-authentication is set one second from now.
\<close>

theorem huge_lifetime_overflows:
  "cas_reauthAt (newConnectionAuthState 9223372036855 now) = Some (now + 1000000000)"
proof -
  have "ms_duration 9223372036855 = - 9223372036854551616"
    by (simp add: ms_duration_def)
  moreover have "sint (- 9223372036854551616 :: 64 word) < 0" by simp
  moreover have "sint (of_int second :: 64 word) = second" by (simp add: second_def)
  ultimately show ?thesis
    by (simp add: newConnectionAuthState_def Let_def time_add_def scaleSessionLifetime_def second_def)
qed

end
