(* ===== verification/Conns.thy ===== *)
theory Conns
  imports StreamSound AuthState
begin

section \<open>Connections\<close>

text \<open>
  A \<open>net.Conn\<close> as the proxy uses it (\<open>DeadlineReaderWriter\<close> of \<open>proxy/common.go\<close>): a source, a
  sink, the two deadlines last set and the outcomes of the coming \<open>Set...Deadline\<close> calls (no
  outcome listed is success).  What a deadline does is up to the connection: it shows as a
  \<open>OsErrDeadlineExceeded\<close> among the events of the source or the sink.

  The second half has the plumbing of the loops: \<open>zoom\<close> runs an operation of a part on the
  whole, \<open>flag\<close> adds the \<open>readErr\<close> a handler returns with an error, \<open>atry\<close> hands an error to
  the code that inspects it.
\<close>

record conn =
  cn_in :: source
  cn_out :: sink
  cn_readDeadline :: gotime
  cn_writeDeadline :: gotime
  cn_deadlineErrs :: "goerror option list"

definition zoom :: "('o \<Rightarrow> 'i) \<Rightarrow> ('i \<Rightarrow> 'o \<Rightarrow> 'o) \<Rightarrow> ('i \<Rightarrow> 'r \<times> 'i) \<Rightarrow> 'o \<Rightarrow> 'r \<times> 'o" where
  "zoom get put m \<sigma> = (case m (get \<sigma>) of (r, i) \<Rightarrow> (r, put i \<sigma>))"

definition deadline_call :: "(conn, unit) action" where
  "deadline_call c =
     (case cn_deadlineErrs c of
        [] \<Rightarrow> (Inr (), c)
      | e # es \<Rightarrow> ((case e of None \<Rightarrow> Inr () | Some err \<Rightarrow> Inl (GoErr err)), c\<lparr>cn_deadlineErrs := es\<rparr>))"

definition amod :: "('s \<Rightarrow> 's) \<Rightarrow> 's \<Rightarrow> ('e + unit) \<times> 's" where
  "amod f \<sigma> = (Inr (), f \<sigma>)"

definition SetReadDeadline :: "gotime \<Rightarrow> (conn, unit) action" where
  "SetReadDeadline t = abind deadline_call (\<lambda>_. amod (cn_readDeadline_update (\<lambda>_. t)))"

definition SetWriteDeadline :: "gotime \<Rightarrow> (conn, unit) action" where
  "SetWriteDeadline t = abind deadline_call (\<lambda>_. amod (cn_writeDeadline_update (\<lambda>_. t)))"

definition SetDeadline :: "gotime \<Rightarrow> (conn, unit) action" where
  "SetDeadline t = abind deadline_call (\<lambda>_.
     amod (cn_readDeadline_update (\<lambda>_. t) \<circ> cn_writeDeadline_update (\<lambda>_. t)))"

definition on_in :: "(source \<Rightarrow> 'r \<times> source) \<Rightarrow> conn \<Rightarrow> 'r \<times> conn" where
  "on_in = zoom cn_in (\<lambda>s. cn_in_update (\<lambda>_. s))"

definition on_out :: "(sink \<Rightarrow> 'r \<times> sink) \<Rightarrow> conn \<Rightarrow> 'r \<times> conn" where
  "on_out = zoom cn_out (\<lambda>d. cn_out_update (\<lambda>_. d))"

definition conn_ReadFull :: "nat \<Rightarrow> (conn, byte list) action" where
  "conn_ReadFull n = on_in (read_full n)"

definition conn_Write :: "byte list \<Rightarrow> (conn, unit) action" where
  "conn_Write p = on_out (write_all p)"

subsection \<open>Errors of the handlers\<close>

definition flag :: "bool \<Rightarrow> ('s, 'a) action \<Rightarrow> 's \<Rightarrow> ((bool \<times> gofail) + 'a) \<times> 's" where
  "flag readErr m \<sigma> =
     (case m \<sigma> of
        (Inl e, \<sigma>') \<Rightarrow> (Inl (readErr, e), \<sigma>')
      | (Inr a, \<sigma>') \<Rightarrow> (Inr a, \<sigma>'))"

definition atry :: "('s \<Rightarrow> ('e + 'a) \<times> 's) \<Rightarrow> 's \<Rightarrow> ('f + ('e + 'a)) \<times> 's" where
  "atry m \<sigma> = (case m \<sigma> of (r, \<sigma>') \<Rightarrow> (Inr r, \<sigma>'))"

definition agets :: "('s \<Rightarrow> 'a) \<Rightarrow> 's \<Rightarrow> ('e + 'a) \<times> 's" where
  "agets f \<sigma> = (Inr (f \<sigma>), \<sigma>)"

lemma flag_Inr_conv: "flag b m \<sigma> = (Inr a, \<sigma>') \<longleftrightarrow> m \<sigma> = (Inr a, \<sigma>')"
  by (auto simp: flag_def split: prod.splits sum.splits)

lemma flag_Inl_conv: "flag b m \<sigma> = (Inl (c, e), \<sigma>') \<longleftrightarrow> c = b \<and> m \<sigma> = (Inl e, \<sigma>')"
  by (auto simp: flag_def split: prod.splits sum.splits)

lemma action_conv_simps [simp]:
  "amod f \<sigma> = (Inr u, \<sigma>') \<longleftrightarrow> \<sigma>' = f \<sigma>"
  "agets g \<sigma> = (Inr a, \<sigma>') \<longleftrightarrow> a = g \<sigma> \<and> \<sigma>' = \<sigma>"
  "amod f \<sigma> \<noteq> (Inl e, \<sigma>')"
  "agets g \<sigma> \<noteq> (Inl e, \<sigma>')"
  "atry m \<sigma> = (Inr r, \<sigma>') \<longleftrightarrow> m \<sigma> = (r, \<sigma>')"
  "atry m \<sigma> \<noteq> (Inl e, \<sigma>')"
  by (auto simp: amod_def agets_def atry_def split: prod.splits)

lemma zoom_Inr_conv:
  "zoom get put m \<sigma> = (r, \<sigma>') \<longleftrightarrow> (\<exists>i. m (get \<sigma>) = (r, i) \<and> \<sigma>' = put i \<sigma>)"
  by (auto simp: zoom_def split: prod.splits)

end
