(* ===== verification/GoNet.thy ===== *)
theory GoNet
  imports KPrelude
begin

section \<open>Strings and network addresses\<close>

text \<open>
  The parts of Go's \<open>strings\<close> and \<open>net\<close> packages that the program uses on addresses and on
  OAUTHBEARER messages (\<open>Split\<close>, \<open>SplitN\<close> with two parts, \<open>Join\<close>, for separators of one
  character; \<open>JoinHostPort\<close>, \<open>SplitHostPort\<close>), and \<open>util.SplitHostPort\<close> of
  \<open>pkg/libs/util/net.go\<close>.
\<close>

subsection \<open>Splitting and joining\<close>

fun go_split :: "char \<Rightarrow> string \<Rightarrow> string list" where
  "go_split sep [] = [[]]"
| "go_split sep (c # cs) =
     (if c = sep then [] # go_split sep cs
      else (case go_split sep cs of [] \<Rightarrow> [[c]] | w # ws \<Rightarrow> (c # w) # ws))"

fun go_cut :: "char \<Rightarrow> string \<Rightarrow> (string \<times> string) option" where
  "go_cut sep [] = None"
| "go_cut sep (c # cs) =
     (if c = sep then Some ([], cs)
      else (case go_cut sep cs of None \<Rightarrow> None | Some (k, v) \<Rightarrow> Some (c # k, v)))"

fun go_join :: "string list \<Rightarrow> char \<Rightarrow> string" where
  "go_join [] sep = []"
| "go_join [w] sep = w"
| "go_join (w # ws) sep = w @ [sep] @ go_join ws sep"

lemma go_split_nonempty [simp]: "go_split c s \<noteq> []"
  by (cases s) (auto split: list.splits)

lemma go_split_plain: "c \<notin> set w \<Longrightarrow> go_split c w = [w]"
  by (induction w) auto

lemma go_split_join: "c \<notin> set w \<Longrightarrow> go_split c (w @ c # s) = w # go_split c s"
  by (induction w) auto

lemma go_split_go_join:
  "ws \<noteq> [] \<Longrightarrow> list_all (\<lambda>w. c \<notin> set w) ws \<Longrightarrow> go_split c (go_join ws c) = ws"
  by (induction ws c rule: go_join.induct) (auto simp: go_split_plain go_split_join)

lemma go_cut_join: "c \<notin> set k \<Longrightarrow> go_cut c (k @ c # v) = Some (k, v)"
  by (induction k) auto

lemma go_join_pair: "go_join [k, v] c = k @ c # v"
  by simp

subsection \<open>Addresses\<close>

text \<open>The parts before and after the last occurrence of a character.\<close>

definition last_cut :: "char \<Rightarrow> string \<Rightarrow> (string \<times> string) option" where
  "last_cut c s = (case go_cut c (rev s) of None \<Rightarrow> None | Some (k, v) \<Rightarrow> Some (rev v, rev k))"

definition JoinHostPort :: "string \<Rightarrow> string \<Rightarrow> string" where
  "JoinHostPort host port =
     (if CHR '':'' \<in> set host then ''['' @ host @ '']:'' @ port else host @ '':'' @ port)"

definition addr_error :: "string \<Rightarrow> string \<Rightarrow> 'a result" where
  "addr_error addr why = Inl (GoErr (NetErr (if addr = [] then why else ''address '' @ addr @ '': '' @ why)))"

definition bracket_checks :: "string \<Rightarrow> nat \<Rightarrow> nat \<Rightarrow> string \<times> string \<Rightarrow> (string \<times> string) result" where
  "bracket_checks hostport j k r =
     (if CHR ''['' \<in> set (drop j hostport) then addr_error hostport ''unexpected '[' in address''
      else if CHR '']'' \<in> set (drop k hostport) then addr_error hostport ''unexpected ']' in address''
      else Inr r)"

definition net_SplitHostPort :: "string \<Rightarrow> (string \<times> string) result" where
  "net_SplitHostPort hostport =
     (case last_cut CHR '':'' hostport of
        None \<Rightarrow> addr_error hostport ''missing port in address''
      | Some (before, port) \<Rightarrow>
          if hd hostport = CHR ''['' then
            (case go_cut CHR '']'' hostport of
               None \<Rightarrow> addr_error hostport ''missing ']' in address''
             | Some (inside, after) \<Rightarrow>
                 if after = [] then addr_error hostport ''missing port in address''
                 else if length inside + 1 = length before
                 then bracket_checks hostport 1 (length inside + 1) (tl inside, port)
                 else if hd after = CHR '':'' then addr_error hostport ''too many colons in address''
                 else addr_error hostport ''missing port in address'')
          else if CHR '':'' \<in> set before then addr_error hostport ''too many colons in address''
          else bracket_checks hostport 0 0 (before, port))"

definition SplitHostPort :: "string \<Rightarrow> (string \<times> 32 word) result" where
  "SplitHostPort hostport =
     rbind (net_SplitHostPort hostport) (\<lambda>(host, portstr).
     rbind (go_atoi portstr) (\<lambda>port. Inr (host, of_int port)))"

text \<open>A host that can be told apart in an address: no brackets.\<close>

definition plain_host :: "string \<Rightarrow> bool" where
  "plain_host h \<longleftrightarrow> CHR ''['' \<notin> set h \<and> CHR '']'' \<notin> set h"

definition plain_port :: "string \<Rightarrow> bool" where
  "plain_port p \<longleftrightarrow> CHR '':'' \<notin> set p \<and> CHR ''['' \<notin> set p \<and> CHR '']'' \<notin> set p"

lemma last_cut_join: "c \<notin> set p \<Longrightarrow> last_cut c (h @ c # p) = Some (h, p)"
  using go_cut_join [of c "rev p" "rev h"] by (simp add: last_cut_def)

lemma net_SplitHostPort_Join:
  assumes "plain_host h" "plain_port p"
  shows "net_SplitHostPort (JoinHostPort h p) = Inr (h, p)"
proof (cases "CHR '':'' \<in> set h")
  case True
  let ?a = "CHR ''['' # h @ [CHR '']''] @ CHR '':'' # p"
  have a: "JoinHostPort h p = ?a" using True by (simp add: JoinHostPort_def)
  have "last_cut CHR '':'' ((CHR ''['' # h @ [CHR '']'']) @ CHR '':'' # p) = Some (CHR ''['' # h @ [CHR '']''], p)"
    by (rule last_cut_join) (use assms(2) in \<open>simp add: plain_port_def\<close>)
  then have l: "last_cut CHR '':'' ?a = Some (CHR ''['' # h @ [CHR '']''], p)" by simp
  have "go_cut CHR '']'' ((CHR ''['' # h) @ CHR '']'' # CHR '':'' # p) = Some (CHR ''['' # h, CHR '':'' # p)"
    by (rule go_cut_join) (use assms(1) in \<open>simp add: plain_host_def\<close>)
  then have g: "go_cut CHR '']'' ?a = Some (CHR ''['' # h, CHR '':'' # p)" by simp
  show ?thesis
    unfolding a net_SplitHostPort_def l g
    using assms by (simp add: bracket_checks_def plain_host_def plain_port_def)
next
  case False
  have "last_cut CHR '':'' (h @ CHR '':'' # p) = Some (h, p)"
    by (rule last_cut_join) (use assms(2) in \<open>simp add: plain_port_def\<close>)
  moreover have "hd (h @ CHR '':'' # p) \<noteq> CHR ''[''" using assms(1) by (cases h) (auto simp: plain_host_def)
  ultimately show ?thesis
    using False assms by (simp add: JoinHostPort_def net_SplitHostPort_def bracket_checks_def plain_host_def plain_port_def)
qed

lemma plain_port_itoa: "plain_port (go_itoa i)"
proof -
  have "c \<notin> set (nat_digits n)" if "(of_char c :: nat) > 57" for c n
    using nat_digits_digit [of c n] that by auto
  then show ?thesis by (auto simp: plain_port_def go_itoa_def)
qed

lemma SplitHostPort_Join:
  assumes "plain_host h" "- (2 ^ 63) \<le> i" "i < 2 ^ 63"
  shows "SplitHostPort (JoinHostPort h (go_itoa i)) = Inr (h, of_int i)"
  by (simp add: SplitHostPort_def net_SplitHostPort_Join [OF assms(1) plain_port_itoa] go_atoi_itoa [OF assms(2,3)])

end
