(* ===== verification/SaslAuth.thy ===== *)
theory SaslAuth
  imports Conns MessageProps GoNet
begin

section \<open>SASL/OAUTHBEARER by the proxy\<close>

text \<open>
  \<open>proxy/sasl_by_proxy.go\<close> and the client-side part of \<open>proxy/sasl_oauthbearer.go\<close>.  The token
  provider is an implementation of \<open>apis.TokenProvider\<close>, an action on a state of its own.  A
  dial works on a \<open>wire\<close>: the connection, the clock (\<open>time.Now()\<close> gives the next reading) and
  the state of the token provider.

  The server-side parsers \<open>GetClientInitialResponse\<close> and \<open>parseToken\<close>, which no code of the program
  calls, are in the theory OAuthBearer.
\<close>

record clock =
  ck_times :: "nat \<Rightarrow> int"
  ck_ticks :: nat

definition clock_now :: "clock \<Rightarrow> ('e + int) \<times> clock" where
  "clock_now c = (Inr (ck_times c (ck_ticks c)), c\<lparr>ck_ticks := Suc (ck_ticks c)\<rparr>)"

record TokenResponse =
  tr_Success :: bool
  tr_Status :: "32 word"
  tr_Token :: string

type_synonym 's tokenProvider = "('s, TokenResponse) action"

record 's wire =
  w_conn :: conn
  w_clock :: clock
  w_ext :: 's

definition wire_conn :: "(conn \<Rightarrow> 'r \<times> conn) \<Rightarrow> 's wire \<Rightarrow> 'r \<times> 's wire" where
  "wire_conn = zoom w_conn (\<lambda>c. w_conn_update (\<lambda>_. c))"

definition wire_now :: "'s wire \<Rightarrow> ('e + int) \<times> 's wire" where
  "wire_now = zoom w_clock (\<lambda>c. w_clock_update (\<lambda>_. c)) clock_now"

definition wire_ext :: "('s \<Rightarrow> 'r \<times> 's) \<Rightarrow> 's wire \<Rightarrow> 'r \<times> 's wire" where
  "wire_ext = zoom w_ext (\<lambda>x. w_ext_update (\<lambda>_. x))"

subsection \<open>Frames\<close>

definition SASLOAuthBearer :: string where
  "SASLOAuthBearer = ''OAUTHBEARER''"

text \<open>The length prefix of four bytes and the request.\<close>

definition framed :: "byte list \<Rightarrow> byte list" where
  "framed reqBuf = be32 (of_nat (length reqBuf)) @ reqBuf"

definition encode_framed :: "Request \<Rightarrow> byte list result" where
  "encode_framed req =
     rbind (Encode (Some (Request_encode req))) (\<lambda>reqBuf. Inr (framed (nil_slice reqBuf)))"

text \<open>
  Reading a reply: a header of eight bytes (length and correlation id, which is not looked at)
  and \<open>length - 4\<close> bytes of payload, with a difference of 32-bit unsigned integers that wraps.
\<close>

definition read_reply :: "string \<Rightarrow> string \<Rightarrow> ('s wire, byte list) action" where
  "read_reply header_msg payload_msg =
     abind (awrap header_msg (wire_conn (conn_ReadFull 8))) (\<lambda>header.
       awrap payload_msg (wire_conn (conn_ReadFull (unat (get_be32 (take 4 header) - 4)))))"

subsection \<open>\<open>SASLHandshake\<close>\<close>

record SASLHandshake =
  sh_clientID :: string
  sh_version :: "16 word"
  sh_mechanism :: string
  sh_writeTimeout :: duration
  sh_readTimeout :: duration

definition sendAndReceiveHandshake :: "SASLHandshake \<Rightarrow> ('s wire, unit) action" where
  "sendAndReceiveHandshake b =
     abind (alift (encode_framed \<lparr>rq_CorrelationID = 0, rq_ClientID = sh_clientID b,
         rq_Body = Some (BodySaslHandshake \<lparr>shq_Version = sh_version b,
           shq_Mechanism = sh_mechanism b\<rparr>)\<rparr>)) (\<lambda>reqBuf.
     abind wire_now (\<lambda>now.
     abind (wire_conn (SetWriteDeadline (time_add now (sh_writeTimeout b)))) (\<lambda>_.
     abind (awrap ''failed to send SASL handshake'' (wire_conn (conn_Write reqBuf))) (\<lambda>_.
     abind wire_now (\<lambda>now.
     abind (wire_conn (SetReadDeadline (time_add now (sh_readTimeout b)))) (\<lambda>_.
     abind (read_reply ''failed to read SASL handshake header''
         ''failed to read SASL handshake payload'') (\<lambda>payload.
     abind (awrap ''failed to parse SASL handshake'' (alift (Decode (Some payload)
         SaslHandshakeResponseV0orV1_decode \<lparr>shr_Err = 0, shr_EnabledMechanisms = None\<rparr>))) (\<lambda>res.
     if shr_Err res \<noteq> 0 then aerr (WrapErr ''invalid SASL Mechanism'' (KErr (shr_Err res)))
     else aret ()))))))))"

subsection \<open>\<open>SaslOAuthBearer\<close>\<close>

text \<open>
  A map is given by its entries in the order in which \<open>range\<close> visits them.  \<open>parseMap\<close> cuts at
  every element separator and each element at its first key-value separator; both are one
  character in the program.
\<close>

definition saslOauthSeparator :: char where
  "saslOauthSeparator = CHR 0x01"

definition parseMap :: "string \<Rightarrow> char \<Rightarrow> char \<Rightarrow> string \<rightharpoonup> string" where
  "parseMap mapStr keyValueSeparator elementSeparator =
     (if mapStr = [] then Map.empty
      else foldl (\<lambda>result attrval.
        (case go_cut keyValueSeparator attrval of
           None \<Rightarrow> result
         | Some (k, v) \<Rightarrow> result(k \<mapsto> v))) Map.empty (go_split elementSeparator mapStr))"

definition mkString :: "(string \<times> string) list \<Rightarrow> char \<Rightarrow> char \<Rightarrow> string" where
  "mkString mapValues keyValueSeparator elementSeparator =
     (if mapValues = [] then []
      else go_join (map (\<lambda>(k, v). go_join [k, v] keyValueSeparator) mapValues) elementSeparator)"

definition ToBytes :: "string \<Rightarrow> string \<Rightarrow> (string \<times> string) list \<Rightarrow> byte list" where
  "ToBytes tokenValue authorizationId saslExtensions =
     (let authzid = (if authorizationId \<noteq> [] then ''a='' @ authorizationId else authorizationId);
          extensions = mkString saslExtensions CHR ''='' saslOauthSeparator;
          extensions = (if extensions \<noteq> [] then saslOauthSeparator # extensions else extensions)
      in go_bytes (''n,'' @ authzid @ '','' @ [saslOauthSeparator] @ ''auth=Bearer '' @ tokenValue
           @ extensions @ [saslOauthSeparator] @ [saslOauthSeparator]))"

subsection \<open>\<open>SASLOAuthBearerAuth\<close>\<close>

record 's SASLOAuthBearerAuth =
  oa_clientID :: string
  oa_writeTimeout :: duration
  oa_readTimeout :: duration
  oa_tokenProvider :: "'s tokenProvider"

definition getOAuthBearerToken :: "'s SASLOAuthBearerAuth \<Rightarrow> ('s, string) action" where
  "getOAuthBearerToken b = abind (oa_tokenProvider b) (\<lambda>resp.
     if \<not> tr_Success resp
     then aerr (ErrNew (''get sasl token failed with status: '' @ go_itoa (sint (tr_Status resp))))
     else if tr_Token resp = [] then aerr (ErrNew ''get sasl token returned empty token'')
     else aret (tr_Token resp))"

definition encodeSaslAuthenticate ::
  "'s SASLOAuthBearerAuth \<Rightarrow> string \<Rightarrow> 32 word \<Rightarrow> byte list result" where
  "encodeSaslAuthenticate b token correlationID =
     encode_framed \<lparr>rq_CorrelationID = correlationID, rq_ClientID = oa_clientID b,
       rq_Body = Some (BodySaslAuthenticateV1 \<lparr>sq1_SaslAuthBytes = Some (ToBytes token [] [])\<rparr>)\<rparr>"

definition sasl_failure :: "kerror \<Rightarrow> string option \<Rightarrow> goerror" where
  "sasl_failure kerr errMsg = ErrNew (''SASL authentication failed: '' @ KError_Error kerr
     @ '' (broker: '' @ [CHR 0x22] @ (case errMsg of None \<Rightarrow> [] | Some m \<Rightarrow> m) @ [CHR 0x22] @ '')'')"

text \<open>
  \<open>sasl_failure\<close> quotes the broker's message without the escapes that \<open>%q\<close> adds to it.
\<close>

definition sendSaslAuthenticateRequest ::
  "'s SASLOAuthBearerAuth \<Rightarrow> string \<Rightarrow> ('s wire, 64 word) action" where
  "sendSaslAuthenticateRequest b token =
     abind (alift (encodeSaslAuthenticate b token 0)) (\<lambda>reqBytes.
     abind wire_now (\<lambda>now.
     abind (wire_conn (SetWriteDeadline (time_add now (oa_writeTimeout b)))) (\<lambda>_.
     abind (awrap ''failed to send SASL auth request'' (wire_conn (conn_Write reqBytes))) (\<lambda>_.
     abind wire_now (\<lambda>now.
     abind (wire_conn (SetReadDeadline (time_add now (oa_readTimeout b)))) (\<lambda>_.
     abind (read_reply ''failed to read SASL auth header'' ''failed to read SASL auth payload'') (\<lambda>payload.
     abind (awrap ''failed to parse SASL auth response'' (alift (Decode (Some payload)
         SaslAuthenticateResponseV1_decode \<lparr>sr1_Err = 0, sr1_ErrMsg = None, sr1_SaslAuthBytes = None,
           sr1_SessionLifetimeMs = 0\<rparr>))) (\<lambda>res.
     if sr1_Err res \<noteq> 0 then aerr (sasl_failure (sr1_Err res) (sr1_ErrMsg res))
     else aret (sr1_SessionLifetimeMs res)))))))))"

definition sendAndReceiveSASLAuth :: "'s SASLOAuthBearerAuth \<Rightarrow> string \<Rightarrow> ('s wire, 64 word) action" where
  "sendAndReceiveSASLAuth b brokerAddress =
     abind (wire_ext (getOAuthBearerToken b)) (\<lambda>token.
     abind (sendAndReceiveHandshake \<lparr>sh_clientID = oa_clientID b, sh_version = 1,
         sh_mechanism = SASLOAuthBearer, sh_writeTimeout = oa_writeTimeout b,
         sh_readTimeout = oa_readTimeout b\<rparr>) (\<lambda>_.
     sendSaslAuthenticateRequest b token))"

definition buildReauthHandshakeRequest ::
  "'s SASLOAuthBearerAuth \<Rightarrow> 32 word \<Rightarrow> ('s, byte list) action" where
  "buildReauthHandshakeRequest b correlationID =
     alift (encode_framed \<lparr>rq_CorrelationID = correlationID, rq_ClientID = oa_clientID b,
       rq_Body = Some (BodySaslHandshake \<lparr>shq_Version = 1, shq_Mechanism = SASLOAuthBearer\<rparr>)\<rparr>)"

definition buildReauthRequest :: "'s SASLOAuthBearerAuth \<Rightarrow> 32 word \<Rightarrow> ('s, byte list) action" where
  "buildReauthRequest b correlationID =
     abind (awrap ''re-auth: fetching token'' (getOAuthBearerToken b)) (\<lambda>token.
       alift (encodeSaslAuthenticate b token correlationID))"

text \<open>The interface \<open>SASLAuthByProxy\<close>, and the value of it that \<open>NewClient\<close> makes.\<close>

record 's SASLAuthByProxy =
  sa_sendAndReceiveSASLAuth :: "string \<Rightarrow> ('s wire, 64 word) action"
  sa_buildReauthHandshakeRequest :: "32 word \<Rightarrow> ('s, byte list) action"
  sa_buildReauthRequest :: "32 word \<Rightarrow> ('s, byte list) action"

definition oauth_by_proxy :: "'s SASLOAuthBearerAuth \<Rightarrow> 's SASLAuthByProxy" where
  "oauth_by_proxy b = \<lparr>sa_sendAndReceiveSASLAuth = sendAndReceiveSASLAuth b,
     sa_buildReauthHandshakeRequest = buildReauthHandshakeRequest b,
     sa_buildReauthRequest = buildReauthRequest b\<rparr>"

end
