(* ===== verification/Processor.thy ===== *)
theory Processor
  imports SaslAuth
begin

section \<open>The processor of a connection\<close>

text \<open>
  \<open>proxy/processor.go\<close>, \<open>processor_default.go\<close> and \<open>processor_sasl_auth_v0.go\<close>: the two loops
  that copy requests from a client to its broker and responses back.  They share three
  channels (lists with a capacity) and the authentication state.  A handler is an action on
  the state of the connection (\<open>pstate\<close>) that fails with the pair \<open>(readErr, err)\<close> of the
  source.

  A turn of a loop is one action.  A channel operation that the source lets wait up to five
  seconds for the other loop is decided at the time of the turn: what a turn does before such
  a wait touches no state that the other loop's turn reads, so a wait that succeeds is the
  same as the other loop's turn running first, and a full or empty channel at the turn is a
  wait that timed out.  Metrics and log lines are left out.
\<close>

datatype RequestHandler = DefaultRequestHandler | SaslAuthV0RequestHandler
datatype ResponseHandler = DefaultResponseHandler | SaslAuthV0ResponseHandler

record 's ProcessorConfig =
  pc_MaxOpenRequests :: int
  pc_NetAddressMappingFunc :: "'s netAddressMappingFunc option"
  pc_RequestBufferSize :: int
  pc_ResponseBufferSize :: int
  pc_WriteTimeout :: duration
  pc_ReadTimeout :: duration
  pc_ForbiddenApiKeys :: "16 word list"
  pc_ProducerAcks0Disabled :: bool
  pc_InitialSessionLifetimeMs :: "64 word"
  pc_SaslAuthByProxy :: "'s SASLAuthByProxy option"

text \<open>The fixed part of a processor; its channels are given by their capacities.\<close>

record 's processor =
  pr_openRequestsCap :: nat
  pr_nextRequestHandlerCap :: nat
  pr_nextResponseHandlerCap :: nat
  pr_netAddressMappingFunc :: "'s netAddressMappingFunc option"
  pr_requestBufferSize :: nat
  pr_responseBufferSize :: nat
  pr_writeTimeout :: duration
  pr_readTimeout :: duration
  pr_forbiddenApiKeys :: "16 word list"
  pr_producerAcks0Disabled :: bool
  pr_saslAuthByProxy :: "'s SASLAuthByProxy option"

record 's pstate =
  ps_client :: conn
  ps_broker :: conn
  ps_openRequests :: "RequestKeyVersion list"
  ps_nextRequest :: "RequestHandler list"
  ps_nextResponse :: "ResponseHandler list"
  ps_auth :: "ConnectionAuthState option"
  ps_clock :: clock
  ps_ext :: 's

type_synonym ('s, 'a) handling = "'s pstate \<Rightarrow> ((bool \<times> gofail) + 'a) \<times> 's pstate"

definition defaultRequestBufferSize :: int where
  "defaultRequestBufferSize = 4096"

definition defaultResponseBufferSize :: int where
  "defaultResponseBufferSize = 4096"

definition defaultTimeout :: duration where
  "defaultTimeout = 30000000000"

definition minOpenRequests :: int where
  "minOpenRequests = 16"

definition apiKeyProduce :: "16 word" where
  "apiKeyProduce = 0"

definition apiKeySaslHandshake :: "16 word" where
  "apiKeySaslHandshake = 17"

definition apiKeySaslAuthenticate :: "16 word" where
  "apiKeySaslAuthenticate = 36"

definition minRequestApiKey :: int where
  "minRequestApiKey = 0"

definition maxRequestApiKey :: int where
  "maxRequestApiKey = 20000"

definition reauthCorrelationID :: "32 word" where
  "reauthCorrelationID = 0x7FFFFFFE"

definition reauthHandshakeCorrelationID :: "32 word" where
  "reauthHandshakeCorrelationID = 0x7FFFFFFD"

definition newProcessor :: "'s ProcessorConfig \<Rightarrow> 's processor" where
  "newProcessor cfg =
     (let maxOpenRequests = (if pc_MaxOpenRequests cfg < minOpenRequests then minOpenRequests
                             else pc_MaxOpenRequests cfg);
          requestBufferSize = (if pc_RequestBufferSize cfg \<le> 0 then defaultRequestBufferSize
                               else pc_RequestBufferSize cfg);
          responseBufferSize = (if pc_ResponseBufferSize cfg \<le> 0 then defaultResponseBufferSize
                                else pc_ResponseBufferSize cfg);
          writeTimeout = (if sint (pc_WriteTimeout cfg) \<le> 0 then defaultTimeout else pc_WriteTimeout cfg);
          readTimeout = (if sint (pc_ReadTimeout cfg) \<le> 0 then defaultTimeout else pc_ReadTimeout cfg)
      in \<lparr>pr_openRequestsCap = nat maxOpenRequests,
          pr_nextRequestHandlerCap = 1,
          pr_nextResponseHandlerCap = nat (maxOpenRequests + 2),
          pr_netAddressMappingFunc = pc_NetAddressMappingFunc cfg,
          pr_requestBufferSize = nat requestBufferSize,
          pr_responseBufferSize = nat responseBufferSize,
          pr_writeTimeout = writeTimeout,
          pr_readTimeout = readTimeout,
          pr_forbiddenApiKeys = pc_ForbiddenApiKeys cfg,
          pr_producerAcks0Disabled = pc_ProducerAcks0Disabled cfg,
          pr_saslAuthByProxy = pc_SaslAuthByProxy cfg\<rparr>)"

text \<open>The state \<open>newProcessor\<close> leaves: the seeded channels and the new authentication state.\<close>

definition new_pstate :: "'s ProcessorConfig \<Rightarrow> int \<Rightarrow> conn \<Rightarrow> conn \<Rightarrow> clock \<Rightarrow> 's \<Rightarrow> 's pstate" where
  "new_pstate cfg now remote local clock x =
     \<lparr>ps_client = local, ps_broker = remote, ps_openRequests = [],
      ps_nextRequest = [DefaultRequestHandler], ps_nextResponse = [DefaultResponseHandler],
      ps_auth = Some (newConnectionAuthState (pc_InitialSessionLifetimeMs cfg) now),
      ps_clock = clock, ps_ext = x\<rparr>"

subsection \<open>Parts of the state\<close>

definition on_client :: "(conn \<Rightarrow> 'r \<times> conn) \<Rightarrow> 's pstate \<Rightarrow> 'r \<times> 's pstate" where
  "on_client = zoom ps_client (\<lambda>c. ps_client_update (\<lambda>_. c))"

definition on_broker :: "(conn \<Rightarrow> 'r \<times> conn) \<Rightarrow> 's pstate \<Rightarrow> 'r \<times> 's pstate" where
  "on_broker = zoom ps_broker (\<lambda>c. ps_broker_update (\<lambda>_. c))"

definition on_open :: "(RequestKeyVersion list \<Rightarrow> 'r \<times> RequestKeyVersion list) \<Rightarrow> 's pstate \<Rightarrow> 'r \<times> 's pstate" where
  "on_open = zoom ps_openRequests (\<lambda>q. ps_openRequests_update (\<lambda>_. q))"

definition on_nextRequest :: "(RequestHandler list \<Rightarrow> 'r \<times> RequestHandler list) \<Rightarrow> 's pstate \<Rightarrow> 'r \<times> 's pstate" where
  "on_nextRequest = zoom ps_nextRequest (\<lambda>q. ps_nextRequest_update (\<lambda>_. q))"

definition on_nextResponse :: "(ResponseHandler list \<Rightarrow> 'r \<times> ResponseHandler list) \<Rightarrow> 's pstate \<Rightarrow> 'r \<times> 's pstate" where
  "on_nextResponse = zoom ps_nextResponse (\<lambda>q. ps_nextResponse_update (\<lambda>_. q))"

definition on_ext :: "('s \<Rightarrow> 'r \<times> 's) \<Rightarrow> 's pstate \<Rightarrow> 'r \<times> 's pstate" where
  "on_ext = zoom ps_ext (\<lambda>x. ps_ext_update (\<lambda>_. x))"

definition now :: "'s pstate \<Rightarrow> ('e + int) \<times> 's pstate" where
  "now = zoom ps_clock (\<lambda>c. ps_clock_update (\<lambda>_. c)) clock_now"

text \<open>The writing side of one connection with the reading side of the other, for \<open>myCopyN\<close>.\<close>

definition copy_to_broker :: "(duplex \<Rightarrow> 'r \<times> duplex) \<Rightarrow> 's pstate \<Rightarrow> 'r \<times> 's pstate" where
  "copy_to_broker = zoom (\<lambda>\<sigma>. (cn_out (ps_broker \<sigma>), cn_in (ps_client \<sigma>)))
     (\<lambda>(d, s). ps_broker_update (cn_out_update (\<lambda>_. d)) \<circ> ps_client_update (cn_in_update (\<lambda>_. s)))"

definition copy_to_client :: "(duplex \<Rightarrow> 'r \<times> duplex) \<Rightarrow> 's pstate \<Rightarrow> 'r \<times> 's pstate" where
  "copy_to_client = zoom (\<lambda>\<sigma>. (cn_out (ps_client \<sigma>), cn_in (ps_broker \<sigma>)))
     (\<lambda>(d, s). ps_client_update (cn_out_update (\<lambda>_. d)) \<circ> ps_broker_update (cn_in_update (\<lambda>_. s)))"

definition chan_put :: "nat \<Rightarrow> string \<Rightarrow> 'x \<Rightarrow> ('x list, unit) action" where
  "chan_put cap msg x q =
     (if length q < cap then (Inr (), q @ [x]) else (Inl (GoErr (ErrNew msg)), q))"

definition chan_get :: "string \<Rightarrow> ('x list, 'x) action" where
  "chan_get msg q =
     (case q of
        [] \<Rightarrow> (Inl (GoErr (ErrNew msg)), [])
      | x # q' \<Rightarrow> (Inr x, q'))"

subsection \<open>Handlers and channels\<close>

definition putNextRequestHandler :: "'s processor \<Rightarrow> RequestHandler \<Rightarrow> ('s pstate, unit) action" where
  "putNextRequestHandler p h = on_nextRequest
     (chan_put (pr_nextRequestHandlerCap p) ''next request handler channel is full'' h)"

definition putNextHandlers ::
  "'s processor \<Rightarrow> RequestHandler \<Rightarrow> ResponseHandler \<Rightarrow> ('s pstate, unit) action" where
  "putNextHandlers p nextRequestHandler nextResponseHandler =
     abind (on_nextRequest (chan_put (pr_nextRequestHandlerCap p)
         ''next request handler channel is full'' nextRequestHandler)) (\<lambda>_.
       on_nextResponse (chan_put (pr_nextResponseHandlerCap p)
         ''next response handler channel is full'' nextResponseHandler))"

definition getNextRequestHandler :: "('s pstate, RequestHandler) action" where
  "getNextRequestHandler = on_nextRequest (chan_get ''next request handler is missing'')"

definition getNextResponseHandler :: "('s pstate, ResponseHandler) action" where
  "getNextResponseHandler = on_nextResponse (chan_get ''next response handler is missing'')"

definition sendRequestKeyVersion :: "'s processor \<Rightarrow> RequestKeyVersion \<Rightarrow> ('s pstate, unit) action" where
  "sendRequestKeyVersion p request =
     on_open (chan_put (pr_openRequestsCap p) ''open requests buffer is full'' request)"

definition receiveRequestKeyVersion :: "('s pstate, RequestKeyVersion) action" where
  "receiveRequestKeyVersion = on_open (chan_get ''open request is missing'')"

subsection \<open>Re-authentication, the request side\<close>

definition enqueueReauthMarker :: "'s processor \<Rightarrow> RequestKeyVersion \<Rightarrow> ('s pstate, unit) action" where
  "enqueueReauthMarker p rkv =
     abind (on_open (chan_put (pr_openRequestsCap p) ''re-auth: openRequestsChannel full'' rkv)) (\<lambda>_.
       on_nextResponse (chan_put (pr_nextResponseHandlerCap p)
         ''re-auth: nextResponseHandlerChannel full'' DefaultResponseHandler))"

definition handshake_marker :: RequestKeyVersion where
  "handshake_marker = \<lparr>rkv_Length = 0, rkv_ApiKey = apiKeySaslHandshake, rkv_ApiVersion = 1\<rparr>"

definition authenticate_marker :: RequestKeyVersion where
  "authenticate_marker = \<lparr>rkv_Length = 0, rkv_ApiKey = apiKeySaslAuthenticate, rkv_ApiVersion = 1\<rparr>"

definition enqueueReauthResponse :: "'s processor \<Rightarrow> ('s pstate, unit) action" where
  "enqueueReauthResponse p =
     abind (enqueueReauthMarker p handshake_marker) (\<lambda>_. enqueueReauthMarker p authenticate_marker)"

definition runReauth :: "'s processor \<Rightarrow> ('s pstate, unit) action" where
  "runReauth p =
     abind (agets ps_auth) (\<lambda>authState.
     case (authState, pr_saslAuthByProxy p) of
       (Some _, Some saslAuthByProxy) \<Rightarrow>
         abind now (\<lambda>t.
         abind (agets (\<lambda>\<sigma>. NeedsReauth (the (ps_auth \<sigma>)) t)) (\<lambda>needs.
         if \<not> needs then aret ()
         else
           abind (on_ext (sa_buildReauthHandshakeRequest saslAuthByProxy reauthHandshakeCorrelationID))
             (\<lambda>handshakeBytes.
           abind (on_ext (sa_buildReauthRequest saslAuthByProxy reauthCorrelationID)) (\<lambda>reqBytes.
           abind (on_broker (SetWriteDeadline (time_add t (pr_writeTimeout p)))) (\<lambda>_.
           abind (on_broker (conn_Write handshakeBytes)) (\<lambda>_.
           abind (on_broker (conn_Write reqBytes)) (\<lambda>_.
           abind (amod (ps_auth_update (map_option (MarkInFlight t)))) (\<lambda>_.
           enqueueReauthResponse p))))))))
     | _ \<Rightarrow> aret ())"

subsection \<open>\<open>DefaultRequestHandler\<close>\<close>

fun errors_Is :: "goerror \<Rightarrow> goerror \<Rightarrow> bool" where
  "errors_Is (WrapErr msg e) target = (WrapErr msg e = target \<or> errors_Is e target)"
| "errors_Is e target = (e = target)"

definition isReadDeadlineTimeout :: "goerror option \<Rightarrow> bool" where
  "isReadDeadlineTimeout err =
     (case err of None \<Rightarrow> False | Some e \<Rightarrow> errors_Is e OsErrDeadlineExceeded)"

definition mustReply :: "'s processor \<Rightarrow> RequestKeyVersion \<Rightarrow> (source, bool \<times> byte list) action" where
  "mustReply p rkv =
     (if rkv_ApiKey rkv = apiKeyProduce
      then
        if pr_producerAcks0Disabled p then aret (True, [])
        else
          abind (tee (if rkv_ApiVersion rkv \<in> {0, 1, 2}
                      then abind ReadAndDiscardHeaderV1Part (\<lambda>_. ReadAndDiscardProduceAcks)
                      else abind ReadAndDiscardHeaderV1Part (\<lambda>_. ReadAndDiscardProduceTxnAcks)))
            (\<lambda>(acks, bufferRead). aret (acks \<noteq> 0, bufferRead))
      else aret (True, []))"

definition client_read :: "(source \<Rightarrow> 'r \<times> source) \<Rightarrow> 's pstate \<Rightarrow> 'r \<times> 's pstate" where
  "client_read m = on_client (on_in m)"

definition broker_read :: "(source \<Rightarrow> 'r \<times> source) \<Rightarrow> 's pstate \<Rightarrow> 'r \<times> 's pstate" where
  "broker_read m = on_broker (on_in m)"

definition invalid_api_key :: "16 word \<Rightarrow> goerror" where
  "invalid_api_key k = ErrNew (''api key '' @ go_itoa (sint k)
     @ '' is invalid, possible cause: using plain connection instead of TLS'')"

definition forbidden_api_key :: "16 word \<Rightarrow> goerror" where
  "forbidden_api_key k = ErrNew (''api key '' @ go_itoa (sint k) @ '' is forbidden'')"

text \<open>The second half of \<open>handleRequest\<close>: the eight bytes are read, the request is forwarded.\<close>

definition forwardRequest ::
  "'s processor \<Rightarrow> byte list \<Rightarrow> RequestKeyVersion \<Rightarrow> bool \<Rightarrow> byte list \<Rightarrow> ('s, unit) handling" where
  "forwardRequest p keyVersionBuf rkv reply readBytes =
     abind (if reply then flag True (sendRequestKeyVersion p rkv) else aret ()) (\<lambda>_.
     abind now (\<lambda>t.
     abind (flag False (on_broker (SetWriteDeadline (time_add t (pr_writeTimeout p))))) (\<lambda>_.
     abind (flag True (on_client (SetReadDeadline (time_add t (pr_writeTimeout p))))) (\<lambda>_.
     abind (flag False (on_broker (conn_Write keyVersionBuf))) (\<lambda>_.
     abind (if 0 < length readBytes then flag False (on_broker (conn_Write readBytes)) else aret ()) (\<lambda>_.
     abind (copy_to_broker (myCopyN (sint (rkv_Length rkv - of_nat (4 + length readBytes)))
         (pr_requestBufferSize p))) (\<lambda>_.
     if rkv_ApiKey rkv = apiKeySaslHandshake \<and> rkv_ApiVersion rkv = 0
     then flag False (putNextHandlers p SaslAuthV0RequestHandler SaslAuthV0ResponseHandler)
     else if reply
     then flag False (putNextHandlers p DefaultRequestHandler DefaultResponseHandler)
     else flag False (putNextRequestHandler p DefaultRequestHandler))))))))"

text \<open>After the read timed out on an idle connection.\<close>

definition onReadTimeout :: "'s processor \<Rightarrow> ('s, unit) handling" where
  "onReadTimeout p =
     abind (agets ps_auth) (\<lambda>authState.
     abind (case authState of
              None \<Rightarrow> aret ()
            | Some a \<Rightarrow> abind now (\<lambda>t. if NeedsReauth a t then flag False (runReauth p) else aret ())) (\<lambda>_.
     flag False (putNextRequestHandler p DefaultRequestHandler)))"

text \<open>From the eight bytes to the forwarding.\<close>

definition handleKeyVersion :: "'s processor \<Rightarrow> byte list \<Rightarrow> ('s, unit) handling" where
  "handleKeyVersion p keyVersionBuf =
     abind (flag True (alift (Decode (Some keyVersionBuf) RequestKeyVersion_decode
       \<lparr>rkv_Length = 0, rkv_ApiKey = 0, rkv_ApiVersion = 0\<rparr>))) (\<lambda>rkv.
     if sint (rkv_ApiKey rkv) < minRequestApiKey \<or> sint (rkv_ApiKey rkv) > maxRequestApiKey
     then flag True (aerr (invalid_api_key (rkv_ApiKey rkv)))
     else if rkv_ApiKey rkv \<in> set (pr_forbiddenApiKeys p)
     then flag True (aerr (forbidden_api_key (rkv_ApiKey rkv)))
     else
       abind (flag True (client_read (mustReply p rkv))) (\<lambda>r.
       forwardRequest p keyVersionBuf rkv (fst r) (snd r)))"

definition DefaultRequestHandler_handleRequest :: "'s processor \<Rightarrow> ('s, unit) handling" where
  "DefaultRequestHandler_handleRequest p =
     abind (agets (\<lambda>\<sigma>. case ps_auth \<sigma> of None \<Rightarrow> None | Some a \<Rightarrow> NextReadDeadline a)) (\<lambda>readDeadline.
     abind (flag True (on_client (SetReadDeadline readDeadline))) (\<lambda>_.
     abind (flag True (on_broker (SetWriteDeadline None))) (\<lambda>_.
     abind (atry (client_read (read_full 8))) (\<lambda>r.
     case r of
       Inr keyVersionBuf \<Rightarrow> handleKeyVersion p keyVersionBuf
     | Inl (GoErr err) \<Rightarrow>
         if isReadDeadlineTimeout (Some err) then onReadTimeout p
         else alift (Inl (True, GoErr err))
     | Inl (GoPanic msg) \<Rightarrow> alift (Inl (True, GoPanic msg))))))"

subsection \<open>SASL authentication of version 0\<close>

text \<open>
  After a \<open>SaslHandshake\<close> of version 0 the client and the broker exchange raw SASL messages,
  which have a length but no header.
\<close>

definition copySaslAuthRequest :: "'s processor \<Rightarrow> ('s, unit) handling" where
  "copySaslAuthRequest p =
     abind now (\<lambda>t.
     abind (flag False (on_broker (SetWriteDeadline (time_add t (pr_writeTimeout p))))) (\<lambda>_.
     abind (flag True (on_client (SetReadDeadline (time_add t (pr_writeTimeout p))))) (\<lambda>_.
     abind (flag True (client_read (read_full 4))) (\<lambda>sizeBuf.
     if sint (get_be32 sizeBuf) > MaxRequestSize
     then flag True (aerr (PacketDecodingError (''auth message of length '' @
            go_itoa (int (unat (get_be32 sizeBuf))) @ '' too large'')))
     else
       abind (flag False (on_broker (conn_Write sizeBuf))) (\<lambda>_.
         copy_to_broker (myCopyN (int (unat (get_be32 sizeBuf))) (pr_requestBufferSize p)))))))"

definition SaslAuthV0RequestHandler_handleRequest :: "'s processor \<Rightarrow> ('s, unit) handling" where
  "SaslAuthV0RequestHandler_handleRequest p =
     abind (copySaslAuthRequest p) (\<lambda>_.
       flag False (putNextHandlers p DefaultRequestHandler DefaultResponseHandler))"

definition copySaslAuthResponse :: "'s processor \<Rightarrow> ('s, unit) handling" where
  "copySaslAuthResponse p =
     abind now (\<lambda>t.
     abind (flag False (on_client (SetWriteDeadline (time_add t (pr_readTimeout p))))) (\<lambda>_.
     abind (flag True (on_broker (SetReadDeadline (time_add t (pr_readTimeout p))))) (\<lambda>_.
     abind (flag True (broker_read (read_full 4))) (\<lambda>header.
     flag False (on_client (conn_Write header))))))"

definition SaslAuthV0ResponseHandler_handleResponse :: "'s processor \<Rightarrow> ('s, unit) handling" where
  "SaslAuthV0ResponseHandler_handleResponse p = copySaslAuthResponse p"

subsection \<open>Re-authentication, the response side\<close>

definition isProxyReauthHandshakeResponse :: "RequestKeyVersion \<Rightarrow> ResponseHeader \<Rightarrow> bool" where
  "isProxyReauthHandshakeResponse rkv h \<longleftrightarrow>
     rkv_ApiKey rkv = apiKeySaslHandshake \<and> rh_CorrelationID h = reauthHandshakeCorrelationID"

definition isProxyReauthResponse :: "RequestKeyVersion \<Rightarrow> ResponseHeader \<Rightarrow> bool" where
  "isProxyReauthResponse rkv h \<longleftrightarrow>
     isProxyReauthHandshakeResponse rkv h
     \<or> (rkv_ApiKey rkv = apiKeySaslAuthenticate \<and> rh_CorrelationID h = reauthCorrelationID)"

fun join_comma :: "string list \<Rightarrow> string" where
  "join_comma [] = []"
| "join_comma [w] = w"
| "join_comma (w # ws) = w @ '','' @ join_comma ws"

definition completeReauthHandshake :: "byte list \<Rightarrow> ('s, unit) handling" where
  "completeReauthHandshake payload =
     abind (flag True (alift (Decode (Some payload) SaslHandshakeResponseV0orV1_decode
         \<lparr>shr_Err = 0, shr_EnabledMechanisms = None\<rparr>))) (\<lambda>res.
     if shr_Err res \<noteq> 0
     then flag False (aerr (ErrNew (''re-auth: broker rejected the handshake: '' @ KError_Error (shr_Err res)
            @ '' (broker offers '' @ join_comma (nil_slice (shr_EnabledMechanisms res)) @ '')'')))
     else aret ())"

definition consumeReauthResponse :: "'s processor \<Rightarrow> ResponseHeader \<Rightarrow> ('s, unit) handling" where
  "consumeReauthResponse p h =
     abind now (\<lambda>t.
     abind (flag True (on_broker (SetReadDeadline (time_add t (pr_readTimeout p))))) (\<lambda>_.
     if sint (rh_Length h) < 4 then flag True (aerr (ErrNew ''re-auth: response too short''))
     else
       abind (flag True (broker_read (read_full (nat (sint (rh_Length h - 4)))))) (\<lambda>payload.
       if rh_CorrelationID h = reauthHandshakeCorrelationID then completeReauthHandshake payload
       else
         abind (flag True (alift (Decode (Some payload) SaslAuthenticateResponseV1_decode
           \<lparr>sr1_Err = 0, sr1_ErrMsg = None, sr1_SaslAuthBytes = None, sr1_SessionLifetimeMs = 0\<rparr>)))
           (\<lambda>res.
         if sr1_Err res \<noteq> 0
         then flag False (aerr (ErrNew (''re-auth: broker rejected refreshed credentials: ''
                @ KError_Error (sr1_Err res) @ '' ('' @
                (case sr1_ErrMsg res of None \<Rightarrow> [] | Some m \<Rightarrow> m) @ '')'')))
         else
           abind now (\<lambda>t2. amod (ps_auth_update (map_option
             (CompleteReauth (sr1_SessionLifetimeMs res) t2))))))))"

subsection \<open>\<open>DefaultResponseHandler\<close>\<close>

definition MaxResponseSize :: int where
  "MaxResponseSize = 100 * 1024 * 1024"

definition response_too_large :: "32 word \<Rightarrow> goerror" where
  "response_too_large n = PacketDecodingError (''message of length '' @ go_itoa (sint n) @ '' too large'')"

text \<open>\<open>make([]byte, n)\<close> with a negative \<open>n\<close> panics.\<close>

definition rewriteResponse ::
  "'s processor \<Rightarrow> ResponseHeader \<Rightarrow> byte list \<Rightarrow> 's responseModifier \<Rightarrow> ('s, unit) handling" where
  "rewriteResponse p h unknownTaggedFields m =
     (let readResponsesHeaderLength = of_nat (4 + length unknownTaggedFields);
          size = sint (rh_Length h - readResponsesHeaderLength) in
      if sint (rh_Length h) > MaxResponseSize then flag True (aerr (response_too_large (rh_Length h)))
      else if size < 0 then alift (Inl (True, GoPanic ''makeslice: len out of range''))
      else
        abind (flag True (broker_read (read_full (nat size)))) (\<lambda>resp.
        abind (flag True (on_ext (responseModifier_Apply m (Some resp)))) (\<lambda>newResponseBuf.
        abind (flag True (alift (Encode (Some (ResponseHeader_encode
            \<lparr>rh_Length = of_int (int (length (nil_slice newResponseBuf)) + sint readResponsesHeaderLength),
             rh_CorrelationID = rh_CorrelationID h\<rparr>))))) (\<lambda>newHeaderBuf.
        abind (flag False (on_client (conn_Write (nil_slice newHeaderBuf)))) (\<lambda>_.
        abind (flag False (on_client (conn_Write unknownTaggedFields))) (\<lambda>_.
        flag False (on_client (conn_Write (nil_slice newResponseBuf)))))))))"

definition copyResponse ::
  "'s processor \<Rightarrow> byte list \<Rightarrow> ResponseHeader \<Rightarrow> byte list \<Rightarrow> ('s, unit) handling" where
  "copyResponse p responseHeaderBuf h unknownTaggedFields =
     abind (flag False (on_client (conn_Write responseHeaderBuf))) (\<lambda>_.
     abind (flag False (on_client (conn_Write unknownTaggedFields))) (\<lambda>_.
     copy_to_client (myCopyN (sint (rh_Length h - of_nat (4 + length unknownTaggedFields)))
       (pr_responseBufferSize p))))"

definition forwardResponse ::
  "'s processor \<Rightarrow> byte list \<Rightarrow> RequestKeyVersion \<Rightarrow> ResponseHeader \<Rightarrow> ('s, unit) handling" where
  "forwardResponse p responseHeaderBuf rkv h =
     abind now (\<lambda>t.
     abind (flag False (on_client (SetWriteDeadline (time_add t (pr_readTimeout p))))) (\<lambda>_.
     abind (flag True (on_broker (SetReadDeadline (time_add t (pr_readTimeout p))))) (\<lambda>_.
     abind (flag True (alift (NewResponseHeaderTaggedFields rkv))) (\<lambda>responseHeaderTaggedFields.
     abind (flag True (broker_read (MaybeRead responseHeaderTaggedFields))) (\<lambda>unknownTaggedFields.
     abind (flag True (alift (GetResponseModifier (rkv_ApiKey rkv) (rkv_ApiVersion rkv)
         (pr_netAddressMappingFunc p)))) (\<lambda>responseModifier.
     case responseModifier of
       Some m \<Rightarrow> rewriteResponse p h unknownTaggedFields m
     | None \<Rightarrow> copyResponse p responseHeaderBuf h unknownTaggedFields))))))"

definition DefaultResponseHandler_handleResponse :: "'s processor \<Rightarrow> ('s, unit) handling" where
  "DefaultResponseHandler_handleResponse p =
     abind (flag True (on_broker (SetReadDeadline None))) (\<lambda>_.
     abind (flag True (on_client (SetWriteDeadline None))) (\<lambda>_.
     abind (flag True (broker_read (read_full 8))) (\<lambda>responseHeaderBuf.
     abind (flag True (alift (Decode (Some responseHeaderBuf) ResponseHeader_decode
         \<lparr>rh_Length = 0, rh_CorrelationID = 0\<rparr>))) (\<lambda>h.
     abind (flag True receiveRequestKeyVersion) (\<lambda>rkv.
     if isProxyReauthResponse rkv h then consumeReauthResponse p h
     else forwardResponse p responseHeaderBuf rkv h)))))"

subsection \<open>The loops\<close>

fun handleRequest :: "'s processor \<Rightarrow> RequestHandler \<Rightarrow> ('s, unit) handling" where
  "handleRequest p DefaultRequestHandler = DefaultRequestHandler_handleRequest p"
| "handleRequest p SaslAuthV0RequestHandler = SaslAuthV0RequestHandler_handleRequest p"

fun handleResponse :: "'s processor \<Rightarrow> ResponseHandler \<Rightarrow> ('s, unit) handling" where
  "handleResponse p DefaultResponseHandler = DefaultResponseHandler_handleResponse p"
| "handleResponse p SaslAuthV0ResponseHandler = SaslAuthV0ResponseHandler_handleResponse p"

definition wedged :: goerror where
  "wedged = ErrNew (''re-auth response did not arrive within cushion window '' @
     map char_of [0xE2 :: nat, 0x80, 0x94] @ '' connection wedged'')"

text \<open>
  A turn of \<open>requestsLoop\<close> returns whether the loop goes on: without a handler it returns
  \<open>(false, nil)\<close>.
\<close>

definition requestsLoop_turn :: "'s processor \<Rightarrow> ('s, bool) handling" where
  "requestsLoop_turn p =
     abind (agets ps_auth) (\<lambda>authState.
     abind (case authState of
              None \<Rightarrow> aret False
            | Some a \<Rightarrow> abind now (\<lambda>t. aret (InFlightExpired a t))) (\<lambda>expired.
     if expired then flag False (aerr wedged)
     else
       abind (atry getNextRequestHandler) (\<lambda>h.
       case h of
         Inl _ \<Rightarrow> aret False
       | Inr nextRequestHandler \<Rightarrow>
           abind (handleRequest p nextRequestHandler) (\<lambda>_. aret True))))"

definition responsesLoop_turn :: "'s processor \<Rightarrow> ('s, unit) handling" where
  "responsesLoop_turn p =
     abind (flag False getNextResponseHandler) (\<lambda>nextResponseHandler.
       handleResponse p nextResponseHandler)"

text \<open>\<open>RequestsLoop\<close> first clears the deadlines of the client.\<close>

definition RequestsLoop_start :: "('s, unit) handling" where
  "RequestsLoop_start = flag False (on_client (SetDeadline None))"

end
