(* ===== verification/ProcessorFacts.thy ===== *)
theory ProcessorFacts
  imports Processor
begin

section \<open>What the processor's steps do to the traffic\<close>

text \<open>
  The \<open>traffic\<close> of a state: the bytes taken from and written to either side and the contents of
  the channels.  Each primitive step has one rule for its effect on it; the steps that have
  none are \<open>quiet\<close>.
\<close>

record traffic =
  t_client_got :: "byte list"
  t_broker_sent :: "byte list"
  t_broker_got :: "byte list"
  t_client_sent :: "byte list"
  t_open :: "RequestKeyVersion list"
  t_nextRequest :: "RequestHandler list"
  t_nextResponse :: "ResponseHandler list"

definition traffic :: "'s pstate \<Rightarrow> traffic" where
  "traffic \<sigma> = \<lparr>t_client_got = src_consumed (cn_in (ps_client \<sigma>)),
     t_broker_sent = snk_out (cn_out (ps_broker \<sigma>)),
     t_broker_got = src_consumed (cn_in (ps_broker \<sigma>)),
     t_client_sent = snk_out (cn_out (ps_client \<sigma>)),
     t_open = ps_openRequests \<sigma>, t_nextRequest = ps_nextRequest \<sigma>,
     t_nextResponse = ps_nextResponse \<sigma>\<rparr>"

lemmas zooms = on_client_def on_broker_def on_in_def on_out_def on_ext_def on_open_def
  on_nextRequest_def on_nextResponse_def client_read_def broker_read_def copy_to_broker_def
  copy_to_client_def now_def

lemma traffic_sel:
  "t_client_got (traffic \<sigma>) = src_consumed (cn_in (ps_client \<sigma>))"
  "t_broker_sent (traffic \<sigma>) = snk_out (cn_out (ps_broker \<sigma>))"
  "t_broker_got (traffic \<sigma>) = src_consumed (cn_in (ps_broker \<sigma>))"
  "t_client_sent (traffic \<sigma>) = snk_out (cn_out (ps_client \<sigma>))"
  "t_open (traffic \<sigma>) = ps_openRequests \<sigma>"
  "t_nextRequest (traffic \<sigma>) = ps_nextRequest \<sigma>"
  "t_nextResponse (traffic \<sigma>) = ps_nextResponse \<sigma>"
  by (simp_all add: traffic_def)

subsection \<open>Quiet steps\<close>

text \<open>\<open>keeps f m\<close>: \<open>m\<close> leaves \<open>f\<close> of the state alone, whatever its result.\<close>

definition keeps :: "('s \<Rightarrow> 'v) \<Rightarrow> ('s \<Rightarrow> 'r \<times> 's) \<Rightarrow> bool" where
  "keeps f m \<longleftrightarrow> (\<forall>\<sigma>. f (snd (m \<sigma>)) = f \<sigma>)"

named_theorems keeps_intros "steps that leave a part of the state alone"

lemma keepsD: "keeps f m \<Longrightarrow> m \<sigma> = (r, \<sigma>') \<Longrightarrow> f \<sigma>' = f \<sigma>"
  unfolding keeps_def by (metis snd_conv)

lemma keepsI: "(\<And>\<sigma> r \<sigma>'. m \<sigma> = (r, \<sigma>') \<Longrightarrow> f \<sigma>' = f \<sigma>) \<Longrightarrow> keeps f m"
  unfolding keeps_def by (metis surj_pair snd_conv)

lemma keeps_basic [keeps_intros]:
  "keeps f (aret a)" "keeps f (aerr e)" "keeps f (alift q)" "keeps f (agets g)"
  by (simp_all add: keeps_def aret_def aerr_def alift_def agets_def)

lemma keeps_amod: "(\<And>\<sigma>. f (g \<sigma>) = f \<sigma>) \<Longrightarrow> keeps f (amod g)"
  by (simp add: keeps_def amod_def)

lemma keeps_abind [keeps_intros]:
  assumes "keeps f m" "\<And>a. keeps f (g a)"
  shows "keeps f (abind m g)"
proof (rule keepsI)
  fix \<sigma> r \<sigma>'
  assume e: "abind m g \<sigma> = (r, \<sigma>')"
  obtain q \<tau> where q: "m \<sigma> = (q, \<tau>)" by force
  show "f \<sigma>' = f \<sigma>"
  proof (cases q)
    case (Inr a)
    with e q have "g a \<tau> = (r, \<sigma>')" by (simp add: abind_def)
    with keepsD [OF assms(1) q] keepsD [OF assms(2)] show ?thesis by metis
  qed (use e q keepsD [OF assms(1) q] in \<open>simp add: abind_def\<close>)
qed

lemma keeps_flag [keeps_intros]: "keeps f m \<Longrightarrow> keeps f (flag b m)"
  by (auto simp: keeps_def flag_def split: prod.splits sum.splits) (metis snd_conv)+

lemma keeps_atry [keeps_intros]: "keeps f m \<Longrightarrow> keeps f (atry m)"
  by (auto simp: keeps_def atry_def split: prod.splits) (metis snd_conv)

lemma keeps_awrap [keeps_intros]: "keeps f m \<Longrightarrow> keeps f (awrap msg m)"
  by (auto simp: keeps_def awrap_def split: prod.splits sum.splits gofail.splits) (metis snd_conv)+

lemma keeps_if [keeps_intros]:
  "(b \<Longrightarrow> keeps f m) \<Longrightarrow> (\<not> b \<Longrightarrow> keeps f n) \<Longrightarrow> keeps f (if b then m else n)"
  by simp

lemma keeps_zoom: "(\<And>i \<sigma>. f (put i \<sigma>) = f \<sigma>) \<Longrightarrow> keeps f (zoom get put m)"
  by (simp add: keeps_def zoom_def split: prod.splits)

lemma conn_deadline_traffic:
  assumes "m \<in> {SetReadDeadline t, SetWriteDeadline t, SetDeadline t}" "m c = (r, c')"
  shows "cn_in c' = cn_in c \<and> cn_out c' = cn_out c"
  using assms
  by (auto simp: SetReadDeadline_def SetWriteDeadline_def SetDeadline_def abind_def deadline_call_def
      amod_def split: list.splits option.splits)

lemma quiet_deadlines [keeps_intros]:
  "keeps traffic (on_client (SetReadDeadline t))" "keeps traffic (on_client (SetWriteDeadline t))"
  "keeps traffic (on_client (SetDeadline t))"
  "keeps traffic (on_broker (SetReadDeadline t))" "keeps traffic (on_broker (SetWriteDeadline t))"
  by (rule keepsI; auto simp: on_client_def on_broker_def zoom_Inr_conv traffic_def
      dest!: conn_deadline_traffic [rotated, where t = t])+

lemma quiet_now [keeps_intros]: "keeps traffic now"
  unfolding now_def by (rule keeps_zoom) (simp add: traffic_def)

lemma quiet_ext [keeps_intros]: "keeps traffic (on_ext m)"
  unfolding on_ext_def by (rule keeps_zoom) (simp add: traffic_def)

subsection \<open>Writing, reading and the channels\<close>

lemma broker_write:
  assumes "on_broker (conn_Write bs) \<sigma> = (r, \<sigma>')"
  obtains n where "traffic \<sigma>' = (traffic \<sigma>)\<lparr>t_broker_sent := t_broker_sent (traffic \<sigma>) @ take n bs\<rparr>"
    "\<And>u. r = Inr u \<Longrightarrow> take n bs = bs"
proof -
  obtain d' where w: "write_all bs (cn_out (ps_broker \<sigma>)) = (r, d')"
    and s: "\<sigma>' = \<sigma>\<lparr>ps_broker := (ps_broker \<sigma>)\<lparr>cn_out := d'\<rparr>\<rparr>"
    using assms by (auto simp: on_broker_def conn_Write_def on_out_def zoom_Inr_conv)
  from write_all_out [OF w] that s show thesis by (auto simp: traffic_def)
qed

lemma client_write:
  assumes "on_client (conn_Write bs) \<sigma> = (r, \<sigma>')"
  obtains n where "traffic \<sigma>' = (traffic \<sigma>)\<lparr>t_client_sent := t_client_sent (traffic \<sigma>) @ take n bs\<rparr>"
    "\<And>u. r = Inr u \<Longrightarrow> take n bs = bs"
proof -
  obtain d' where w: "write_all bs (cn_out (ps_client \<sigma>)) = (r, d')"
    and s: "\<sigma>' = \<sigma>\<lparr>ps_client := (ps_client \<sigma>)\<lparr>cn_out := d'\<rparr>\<rparr>"
    using assms by (auto simp: on_client_def conn_Write_def on_out_def zoom_Inr_conv)
  from write_all_out [OF w] that s show thesis by (auto simp: traffic_def)
qed

lemma client_read_run:
  assumes "client_read m \<sigma> = (r, \<sigma>')"
  obtains s where "m (cn_in (ps_client \<sigma>)) = (r, s)"
    "traffic \<sigma>' = (traffic \<sigma>)\<lparr>t_client_got := src_consumed s\<rparr>" "cn_in (ps_client \<sigma>') = s"
  using assms that by (auto simp: zooms zoom_Inr_conv traffic_def)

lemma broker_read_run:
  assumes "broker_read m \<sigma> = (r, \<sigma>')"
  obtains s where "m (cn_in (ps_broker \<sigma>)) = (r, s)"
    "traffic \<sigma>' = (traffic \<sigma>)\<lparr>t_broker_got := src_consumed s\<rparr>" "cn_in (ps_broker \<sigma>') = s"
  using assms that by (auto simp: zooms zoom_Inr_conv traffic_def)

lemma copy_to_broker_traffic:
  assumes "copy_to_broker (myCopyN sz b) \<sigma> = (r, \<sigma>')"
  obtains bs n where "traffic \<sigma>' = (traffic \<sigma>)
      \<lparr>t_client_got := t_client_got (traffic \<sigma>) @ bs,
       t_broker_sent := t_broker_sent (traffic \<sigma>) @ take n bs\<rparr>"
    "\<And>u. r = Inr u \<Longrightarrow> int (length bs) = sz \<and> take n bs = bs"
proof -
  obtain d s where m: "myCopyN sz b (cn_out (ps_broker \<sigma>), cn_in (ps_client \<sigma>)) = (r, (d, s))"
    and \<sigma>': "traffic \<sigma>' = (traffic \<sigma>)\<lparr>t_client_got := src_consumed s, t_broker_sent := snk_out d\<rparr>"
    using assms by (auto simp: copy_to_broker_def zoom_Inr_conv traffic_def)
  show thesis by (rule myCopyN_consumed [OF m]) (rule that, auto simp: \<sigma>' traffic_sel)
qed

lemma copy_to_client_traffic:
  assumes "copy_to_client (myCopyN sz b) \<sigma> = (r, \<sigma>')"
  obtains bs n where "traffic \<sigma>' = (traffic \<sigma>)
      \<lparr>t_broker_got := t_broker_got (traffic \<sigma>) @ bs,
       t_client_sent := t_client_sent (traffic \<sigma>) @ take n bs\<rparr>"
    "\<And>u. r = Inr u \<Longrightarrow> int (length bs) = sz \<and> take n bs = bs"
proof -
  obtain d s where m: "myCopyN sz b (cn_out (ps_client \<sigma>), cn_in (ps_broker \<sigma>)) = (r, (d, s))"
    and \<sigma>': "traffic \<sigma>' = (traffic \<sigma>)\<lparr>t_broker_got := src_consumed s, t_client_sent := snk_out d\<rparr>"
    using assms by (auto simp: copy_to_client_def zoom_Inr_conv traffic_def)
  show thesis by (rule myCopyN_consumed [OF m]) (rule that, auto simp: \<sigma>' traffic_sel)
qed

subsection \<open>Weakest preconditions\<close>

text \<open>
  \<open>wp m Q E\<close> holds of the states from which \<open>m\<close> returns into \<open>Q\<close> or fails into \<open>E\<close>.  The rules
  for the combinators are equations, those for the steps introduce the traffic of the state
  after the step.
\<close>

definition wp ::
  "('s \<Rightarrow> ('e + 'a) \<times> 's) \<Rightarrow> ('a \<Rightarrow> 's \<Rightarrow> bool) \<Rightarrow> ('e \<Rightarrow> 's \<Rightarrow> bool) \<Rightarrow> 's \<Rightarrow> bool" where
  "wp m Q E \<sigma> = (case m \<sigma> of (Inl e, \<sigma>') \<Rightarrow> E e \<sigma>' | (Inr a, \<sigma>') \<Rightarrow> Q a \<sigma>')"

lemma wp_InrD: "wp m Q E \<sigma> \<Longrightarrow> m \<sigma> = (Inr a, \<sigma>') \<Longrightarrow> Q a \<sigma>'"
  by (simp add: wp_def)

lemma wp_InlD: "wp m Q E \<sigma> \<Longrightarrow> m \<sigma> = (Inl e, \<sigma>') \<Longrightarrow> E e \<sigma>'"
  by (simp add: wp_def)

lemma wpI:
  assumes "\<And>a \<sigma>'. m \<sigma> = (Inr a, \<sigma>') \<Longrightarrow> Q a \<sigma>'" "\<And>e \<sigma>'. m \<sigma> = (Inl e, \<sigma>') \<Longrightarrow> E e \<sigma>'"
  shows "wp m Q E \<sigma>"
  using assms by (auto simp: wp_def split: prod.splits sum.splits)

named_theorems wp_simps "weakest preconditions of the combinators"
named_theorems wp_intros "weakest preconditions of the steps"

lemma wp_combinators [wp_simps]:
  "wp (aret a) Q1 E1 \<sigma> = Q1 a \<sigma>"
  "wp (aerr x) Q2 E2 \<sigma> = E2 (GoErr x) \<sigma>"
  "wp (alift (Inr b)) Q3 E3 \<sigma> = Q3 b \<sigma>"
  "wp (alift (Inl e)) Q4 E4 \<sigma> = E4 e \<sigma>"
  "wp (agets g) Q5 E5 \<sigma> = Q5 (g \<sigma>) \<sigma>"
  "wp (amod h) Q6 E6 \<sigma> = Q6 () (h \<sigma>)"
  "wp (flag c n) Q7 E7 \<sigma> = wp n Q7 (\<lambda>e. E7 (c, e)) \<sigma>"
  "wp (atry k) Q8 E8 \<sigma> = wp k (\<lambda>a. Q8 (Inr a)) (\<lambda>e. Q8 (Inl e)) \<sigma>"
  "wp (abind m f) Q9 E9 \<sigma> = wp m (\<lambda>a. wp (f a) Q9 E9) E9 \<sigma>"
  by (simp_all add: wp_def aret_def aerr_def alift_def agets_def amod_def flag_def atry_def abind_def
      split: prod.splits sum.splits)

lemmas wp_combinator_rules [wp_intros] = wp_combinators [THEN iffD2]

lemma wp_if [wp_intros]:
  "(b \<Longrightarrow> wp m Q E \<sigma>) \<Longrightarrow> (\<not> b \<Longrightarrow> wp n Q E \<sigma>) \<Longrightarrow> wp (if b then m else n) Q E \<sigma>"
  by simp

lemma wp_alift [wp_intros]:
  "(\<And>a. r = Inr a \<Longrightarrow> Q a \<sigma>) \<Longrightarrow> (\<And>e. r = Inl e \<Longrightarrow> E e \<sigma>) \<Longrightarrow> wp (alift r) Q E \<sigma>"
  by (cases r) (auto simp: wp_simps)

lemma wp_quiet:
  assumes "keeps traffic m"
    and "\<And>a \<sigma>'. traffic \<sigma>' = traffic \<sigma> \<Longrightarrow> Q a \<sigma>'" "\<And>e \<sigma>'. traffic \<sigma>' = traffic \<sigma> \<Longrightarrow> E e \<sigma>'"
  shows "wp m Q E \<sigma>"
  using assms by (intro wpI) (auto dest: keepsD)

lemmas wp_quiets [wp_intros] = quiet_deadlines [THEN wp_quiet] quiet_now [THEN wp_quiet]

lemma traffic_auth [simp]: "traffic (ps_auth_update f \<sigma>) = traffic \<sigma>"
  by (simp add: traffic_def)

text \<open>\<open>returns m a\<close>: from some state \<open>m\<close> returns \<open>a\<close>.\<close>

definition returns :: "('s \<Rightarrow> ('e + 'a) \<times> 's) \<Rightarrow> 'a \<Rightarrow> bool" where
  "returns m a \<longleftrightarrow> (\<exists>x x'. m x = (Inr a, x'))"

lemma wp_ext [wp_intros]:
  assumes "\<And>a \<sigma>'. returns m a \<Longrightarrow> traffic \<sigma>' = traffic \<sigma> \<Longrightarrow> Q a \<sigma>'"
    and "\<And>e \<sigma>'. traffic \<sigma>' = traffic \<sigma> \<Longrightarrow> E e \<sigma>'"
  shows "wp (on_ext m) Q E \<sigma>"
proof (rule wpI)
  fix a \<sigma>'
  assume m: "on_ext m \<sigma> = (Inr a, \<sigma>')"
  then have "returns m a" by (auto simp: on_ext_def zoom_Inr_conv returns_def)
  with assms(1) keepsD [OF quiet_ext m] show "Q a \<sigma>'" by blast
next
  fix e \<sigma>'
  assume m: "on_ext m \<sigma> = (Inl e, \<sigma>')"
  from keepsD [OF quiet_ext m] show "E e \<sigma>'" by (rule assms(2))
qed

lemma wp_broker_write [wp_intros]:
  assumes "\<And>\<sigma>'. traffic \<sigma>' = (traffic \<sigma>)\<lparr>t_broker_sent := t_broker_sent (traffic \<sigma>) @ bs\<rparr> \<Longrightarrow> Q () \<sigma>'"
    and "\<And>n e \<sigma>'. traffic \<sigma>' = (traffic \<sigma>)\<lparr>t_broker_sent := t_broker_sent (traffic \<sigma>) @ take n bs\<rparr> \<Longrightarrow> E e \<sigma>'"
  shows "wp (on_broker (conn_Write bs)) Q E \<sigma>"
  by (rule wpI; erule broker_write) (use assms in auto)

lemma wp_client_write [wp_intros]:
  assumes "\<And>\<sigma>'. traffic \<sigma>' = (traffic \<sigma>)\<lparr>t_client_sent := t_client_sent (traffic \<sigma>) @ bs\<rparr> \<Longrightarrow> Q () \<sigma>'"
    and "\<And>n e \<sigma>'. traffic \<sigma>' = (traffic \<sigma>)\<lparr>t_client_sent := t_client_sent (traffic \<sigma>) @ take n bs\<rparr> \<Longrightarrow> E e \<sigma>'"
  shows "wp (on_client (conn_Write bs)) Q E \<sigma>"
  by (rule wpI; erule client_write) (use assms in auto)

text \<open>Reads: \<open>R a bs\<close> is what is known of a result and the bytes it took.\<close>

definition takes :: "(source \<Rightarrow> ('e + 'a) \<times> source) \<Rightarrow> ('a \<Rightarrow> byte list \<Rightarrow> bool) \<Rightarrow> bool" where
  "takes m R \<longleftrightarrow> grows m \<and>
     (\<forall>s a s'. m s = (Inr a, s') \<longrightarrow> (\<exists>bs. src_consumed s' = src_consumed s @ bs \<and> R a bs))"

lemma takesD:
  "takes m R \<Longrightarrow> m s = (Inr a, s') \<Longrightarrow> \<exists>bs. src_consumed s' = src_consumed s @ bs \<and> R a bs"
  "takes m R \<Longrightarrow> m s = (r, s') \<Longrightarrow> \<exists>bs. src_consumed s' = src_consumed s @ bs"
  by (auto simp: takes_def dest: growsD)

lemma wp_client_read:
  assumes m: "takes m R"
    and "\<And>a bs \<sigma>'. R a bs \<Longrightarrow> m (cn_in (ps_client \<sigma>)) = (Inr a, cn_in (ps_client \<sigma>')) \<Longrightarrow>
      traffic \<sigma>' = (traffic \<sigma>)\<lparr>t_client_got := t_client_got (traffic \<sigma>) @ bs\<rparr> \<Longrightarrow> Q a \<sigma>'"
    and "\<And>e bs \<sigma>'. m (cn_in (ps_client \<sigma>)) = (Inl e, cn_in (ps_client \<sigma>')) \<Longrightarrow>
      traffic \<sigma>' = (traffic \<sigma>)\<lparr>t_client_got := t_client_got (traffic \<sigma>) @ bs\<rparr> \<Longrightarrow> E e \<sigma>'"
  shows "wp (client_read m) Q E \<sigma>"
proof (rule wpI)
  fix a \<sigma>' assume r: "client_read m \<sigma> = (Inr a, \<sigma>')"
  then show "Q a \<sigma>'"
  proof (rule client_read_run)
    fix s assume s: "m (cn_in (ps_client \<sigma>)) = (Inr a, s)"
      "traffic \<sigma>' = (traffic \<sigma>)\<lparr>t_client_got := src_consumed s\<rparr>" "cn_in (ps_client \<sigma>') = s"
    with takesD(1) [OF m s(1)] obtain bs where "src_consumed s = t_client_got (traffic \<sigma>) @ bs" "R a bs"
      by (auto simp: traffic_sel)
    with s assms(2) show "Q a \<sigma>'" by simp
  qed
next
  fix e \<sigma>' assume r: "client_read m \<sigma> = (Inl e, \<sigma>')"
  then show "E e \<sigma>'"
  proof (rule client_read_run)
    fix s assume s: "m (cn_in (ps_client \<sigma>)) = (Inl e, s)"
      "traffic \<sigma>' = (traffic \<sigma>)\<lparr>t_client_got := src_consumed s\<rparr>" "cn_in (ps_client \<sigma>') = s"
    with takesD(2) [OF m s(1)] obtain bs where "src_consumed s = t_client_got (traffic \<sigma>) @ bs"
      by (auto simp: traffic_sel)
    with s assms(3) show "E e \<sigma>'" by simp
  qed
qed

lemma wp_broker_read:
  assumes m: "takes m R"
    and "\<And>a bs \<sigma>'. R a bs \<Longrightarrow> m (cn_in (ps_broker \<sigma>)) = (Inr a, cn_in (ps_broker \<sigma>')) \<Longrightarrow>
      traffic \<sigma>' = (traffic \<sigma>)\<lparr>t_broker_got := t_broker_got (traffic \<sigma>) @ bs\<rparr> \<Longrightarrow> Q a \<sigma>'"
    and "\<And>e bs \<sigma>'. m (cn_in (ps_broker \<sigma>)) = (Inl e, cn_in (ps_broker \<sigma>')) \<Longrightarrow>
      traffic \<sigma>' = (traffic \<sigma>)\<lparr>t_broker_got := t_broker_got (traffic \<sigma>) @ bs\<rparr> \<Longrightarrow> E e \<sigma>'"
  shows "wp (broker_read m) Q E \<sigma>"
proof (rule wpI)
  fix a \<sigma>' assume r: "broker_read m \<sigma> = (Inr a, \<sigma>')"
  then show "Q a \<sigma>'"
  proof (rule broker_read_run)
    fix s assume s: "m (cn_in (ps_broker \<sigma>)) = (Inr a, s)"
      "traffic \<sigma>' = (traffic \<sigma>)\<lparr>t_broker_got := src_consumed s\<rparr>" "cn_in (ps_broker \<sigma>') = s"
    with takesD(1) [OF m s(1)] obtain bs where "src_consumed s = t_broker_got (traffic \<sigma>) @ bs" "R a bs"
      by (auto simp: traffic_sel)
    with s assms(2) show "Q a \<sigma>'" by simp
  qed
next
  fix e \<sigma>' assume r: "broker_read m \<sigma> = (Inl e, \<sigma>')"
  then show "E e \<sigma>'"
  proof (rule broker_read_run)
    fix s assume s: "m (cn_in (ps_broker \<sigma>)) = (Inl e, s)"
      "traffic \<sigma>' = (traffic \<sigma>)\<lparr>t_broker_got := src_consumed s\<rparr>" "cn_in (ps_broker \<sigma>') = s"
    with takesD(2) [OF m s(1)] obtain bs where "src_consumed s = t_broker_got (traffic \<sigma>) @ bs"
      by (auto simp: traffic_sel)
    with s assms(3) show "E e \<sigma>'" by simp
  qed
qed

lemma takes_read_full: "takes (read_full n) (\<lambda>a bs. a = bs \<and> length bs = n)"
  by (auto simp: takes_def grows_intros dest: read_full_consumed read_full_Inr_length)

lemma takes_MaybeRead: "takes (MaybeRead r) (\<lambda>a bs. a = bs)"
  by (auto simp: takes_def grows_intros dest: MaybeRead_consumed)

text \<open>A failed \<open>ReadFull\<close> took fewer bytes than it was asked for.\<close>

lemma wp_client_read_full:
  assumes "\<And>bs \<sigma>'. length bs = n \<Longrightarrow>
      traffic \<sigma>' = (traffic \<sigma>)\<lparr>t_client_got := t_client_got (traffic \<sigma>) @ bs\<rparr> \<Longrightarrow> Q bs \<sigma>'"
    and "\<And>e bs \<sigma>'. length bs < n \<Longrightarrow>
      traffic \<sigma>' = (traffic \<sigma>)\<lparr>t_client_got := t_client_got (traffic \<sigma>) @ bs\<rparr> \<Longrightarrow> E e \<sigma>'"
  shows "wp (client_read (read_full n)) Q E \<sigma>"
proof (rule wpI)
  fix a \<sigma>'
  assume "client_read (read_full n) \<sigma> = (Inr a, \<sigma>')"
  then show "Q a \<sigma>'"
    by (rule client_read_run) (use assms(1) [of a \<sigma>'] read_full_Inr_length [of n _ a]
        read_full_consumed [of n _ a] in \<open>auto simp: traffic_sel\<close>)
next
  fix e \<sigma>'
  assume "client_read (read_full n) \<sigma> = (Inl e, \<sigma>')"
  then show "E e \<sigma>'"
    by (rule client_read_run) (use assms(2) [of _ \<sigma>' e] in \<open>auto dest!: read_full_short simp: traffic_sel\<close>)
qed

lemmas wp_reads [wp_intros] = wp_client_read_full takes_read_full [THEN wp_broker_read]
  takes_MaybeRead [THEN wp_broker_read]

lemma wp_copy_to_broker [wp_intros]:
  assumes "\<And>bs \<sigma>'. int (length bs) = sz \<Longrightarrow> traffic \<sigma>' = (traffic \<sigma>)
      \<lparr>t_client_got := t_client_got (traffic \<sigma>) @ bs, t_broker_sent := t_broker_sent (traffic \<sigma>) @ bs\<rparr> \<Longrightarrow> Q () \<sigma>'"
    and "\<And>bs n e \<sigma>'. traffic \<sigma>' = (traffic \<sigma>)
      \<lparr>t_client_got := t_client_got (traffic \<sigma>) @ bs,
       t_broker_sent := t_broker_sent (traffic \<sigma>) @ take n bs\<rparr> \<Longrightarrow> E e \<sigma>'"
  shows "wp (copy_to_broker (myCopyN sz b)) Q E \<sigma>"
  by (rule wpI; erule copy_to_broker_traffic) (use assms in auto)

lemma wp_copy_to_client [wp_intros]:
  assumes "\<And>bs \<sigma>'. int (length bs) = sz \<Longrightarrow> traffic \<sigma>' = (traffic \<sigma>)
      \<lparr>t_broker_got := t_broker_got (traffic \<sigma>) @ bs, t_client_sent := t_client_sent (traffic \<sigma>) @ bs\<rparr> \<Longrightarrow> Q () \<sigma>'"
    and "\<And>bs n e \<sigma>'. traffic \<sigma>' = (traffic \<sigma>)
      \<lparr>t_broker_got := t_broker_got (traffic \<sigma>) @ bs,
       t_client_sent := t_client_sent (traffic \<sigma>) @ take n bs\<rparr> \<Longrightarrow> E e \<sigma>'"
  shows "wp (copy_to_client (myCopyN sz b)) Q E \<sigma>"
  by (rule wpI; erule copy_to_client_traffic) (use assms in auto)

subsection \<open>The channel operations\<close>

lemma wp_zoom: "wp (zoom get put m) Q E \<sigma> = wp m (\<lambda>a i. Q a (put i \<sigma>)) (\<lambda>e i. E e (put i \<sigma>)) (get \<sigma>)"
  by (simp add: wp_def zoom_def split: prod.splits sum.splits)

lemma wp_on_open:
  assumes "wp m (\<lambda>a q. \<forall>\<sigma>'. traffic \<sigma>' = (traffic \<sigma>)\<lparr>t_open := q\<rparr> \<longrightarrow> Q a \<sigma>')
    (\<lambda>e q. \<forall>\<sigma>'. traffic \<sigma>' = (traffic \<sigma>)\<lparr>t_open := q\<rparr> \<longrightarrow> E e \<sigma>') (t_open (traffic \<sigma>))"
  shows "wp (on_open m) Q E \<sigma>"
  using assms unfolding on_open_def wp_zoom by (auto simp: wp_def traffic_def split: prod.splits sum.splits)

lemma wp_on_nextRequest:
  assumes "wp m (\<lambda>a q. \<forall>\<sigma>'. traffic \<sigma>' = (traffic \<sigma>)\<lparr>t_nextRequest := q\<rparr> \<longrightarrow> Q a \<sigma>')
    (\<lambda>e q. \<forall>\<sigma>'. traffic \<sigma>' = (traffic \<sigma>)\<lparr>t_nextRequest := q\<rparr> \<longrightarrow> E e \<sigma>') (t_nextRequest (traffic \<sigma>))"
  shows "wp (on_nextRequest m) Q E \<sigma>"
  using assms unfolding on_nextRequest_def wp_zoom by (auto simp: wp_def traffic_def split: prod.splits sum.splits)

lemma wp_on_nextResponse:
  assumes "wp m (\<lambda>a q. \<forall>\<sigma>'. traffic \<sigma>' = (traffic \<sigma>)\<lparr>t_nextResponse := q\<rparr> \<longrightarrow> Q a \<sigma>')
    (\<lambda>e q. \<forall>\<sigma>'. traffic \<sigma>' = (traffic \<sigma>)\<lparr>t_nextResponse := q\<rparr> \<longrightarrow> E e \<sigma>') (t_nextResponse (traffic \<sigma>))"
  shows "wp (on_nextResponse m) Q E \<sigma>"
  using assms unfolding on_nextResponse_def wp_zoom by (auto simp: wp_def traffic_def split: prod.splits sum.splits)

lemma wp_chan_put [wp_intros]:
  "(length q < cap \<Longrightarrow> Q () (q @ [x])) \<Longrightarrow> (cap \<le> length q \<Longrightarrow> E (GoErr (ErrNew msg)) q) \<Longrightarrow>
   wp (chan_put cap msg x) Q E q"
  by (auto simp: wp_def chan_put_def)

lemma wp_chan_get [wp_intros]:
  "(\<And>x q'. q = x # q' \<Longrightarrow> Q x q') \<Longrightarrow> (q = [] \<Longrightarrow> E (GoErr (ErrNew msg)) []) \<Longrightarrow> wp (chan_get msg) Q E q"
  by (auto simp: wp_def chan_get_def split: list.splits)

lemmas wp_chans [wp_intros] = wp_on_open wp_on_nextRequest wp_on_nextResponse

lemmas chan_defs = sendRequestKeyVersion_def receiveRequestKeyVersion_def putNextRequestHandler_def
  putNextHandlers_def getNextRequestHandler_def getNextResponseHandler_def enqueueReauthMarker_def
  enqueueReauthResponse_def

end
