(* ===== verification/RequestFlow.thy ===== *)
theory RequestFlow
  imports ProcessorFacts "HOL-Library.Sublist"
begin

section \<open>The request loop forwards what the client sent\<close>

text \<open>
  What a turn of the request loop does to the traffic: when it succeeds the bytes taken from
  the client are exactly one request, and exactly these bytes are appended to what was sent to
  the broker; when it fails the broker has got a prefix of what was taken.  Nothing is assumed
  of the connections.
\<close>

subsection \<open>What the acks reader takes\<close>

lemma takes_weaken: "takes m R \<Longrightarrow> (\<And>a bs. R a bs \<Longrightarrow> S a bs) \<Longrightarrow> takes m S"
  unfolding takes_def by blast

lemma takes_aret: "R a [] \<Longrightarrow> takes (aret a) R"
  by (auto simp: takes_def grows_aret)

lemma takes_aerr: "takes (aerr e) R"
  by (auto simp: takes_def grows_aerr)

lemma takes_abind:
  assumes m: "takes m R" and f: "\<And>a xs. R a xs \<Longrightarrow> takes (f a) (\<lambda>b ys. S b (xs @ ys))"
    and g: "\<And>a. grows (f a)"
  shows "takes (abind m f) S"
  unfolding takes_def
proof (intro conjI allI impI)
  show "grows (abind m f)" using m g by (auto simp: takes_def intro: grows_intros)
  fix s b s'
  assume "abind m f s = (Inr b, s')"
  then obtain a t where a: "m s = (Inr a, t)" "f a t = (Inr b, s')" by (auto simp: abind_Inr_conv)
  from takesD(1) [OF m a(1)] obtain xs where xs: "src_consumed t = src_consumed s @ xs" "R a xs" by blast
  from takesD(1) [OF f [OF xs(2)] a(2)] xs(1)
  show "\<exists>bs. src_consumed s' = src_consumed s @ bs \<and> S b bs" by auto
qed

lemma discard_loop_grows:
  "discard_loop left s = (r, s') \<Longrightarrow> \<exists>bs. src_consumed s' = src_consumed s @ bs
     \<and> (r = Inr () \<longrightarrow> length bs = nat left)"
proof (induction left s arbitrary: r s' rule: discard_loop.induct)
  case (1 left s)
  show ?case
  proof (cases "left \<le> 0")
    case True
    with "1.prems" show ?thesis by (subst (asm) discard_loop.simps) auto
  next
    case False
    obtain b e t where rd: "src_read (nat (min 8192 left)) s = ((b, e), t)" by (metis surj_pair)
    note c = src_read_consumed [OF rd] and l = src_read_length [OF rd]
    show ?thesis
    proof (cases e)
      case (Some err)
      with "1.prems" False rd c l show ?thesis by (subst (asm) discard_loop.simps) (auto split: if_splits)
    next
      case None
      with "1.prems" False rd have "discard_loop (left - int (length b)) t = (r, s')"
        by (subst (asm) discard_loop.simps) auto
      from "1.IH" [OF False rd [symmetric] refl None this] obtain bs where
        bs: "src_consumed s' = src_consumed t @ bs" "r = Inr () \<longrightarrow> length bs = nat (left - int (length b))" by blast
      from bs c l False show ?thesis by (intro exI [of _ "b @ bs"]) auto
    qed
  qed
qed

lemma takes_discard: "takes (discard_n n) (\<lambda>a bs. length bs = nat n)"
  by (auto simp: takes_def grows_discard_n discard_n_def dest: discard_loop_grows)

lemma get_be16_append: "2 \<le> length xs \<Longrightarrow> get_be16 (xs @ ys) = get_be16 xs"
  by (cases xs; cases "tl xs") (auto simp: get_be16_def nth_append)

lemma takes_Read16: "takes binary_Read16 (\<lambda>a bs. length bs = 2 \<and> a = get_be16 bs)"
  unfolding binary_Read16_def
  by (rule takes_abind [OF takes_read_full]) (auto intro: takes_aret grows_aret)

lemma takes_Read32: "takes binary_Read32 (\<lambda>a bs. length bs = 4)"
  unfolding binary_Read32_def
  by (rule takes_abind [OF takes_read_full]) (auto intro: takes_aret grows_aret)

lemma sint_16_less: "sint (x :: 16 word) < 32768"
  using sint_lt [of x] by simp

text \<open>
  The acknowledgements of a produce request, read off its bytes: behind the correlation id and
  the client id, and from version 3 on behind the transactional id as well.  An id is a length
  of two bytes, negative for a missing one, and that many bytes.
\<close>

definition after_nullable :: "byte list \<Rightarrow> byte list" where
  "after_nullable bs = drop (2 + nat (sint (get_be16 bs))) bs"

definition after_header :: "byte list \<Rightarrow> byte list" where
  "after_header bs = after_nullable (drop 4 bs)"

definition produce_acks :: "16 word \<Rightarrow> byte list \<Rightarrow> 16 word" where
  "produce_acks version body =
     (let ids = after_header body
      in get_be16 (if version \<in> {0, 1, 2} then ids else after_nullable ids))"

text \<open>Whether the broker replies: a produce request says so itself, every other request is replied to.\<close>

definition reply_expected :: "'s processor \<Rightarrow> RequestKeyVersion \<Rightarrow> byte list \<Rightarrow> bool" where
  "reply_expected p rkv body =
     (if rkv_ApiKey rkv = apiKeyProduce \<and> \<not> pr_producerAcks0Disabled p
      then produce_acks (rkv_ApiVersion rkv) body \<noteq> 0 else True)"

lemma reply_expected_other [simp]:
  "rkv_ApiKey rkv \<noteq> apiKeyProduce \<Longrightarrow> reply_expected p rkv body"
  by (simp add: reply_expected_def)

definition nullable_bytes :: "byte list \<Rightarrow> bool" where
  "nullable_bytes bs \<longleftrightarrow> length bs \<le> 40000 \<and> (\<forall>more. after_nullable (bs @ more) = more)"

lemma takes_nullable_string: "takes readAndDiscardNullableString (\<lambda>a. nullable_bytes)"
  unfolding readAndDiscardNullableString_def
proof (rule takes_abind [OF takes_Read16])
  fix n :: "16 word" and xs :: "byte list"
  assume xs: "length xs = 2 \<and> n = get_be16 xs"
  have nb: "nullable_bytes (xs @ ys)" if "length ys = nat (sint n)" for ys
    using xs that sint_16_less [of n] get_be16_append [of xs]
    by (simp add: nullable_bytes_def after_nullable_def)
  have "takes (discard_n (sint n)) (\<lambda>b ys. nullable_bytes (xs @ ys))"
    by (rule takes_weaken [OF takes_discard]) (rule nb)
  then show "takes (if sint n < - 1 then aerr errInvalidStringLength
      else if sint n > 0 then discard_n (sint n) else aret ()) (\<lambda>b ys. nullable_bytes (xs @ ys))"
    using nb [of "[]"] by (auto intro: takes_aerr takes_aret)
qed (intro grows_intros)

lemma takes_header_part:
  "takes ReadAndDiscardHeaderV1Part
     (\<lambda>a bs. length bs \<le> 40004 \<and> (\<forall>more. after_header (bs @ more) = more))"
  unfolding ReadAndDiscardHeaderV1Part_def
  by (rule takes_abind [OF takes_Read32])
    (auto intro: takes_weaken [OF takes_nullable_string] simp: nullable_bytes_def after_header_def
      takes_nullable_string [unfolded takes_def])

text \<open>What one of the two acks readers takes: \<open>skip\<close> says what lies before the acknowledgements.\<close>

definition acks_bytes :: "(byte list \<Rightarrow> byte list) \<Rightarrow> 16 word \<Rightarrow> byte list \<Rightarrow> bool" where
  "acks_bytes skip a bs \<longleftrightarrow> length bs \<le> 40002 \<and> (\<forall>more. get_be16 (skip (bs @ more)) = a)"

lemma takes_acks:
  "takes ReadAndDiscardProduceAcks (acks_bytes id)"
  "takes ReadAndDiscardProduceTxnAcks (acks_bytes after_nullable)"
proof -
  show "takes ReadAndDiscardProduceAcks (acks_bytes id)"
    unfolding ReadAndDiscardProduceAcks_def
    by (rule takes_weaken [OF takes_Read16]) (simp add: acks_bytes_def get_be16_append)
  show "takes ReadAndDiscardProduceTxnAcks (acks_bytes after_nullable)"
    unfolding ReadAndDiscardProduceTxnAcks_def
    by (rule takes_abind [OF takes_nullable_string], rule takes_weaken [OF takes_Read16])
      (auto simp: acks_bytes_def nullable_bytes_def get_be16_append
        intro: takes_Read16 [unfolded takes_def, THEN conjunct1])
qed

lemma takes_tee: "takes m R \<Longrightarrow> takes (tee m) (\<lambda>(a, rec) bs. rec = bs \<and> R a bs)"
  unfolding takes_def
proof (intro conjI allI impI; elim conjE)
  fix s p s'
  assume g: "grows m" and t: "tee m s = (Inr p, s')"
    and R: "\<forall>s a s'. m s = (Inr a, s') \<longrightarrow> (\<exists>bs. src_consumed s' = src_consumed s @ bs \<and> R a bs)"
  obtain a rec where p: "p = (a, rec)" by force
  with t have m: "m s = (Inr a, s')" by (auto simp: tee_def split: prod.splits sum.splits)
  from tee_consumed [OF g, of s a rec s'] t p have "src_consumed s' = src_consumed s @ rec" by simp
  moreover from R m obtain bs where "src_consumed s' = src_consumed s @ bs" "R a bs" by blast
  ultimately show "\<exists>bs. src_consumed s' = src_consumed s @ bs \<and> (case p of (a, rec) \<Rightarrow> \<lambda>bs. rec = bs \<and> R a bs) bs"
    using p by auto
qed (rule grows_tee)

text \<open>
  The bytes \<open>mustReply\<close> returns are those it took, and what it says of the reply is what these
  bytes say, whatever comes behind them.
\<close>

definition reply_read ::
  "'s processor \<Rightarrow> RequestKeyVersion \<Rightarrow> bool \<times> byte list \<Rightarrow> byte list \<Rightarrow> bool" where
  "reply_read p rkv r bs \<longleftrightarrow>
     snd r = bs \<and> length bs \<le> 80006 \<and> (\<forall>more. fst r = reply_expected p rkv (bs @ more))"

lemma takes_mustReply: "takes (mustReply p rkv) (reply_read p rkv)"
proof (cases "rkv_ApiKey rkv = apiKeyProduce \<and> \<not> pr_producerAcks0Disabled p")
  case False
  then have "mustReply p rkv = aret (True, [])" by (auto simp: mustReply_def)
  with False show ?thesis by (auto simp: reply_read_def reply_expected_def intro: takes_aret)
next
  case True
  let ?m = "if rkv_ApiVersion rkv \<in> {0, 1, 2}
      then abind ReadAndDiscardHeaderV1Part (\<lambda>_. ReadAndDiscardProduceAcks)
      else abind ReadAndDiscardHeaderV1Part (\<lambda>_. ReadAndDiscardProduceTxnAcks)"
  have hd: "takes (abind ReadAndDiscardHeaderV1Part (\<lambda>_. n))
      (\<lambda>a bs. length bs \<le> 80006 \<and> (\<forall>more. get_be16 (skip (after_header (bs @ more))) = a))"
    if "takes n (acks_bytes skip)" for n skip
    by (rule takes_abind [OF takes_header_part], rule takes_weaken [OF that])
      (use that in \<open>auto simp: takes_def acks_bytes_def\<close>)
  have "takes ?m (\<lambda>a bs. length bs \<le> 80006 \<and> (\<forall>more. produce_acks (rkv_ApiVersion rkv) (bs @ more) = a))"
    using hd [OF takes_acks(1)] hd [OF takes_acks(2)] by (auto simp: produce_acks_def Let_def)
  then have "takes (abind (tee ?m) (\<lambda>(acks, bufferRead). aret (acks \<noteq> 0, bufferRead))) (reply_read p rkv)"
    by (rule takes_abind [OF takes_tee])
      (use True in \<open>auto simp: reply_read_def reply_expected_def intro: takes_aret grows_aret\<close>)
  then show ?thesis using True by (simp add: mustReply_def)
qed

lemmas wp_mustReply = wp_client_read [OF takes_mustReply]

subsection \<open>Forwarding\<close>

definition v0_handshake :: "RequestKeyVersion \<Rightarrow> bool" where
  "v0_handshake rkv \<longleftrightarrow> rkv_ApiKey rkv = apiKeySaslHandshake \<and> rkv_ApiVersion rkv = 0"

text \<open>The handlers a forwarded request puts into the two handler channels.\<close>

definition next_handlers :: "RequestKeyVersion \<Rightarrow> bool \<Rightarrow> RequestHandler \<times> ResponseHandler list" where
  "next_handlers rkv reply =
     (if v0_handshake rkv then (SaslAuthV0RequestHandler, [SaslAuthV0ResponseHandler])
      else (DefaultRequestHandler, if reply then [DefaultResponseHandler] else []))"

text \<open>
  The traffic after a request of bytes \<open>req\<close> was forwarded, and what may be left after a
  failure: a prefix of what the client sent.
\<close>

definition forwarded ::
  "byte list \<Rightarrow> RequestKeyVersion \<Rightarrow> bool \<Rightarrow> traffic \<Rightarrow> traffic" where
  "forwarded req rkv reply t = t
     \<lparr>t_client_got := t_client_got t @ req,
      t_broker_sent := t_broker_sent t @ req,
      t_open := t_open t @ (if reply then [rkv] else []),
      t_nextRequest := t_nextRequest t @ [fst (next_handlers rkv reply)],
      t_nextResponse := t_nextResponse t @ snd (next_handlers rkv reply)\<rparr>"

definition sent_prefix :: "traffic \<Rightarrow> traffic \<Rightarrow> bool" where
  "sent_prefix t t' \<longleftrightarrow>
     (\<exists>cs ss. t_client_got t' = t_client_got t @ cs \<and> t_broker_sent t' = t_broker_sent t @ ss \<and> prefix ss cs)
     \<and> t_broker_got t' = t_broker_got t \<and> t_client_sent t' = t_client_sent t"

lemma prefix_parts:
  "prefix (take n xs) (xs @ ys)" "prefix xs (xs @ ys)" "prefix [] xs" "prefix (take n xs) xs"
  by (auto intro: prefix_prefix take_is_prefix)

text \<open>
  The second half of the handler, from a state \<open>\<sigma>\<close> in which \<open>kv @ rb\<close> has been taken from the
  client and nothing sent.
\<close>

lemma forwardRequest_wp:
  assumes t: "traffic \<sigma> = t0\<lparr>t_client_got := t_client_got t0 @ kv @ rb\<rparr>"
  shows "wp (forwardRequest p kv rkv reply rb)
    (\<lambda>_ \<sigma>'. \<exists>rest. traffic \<sigma>' = forwarded (kv @ rb @ rest) rkv reply t0
       \<and> int (length rest) = sint (rkv_Length rkv - of_nat (4 + length rb)))
    (\<lambda>_ \<sigma>'. sent_prefix t0 (traffic \<sigma>')) \<sigma>"
  unfolding forwardRequest_def chan_defs
  by (intro wp_intros allI impI;
      ((rule exI, rule conjI [rotated], assumption,
          simp add: t forwarded_def next_handlers_def v0_handshake_def)
       | (simp add: t sent_prefix_def prefix_parts)))

subsection \<open>Re-authentication\<close>

text \<open>
  The traffic of a re-authentication: the handshake and the authentication request go out back
  to back, and both markers are queued.
\<close>

definition reauth_sent :: "byte list \<Rightarrow> byte list \<Rightarrow> traffic \<Rightarrow> traffic" where
  "reauth_sent handshake request t = t
     \<lparr>t_broker_sent := t_broker_sent t @ handshake @ request,
      t_open := t_open t @ [handshake_marker, authenticate_marker],
      t_nextResponse := t_nextResponse t @ [DefaultResponseHandler, DefaultResponseHandler]\<rparr>"

definition client_untouched :: "traffic \<Rightarrow> traffic \<Rightarrow> bool" where
  "client_untouched t t' \<longleftrightarrow> t_client_got t' = t_client_got t \<and> t_client_sent t' = t_client_sent t
     \<and> t_broker_got t' = t_broker_got t"

definition may_reauth :: "'s processor \<Rightarrow> traffic \<Rightarrow> traffic \<Rightarrow> bool" where
  "may_reauth p t u \<longleftrightarrow> u = t \<or>
     (\<exists>sb h r. pr_saslAuthByProxy p = Some sb
        \<and> returns (sa_buildReauthHandshakeRequest sb reauthHandshakeCorrelationID) h
        \<and> returns (sa_buildReauthRequest sb reauthCorrelationID) r
        \<and> u = reauth_sent h r t)"

lemma may_reauth_refl: "may_reauth p t t"
  by (simp add: may_reauth_def)

lemma may_reauthD:
  assumes "may_reauth p t u"
  shows "t_nextRequest u = t_nextRequest t" "client_untouched t u"
  using assms by (auto simp: may_reauth_def reauth_sent_def client_untouched_def)

lemma may_reauth_got:
  assumes "may_reauth p (t\<lparr>t_client_got := c\<rparr>) u"
  obtains v where "may_reauth p t v" "u = v\<lparr>t_client_got := c\<rparr>"
proof (cases "u = t\<lparr>t_client_got := c\<rparr>")
  case True
  then show ?thesis by (rule that [OF may_reauth_refl])
next
  case False
  with assms obtain sb h r where sb: "pr_saslAuthByProxy p = Some sb"
      "returns (sa_buildReauthHandshakeRequest sb reauthHandshakeCorrelationID) h"
      "returns (sa_buildReauthRequest sb reauthCorrelationID) r"
    and u: "u = reauth_sent h r (t\<lparr>t_client_got := c\<rparr>)" by (auto simp: may_reauth_def)
  show ?thesis
    by (rule that [of "reauth_sent h r t"]) (use sb in \<open>auto simp: may_reauth_def u reauth_sent_def\<close>)
qed

lemma runReauth_wp:
  "wp (runReauth p)
    (\<lambda>_ \<sigma>'. may_reauth p (traffic \<sigma>) (traffic \<sigma>'))
    (\<lambda>_ \<sigma>'. client_untouched (traffic \<sigma>) (traffic \<sigma>')) \<sigma>"
proof (cases "ps_auth \<sigma> = None \<or> pr_saslAuthByProxy p = None")
  case True
  then show ?thesis
    by (auto simp: runReauth_def wp_simps may_reauth_refl split: option.splits)
next
  case False
  then obtain a sb where a: "ps_auth \<sigma> = Some a" and sb: "pr_saslAuthByProxy p = Some sb" by auto
  show ?thesis
    unfolding runReauth_def chan_defs
    by (simp only: wp_simps(5,9) a sb prod.case option.case)
      (intro wp_intros allI impI;
        ((unfold may_reauth_def, rule disjI1, assumption)
         | (unfold may_reauth_def, rule disjI2, intro exI conjI, rule sb, assumption, assumption,
            simp add: reauth_sent_def)
         | (simp add: client_untouched_def)))
qed

subsection \<open>The default handler\<close>

text \<open>The first eight bytes of a request, read as \<open>RequestKeyVersion\<close>.\<close>

definition frame_rkv :: "byte list \<Rightarrow> RequestKeyVersion" where
  "frame_rkv b = \<lparr>rkv_Length = get_be32 b, rkv_ApiKey = get_be16 (drop 4 b),
     rkv_ApiVersion = get_be16 (drop 6 b)\<rparr>"

lemma Decode_rkv:
  assumes "length kv = 8"
  shows "Decode (Some kv) RequestKeyVersion_decode x0 =
    (if sint (get_be32 kv) \<le> 4 then Inl (GoErr (too_small (get_be32 kv))) else Inr (frame_rkv kv))"
  using assms
  by (simp add: Decode_def RequestKeyVersion_decode_def dbind_def getInt32_eq getInt16_eq derr_def dret_def
      remaining_def rest_def frame_rkv_def)

lemma frame_rkv_take: "8 \<le> length req \<Longrightarrow> frame_rkv (take 8 req) = frame_rkv req"
  by (simp add: frame_rkv_def get_be32_def get_be16_def)

text \<open>A whole request of the client: its length prefix is right and its key is admitted.\<close>

definition admitted :: "'s processor \<Rightarrow> RequestKeyVersion \<Rightarrow> bool" where
  "admitted p rkv \<longleftrightarrow> minRequestApiKey \<le> sint (rkv_ApiKey rkv) \<and> sint (rkv_ApiKey rkv) \<le> maxRequestApiKey
     \<and> rkv_ApiKey rkv \<notin> set (pr_forbiddenApiKeys p)"

definition whole_request :: "byte list \<Rightarrow> bool" where
  "whole_request req \<longleftrightarrow> 8 \<le> length req \<and> int (length req) = sint (rkv_Length (frame_rkv req)) + 4"

text \<open>
  An idle turn: the read timed out before eight bytes had come.  The proxy may have
  re-authenticated; the default handler is queued again.
\<close>

definition idle_turn :: "'s processor \<Rightarrow> byte list \<Rightarrow> traffic \<Rightarrow> traffic \<Rightarrow> bool" where
  "idle_turn p lost t t' \<longleftrightarrow> length lost < 8 \<and>
     (\<exists>u. may_reauth p t u
      \<and> t' = u\<lparr>t_client_got := t_client_got t @ lost,
           t_nextRequest := t_nextRequest t @ [DefaultRequestHandler]\<rparr>)"

lemma wp_conseq:
  assumes "wp m Q E \<sigma>" "\<And>a \<sigma>'. Q a \<sigma>' \<Longrightarrow> Q' a \<sigma>'" "\<And>e \<sigma>'. E e \<sigma>' \<Longrightarrow> E' e \<sigma>'"
  shows "wp m Q' E' \<sigma>"
  using assms by (auto simp: wp_def split: prod.splits sum.splits)

lemma sint_Length_minus:
  fixes len :: "32 word"
  assumes "4 < sint len" "n \<le> 80006"
  shows "sint (len - of_nat (4 + n)) = sint len - int (4 + n)"
proof -
  have "sint (of_nat (4 + n) :: 32 word) = int (4 + n)"
    using assms(2) by (intro sint_of_nat_small) simp
  moreover have "signed_take_bit 31 (sint len - int (4 + n)) = sint len - int (4 + n)"
    using assms sint_lt [of len] by (intro signed_take_bit_int_eq_self) auto
  ultimately show ?thesis by (simp add: sint_word_ariths(2))
qed

lemma onReadTimeout_wp:
  "wp (onReadTimeout p)
    (\<lambda>_ \<sigma>'. \<exists>u. may_reauth p (traffic \<sigma>) u
      \<and> traffic \<sigma>' = u\<lparr>t_nextRequest := t_nextRequest (traffic \<sigma>) @ [DefaultRequestHandler]\<rparr>)
    (\<lambda>_ \<sigma>'. client_untouched (traffic \<sigma>) (traffic \<sigma>')) \<sigma>"
proof -
  have put: "wp (flag False (putNextRequestHandler p DefaultRequestHandler))
      (\<lambda>_ \<sigma>'. \<exists>u. may_reauth p (traffic \<sigma>) u \<and> traffic \<sigma>' = u\<lparr>t_nextRequest := t_nextRequest (traffic \<sigma>) @ [DefaultRequestHandler]\<rparr>)
      (\<lambda>_ \<sigma>'. client_untouched (traffic \<sigma>) (traffic \<sigma>')) \<tau>"
    if R: "may_reauth p (traffic \<sigma>) (traffic \<tau>)" for \<tau>
    unfolding chan_defs
    by (intro wp_intros allI impI; (rule exI, rule conjI, rule R, simp add: may_reauthD(1) [OF R])?)
      (use may_reauthD(2) [OF R] in \<open>simp add: client_untouched_def\<close>)
  show ?thesis
  proof (cases "ps_auth \<sigma>")
    case None
    then show ?thesis
      unfolding onReadTimeout_def by (simp only: wp_simps option.case None) (rule put [unfolded wp_simps], simp add: may_reauth_refl)
  next
    case (Some a)
    show ?thesis
      unfolding onReadTimeout_def
    proof (simp only: wp_simps(5,9) option.case Some, rule wp_quiet [OF quiet_now], rule wp_if, goal_cases)
      case (1 t \<tau>)
      then show ?case
        by (simp only: wp_simps(7))
          (rule wp_conseq [OF runReauth_wp], rule put, auto simp: client_untouched_def)
    qed (simp only: wp_simps(1), rule put, simp_all add: client_untouched_def may_reauth_refl)
  qed
qed

text \<open>
  What a turn of the default handler does: it forwards one whole request, with a reply in the
  queue of the response loop exactly if the request's bytes ask for one, or it is idle.
\<close>

definition forwards_request :: "'s processor \<Rightarrow> byte list \<Rightarrow> traffic \<Rightarrow> traffic \<Rightarrow> bool" where
  "forwards_request p req t t' \<longleftrightarrow> whole_request req \<and> admitted p (frame_rkv req)
     \<and> t' = forwarded req (frame_rkv req) (reply_expected p (frame_rkv req) (drop 8 req)) t"

lemma handleKeyVersion_wp:
  assumes kv: "length kv = 8"
    and t: "traffic \<sigma> = t0\<lparr>t_client_got := t_client_got t0 @ kv\<rparr>"
  shows "wp (handleKeyVersion p kv)
    (\<lambda>_ \<sigma>'. \<exists>req. take 8 req = kv \<and> forwards_request p req t0 (traffic \<sigma>'))
    (\<lambda>_ \<sigma>'. sent_prefix t0 (traffic \<sigma>')) \<sigma>"
proof -
  let ?rkv = "frame_rkv kv"
  have pre: "sent_prefix t0 (traffic \<sigma>)" by (simp add: t sent_prefix_def prefix_parts)
  have dec: "4 < sint (rkv_Length ?rkv) \<and> rkv = ?rkv"
    if "Decode (Some kv) RequestKeyVersion_decode x0 = Inr rkv" for x0 rkv
    using that by (auto simp: Decode_rkv [OF kv] frame_rkv_def split: if_splits)
  have fwd: "wp (forwardRequest p kv ?rkv (fst r) (snd r))
      (\<lambda>_ \<sigma>'. \<exists>req. take 8 req = kv \<and> forwards_request p req t0 (traffic \<sigma>'))
      (\<lambda>_ \<sigma>'. sent_prefix t0 (traffic \<sigma>')) \<tau>"
    if len: "4 < sint (rkv_Length ?rkv)" and adm: "admitted p ?rkv" and r: "reply_read p ?rkv r bs"
      and \<tau>: "traffic \<tau> = (traffic \<sigma>)\<lparr>t_client_got := t_client_got (traffic \<sigma>) @ bs\<rparr>" for r bs \<tau>
  proof (rule wp_conseq [OF forwardRequest_wp])
    show "traffic \<tau> = t0\<lparr>t_client_got := t_client_got t0 @ kv @ snd r\<rparr>"
      using r by (simp add: \<tau> t reply_read_def)
    fix u \<sigma>'
    assume "\<exists>rest. traffic \<sigma>' = forwarded (kv @ snd r @ rest) ?rkv (fst r) t0
        \<and> int (length rest) = sint (rkv_Length ?rkv - of_nat (4 + length (snd r)))"
    then obtain rest where f: "traffic \<sigma>' = forwarded (kv @ snd r @ rest) ?rkv (fst r) t0"
      "int (length rest) = sint (rkv_Length ?rkv - of_nat (4 + length (snd r)))" by blast
    let ?req = "kv @ snd r @ rest"
    have k: "frame_rkv ?req = ?rkv" using frame_rkv_take [of ?req] kv by simp
    have "length (snd r) \<le> 80006" using r by (simp add: reply_read_def)
    from f(2) sint_Length_minus [OF len this] have "whole_request ?req"
      by (simp add: whole_request_def k kv)
    moreover have "drop 8 ?req = bs @ rest" "fst r = reply_expected p ?rkv (bs @ rest)"
      using r kv by (auto simp: reply_read_def)
    ultimately show "\<exists>req. take 8 req = kv \<and> forwards_request p req t0 (traffic \<sigma>')"
      using f(1) k adm kv by (intro exI [of _ ?req]) (simp add: forwards_request_def)
  qed
  show ?thesis
    unfolding handleKeyVersion_def
  proof (intro wp_intros, goal_cases)
    case (3 rkv)
    note d = dec [OF 3(1)]
    with 3 have adm: "admitted p ?rkv" by (auto simp: admitted_def)
    show ?case
      by (rule wp_client_read [OF takes_mustReply], rule fwd [folded d [THEN conjunct2]])
        (use d adm t in \<open>auto simp: sent_prefix_def prefix_parts\<close>)
  qed (rule pre)+
qed

definition idle_failure :: "traffic \<Rightarrow> traffic \<Rightarrow> bool" where
  "idle_failure t t' \<longleftrightarrow> (\<exists>lost. length lost < 8 \<and>
     client_untouched (t\<lparr>t_client_got := t_client_got t @ lost\<rparr>) t')"

lemma DefaultRequestHandler_wp:
  "wp (DefaultRequestHandler_handleRequest p)
    (\<lambda>_ \<sigma>'. (\<exists>req. forwards_request p req (traffic \<sigma>) (traffic \<sigma>'))
       \<or> (\<exists>lost. idle_turn p lost (traffic \<sigma>) (traffic \<sigma>')))
    (\<lambda>_ \<sigma>'. sent_prefix (traffic \<sigma>) (traffic \<sigma>') \<or> idle_failure (traffic \<sigma>) (traffic \<sigma>'))
    \<sigma>"
  unfolding DefaultRequestHandler_handleRequest_def
proof (intro wp_intros, goal_cases)
  case (1 dl \<sigma>1 _ \<sigma>2 kv \<tau>)
  then have t: "traffic \<tau> = (traffic \<sigma>)\<lparr>t_client_got := t_client_got (traffic \<sigma>) @ kv\<rparr>" by simp
  show ?case
    by (simp only: sum.case, rule wp_conseq [OF handleKeyVersion_wp [OF 1(3) t]]) auto
next
  case (2 dl \<sigma>1 _ \<sigma>2 e lost \<tau>)
  then have t: "traffic \<tau> = (traffic \<sigma>)\<lparr>t_client_got := t_client_got (traffic \<sigma>) @ lost\<rparr>"
    and l: "length lost < 8" by simp_all
  have fail: "idle_failure (traffic \<sigma>) u" if "client_untouched (traffic \<tau>) u" for u
    using that l by (auto simp: idle_failure_def t)
  have idle: "idle_turn p lost (traffic \<sigma>) (u\<lparr>t_nextRequest := t_nextRequest (traffic \<tau>) @ [DefaultRequestHandler]\<rparr>)"
    if "may_reauth p (traffic \<tau>) u" for u
    using that l by (auto simp: idle_turn_def t elim!: may_reauth_got)
  show ?case
  proof (cases e)
    case (GoErr err)
    show ?thesis
      unfolding GoErr sum.case gofail.case
      by (rule wp_if, rule wp_conseq [OF onReadTimeout_wp], metis idle, metis fail)
        (use fail [of "traffic \<tau>"] in \<open>simp add: wp_simps client_untouched_def\<close>)
  qed (use fail [of "traffic \<tau>"] in \<open>simp add: wp_simps client_untouched_def\<close>)
qed (simp_all add: sent_prefix_def)

end
