(* ===== verification/CalmSteps.thy ===== *)
theory CalmSteps
  imports RequestFlow
begin

section \<open>The processor's steps on connections without errors\<close>

text \<open>
  \<open>calm cs bs \<sigma>\<close>: no operation on the connections of \<open>\<sigma>\<close> will fail, and the client and the
  broker still have the bytes \<open>cs\<close> and \<open>bs\<close> to deliver, cut in any way.  From a calm state the
  steps succeed, and their effect is determined.
\<close>

definition calm :: "byte list \<Rightarrow> byte list \<Rightarrow> 's pstate \<Rightarrow> bool" where
  "calm cs bs \<sigma> \<longleftrightarrow>
     clean (cn_in (ps_client \<sigma>)) \<and> pending (cn_in (ps_client \<sigma>)) = cs
     \<and> clean (cn_in (ps_broker \<sigma>)) \<and> pending (cn_in (ps_broker \<sigma>)) = bs
     \<and> snk_events (cn_out (ps_client \<sigma>)) = [] \<and> snk_events (cn_out (ps_broker \<sigma>)) = []
     \<and> cn_deadlineErrs (ps_client \<sigma>) = [] \<and> cn_deadlineErrs (ps_broker \<sigma>) = []"

text \<open>The parts of the state that the steps on connections, clock and channels leave alone.\<close>

definition held :: "'s pstate \<Rightarrow> ConnectionAuthState option \<times> 's" where
  "held \<sigma> = (ps_auth \<sigma>, ps_ext \<sigma>)"

lemma held_updates [simp]:
  "held (\<sigma>\<lparr>ps_client := c\<rparr>) = held \<sigma>" "held (\<sigma>\<lparr>ps_broker := c\<rparr>) = held \<sigma>"
  "held (ps_client_update f \<sigma>) = held \<sigma>" "held (ps_broker_update f \<sigma>) = held \<sigma>"
  "held (\<sigma>\<lparr>ps_clock := k\<rparr>) = held \<sigma>" "held (\<sigma>\<lparr>ps_openRequests := q\<rparr>) = held \<sigma>"
  "held (\<sigma>\<lparr>ps_nextRequest := q1\<rparr>) = held \<sigma>" "held (\<sigma>\<lparr>ps_nextResponse := q2\<rparr>) = held \<sigma>"
  by (simp_all add: held_def)

lemma deadline_calm:
  assumes "m \<in> {SetReadDeadline t, SetWriteDeadline t, SetDeadline t}" "cn_deadlineErrs c = []"
  shows "\<exists>c'. m c = (Inr (), c') \<and> cn_in c' = cn_in c \<and> cn_out c' = cn_out c \<and> cn_deadlineErrs c' = []"
  using assms
  by (auto simp: SetReadDeadline_def SetWriteDeadline_def SetDeadline_def abind_def deadline_call_def amod_def)

lemma wp_client_deadline:
  assumes "m \<in> {SetReadDeadline t, SetWriteDeadline t, SetDeadline t}" "calm cs bs \<sigma>"
    and "\<And>\<sigma>'. calm cs bs \<sigma>' \<Longrightarrow> traffic \<sigma>' = traffic \<sigma> \<Longrightarrow> held \<sigma>' = held \<sigma> \<Longrightarrow> Q () \<sigma>'"
  shows "wp (on_client m) Q E \<sigma>"
proof -
  from assms(2) have "cn_deadlineErrs (ps_client \<sigma>) = []" by (simp add: calm_def)
  from deadline_calm [OF assms(1) this] obtain c' where c': "m (ps_client \<sigma>) = (Inr (), c')"
    "cn_in c' = cn_in (ps_client \<sigma>)" "cn_out c' = cn_out (ps_client \<sigma>)" "cn_deadlineErrs c' = []" by blast
  let ?s = "\<sigma>\<lparr>ps_client := c'\<rparr>"
  have "calm cs bs ?s" using assms(2) c' by (simp add: calm_def)
  moreover have "traffic ?s = traffic \<sigma>" using c' by (simp add: traffic_def)
  ultimately show ?thesis using assms(3) c' by (simp add: on_client_def wp_def zoom_def)
qed

lemma wp_broker_deadline:
  assumes "m \<in> {SetReadDeadline t, SetWriteDeadline t, SetDeadline t}" "calm cs bs \<sigma>"
    and "\<And>\<sigma>'. calm cs bs \<sigma>' \<Longrightarrow> traffic \<sigma>' = traffic \<sigma> \<Longrightarrow> held \<sigma>' = held \<sigma> \<Longrightarrow> Q () \<sigma>'"
  shows "wp (on_broker m) Q E \<sigma>"
proof -
  from assms(2) have "cn_deadlineErrs (ps_broker \<sigma>) = []" by (simp add: calm_def)
  from deadline_calm [OF assms(1) this] obtain c' where c': "m (ps_broker \<sigma>) = (Inr (), c')"
    "cn_in c' = cn_in (ps_broker \<sigma>)" "cn_out c' = cn_out (ps_broker \<sigma>)" "cn_deadlineErrs c' = []" by blast
  let ?s = "\<sigma>\<lparr>ps_broker := c'\<rparr>"
  have "calm cs bs ?s" using assms(2) c' by (simp add: calm_def)
  moreover have "traffic ?s = traffic \<sigma>" using c' by (simp add: traffic_def)
  ultimately show ?thesis using assms(3) c' by (simp add: on_broker_def wp_def zoom_def)
qed

lemmas calm_deadlines =
  wp_client_deadline [where m = "SetReadDeadline t" and t = t for t, simplified]
  wp_client_deadline [where m = "SetWriteDeadline t" and t = t for t, simplified]
  wp_client_deadline [where m = "SetDeadline t" and t = t for t, simplified]
  wp_broker_deadline [where m = "SetReadDeadline t" and t = t for t, simplified]
  wp_broker_deadline [where m = "SetWriteDeadline t" and t = t for t, simplified]

lemma calm_now:
  assumes "calm cs bs \<sigma>" "\<And>t \<sigma>'. calm cs bs \<sigma>' \<Longrightarrow> traffic \<sigma>' = traffic \<sigma> \<Longrightarrow> held \<sigma>' = held \<sigma> \<Longrightarrow> Q t \<sigma>'"
  shows "wp now Q E \<sigma>"
  using assms by (simp add: now_def wp_def zoom_def clock_now_def calm_def traffic_def)

lemma write_all_calm: "snk_events d = [] \<Longrightarrow> write_all p d = (Inr (), d\<lparr>snk_out := snk_out d @ p\<rparr>)"
  by (simp add: write_all_def snk_write_def)

lemma calm_broker_write:
  assumes "calm cs bs \<sigma>"
    and "\<And>\<sigma>'. calm cs bs \<sigma>' \<Longrightarrow>
      traffic \<sigma>' = (traffic \<sigma>)\<lparr>t_broker_sent := t_broker_sent (traffic \<sigma>) @ p\<rparr> \<Longrightarrow> held \<sigma>' = held \<sigma> \<Longrightarrow> Q () \<sigma>'"
  shows "wp (on_broker (conn_Write p)) Q E \<sigma>"
  using assms
  by (simp add: on_broker_def conn_Write_def on_out_def wp_def zoom_def calm_def write_all_calm traffic_def)

lemma calm_client_write:
  assumes "calm cs bs \<sigma>"
    and "\<And>\<sigma>'. calm cs bs \<sigma>' \<Longrightarrow>
      traffic \<sigma>' = (traffic \<sigma>)\<lparr>t_client_sent := t_client_sent (traffic \<sigma>) @ p\<rparr> \<Longrightarrow> held \<sigma>' = held \<sigma> \<Longrightarrow> Q () \<sigma>'"
  shows "wp (on_client (conn_Write p)) Q E \<sigma>"
  using assms
  by (simp add: on_client_def conn_Write_def on_out_def wp_def zoom_def calm_def write_all_calm traffic_def)

lemma calm_client_read:
  assumes "consumes m xs a" "calm (xs @ cs) bs \<sigma>"
    and "\<And>\<sigma>'. calm cs bs \<sigma>' \<Longrightarrow>
      traffic \<sigma>' = (traffic \<sigma>)\<lparr>t_client_got := t_client_got (traffic \<sigma>) @ xs\<rparr> \<Longrightarrow> held \<sigma>' = held \<sigma> \<Longrightarrow> Q a \<sigma>'"
  shows "wp (client_read m) Q E \<sigma>"
proof -
  from assms(2) have "clean (cn_in (ps_client \<sigma>))" "pending (cn_in (ps_client \<sigma>)) = xs @ cs"
    by (simp_all add: calm_def)
  from consumesE [OF assms(1) this] obtain s where
    s: "m (cn_in (ps_client \<sigma>)) = (Inr a, s)" "delivers (cn_in (ps_client \<sigma>)) xs s" by blast
  with assms(2,3) show ?thesis
    by (simp add: client_read_def on_client_def on_in_def wp_def zoom_def calm_def delivers_def traffic_def)
qed

lemma calm_broker_read:
  assumes "consumes m xs a" "calm cs (xs @ bs) \<sigma>"
    and "\<And>\<sigma>'. calm cs bs \<sigma>' \<Longrightarrow>
      traffic \<sigma>' = (traffic \<sigma>)\<lparr>t_broker_got := t_broker_got (traffic \<sigma>) @ xs\<rparr> \<Longrightarrow> held \<sigma>' = held \<sigma> \<Longrightarrow> Q a \<sigma>'"
  shows "wp (broker_read m) Q E \<sigma>"
proof -
  from assms(2) have "clean (cn_in (ps_broker \<sigma>))" "pending (cn_in (ps_broker \<sigma>)) = xs @ bs"
    by (simp_all add: calm_def)
  from consumesE [OF assms(1) this] obtain s where
    s: "m (cn_in (ps_broker \<sigma>)) = (Inr a, s)" "delivers (cn_in (ps_broker \<sigma>)) xs s" by blast
  with assms(2,3) show ?thesis
    by (simp add: broker_read_def on_broker_def on_in_def wp_def zoom_def calm_def delivers_def traffic_def)
qed

lemma calm_copy_to_broker:
  assumes "calm (xs @ cs) bs \<sigma>" "sz = int (length xs)" "0 < b"
    and "\<And>\<sigma>'. calm cs bs \<sigma>' \<Longrightarrow> traffic \<sigma>' = (traffic \<sigma>)
      \<lparr>t_client_got := t_client_got (traffic \<sigma>) @ xs, t_broker_sent := t_broker_sent (traffic \<sigma>) @ xs\<rparr> \<Longrightarrow> held \<sigma>' = held \<sigma> \<Longrightarrow> Q () \<sigma>'"
  shows "wp (copy_to_broker (myCopyN sz b)) Q E \<sigma>"
proof -
  let ?s = "cn_in (ps_client \<sigma>)" and ?d = "cn_out (ps_broker \<sigma>)"
  have c: "clean ?s" "snk_events ?d = []" "pending ?s = xs @ cs" using assms(1) by (auto simp: calm_def)
  obtain s' where s': "myCopyN sz b (?d, ?s) = (Inr (), (?d\<lparr>snk_out := snk_out ?d @ xs\<rparr>, s'))"
    "delivers ?s xs s'"
    using myCopyN_clean [OF c(1,2) assms(3), of sz] c(3) assms(2) by auto
  then show ?thesis
    using assms(1,4)
    by (simp add: copy_to_broker_def wp_def zoom_def calm_def delivers_def traffic_def)
qed

lemma calm_copy_to_client:
  assumes "calm cs (xs @ bs) \<sigma>" "sz = int (length xs)" "0 < b"
    and "\<And>\<sigma>'. calm cs bs \<sigma>' \<Longrightarrow> traffic \<sigma>' = (traffic \<sigma>)
      \<lparr>t_broker_got := t_broker_got (traffic \<sigma>) @ xs, t_client_sent := t_client_sent (traffic \<sigma>) @ xs\<rparr> \<Longrightarrow> held \<sigma>' = held \<sigma> \<Longrightarrow> Q () \<sigma>'"
  shows "wp (copy_to_client (myCopyN sz b)) Q E \<sigma>"
proof -
  let ?s = "cn_in (ps_broker \<sigma>)" and ?d = "cn_out (ps_client \<sigma>)"
  have c: "clean ?s" "snk_events ?d = []" "pending ?s = xs @ bs" using assms(1) by (auto simp: calm_def)
  obtain s' where s': "myCopyN sz b (?d, ?s) = (Inr (), (?d\<lparr>snk_out := snk_out ?d @ xs\<rparr>, s'))"
    "delivers ?s xs s'"
    using myCopyN_clean [OF c(1,2) assms(3), of sz] c(3) assms(2) by auto
  then show ?thesis
    using assms(1,4)
    by (simp add: copy_to_client_def wp_def zoom_def calm_def delivers_def traffic_def)
qed

subsection \<open>The channels\<close>

lemma calm_put_open:
  assumes "calm cs bs \<sigma>" "length (t_open (traffic \<sigma>)) < cap"
    and "\<And>\<sigma>'. calm cs bs \<sigma>' \<Longrightarrow> traffic \<sigma>' = (traffic \<sigma>)\<lparr>t_open := t_open (traffic \<sigma>) @ [x]\<rparr> \<Longrightarrow> held \<sigma>' = held \<sigma> \<Longrightarrow> Q () \<sigma>'"
  shows "wp (on_open (chan_put cap msg x)) Q E \<sigma>"
  using assms by (simp add: on_open_def wp_def zoom_def chan_put_def calm_def traffic_def)

lemma calm_put_nextRequest:
  assumes "calm cs bs \<sigma>" "length (t_nextRequest (traffic \<sigma>)) < cap"
    and "\<And>\<sigma>'. calm cs bs \<sigma>' \<Longrightarrow>
      traffic \<sigma>' = (traffic \<sigma>)\<lparr>t_nextRequest := t_nextRequest (traffic \<sigma>) @ [h]\<rparr> \<Longrightarrow> held \<sigma>' = held \<sigma> \<Longrightarrow> Q () \<sigma>'"
  shows "wp (on_nextRequest (chan_put cap msg h)) Q E \<sigma>"
  using assms by (simp add: on_nextRequest_def wp_def zoom_def chan_put_def calm_def traffic_def)

lemma calm_put_nextResponse:
  assumes "calm cs bs \<sigma>" "length (t_nextResponse (traffic \<sigma>)) < cap"
    and "\<And>\<sigma>'. calm cs bs \<sigma>' \<Longrightarrow>
      traffic \<sigma>' = (traffic \<sigma>)\<lparr>t_nextResponse := t_nextResponse (traffic \<sigma>) @ [k]\<rparr> \<Longrightarrow> held \<sigma>' = held \<sigma> \<Longrightarrow> Q () \<sigma>'"
  shows "wp (on_nextResponse (chan_put cap msg k)) Q E \<sigma>"
  using assms by (simp add: on_nextResponse_def wp_def zoom_def chan_put_def calm_def traffic_def)

lemma calm_get_open:
  assumes "calm cs bs \<sigma>" "t_open (traffic \<sigma>) = x # q"
    and "\<And>\<sigma>'. calm cs bs \<sigma>' \<Longrightarrow> traffic \<sigma>' = (traffic \<sigma>)\<lparr>t_open := q\<rparr> \<Longrightarrow> held \<sigma>' = held \<sigma> \<Longrightarrow> Q x \<sigma>'"
  shows "wp (on_open (chan_get msg)) Q E \<sigma>"
  using assms by (simp add: on_open_def wp_def zoom_def chan_get_def calm_def traffic_def)

lemmas calm_quiets = calm_deadlines calm_now calm_broker_write calm_client_write

lemmas calm_puts = calm_put_open calm_put_nextRequest calm_put_nextResponse

text \<open>What is proved with the failure \<open>False\<close> does succeed.\<close>

lemma wp_succeeds: "wp m Q (\<lambda>_ _. False) \<sigma> \<Longrightarrow> \<exists>a \<sigma>'. m \<sigma> = (Inr a, \<sigma>') \<and> Q a \<sigma>'"
  by (auto simp: wp_def split: prod.splits sum.splits)

text \<open>Connections and a clock for the examples.\<close>

definition sample_source :: "byte list list \<Rightarrow> source" where
  "sample_source cs = \<lparr>src_events = map (\<lambda>c. Chunk c None) cs, src_consumed = []\<rparr>"

definition sample_conn :: "byte list list \<Rightarrow> conn" where
  "sample_conn cs = \<lparr>cn_in = sample_source cs, cn_out = \<lparr>snk_events = [], snk_out = []\<rparr>,
     cn_readDeadline = None, cn_writeDeadline = None, cn_deadlineErrs = []\<rparr>"

definition sample_clock :: clock where
  "sample_clock = \<lparr>ck_times = int, ck_ticks = 0\<rparr>"

end
