(* ===== verification/RequestProps.thy ===== *)
theory RequestProps
  imports CalmSteps
begin

section \<open>The request loop: theorems\<close>

text \<open>
  The theorems on \<open>DefaultRequestHandler\<close>: what it forwards, that it forwards every request
  that comes on a working connection, what it refuses, and what a re-authentication puts on
  the wire.
\<close>

subsection \<open>What a turn forwards\<close>

text \<open>
  C6: A turn of the default request handler that returns without an error did one of two
  things.  Either it took exactly one whole request from the client (of the length its prefix
  says), whose API key is valid and not forbidden, appended exactly these bytes to what the
  broker was sent, queued the request for the response loop if and only if a reply is to come
  (always, but for a produce request whose acknowledgements, read behind the ids of its bytes,
  are 0, unless \<open>producerAcks0Disabled\<close> is set), and put the next handlers in place; or it was idle, its
  read having timed out within the first eight bytes, and sent the broker nothing but the two
  requests of a re-authentication.  The client was sent nothing in either case.  Nothing is
  assumed of the connections.
\<close>

theorem request_turn_forwards:
  assumes "DefaultRequestHandler_handleRequest p \<sigma> = (Inr (), \<sigma>')"
  shows "(\<exists>req. forwards_request p req (traffic \<sigma>) (traffic \<sigma>'))
    \<or> (\<exists>lost. idle_turn p lost (traffic \<sigma>) (traffic \<sigma>'))"
  using wp_InrD [OF DefaultRequestHandler_wp assms] .

text \<open>
  A turn of the default request handler that fails has sent the broker a prefix of what
  the client sent, or was idle; it never sent the client anything.
\<close>

theorem failed_request_turn:
  assumes "DefaultRequestHandler_handleRequest p \<sigma> = (Inl e, \<sigma>')"
  shows "sent_prefix (traffic \<sigma>) (traffic \<sigma>') \<or> idle_failure (traffic \<sigma>) (traffic \<sigma>')"
  using wp_InlD [OF DefaultRequestHandler_wp assms] .

subsection \<open>Every request is forwarded\<close>

text \<open>
  What a request must be for the handler to see whether a reply is due: any body if it is not
  a produce request or if producers never send \<open>acks=0\<close>; else a header and the acknowledgements
  as the Kafka protocol lays them out.
\<close>

definition acks_part :: "RequestKeyVersion \<Rightarrow> 32 word \<Rightarrow> string option \<Rightarrow> string option \<Rightarrow> 16 word \<Rightarrow> byte list" where
  "acks_part rkv corr client txn acks =
     be32 corr @ wire_nullable_string client
     @ (if rkv_ApiVersion rkv \<in> {0, 1, 2} then [] else wire_nullable_string txn) @ be16 acks"

definition reply_due :: "'s processor \<Rightarrow> RequestKeyVersion \<Rightarrow> byte list \<Rightarrow> bool \<Rightarrow> bool" where
  "reply_due p rkv body reply \<longleftrightarrow>
     (if rkv_ApiKey rkv = apiKeyProduce \<and> \<not> pr_producerAcks0Disabled p
      then \<exists>corr client txn acks rest. short_opt client \<and> short_opt txn
        \<and> body = acks_part rkv corr client txn acks @ rest \<and> reply = (acks \<noteq> 0)
      else reply)"

lemma consumes_mustReply:
  assumes "reply_due p rkv body reply"
  obtains bs rest where "body = bs @ rest" "consumes (mustReply p rkv) bs (reply, bs)"
    "reply_read p rkv (reply, bs) bs"
proof (cases "rkv_ApiKey rkv = apiKeyProduce \<and> \<not> pr_producerAcks0Disabled p")
  case False
  then have "consumes (mustReply p rkv) [] (reply, [])" "reply"
    using assms by (auto simp: mustReply_def reply_due_def consumes_aret)
  then show ?thesis by (intro that [of "[]" body]) (use False in \<open>auto simp: reply_read_def reply_expected_def\<close>)
next
  case True
  with assms obtain corr client txn acks rest where s: "short_opt client" "short_opt txn"
    and b: "body = acks_part rkv corr client txn acks @ rest" and r: "reply = (acks \<noteq> 0)"
    using assms [unfolded reply_due_def if_P [OF True]] by blast
  let ?bs = "acks_part rkv corr client txn acks"
  have "consumes (abind ReadAndDiscardHeaderV1Part (\<lambda>_. n)) ((be32 corr @ wire_nullable_string client) @ ys) acks"
    if "consumes n ys acks" for n ys
    by (rule consumes_abind [OF consumes_header_part [OF s(1)] that])
  from this [OF consumes_Read16 [of acks]] this [OF consumes_txn_acks [OF s(2), of acks]]
  have "consumes (if rkv_ApiVersion rkv \<in> {0, 1, 2}
      then abind ReadAndDiscardHeaderV1Part (\<lambda>_. ReadAndDiscardProduceAcks)
      else abind ReadAndDiscardHeaderV1Part (\<lambda>_. ReadAndDiscardProduceTxnAcks)) ?bs acks"
    by (auto simp: acks_part_def ReadAndDiscardProduceAcks_def)
  from consumes_abind_ret [OF consumes_tee [OF this], of "\<lambda>(acks, bufferRead). aret (acks \<noteq> 0, bufferRead)"]
  have c: "consumes (mustReply p rkv) ?bs (reply, ?bs)"
    using True by (simp add: mustReply_def r)
  let ?s = "\<lparr>src_events = [Chunk ?bs None], src_consumed = []\<rparr>"
  have ne: "?bs \<noteq> []" by (simp add: acks_part_def be32_def)
  have "clean ?s" "pending ?s = ?bs @ []" using ne by (simp_all add: clean_def pending_def)
  from consumesE [OF c this] obtain s' where
    s': "mustReply p rkv ?s = (Inr (reply, ?bs), s')" "delivers ?s ?bs s'" by blast
  with takesD(1) [OF takes_mustReply s'(1)] have "reply_read p rkv (reply, ?bs) ?bs"
    by (auto simp: delivers_def)
  with b c show ?thesis by (intro that)
qed

text \<open>The room a request needs in the three channels.\<close>

definition room :: "'s processor \<Rightarrow> traffic \<Rightarrow> bool" where
  "room p t \<longleftrightarrow> length (t_open t) < pr_openRequestsCap p
     \<and> length (t_nextRequest t) < pr_nextRequestHandlerCap p
     \<and> length (t_nextResponse t) < pr_nextResponseHandlerCap p"

lemma calm_forwardRequest:
  assumes "calm (ys @ cs) bs \<tau>" "room p t" "0 < pr_requestBufferSize p"
    and "traffic \<tau> = t\<lparr>t_client_got := t_client_got t @ kv @ xs\<rparr>"
    and "sint (rkv_Length rkv - of_nat (4 + length xs)) = int (length ys)"
  shows "wp (forwardRequest p kv rkv reply xs)
    (\<lambda>_ \<sigma>'. calm cs bs \<sigma>' \<and> traffic \<sigma>' = forwarded (kv @ xs @ ys) rkv reply t) (\<lambda>_ _. False) \<tau>"
  unfolding forwardRequest_def chan_defs
  by (((rule wp_combinator_rules wp_if)
    | (rule calm_quiets, rule assms(1))
    | (rule calm_quiets, assumption)
    | (rule calm_puts, rule assms(1), use assms(2,4) in \<open>simp add: room_def\<close>)
    | (rule calm_puts, assumption, use assms(2,4) in \<open>simp add: room_def\<close>)
    | (rule calm_copy_to_broker, assumption, rule assms(5), rule assms(3))
    | (rule conjI, assumption, simp add: assms(4) forwarded_def next_handlers_def v0_handshake_def))+)

lemma calm_handler:
  assumes "calm (req @ cs) bs \<sigma>" "whole_request req" "admitted p (frame_rkv req)"
    and "reply_due p (frame_rkv req) (drop 8 req) reply" "room p (traffic \<sigma>)" "0 < pr_requestBufferSize p"
    and "4 < sint (rkv_Length (frame_rkv req))"
  shows "wp (DefaultRequestHandler_handleRequest p)
    (\<lambda>_ \<sigma>'. calm cs bs \<sigma>' \<and> traffic \<sigma>' = forwarded req (frame_rkv req) reply (traffic \<sigma>)) (\<lambda>_ _. False) \<sigma>"
proof -
  let ?kv = "take 8 req" and ?rkv = "frame_rkv req"
  have kv: "length ?kv = 8" and k: "frame_rkv ?kv = ?rkv"
    using assms(2) frame_rkv_take [of req] by (auto simp: whole_request_def)
  have dec: "Decode (Some ?kv) RequestKeyVersion_decode x0 = Inr ?rkv" for x0
    using assms(7) k by (simp add: Decode_rkv [OF kv]) (simp add: frame_rkv_def)
  obtain xs rest where body: "drop 8 req = xs @ rest"
    and must: "consumes (mustReply p ?rkv) xs (reply, xs)" and rr: "reply_read p ?rkv (reply, xs) xs"
    using consumes_mustReply [OF assms(4)] by metis
  have req: "req = ?kv @ xs @ rest" using body by (metis append_take_drop_id)
  have "length (drop 8 req) = length xs + length rest" by (simp add: body)
  then have "int (length req) = 8 + (int (length xs) + int (length rest))"
    using assms(2) unfolding whole_request_def by (simp only: length_drop) linarith
  then have "int (length rest) = sint (rkv_Length ?rkv) - int (4 + length xs)"
    using assms(2) unfolding whole_request_def by linarith
  with sint_Length_minus [OF assms(7), of "length xs"] rr
  have sz: "sint (rkv_Length ?rkv - of_nat (4 + length xs)) = int (length rest)"
    by (simp add: reply_read_def)
  have c: "calm (?kv @ xs @ rest @ cs) bs \<sigma>" using assms(1) req by (metis append.assoc)
  note adm = assms(3) [unfolded admitted_def]
  note fwd = calm_forwardRequest [OF _ assms(5,6) _ sz, where kv = ?kv and reply = reply, folded req]
  have key: "wp (handleKeyVersion p ?kv)
      (\<lambda>_ \<sigma>'. calm cs bs \<sigma>' \<and> traffic \<sigma>' = forwarded req ?rkv reply (traffic \<sigma>)) (\<lambda>_ _. False) \<tau>"
    if \<tau>: "calm (xs @ rest @ cs) bs \<tau>"
      "traffic \<tau> = (traffic \<sigma>)\<lparr>t_client_got := t_client_got (traffic \<sigma>) @ ?kv\<rparr>" for \<tau>
    unfolding handleKeyVersion_def dec
    apply (rule wp_combinator_rules)+
    using assms(3)
    apply (simp only: admitted_def not_le [symmetric] simp_thms if_False wp_simps)
    apply (rule calm_client_read [OF must \<tau>(1)])
    using fwd \<tau> apply simp
    done
  show ?thesis
    unfolding DefaultRequestHandler_handleRequest_def
    by ((rule wp_combinator_rules)
      | (rule calm_quiets, rule c)
      | (rule calm_quiets, assumption)
      | (rule calm_client_read [OF consumes_read_full [OF kv]], assumption)
      | (simp only: sum.case, rule key, assumption, simp))+
qed

text \<open>
  C14: Every admitted request on a working connection is forwarded, however its bytes are cut
  into reads.  If the client is to deliver a whole request (for a produce request, one whose
  header is as the protocol says) and then \<open>cs\<close>, no operation on the connections fails and the
  channels have room, then the turn succeeds: exactly the request is taken and sent on, and
  \<open>cs\<close> is still to come.
\<close>

theorem request_forwarded_any_chunking:
  assumes "calm (req @ cs) bs \<sigma>" "whole_request req" "admitted p (frame_rkv req)"
    and "4 < sint (rkv_Length (frame_rkv req))"
    and "reply_due p (frame_rkv req) (drop 8 req) reply" "room p (traffic \<sigma>)" "0 < pr_requestBufferSize p"
  shows "\<exists>\<sigma>'. DefaultRequestHandler_handleRequest p \<sigma> = (Inr (), \<sigma>') \<and> calm cs bs \<sigma>'
    \<and> traffic \<sigma>' = forwarded req (frame_rkv req) reply (traffic \<sigma>)"
  using wp_succeeds [OF calm_handler [OF assms(1-3,5-7,4)]] by auto

definition sample_config :: "nat ProcessorConfig" where
  "sample_config = \<lparr>pc_MaxOpenRequests = 256, pc_NetAddressMappingFunc = None, pc_RequestBufferSize = 0,
     pc_ResponseBufferSize = 0, pc_WriteTimeout = 0, pc_ReadTimeout = 0, pc_ForbiddenApiKeys = [20],
     pc_ProducerAcks0Disabled = False, pc_InitialSessionLifetimeMs = 3600000, pc_SaslAuthByProxy = None\<rparr>"

definition sample_pstate :: "byte list list \<Rightarrow> byte list list \<Rightarrow> nat pstate" where
  "sample_pstate cs bs = (new_pstate sample_config 0 (sample_conn bs) (sample_conn cs) sample_clock 0)
     \<lparr>ps_nextRequest := []\<rparr>"

lemma sample_calm:
  "list_all (\<lambda>c. c \<noteq> []) cs \<Longrightarrow> list_all (\<lambda>c. c \<noteq> []) bs \<Longrightarrow> calm (concat cs) (concat bs) (sample_pstate cs bs)"
  by (simp add: calm_def sample_pstate_def new_pstate_def sample_conn_def sample_source_def clean_def
      pending_def list_all_iff comp_def)

text \<open>A metadata request of version 1, which arrives in four pieces, with a byte behind it.\<close>

definition sample_pieces :: "byte list list" where
  "sample_pieces = [[0, 0, 0], [9, 0, 3, 0], [1, 1, 2], [3, 4, 5, 99]]"

definition sample_request_frame :: "byte list" where
  "sample_request_frame = [0, 0, 0, 9, 0, 3, 0, 1, 1, 2, 3, 4, 5]"

lemmas sample_defs = sample_pstate_def new_pstate_def sample_config_def newProcessor_def
  minOpenRequests_def defaultRequestBufferSize_def Let_def

lemma sample_request_facts:
  "calm (sample_request_frame @ [99]) [] (sample_pstate sample_pieces [])"
  "frame_rkv sample_request_frame = \<lparr>rkv_Length = 9, rkv_ApiKey = 3, rkv_ApiVersion = 1\<rparr>"
  "whole_request sample_request_frame"
  "admitted (newProcessor sample_config) (frame_rkv sample_request_frame)"
  "4 < sint (rkv_Length (frame_rkv sample_request_frame))"
  "reply_due (newProcessor sample_config) (frame_rkv sample_request_frame) (drop 8 sample_request_frame) True"
  "room (newProcessor sample_config) (traffic (sample_pstate sample_pieces []))"
  "0 < pr_requestBufferSize (newProcessor sample_config)"
proof -
  show rkv: "frame_rkv sample_request_frame = \<lparr>rkv_Length = 9, rkv_ApiKey = 3, rkv_ApiVersion = 1\<rparr>"
    by (simp add: frame_rkv_def get_be32_def get_be16_def sample_request_frame_def)
  show "calm (sample_request_frame @ [99]) [] (sample_pstate sample_pieces [])"
    using sample_calm [of sample_pieces "[]"] by (simp add: sample_pieces_def sample_request_frame_def)
  show "whole_request sample_request_frame"
    unfolding whole_request_def rkv by (simp add: sample_request_frame_def)
  show "admitted (newProcessor sample_config) (frame_rkv sample_request_frame)"
    unfolding rkv by (simp add: admitted_def minRequestApiKey_def maxRequestApiKey_def sample_defs)
  show "4 < sint (rkv_Length (frame_rkv sample_request_frame))" unfolding rkv by simp
  show "reply_due (newProcessor sample_config) (frame_rkv sample_request_frame) (drop 8 sample_request_frame) True"
    unfolding rkv by (simp add: reply_due_def apiKeyProduce_def)
  show "room (newProcessor sample_config) (traffic (sample_pstate sample_pieces []))"
    by (simp add: room_def traffic_def sample_defs)
  show "0 < pr_requestBufferSize (newProcessor sample_config)" by (simp add: sample_defs)
qed

lemma request_forwarded_any_chunking_witness:
  "\<exists>\<sigma>'. DefaultRequestHandler_handleRequest (newProcessor sample_config) (sample_pstate sample_pieces [])
        = (Inr (), \<sigma>') \<and> calm [99] [] \<sigma>'
    \<and> traffic \<sigma>' = forwarded sample_request_frame (frame_rkv sample_request_frame) True
        (traffic (sample_pstate sample_pieces []))"
  by (rule request_forwarded_any_chunking [OF sample_request_facts(1,3-8)])

definition after_sample :: "nat pstate" where
  "after_sample = snd (DefaultRequestHandler_handleRequest (newProcessor sample_config)
     (sample_pstate sample_pieces []))"

lemma after_sample:
  "DefaultRequestHandler_handleRequest (newProcessor sample_config) (sample_pstate sample_pieces [])
     = (Inr (), after_sample)"
  using wp_succeeds [OF calm_handler [OF sample_request_facts(1,3,4,6,7,8,5)]]
  by (auto simp: after_sample_def)

lemma request_turn_forwards_witness:
  "(\<exists>req. forwards_request (newProcessor sample_config) req (traffic (sample_pstate sample_pieces []))
       (traffic after_sample))
    \<or> (\<exists>lost. idle_turn (newProcessor sample_config) lost (traffic (sample_pstate sample_pieces []))
       (traffic after_sample))"
  by (rule request_turn_forwards [OF after_sample])

subsection \<open>Refused requests\<close>

lemma refused_wp:
  assumes "calm (kv @ cs) bs \<sigma>" "length kv = 8" "4 < sint (rkv_Length (frame_rkv kv))"
    and "\<not> admitted p (frame_rkv kv)"
  shows "wp (DefaultRequestHandler_handleRequest p) (\<lambda>_ _. False)
    (\<lambda>e \<sigma>'. e \<in> {(True, GoErr (invalid_api_key (rkv_ApiKey (frame_rkv kv)))),
        (True, GoErr (forbidden_api_key (rkv_ApiKey (frame_rkv kv))))}
      \<and> traffic \<sigma>' = (traffic \<sigma>)\<lparr>t_client_got := t_client_got (traffic \<sigma>) @ kv\<rparr>) \<sigma>"
proof -
  have dec: "Decode (Some kv) RequestKeyVersion_decode x0 = Inr (frame_rkv kv)" for x0
    using assms(3) by (simp add: Decode_rkv [OF assms(2)]) (simp add: frame_rkv_def)
  have key: "wp (handleKeyVersion p kv) (\<lambda>_ _. False)
      (\<lambda>e \<sigma>'. e \<in> {(True, GoErr (invalid_api_key (rkv_ApiKey (frame_rkv kv)))),
          (True, GoErr (forbidden_api_key (rkv_ApiKey (frame_rkv kv))))} \<and> traffic \<sigma>' = t) \<tau>"
    if "traffic \<tau> = t" for t \<tau>
    using that assms(4)
    by (auto simp: handleKeyVersion_def dec wp_simps admitted_def not_le)
  show ?thesis
    unfolding DefaultRequestHandler_handleRequest_def
    by ((rule wp_combinator_rules)
      | (rule calm_quiets, rule assms(1))
      | (rule calm_quiets, assumption)
      | (rule calm_client_read [OF consumes_read_full [OF assms(2)]], assumption)
      | (simp only: sum.case, rule key, simp))+
qed

text \<open>
  C36: A request with an invalid or a forbidden API key is refused: the turn fails with the
  error that names the key, after the first eight bytes, and the broker is sent nothing.
\<close>

theorem refused_request:
  assumes "calm (kv @ cs) bs \<sigma>" "length kv = 8" "4 < sint (rkv_Length (frame_rkv kv))"
    and "\<not> admitted p (frame_rkv kv)"
  shows "\<exists>e \<sigma>'. DefaultRequestHandler_handleRequest p \<sigma> = (Inl (True, GoErr e), \<sigma>')
    \<and> e \<in> {invalid_api_key (rkv_ApiKey (frame_rkv kv)), forbidden_api_key (rkv_ApiKey (frame_rkv kv))}
    \<and> traffic \<sigma>' = (traffic \<sigma>)\<lparr>t_client_got := t_client_got (traffic \<sigma>) @ kv\<rparr>"
  using refused_wp [OF assms] by (auto simp: wp_def split: prod.splits sum.splits)

definition forbidden_frame :: "byte list" where
  "forbidden_frame = [0, 0, 0, 9, 0, 20, 0, 1]"

lemma forbidden_facts:
  "calm (forbidden_frame @ []) [] (sample_pstate [forbidden_frame] [])"
  "length forbidden_frame = 8" "4 < sint (rkv_Length (frame_rkv forbidden_frame))"
  "\<not> admitted (newProcessor sample_config) (frame_rkv forbidden_frame)"
proof -
  have rkv: "frame_rkv forbidden_frame = \<lparr>rkv_Length = 9, rkv_ApiKey = 20, rkv_ApiVersion = 1\<rparr>"
    by (simp add: frame_rkv_def get_be32_def get_be16_def forbidden_frame_def)
  show "calm (forbidden_frame @ []) [] (sample_pstate [forbidden_frame] [])"
    using sample_calm [of "[forbidden_frame]" "[]"] by (simp add: forbidden_frame_def)
  show "length forbidden_frame = 8" by (simp add: forbidden_frame_def)
  show "4 < sint (rkv_Length (frame_rkv forbidden_frame))" unfolding rkv by simp
  show "\<not> admitted (newProcessor sample_config) (frame_rkv forbidden_frame)"
    unfolding rkv by (simp add: admitted_def sample_defs)
qed

lemma refused_request_witness:
  "\<exists>e \<sigma>'. DefaultRequestHandler_handleRequest (newProcessor sample_config) (sample_pstate [forbidden_frame] [])
      = (Inl (True, GoErr e), \<sigma>')
    \<and> e \<in> {invalid_api_key (rkv_ApiKey (frame_rkv forbidden_frame)),
        forbidden_api_key (rkv_ApiKey (frame_rkv forbidden_frame))}
    \<and> traffic \<sigma>' = (traffic (sample_pstate [forbidden_frame] []))
        \<lparr>t_client_got := t_client_got (traffic (sample_pstate [forbidden_frame] [])) @ forbidden_frame\<rparr>"
  by (rule refused_request [OF forbidden_facts])

lemma failed_request_turn_witness:
  "\<exists>e \<sigma>'. DefaultRequestHandler_handleRequest (newProcessor sample_config) (sample_pstate [forbidden_frame] [])
      = (Inl e, \<sigma>')
    \<and> (sent_prefix (traffic (sample_pstate [forbidden_frame] [])) (traffic \<sigma>')
       \<or> idle_failure (traffic (sample_pstate [forbidden_frame] [])) (traffic \<sigma>'))"
proof -
  obtain e \<sigma>' where "DefaultRequestHandler_handleRequest (newProcessor sample_config) (sample_pstate [forbidden_frame] [])
      = (Inl e, \<sigma>')"
    using refused_wp [OF forbidden_facts] by (auto simp: wp_def split: prod.splits sum.splits)
  with failed_request_turn [OF this] show ?thesis by blast
qed

subsection \<open>A time-out in the middle of a header\<close>

definition late_pstate :: "nat pstate" where
  "late_pstate = (sample_pstate [] [])\<lparr>ps_client := (sample_conn [])\<lparr>cn_in :=
     \<lparr>src_events = [Chunk [0, 0, 0, 9] None, Chunk [] (Some OsErrDeadlineExceeded),
        Chunk [0, 3, 0, 1, 1, 2, 3, 4, 5] None], src_consumed = []\<rparr>\<rparr>\<rparr>"

lemma late_read:
  "read_full 8 (cn_in (ps_client late_pstate)) = (Inl (GoErr OsErrDeadlineExceeded),
     \<lparr>src_events = [Chunk [0, 3, 0, 1, 1, 2, 3, 4, 5] None], src_consumed = [0, 0, 0, 9]\<rparr>)"
  unfolding read_full_def late_pstate_def
  by (subst read_full_loop.simps, simp add: src_read_def, subst read_full_loop.simps, simp add: src_read_def)

text \<open>
  A read deadline that passes in the middle of the first eight bytes of a request loses the
  bytes read.  If the read fails with the time-out, however many bytes it has taken by then, the
  turn succeeds as an idle one: the source stands behind these bytes, nothing was written to the
  broker, and nothing keeps them, so that the next turn takes the middle of the request for a
  header.  (The deadline is the one set to wake the loop for a re-authentication; here none is
  due yet.)
\<close>

theorem partial_header_lost:
  assumes "read_full 8 (cn_in (ps_client \<sigma>)) = (Inl (GoErr OsErrDeadlineExceeded), s)"
    and "cn_deadlineErrs (ps_client \<sigma>) = []" "cn_deadlineErrs (ps_broker \<sigma>) = []"
    and "ps_auth \<sigma> = Some a" "\<not> NeedsReauth a (ck_times (ps_clock \<sigma>) (ck_ticks (ps_clock \<sigma>)))"
    and "ps_nextRequest \<sigma> = []" "0 < pr_nextRequestHandlerCap p"
  shows "\<exists>\<sigma>'. DefaultRequestHandler_handleRequest p \<sigma> = (Inr (), \<sigma>')
    \<and> cn_in (ps_client \<sigma>') = s \<and> cn_out (ps_broker \<sigma>') = cn_out (ps_broker \<sigma>)
    \<and> ps_nextRequest \<sigma>' = [DefaultRequestHandler]"
  using assms
  by (simp add: DefaultRequestHandler_handleRequest_def abind_def flag_def atry_def agets_def zooms zoom_def
      SetReadDeadline_def SetWriteDeadline_def deadline_call_def amod_def onReadTimeout_def isReadDeadlineTimeout_def
      chan_defs chan_put_def clock_now_def aret_def)

lemma partial_header_lost_witness:
  "\<exists>\<sigma>'. DefaultRequestHandler_handleRequest (newProcessor sample_config) late_pstate = (Inr (), \<sigma>')
    \<and> cn_in (ps_client \<sigma>') = \<lparr>src_events = [Chunk [0, 3, 0, 1, 1, 2, 3, 4, 5] None], src_consumed = [0, 0, 0, 9]\<rparr>
    \<and> cn_out (ps_broker \<sigma>') = cn_out (ps_broker late_pstate) \<and> ps_nextRequest \<sigma>' = [DefaultRequestHandler]"
proof (rule partial_header_lost [OF late_read])
  show "ps_auth late_pstate = Some (newConnectionAuthState 3600000 0)"
    by (simp add: late_pstate_def sample_defs)
  show "\<not> NeedsReauth (newConnectionAuthState 3600000 0)
      (ck_times (ps_clock late_pstate) (ck_ticks (ps_clock late_pstate)))"
    using scaled_lifetime_bounds(2) [of 3600000]
    by (simp add: auth_defs late_pstate_def sample_defs sample_clock_def)
qed (simp_all add: late_pstate_def sample_defs sample_conn_def)

end
