(* ===== verification/SaslFacts.thy ===== *)
theory SaslFacts
  imports RequestFlow
begin

section \<open>The requests the proxy injects\<close>

text \<open>
  The contract between the request loop and the authenticator it holds: the bytes that
  \<open>buildReauthHandshakeRequest\<close> and \<open>buildReauthRequest\<close> return are whole requests of the right
  key and version that carry the correlation id given.  The request loop writes them on the
  broker connection among the client's requests, and the response loop recognises the replies
  by key and correlation id, so the lemmas about a re-authentication need nothing else.
  \<open>SASLOAuthBearerAuth\<close> keeps the contract.
\<close>

definition request_frame :: "16 word \<Rightarrow> 16 word \<Rightarrow> 32 word \<Rightarrow> byte list \<Rightarrow> bool" where
  "request_frame key version correlation bs \<longleftrightarrow> whole_request bs \<and> 12 \<le> length bs
     \<and> rkv_ApiKey (frame_rkv bs) = key \<and> rkv_ApiVersion (frame_rkv bs) = version
     \<and> get_be32 (drop 8 bs) = correlation"

locale reauth_requests =
  fixes handshake authenticate :: "32 word \<Rightarrow> ('s, byte list) action"
  assumes handshake_frame: "returns (handshake c) h \<Longrightarrow> request_frame apiKeySaslHandshake 1 c h"
    and authenticate_frame: "returns (authenticate c) r \<Longrightarrow> request_frame apiKeySaslAuthenticate 1 c r"
begin

text \<open>A reply with the correlation id of either request is taken for the proxy's own.\<close>

lemma replies_recognised:
  assumes "returns (handshake reauthHandshakeCorrelationID) h" "returns (authenticate reauthCorrelationID) r"
  shows "isProxyReauthResponse handshake_marker \<lparr>rh_Length = n, rh_CorrelationID = get_be32 (drop 8 h)\<rparr>"
    "isProxyReauthResponse authenticate_marker \<lparr>rh_Length = n, rh_CorrelationID = get_be32 (drop 8 r)\<rparr>"
  using handshake_frame [OF assms(1)] authenticate_frame [OF assms(2)]
  by (auto simp: request_frame_def isProxyReauthResponse_def isProxyReauthHandshakeResponse_def
      handshake_marker_def authenticate_marker_def)

text \<open>The markers queued stand for the requests sent, in their order.\<close>

lemma markers_match:
  assumes "returns (handshake reauthHandshakeCorrelationID) h" "returns (authenticate reauthCorrelationID) r"
  shows "t_open (reauth_sent h r t) = t_open t @ map (\<lambda>f. (frame_rkv f)\<lparr>rkv_Length := 0\<rparr>) [h, r]"
  using handshake_frame [OF assms(1)] authenticate_frame [OF assms(2)]
  by (auto simp: reauth_sent_def request_frame_def handshake_marker_def authenticate_marker_def frame_rkv_def)

end

subsection \<open>Frames of encoded requests\<close>

lemma encode_framed_wire:
  assumes "encode_framed r = Inr bs" "rq_Body r = Some b"
  shows "bs = framed (wire_Request r)" "int (length (wire_Request r)) \<le> MaxRequestSize"
    "short (rq_ClientID r) \<and> accepts_body b"
proof -
  from assms(1) obtain o' where e: "Encode (Some (Request_encode r)) = Inr o'" "bs = framed (nil_slice o')"
    by (auto simp: encode_framed_def rbind_Inr_conv)
  note w = Encode_passes [OF Request_passes [OF assms(2)] e(1)]
  with e(2) show "bs = framed (wire_Request r)" by (simp add: nil_slice_def)
  from w show a: "short (rq_ClientID r) \<and> accepts_body b" by simp
  with Request_passes [OF assms(2)] have "encodes (Request_encode r) (wire_Request r)"
    by (simp add: passes_def)
  with e(1) two_passes_encodes [OF this, of PacketEncodingError] show "int (length (wire_Request r)) \<le> MaxRequestSize"
    by (auto simp: Encode_def rbind_Inr_conv not_less split: if_splits)
qed

lemma framed_request:
  assumes "encode_framed r = Inr bs" "rq_Body r = Some b"
  shows "request_frame (body_key b) (body_version b) (rq_CorrelationID r) bs"
proof -
  let ?w = "wire_Request r"
  note w = encode_framed_wire [OF assms]
  have len: "sint (of_nat (length ?w) :: 32 word) = int (length ?w)"
    using w(2) by (intro sint_of_nat_32) (simp add: MaxRequestSize_def)
  obtain rest where rest: "?w = be16 (body_key b) @ be16 (body_version b) @ be32 (rq_CorrelationID r) @ rest"
    by (simp add: wire_Request_def assms(2))
  have "frame_rkv bs = \<lparr>rkv_Length = of_nat (length ?w), rkv_ApiKey = body_key b, rkv_ApiVersion = body_version b\<rparr>"
    by (simp add: frame_rkv_def w(1) framed_def rest)
  then show ?thesis
    using w(1) len by (simp add: request_frame_def whole_request_def framed_def rest)
qed

text \<open>The body of the frame decodes to the request that was encoded.\<close>

lemma framed_decodes:
  assumes "encode_framed r = Inr bs" "rq_Body r = Some b" "rq_Body r0 = Some b0" "body_for b0 b"
  shows "Decode (Some (drop 4 bs)) (Request_decode r0) x0 = Inr r"
  using encode_framed_wire [OF assms(1,2)] reads_Decode [OF reads_Request [OF assms(3,2,4)], of x0]
  by (simp add: framed_def)

subsection \<open>\<open>SASLOAuthBearerAuth\<close> keeps the contract\<close>

definition handshake_request :: "'s SASLOAuthBearerAuth \<Rightarrow> 32 word \<Rightarrow> Request" where
  "handshake_request b c = \<lparr>rq_CorrelationID = c, rq_ClientID = oa_clientID b,
     rq_Body = Some (BodySaslHandshake \<lparr>shq_Version = 1, shq_Mechanism = SASLOAuthBearer\<rparr>)\<rparr>"

definition authenticate_request :: "'s SASLOAuthBearerAuth \<Rightarrow> string \<Rightarrow> 32 word \<Rightarrow> Request" where
  "authenticate_request b token c = \<lparr>rq_CorrelationID = c, rq_ClientID = oa_clientID b,
     rq_Body = Some (BodySaslAuthenticateV1 \<lparr>sq1_SaslAuthBytes = Some (ToBytes token [] [])\<rparr>)\<rparr>"

lemma returns_handshake:
  "returns (buildReauthHandshakeRequest b c) h \<Longrightarrow> encode_framed (handshake_request b c) = Inr h"
  by (auto simp: returns_def buildReauthHandshakeRequest_def handshake_request_def)

lemma returns_token:
  assumes "getOAuthBearerToken b x = (Inr token, x')"
  shows "token \<noteq> []" "\<exists>resp. oa_tokenProvider b x = (Inr resp, x') \<and> tr_Success resp \<and> tr_Token resp = token"
  using assms by (auto simp: getOAuthBearerToken_def abind_Inr_conv split: if_splits)

lemma returns_authenticate:
  assumes "returns (buildReauthRequest b c) r"
  obtains token x x' where "getOAuthBearerToken b x = (Inr token, x')"
    "encode_framed (authenticate_request b token c) = Inr r"
proof -
  from assms obtain x token x' where "awrap ''re-auth: fetching token'' (getOAuthBearerToken b) x = (Inr token, x')"
    "encodeSaslAuthenticate b token c = Inr r"
    by (auto simp: returns_def buildReauthRequest_def abind_Inr_conv)
  then show ?thesis
    by (intro that) (auto simp: awrap_def encodeSaslAuthenticate_def authenticate_request_def
        split: prod.splits sum.splits gofail.splits)
qed

text \<open>A client id and a token of reasonable length can be encoded.\<close>

lemma encode_framed_ok:
  assumes "rq_Body r = Some b" "short (rq_ClientID r)" "accepts_body b"
    and "int (length (wire_Request r)) \<le> MaxRequestSize"
  shows "encode_framed r = Inr (framed (wire_Request r))"
proof -
  have "encodes (Request_encode r) (wire_Request r)"
    using Request_passes [OF assms(1)] assms(2,3) by (simp add: passes_def)
  from two_passes_encodes [OF this, of PacketEncodingError] assms(4) show ?thesis
    by (simp add: encode_framed_def Encode_def nil_slice_def)
qed

lemma length_ToBytes: "length (ToBytes token [] []) = length token + 18"
  by (simp add: ToBytes_def mkString_def)

definition encodable_token :: "'s SASLOAuthBearerAuth \<Rightarrow> string \<Rightarrow> bool" where
  "encodable_token b token \<longleftrightarrow> length (oa_clientID b) \<le> 32767 \<and> length token \<le> 100000000"

lemma oauth_encodes:
  assumes "encodable_token b token"
  shows "encode_framed (handshake_request b c) = Inr (framed (wire_Request (handshake_request b c)))"
    "encode_framed (authenticate_request b token c) = Inr (framed (wire_Request (authenticate_request b token c)))"
proof -
  note sizes = assms [unfolded encodable_token_def]
  show "encode_framed (handshake_request b c) = Inr (framed (wire_Request (handshake_request b c)))"
    by (rule encode_framed_ok [of _ "BodySaslHandshake \<lparr>shq_Version = 1, shq_Mechanism = SASLOAuthBearer\<rparr>"])
      (use sizes in \<open>simp_all add: handshake_request_def wire_Request_def wire_string_def short_def MaxInt16_def
         SASLOAuthBearer_def MaxRequestSize_def\<close>)
  show "encode_framed (authenticate_request b token c) = Inr (framed (wire_Request (authenticate_request b token c)))"
    by (rule encode_framed_ok [of _ "BodySaslAuthenticateV1 \<lparr>sq1_SaslAuthBytes = Some (ToBytes token [] [])\<rparr>"])
      (use sizes in \<open>simp_all add: authenticate_request_def wire_Request_def wire_string_def wire_bytes_def
         short_def MaxInt16_def fits32_def MaxInt32_def length_ToBytes MaxRequestSize_def\<close>)
qed

interpretation oauth: reauth_requests "buildReauthHandshakeRequest b" "buildReauthRequest b"
proof unfold_locales
  fix c h
  assume "returns (buildReauthHandshakeRequest b c) h"
  from framed_request [OF returns_handshake [OF this]] show "request_frame apiKeySaslHandshake 1 c h"
    by (simp add: handshake_request_def apiKeySaslHandshake_def)
next
  fix c r
  assume "returns (buildReauthRequest b c) r"
  then show "request_frame apiKeySaslAuthenticate 1 c r"
  proof (rule returns_authenticate)
    fix token x x'
    assume "encode_framed (authenticate_request b token c) = Inr r"
    from framed_request [OF this] show ?thesis
      by (simp add: authenticate_request_def apiKeySaslAuthenticate_def)
  qed
qed

end
