(* ===== verification/SaslProps.thy ===== *)
theory SaslProps
  imports SaslFacts CalmSteps
begin

section \<open>Authentication by the proxy: theorems\<close>

text \<open>
  The theorems on the initial authentication (\<open>sendAndReceiveSASLAuth\<close>), on the
  re-authentication of a live connection (\<open>runReauth\<close>) and on the OAUTHBEARER message.
\<close>

subsection \<open>The initial authentication\<close>

text \<open>What passes over the connection of a dial: the bytes taken and the bytes sent.\<close>

definition wire_io :: "'s wire \<Rightarrow> byte list \<times> byte list" where
  "wire_io w = (src_consumed (cn_in (w_conn w)), snk_out (cn_out (w_conn w)))"

lemmas wire_zooms = wire_conn_def wire_now_def wire_ext_def on_in_def on_out_def

lemma wp_wire_now [wp_intros]:
  "(\<And>t w'. wire_io w' = wire_io w \<Longrightarrow> Q t w') \<Longrightarrow> wp wire_now Q E w"
  by (simp add: wire_zooms wp_def zoom_def clock_now_def wire_io_def)

lemma wp_wire_deadline:
  assumes "m \<in> {SetReadDeadline t, SetWriteDeadline t, SetDeadline t}"
    and "\<And>w'. wire_io w' = wire_io w \<Longrightarrow> Q () w'" "\<And>e w'. wire_io w' = wire_io w \<Longrightarrow> E e w'"
  shows "wp (wire_conn m) Q E w"
  by (rule wpI)
    (use assms in \<open>auto simp: wire_conn_def zoom_Inr_conv wire_io_def dest!: conn_deadline_traffic [rotated, where t = t]\<close>)

lemmas wp_wire_deadlines [wp_intros] =
  wp_wire_deadline [where m = "SetReadDeadline t" and t = t for t, simplified]
  wp_wire_deadline [where m = "SetWriteDeadline t" and t = t for t, simplified]

lemma wp_wire_write [wp_intros]:
  assumes "\<And>w'. wire_io w' = (fst (wire_io w), snd (wire_io w) @ p) \<Longrightarrow> Q () w'"
    and "\<And>e w'. E e w'"
  shows "wp (wire_conn (conn_Write p)) Q E w"
  by (rule wpI)
    (use assms in \<open>auto simp: wire_zooms conn_Write_def zoom_Inr_conv wire_io_def dest!: write_all_Inr\<close>)

lemma wp_wire_read [wp_intros]:
  assumes "\<And>bs w'. length bs = n \<Longrightarrow> wire_io w' = (fst (wire_io w) @ bs, snd (wire_io w)) \<Longrightarrow> Q bs w'"
    and "\<And>e w'. E e w'"
  shows "wp (wire_conn (conn_ReadFull n)) Q E w"
  by (rule wpI)
    (use assms read_full_consumed [of n "cn_in (w_conn w)"] read_full_Inr_length [of n "cn_in (w_conn w)"]
       in \<open>auto simp: wire_zooms conn_ReadFull_def zoom_Inr_conv wire_io_def\<close>)

lemma wp_wire_ext:
  assumes "\<And>a w'. m (w_ext w) = (Inr a, w_ext w') \<Longrightarrow> wire_io w' = wire_io w \<Longrightarrow> Q a w'"
    and "\<And>e w'. E e w'"
  shows "wp (wire_ext m) Q E w"
  by (rule wpI) (use assms in \<open>auto simp: wire_ext_def zoom_Inr_conv wire_io_def\<close>)

lemma wp_awrap [wp_intros]:
  "wp m Q (\<lambda>e. E (case e of GoErr x \<Rightarrow> GoErr (WrapErr msg x) | GoPanic s \<Rightarrow> GoPanic s)) \<sigma> \<Longrightarrow> wp (awrap msg m) Q E \<sigma>"
  by (auto simp: wp_def awrap_def split: prod.splits sum.splits gofail.splits)

text \<open>
  A reply: the header of eight bytes and the payload of the length it names, less the four bytes
  of the correlation id.
\<close>

definition reply_frame :: "byte list \<Rightarrow> byte list \<Rightarrow> bool" where
  "reply_frame payload bs \<longleftrightarrow> (\<exists>header. bs = header @ payload \<and> length header = 8
     \<and> length payload = unat (get_be32 (take 4 header) - 4))"

lemma wp_read_reply [wp_intros]:
  assumes "\<And>payload bs w'. reply_frame payload bs \<Longrightarrow> wire_io w' = (fst (wire_io w) @ bs, snd (wire_io w)) \<Longrightarrow> Q payload w'"
    and "\<And>e w'. E e w'"
  shows "wp (read_reply s t) Q E w"
  unfolding read_reply_def
  by (intro wp_intros assms) (auto simp: reply_frame_def)

lemma sendAndReceiveHandshake_wp:
  "wp (sendAndReceiveHandshake sh) (\<lambda>_ w'. \<exists>h p bs res.
       encode_framed \<lparr>rq_CorrelationID = 0, rq_ClientID = sh_clientID sh,
         rq_Body = Some (BodySaslHandshake \<lparr>shq_Version = sh_version sh, shq_Mechanism = sh_mechanism sh\<rparr>)\<rparr> = Inr h
       \<and> wire_io w' = (fst (wire_io w) @ bs, snd (wire_io w) @ h) \<and> reply_frame p bs
       \<and> Decode (Some p) SaslHandshakeResponseV0orV1_decode \<lparr>shr_Err = 0, shr_EnabledMechanisms = None\<rparr> = Inr res
       \<and> shr_Err res = 0) (\<lambda>_ _. True) w"
  unfolding sendAndReceiveHandshake_def
  by (intro wp_intros TrueI; intro exI conjI; (assumption | simp))

lemma oauth_handshake_wp:
  "wp (sendAndReceiveHandshake \<lparr>sh_clientID = oa_clientID b, sh_version = 1, sh_mechanism = SASLOAuthBearer,
         sh_writeTimeout = wt, sh_readTimeout = rt\<rparr>) (\<lambda>_ w'. \<exists>h p bs res.
       encode_framed (handshake_request b 0) = Inr h
       \<and> wire_io w' = (fst (wire_io w) @ bs, snd (wire_io w) @ h) \<and> reply_frame p bs
       \<and> Decode (Some p) SaslHandshakeResponseV0orV1_decode \<lparr>shr_Err = 0, shr_EnabledMechanisms = None\<rparr> = Inr res
       \<and> shr_Err res = 0) (\<lambda>_ _. True) w"
  using sendAndReceiveHandshake_wp [of "\<lparr>sh_clientID = oa_clientID b, sh_version = 1,
      sh_mechanism = SASLOAuthBearer, sh_writeTimeout = wt, sh_readTimeout = rt\<rparr>" w]
  unfolding handshake_request_def SASLHandshake.select_convs .

lemma sendSaslAuthenticateRequest_wp:
  "wp (sendSaslAuthenticateRequest b token) (\<lambda>ms w'. \<exists>r p bs res.
       encode_framed (authenticate_request b token 0) = Inr r
       \<and> wire_io w' = (fst (wire_io w) @ bs, snd (wire_io w) @ r) \<and> reply_frame p bs
       \<and> Decode (Some p) SaslAuthenticateResponseV1_decode \<lparr>sr1_Err = 0, sr1_ErrMsg = None,
            sr1_SaslAuthBytes = None, sr1_SessionLifetimeMs = 0\<rparr> = Inr res
       \<and> sr1_Err res = 0 \<and> ms = sr1_SessionLifetimeMs res) (\<lambda>_ _. True) w"
  unfolding sendSaslAuthenticateRequest_def encodeSaslAuthenticate_def authenticate_request_def [symmetric]
  by (intro wp_intros TrueI; intro exI conjI; (assumption | simp))

definition authenticated :: "'s SASLOAuthBearerAuth \<Rightarrow> byte list \<times> byte list \<Rightarrow> 64 word \<Rightarrow> byte list \<times> byte list \<Rightarrow> bool" where
  "authenticated b io ms io' \<longleftrightarrow> (\<exists>token h r p1 bs1 hres p2 bs2 res. token \<noteq> []
    \<and> encode_framed (handshake_request b 0) = Inr h \<and> encode_framed (authenticate_request b token 0) = Inr r
    \<and> io' = (fst io @ bs1 @ bs2, snd io @ h @ r)
    \<and> reply_frame p1 bs1 \<and> reply_frame p2 bs2
    \<and> Decode (Some p1) SaslHandshakeResponseV0orV1_decode \<lparr>shr_Err = 0, shr_EnabledMechanisms = None\<rparr> = Inr hres
    \<and> shr_Err hres = 0
    \<and> Decode (Some p2) SaslAuthenticateResponseV1_decode \<lparr>sr1_Err = 0, sr1_ErrMsg = None,
         sr1_SaslAuthBytes = None, sr1_SessionLifetimeMs = 0\<rparr> = Inr res
    \<and> sr1_Err res = 0 \<and> ms = sr1_SessionLifetimeMs res)"

lemma sendAndReceiveSASLAuth_wp:
  "wp (sendAndReceiveSASLAuth b addr) (\<lambda>ms w'. authenticated b (wire_io w) ms (wire_io w')) (\<lambda>_ _. True) w"
  unfolding sendAndReceiveSASLAuth_def
proof (intro wp_combinator_rules wp_wire_ext TrueI, goal_cases)
  case (1 token w1)
  have t: "token \<noteq> []" by (rule returns_token(1) [OF 1(1)])
  note io = 1(2)
  show ?case
  proof (rule wp_conseq [OF oauth_handshake_wp], goal_cases)
    case (1 u w2)
    then obtain h p1 bs1 hres where h: "encode_framed (handshake_request b 0) = Inr h"
      "wire_io w2 = (fst (wire_io w) @ bs1, snd (wire_io w) @ h)" "reply_frame p1 bs1"
      "Decode (Some p1) SaslHandshakeResponseV0orV1_decode \<lparr>shr_Err = 0, shr_EnabledMechanisms = None\<rparr> = Inr hres"
      "shr_Err hres = 0"
      unfolding io by blast
    show ?case
    proof (rule wp_conseq [OF sendSaslAuthenticateRequest_wp], goal_cases)
      case (1 ms w3)
      then obtain r p2 bs2 res where "encode_framed (authenticate_request b token 0) = Inr r"
        "wire_io w3 = (fst (wire_io w2) @ bs2, snd (wire_io w2) @ r)" "reply_frame p2 bs2"
        "Decode (Some p2) SaslAuthenticateResponseV1_decode \<lparr>sr1_Err = 0, sr1_ErrMsg = None,
           sr1_SaslAuthBytes = None, sr1_SessionLifetimeMs = 0\<rparr> = Inr res"
        "sr1_Err res = 0" "ms = sr1_SessionLifetimeMs res" by blast
      with t h show ?case unfolding authenticated_def by (intro exI conjI) (assumption | simp)+
    qed simp
  qed simp
qed

text \<open>
  C11: An authentication that succeeds was accepted by the broker twice.  If
  \<open>sendAndReceiveSASLAuth\<close> returns a session lifetime, then the token provider gave a non-empty
  token, exactly the handshake request and the authenticate request with that token were sent,
  exactly two replies were taken, both decode and carry the error code zero, and the lifetime
  is the one of the second reply.
\<close>

theorem authentication_accepted:
  assumes "sendAndReceiveSASLAuth b addr w = (Inr ms, w')"
  shows "authenticated b (wire_io w) ms (wire_io w')"
  by (rule wp_InrD [where m = "sendAndReceiveSASLAuth b addr" and \<sigma> = w and E = "\<lambda>_ _. True",
      OF sendAndReceiveSASLAuth_wp assms])

text \<open>A connection without errors, whose broker will deliver \<open>bs\<close>.\<close>

definition wire_calm :: "byte list \<Rightarrow> 's wire \<Rightarrow> bool" where
  "wire_calm bs w \<longleftrightarrow> clean (cn_in (w_conn w)) \<and> pending (cn_in (w_conn w)) = bs
     \<and> snk_events (cn_out (w_conn w)) = [] \<and> cn_deadlineErrs (w_conn w) = []"

lemma wire_calm_now:
  "wire_calm bs w \<Longrightarrow> (\<And>t w'. wire_calm bs w' \<Longrightarrow> Q t w') \<Longrightarrow> wp wire_now Q E w"
  by (simp add: wire_zooms wp_def zoom_def clock_now_def wire_calm_def)

lemma wire_calm_deadline:
  assumes "m \<in> {SetReadDeadline t, SetWriteDeadline t, SetDeadline t}" "wire_calm bs w"
    and "\<And>w'. wire_calm bs w' \<Longrightarrow> Q () w'"
  shows "wp (wire_conn m) Q E w"
proof -
  from assms(2) have "cn_deadlineErrs (w_conn w) = []" by (simp add: wire_calm_def)
  from deadline_calm [OF assms(1) this] obtain c' where c': "m (w_conn w) = (Inr (), c')"
    "cn_in c' = cn_in (w_conn w)" "cn_out c' = cn_out (w_conn w)" "cn_deadlineErrs c' = []" by blast
  then show ?thesis using assms(2,3) by (simp add: wire_conn_def wp_def zoom_def wire_calm_def)
qed

lemmas wire_calm_deadlines =
  wire_calm_deadline [where m = "SetReadDeadline t" and t = t for t, simplified]
  wire_calm_deadline [where m = "SetWriteDeadline t" and t = t for t, simplified]

lemma wire_calm_write:
  "wire_calm bs w \<Longrightarrow> (\<And>w'. wire_calm bs w' \<Longrightarrow> Q () w') \<Longrightarrow> wp (wire_conn (conn_Write p)) Q E w"
  by (simp add: wire_zooms conn_Write_def wp_def zoom_def wire_calm_def write_all_calm)

lemmas wire_calm_steps = wire_calm_now wire_calm_deadlines wire_calm_write

lemma wire_calm_read:
  assumes "wire_calm (xs @ bs) w" "length xs = n" "\<And>w'. wire_calm bs w' \<Longrightarrow> Q xs w'"
  shows "wp (wire_conn (conn_ReadFull n)) Q E w"
proof -
  from assms(1) have "clean (cn_in (w_conn w))" "pending (cn_in (w_conn w)) = xs @ bs" by (simp_all add: wire_calm_def)
  from consumesE [OF consumes_read_full [OF assms(2)] this] obtain s where
    "read_full n (cn_in (w_conn w)) = (Inr xs, s)" "delivers (cn_in (w_conn w)) xs s" by blast
  with assms(1,3) show ?thesis
    by (simp add: wire_zooms conn_ReadFull_def wp_def zoom_def wire_calm_def delivers_def)
qed

lemma wire_calm_reply:
  assumes "wire_calm (xs @ bs) w" "reply_frame p xs" "\<And>w'. wire_calm bs w' \<Longrightarrow> Q p w'"
  shows "wp (read_reply s t) Q E w"
proof -
  from assms(2) obtain header where h: "xs = header @ p" "length header = 8"
    "length p = unat (get_be32 (take 4 header) - 4)" by (auto simp: reply_frame_def)
  have "wire_calm (header @ p @ bs) w" using assms(1) h by simp
  then show ?thesis
    unfolding read_reply_def
    by (intro wp_combinator_rules wp_awrap) (rule wire_calm_read, assumption, rule h,
        intro wp_awrap, rule wire_calm_read, assumption, rule h, rule assms(3))
qed

lemma sendAndReceiveSASLAuth_calm:
  assumes "wire_calm (bs1 @ bs2 @ bs3) w"
    and "oa_tokenProvider b (w_ext w) = (Inr resp, x)" "tr_Success resp" "tr_Token resp \<noteq> []"
    and "encode_framed (handshake_request b 0) = Inr h"
    and "encode_framed (authenticate_request b (tr_Token resp) 0) = Inr r"
    and "reply_frame p1 bs1" "reply_frame p2 bs2"
    and "Decode (Some p1) SaslHandshakeResponseV0orV1_decode \<lparr>shr_Err = 0, shr_EnabledMechanisms = None\<rparr> = Inr hres"
    and "shr_Err hres = 0"
    and "Decode (Some p2) SaslAuthenticateResponseV1_decode \<lparr>sr1_Err = 0, sr1_ErrMsg = None,
         sr1_SaslAuthBytes = None, sr1_SessionLifetimeMs = 0\<rparr> = Inr res"
    and "sr1_Err res = 0"
  shows "wp (sendAndReceiveSASLAuth b addr) (\<lambda>ms w'. ms = sr1_SessionLifetimeMs res \<and> wire_calm bs3 w') (\<lambda>_ _. False) w"
proof -
  have hs: "wp (sendAndReceiveHandshake \<lparr>sh_clientID = oa_clientID b, sh_version = 1, sh_mechanism = SASLOAuthBearer,
      sh_writeTimeout = oa_writeTimeout b, sh_readTimeout = oa_readTimeout b\<rparr>)
      (\<lambda>_ w'. wire_calm (bs2 @ bs3) w') (\<lambda>_ _. False) w1" if w1: "wire_calm (bs1 @ bs2 @ bs3) w1" for w1
    using assms(5,9,10) unfolding sendAndReceiveHandshake_def handshake_request_def SASLHandshake.select_convs
    by (simp only:) (((rule wp_combinator_rules wp_awrap) | (rule wire_calm_steps, rule w1)
        | (rule wire_calm_steps, assumption) | (rule wire_calm_reply [OF _ assms(7)], assumption)
        | (simp add: wp_simps; fail))+)
  have au: "wp (sendSaslAuthenticateRequest b (tr_Token resp))
      (\<lambda>ms w'. ms = sr1_SessionLifetimeMs res \<and> wire_calm bs3 w') (\<lambda>_ _. False) w2" if w2: "wire_calm (bs2 @ bs3) w2" for w2
    using assms(6,11,12) unfolding sendSaslAuthenticateRequest_def encodeSaslAuthenticate_def
      authenticate_request_def [symmetric]
    by (simp only:) (((rule wp_combinator_rules wp_awrap) | (rule wire_calm_steps, rule w2)
        | (rule wire_calm_steps, assumption) | (rule wire_calm_reply [OF _ assms(8)], assumption)
        | (simp add: wp_simps; fail))+)
  have tok: "wp (wire_ext (getOAuthBearerToken b)) (\<lambda>token w'. token = tr_Token resp \<and> wire_calm (bs1 @ bs2 @ bs3) w')
      (\<lambda>_ _. False) w"
    using assms(1-4)
    by (simp add: wire_ext_def wp_def zoom_def getOAuthBearerToken_def abind_def aret_def wire_calm_def)
  show ?thesis
    unfolding sendAndReceiveSASLAuth_def
    by (rule wp_combinator_rules, rule wp_conseq [OF tok], elim conjE, simp only:,
        rule wp_combinator_rules, rule wp_conseq [OF hs], assumption, rule au, assumption)
qed

text \<open>
  C22: Against a broker that accepts, the authentication succeeds.  If the token provider gives a
  token, the two requests can be encoded, the connection works and the broker will answer with
  two replies that decode and carry the error code zero, cut in any way, then
  \<open>sendAndReceiveSASLAuth\<close> returns the session lifetime of the second, and what the broker
  sends after it is left in place.
\<close>

theorem authentication_succeeds:
  assumes "wire_calm (bs1 @ bs2 @ bs3) w"
    and "oa_tokenProvider b (w_ext w) = (Inr resp, x)" "tr_Success resp" "tr_Token resp \<noteq> []"
    and "encode_framed (handshake_request b 0) = Inr h"
    and "encode_framed (authenticate_request b (tr_Token resp) 0) = Inr r"
    and "reply_frame p1 bs1" "reply_frame p2 bs2"
    and "Decode (Some p1) SaslHandshakeResponseV0orV1_decode \<lparr>shr_Err = 0, shr_EnabledMechanisms = None\<rparr> = Inr hres"
    and "shr_Err hres = 0"
    and "Decode (Some p2) SaslAuthenticateResponseV1_decode \<lparr>sr1_Err = 0, sr1_ErrMsg = None,
         sr1_SaslAuthBytes = None, sr1_SessionLifetimeMs = 0\<rparr> = Inr res"
    and "sr1_Err res = 0"
  shows "\<exists>w'. sendAndReceiveSASLAuth b addr w = (Inr (sr1_SessionLifetimeMs res), w') \<and> wire_calm bs3 w'"
  using wp_succeeds [OF sendAndReceiveSASLAuth_calm [OF assms]] by auto

definition sample_oauth :: "nat SASLOAuthBearerAuth" where
  "sample_oauth = \<lparr>oa_clientID = ''kp'', oa_writeTimeout = 30000000000, oa_readTimeout = 30000000000,
     oa_tokenProvider = (\<lambda>n. (Inr \<lparr>tr_Success = True, tr_Status = 200, tr_Token = ''tok''\<rparr>, Suc n))\<rparr>"

definition sample_replies :: "byte list \<times> byte list" where
  "sample_replies = ([0, 0, 0, 10, 0, 0, 0, 0, 0, 0, 0, 0, 0, 0],
     [0, 0, 0, 20, 0, 0, 0, 0, 0, 0, 255, 255, 255, 255, 255, 255, 0, 0, 0, 0, 0, 54, 238, 128])"

definition sample_wire :: "nat wire" where
  "sample_wire = \<lparr>w_conn = sample_conn [take 3 (fst sample_replies), drop 3 (fst sample_replies) @
       take 9 (snd sample_replies), drop 9 (snd sample_replies)],
     w_clock = sample_clock, w_ext = 0\<rparr>"

lemma sample_authentication:
  "wire_calm (fst sample_replies @ snd sample_replies @ []) sample_wire"
  "reply_frame [0, 0, 0, 0, 0, 0] (fst sample_replies)"
  "reply_frame [0, 0, 255, 255, 255, 255, 255, 255, 0, 0, 0, 0, 0, 54, 238, 128] (snd sample_replies)"
  "Decode (Some [0, 0, 0, 0, 0, 0]) SaslHandshakeResponseV0orV1_decode \<lparr>shr_Err = 0, shr_EnabledMechanisms = None\<rparr> =
     Inr \<lparr>shr_Err = 0, shr_EnabledMechanisms = Some []\<rparr>"
  "Decode (Some [0, 0, 255, 255, 255, 255, 255, 255, 0, 0, 0, 0, 0, 54, 238, 128]) SaslAuthenticateResponseV1_decode
     \<lparr>sr1_Err = 0, sr1_ErrMsg = None, sr1_SaslAuthBytes = None, sr1_SessionLifetimeMs = 0\<rparr> =
     Inr \<lparr>sr1_Err = 0, sr1_ErrMsg = None, sr1_SaslAuthBytes = None, sr1_SessionLifetimeMs = 3600000\<rparr>"
  subgoal by (simp add: wire_calm_def sample_wire_def sample_conn_def sample_source_def clean_def pending_def sample_replies_def)
  subgoal unfolding reply_frame_def by (rule exI [of _ "take 8 (fst sample_replies)"]) (simp add: sample_replies_def get_be32_def)
  subgoal unfolding reply_frame_def by (rule exI [of _ "take 8 (snd sample_replies)"]) (simp add: sample_replies_def get_be32_def)
  subgoal by code_simp
  subgoal by code_simp
  done

lemma sample_token:
  "oa_tokenProvider sample_oauth (w_ext sample_wire) =
     (Inr \<lparr>tr_Success = True, tr_Status = 200, tr_Token = ''tok''\<rparr>, 1)"
  "encodable_token sample_oauth ''tok''"
  by (simp_all add: sample_oauth_def sample_wire_def encodable_token_def)

lemma authentication_succeeds_witness:
  "\<exists>w'. sendAndReceiveSASLAuth sample_oauth ''broker:9092'' sample_wire = (Inr 3600000, w') \<and> wire_calm [] w'"
  using authentication_succeeds [OF sample_authentication(1) sample_token(1) _ _
      oauth_encodes(1) [OF sample_token(2)] _ sample_authentication(2,3,4) _ sample_authentication(5)]
    oauth_encodes(2) [OF sample_token(2)] by simp

definition sample_authenticated :: "nat wire" where
  "sample_authenticated = snd (sendAndReceiveSASLAuth sample_oauth ''broker:9092'' sample_wire)"

lemma sample_authenticated:
  "sendAndReceiveSASLAuth sample_oauth ''broker:9092'' sample_wire = (Inr 3600000, sample_authenticated)"
  using wp_succeeds [OF sendAndReceiveSASLAuth_calm [OF sample_authentication(1) sample_token(1) _ _
      oauth_encodes(1) [OF sample_token(2)] _ sample_authentication(2,3,4) _ sample_authentication(5),
      where addr = "''broker:9092''"]] oauth_encodes(2) [OF sample_token(2)]
  by (auto simp: sample_authenticated_def)

lemma authentication_accepted_witness:
  "authenticated sample_oauth (wire_io sample_wire) 3600000 (wire_io sample_authenticated)"
  by (rule authentication_accepted [OF sample_authenticated])

subsection \<open>Re-authentication\<close>

lemma oauth_by_proxy_sel:
  "sa_buildReauthHandshakeRequest (oauth_by_proxy b) = buildReauthHandshakeRequest b"
  "sa_buildReauthRequest (oauth_by_proxy b) = buildReauthRequest b"
  by (simp_all add: oauth_by_proxy_def)


text \<open>
  A re-authentication that is due is run.  On a working broker connection, with a token of
  reasonable length from the provider and room in the channels, \<open>runReauth\<close> sends the two
  requests and the state is in flight, with its deadline half a minute away.
\<close>

theorem due_reauth_runs:
  assumes "pr_saslAuthByProxy p = Some (oauth_by_proxy b)" "ps_auth \<sigma> = Some a"
    and "t = ck_times (ps_clock \<sigma>) (ck_ticks (ps_clock \<sigma>))" "NeedsReauth a t"
    and "oa_tokenProvider b (ps_ext \<sigma>) = (Inr resp, x)" "tr_Success resp" "tr_Token resp \<noteq> []"
    and "encodable_token b (tr_Token resp)"
    and "cn_deadlineErrs (ps_broker \<sigma>) = []" "snk_events (cn_out (ps_broker \<sigma>)) = []"
    and "length (ps_openRequests \<sigma>) + 2 \<le> pr_openRequestsCap p"
    and "length (ps_nextResponse \<sigma>) + 2 \<le> pr_nextResponseHandlerCap p"
  shows "\<exists>\<sigma>'. runReauth p \<sigma> = (Inr (), \<sigma>') \<and> ps_auth \<sigma>' = Some (MarkInFlight t a)
    \<and> traffic \<sigma>' = reauth_sent
        (framed (wire_Request (handshake_request b reauthHandshakeCorrelationID)))
        (framed (wire_Request (authenticate_request b (tr_Token resp) reauthCorrelationID))) (traffic \<sigma>)"
proof -
  have h: "buildReauthHandshakeRequest b c x' = (Inr (framed (wire_Request (handshake_request b c))), x')" for c x'
    using oauth_encodes(1) [OF assms(8), of c]
    by (simp add: buildReauthHandshakeRequest_def handshake_request_def [symmetric] aret_def)
  have r: "buildReauthRequest b c (ps_ext \<sigma>) =
      (Inr (framed (wire_Request (authenticate_request b (tr_Token resp) c))), x)" for c
    using oauth_encodes(2) [OF assms(8), of c] assms(5-7)
    by (simp add: buildReauthRequest_def encodeSaslAuthenticate_def authenticate_request_def [symmetric]
        getOAuthBearerToken_def abind_def awrap_def aret_def)
  show ?thesis
    using assms(1-4,9-12)
    by (simp add: runReauth_def abind_def agets_def zooms zoom_def clock_now_def oauth_by_proxy_sel h r
        SetWriteDeadline_def deadline_call_def amod_def conn_Write_def write_all_calm chan_defs chan_put_def
        aret_def reauth_sent_def traffic_def)
qed

definition reauth_config :: "nat ProcessorConfig" where
  "reauth_config = \<lparr>pc_MaxOpenRequests = 256, pc_NetAddressMappingFunc = None, pc_RequestBufferSize = 0,
     pc_ResponseBufferSize = 0, pc_WriteTimeout = 0, pc_ReadTimeout = 0, pc_ForbiddenApiKeys = [],
     pc_ProducerAcks0Disabled = False, pc_InitialSessionLifetimeMs = 3600000,
     pc_SaslAuthByProxy = Some (oauth_by_proxy sample_oauth)\<rparr>"

definition due_pstate :: "nat pstate" where
  "due_pstate = new_pstate reauth_config 0 (sample_conn []) (sample_conn [])
     \<lparr>ck_times = (\<lambda>n. 4000000000000), ck_ticks = 0\<rparr> 0"

lemma due_facts:
  "pr_saslAuthByProxy (newProcessor reauth_config) = Some (oauth_by_proxy sample_oauth)"
  "ps_auth due_pstate = Some (newConnectionAuthState 3600000 0)"
  "4000000000000 = ck_times (ps_clock due_pstate) (ck_ticks (ps_clock due_pstate))"
  "oa_tokenProvider sample_oauth (ps_ext due_pstate) = (Inr \<lparr>tr_Success = True, tr_Status = 200, tr_Token = ''tok''\<rparr>, 1)"
  "cn_deadlineErrs (ps_broker due_pstate) = []" "snk_events (cn_out (ps_broker due_pstate)) = []"
  "length (ps_openRequests due_pstate) + 2 \<le> pr_openRequestsCap (newProcessor reauth_config)"
  "length (ps_nextResponse due_pstate) + 2 \<le> pr_nextResponseHandlerCap (newProcessor reauth_config)"
  by (simp_all add: due_pstate_def new_pstate_def reauth_config_def newProcessor_def Let_def sample_oauth_def
      sample_conn_def minOpenRequests_def)

lemma due_reauth_runs_witness:
  "\<exists>\<sigma>'. runReauth (newProcessor reauth_config) due_pstate = (Inr (), \<sigma>')
    \<and> ps_auth \<sigma>' = Some (MarkInFlight 4000000000000 (newConnectionAuthState 3600000 0))
    \<and> traffic \<sigma>' = reauth_sent
        (framed (wire_Request (handshake_request sample_oauth reauthHandshakeCorrelationID)))
        (framed (wire_Request (authenticate_request sample_oauth ''tok'' reauthCorrelationID))) (traffic due_pstate)"
  using due_reauth_runs [OF due_facts(1-3) hour_session_due due_facts(4) _ _ _ due_facts(5-8)] sample_token(2)
  by simp




end
