(* ===== verification/ResponseFlow.thy ===== *)
theory ResponseFlow
  imports RequestFlow
begin

section \<open>The response loop: what reaches the client\<close>

text \<open>
  What a turn of the default response handler does to the traffic.  One frame is taken from the
  broker and one entry from the open requests; then the frame is either the reply to a request
  of the proxy's own, of which the client is sent nothing, or it is copied, or its body is
  replaced by what the response modifier makes of it.  When the turn fails, the client has got a
  prefix of what it would have got.  Nothing is assumed of the connections.
\<close>

subsection \<open>Frames\<close>

definition frame_header :: "byte list \<Rightarrow> ResponseHeader" where
  "frame_header b = \<lparr>rh_Length = get_be32 b, rh_CorrelationID = get_be32 (drop 4 b)\<rparr>"

text \<open>
  The length prefix of a frame is right.  It has 32 bits, so this is asked of frames that do not
  exceed it.
\<close>

definition whole_response :: "byte list \<Rightarrow> bool" where
  "whole_response f \<longleftrightarrow> 8 \<le> length f
     \<and> (length f < 2 ^ 31 \<longrightarrow> int (length f) = sint (rh_Length (frame_header f)) + 4)"

lemma frame_header_append: "length hd8 = 8 \<Longrightarrow> frame_header (hd8 @ xs) = frame_header hd8"
  by (simp add: frame_header_def get_be32_def nth_append)

lemma Decode_header:
  assumes "length b = 8"
  shows "Decode (Some b) ResponseHeader_decode x0 =
    (if sint (get_be32 b) \<le> 4 then Inl (GoErr (too_small (get_be32 b))) else Inr (frame_header b))"
  using assms
  by (simp add: Decode_def ResponseHeader_decode_def dbind_def getInt32_eq derr_def dret_def
      remaining_def rest_def frame_header_def)

lemma Encode_header:
  "Encode (Some (ResponseHeader_encode h)) = Inr (Some (be32 (rh_Length h) @ be32 (rh_CorrelationID h)))"
proof -
  have "passes (ResponseHeader_encode h) (be32 (rh_Length h) @ be32 (rh_CorrelationID h)) (True \<and> True)"
    unfolding ResponseHeader_encode_def by (intro passes_intros)
  then have "encodes (ResponseHeader_encode h) (be32 (rh_Length h) @ be32 (rh_CorrelationID h))"
    by (simp add: passes_def)
  from two_passes_encodes [OF this, of PacketEncodingError] show ?thesis
    by (simp add: Encode_def MaxRequestSize_def)
qed

lemma sint_header_length: "n < 2 ^ 31 \<Longrightarrow> sint (of_nat n :: 32 word) = int n"
  by (intro sint_of_nat_small) simp

text \<open>The frame of \<open>8 + n + k\<close> bytes whose body has the length the handler computes.\<close>

lemma whole_copied:
  assumes "length hb = 8" "4 < sint (rh_Length (frame_header hb))"
    and "int (length body) = sint (rh_Length (frame_header hb) - of_nat (4 + length tags))"
  shows "whole_response (hb @ tags @ body)"
proof -
  let ?L = "rh_Length (frame_header hb)"
  have "int (length (hb @ tags @ body)) = sint ?L + 4" if small: "length (hb @ tags @ body) < 2 ^ 31"
  proof -
    have n: "sint (of_nat (4 + length tags) :: 32 word) = int (4 + length tags)"
      using small assms(1) by (intro sint_header_length) simp
    have "signed_take_bit 31 (sint ?L - int (4 + length tags)) = sint ?L - int (4 + length tags)"
      using assms(1,2) small sint_lt [of ?L] by (intro signed_take_bit_int_eq_self) auto
    with n have "sint (?L - of_nat (4 + length tags)) = sint ?L - int (4 + length tags)"
      by (simp add: sint_word_ariths(2))
    with assms(1,3) show ?thesis by simp
  qed
  with assms(1) show ?thesis by (simp add: whole_response_def frame_header_append)
qed

definition new_header :: "ResponseHeader \<Rightarrow> byte list \<Rightarrow> byte list \<Rightarrow> byte list" where
  "new_header h tags body = be32 (of_nat (4 + length tags + length body)) @ be32 (rh_CorrelationID h)"

lemma Encode_new_header:
  "Encode (Some (ResponseHeader_encode
      \<lparr>rh_Length = of_int (int (length body) + sint (of_nat (4 + length tags) :: 32 word)),
        rh_CorrelationID = rh_CorrelationID h\<rparr>)) = Inr (Some (new_header h tags body))"
  by (simp add: Encode_header new_header_def ac_simps)

lemma new_header_prefixes:
  "prefix (new_header h tags b @ tags @ take n b) (new_header h tags b @ tags @ b)"
  "prefix (new_header h tags b @ take n tags) (new_header h tags b @ tags @ b)"
  "prefix (take n (new_header h tags b)) (new_header h tags b @ tags @ b)"
  by (simp_all add: prefix_prefix take_is_prefix)

lemma whole_rewritten:
  "whole_response (new_header h tags body @ tags @ body)
   \<and> rh_CorrelationID (frame_header (new_header h tags body @ tags @ body)) = rh_CorrelationID h"
proof -
  let ?b = "new_header h tags body"
  have l: "length ?b = 8" by (simp add: new_header_def)
  have h: "frame_header ?b = \<lparr>rh_Length = of_nat (4 + length tags + length body), rh_CorrelationID = rh_CorrelationID h\<rparr>"
    using get_be32_be32 [of "rh_CorrelationID h" "[]"] by (simp add: frame_header_def new_header_def)
  have "sint (of_nat (4 + length tags + length body) :: 32 word) = int (4 + length tags + length body)"
    if "length (?b @ tags @ body) < 2 ^ 31"
    using that l by (intro sint_header_length) simp
  then show ?thesis by (auto simp: whole_response_def l h frame_header_append)
qed

subsection \<open>The outcomes of a turn\<close>

text \<open>
  The frame \<open>f\<close> from the broker answers the open request \<open>rkv\<close>; \<open>g\<close> is what the client is sent
  for it.
\<close>

definition reply_for :: "'s processor \<Rightarrow> RequestKeyVersion \<Rightarrow> byte list \<Rightarrow> byte list \<Rightarrow> bool" where
  "reply_for p rkv f g \<longleftrightarrow>
     whole_response f \<and>
     (if isProxyReauthResponse rkv (frame_header f) then g = []
      else
        (case GetResponseModifier (rkv_ApiKey rkv) (rkv_ApiVersion rkv) (pr_netAddressMappingFunc p) of
           Inl _ \<Rightarrow> False
         | Inr None \<Rightarrow> g = f
         | Inr (Some m) \<Rightarrow> \<exists>hb tags body body'. f = hb @ tags @ body \<and> length hb = 8
             \<and> (sint (ResponseHeaderVersion rkv) < 1 \<longrightarrow> tags = [])
             \<and> returns (responseModifier_Apply m (Some body)) body'
             \<and> g = new_header (frame_header f) tags (nil_slice body') @ tags @ nil_slice body'))"

definition answered :: "'s processor \<Rightarrow> byte list \<Rightarrow> byte list \<Rightarrow> traffic \<Rightarrow> traffic \<Rightarrow> bool" where
  "answered p f g t t' \<longleftrightarrow> (\<exists>rkv q. t_open t = rkv # q \<and> reply_for p rkv f g
     \<and> t' = t\<lparr>t_broker_got := t_broker_got t @ f, t_client_sent := t_client_sent t @ g, t_open := q\<rparr>)"

text \<open>
  What the client may have got of the reply to \<open>rkv\<close> when a turn ends, with \<open>f\<close> taken from the
  broker: nothing; or, if the response has no modifier, a prefix of \<open>f\<close>; or a prefix of the whole
  reply to \<open>rkv\<close>, whose body is what the modifier made of the body of \<open>f\<close>.
\<close>

definition part_of_reply :: "'s processor \<Rightarrow> RequestKeyVersion \<Rightarrow> byte list \<Rightarrow> byte list \<Rightarrow> bool" where
  "part_of_reply p rkv f g \<longleftrightarrow> g = []
     \<or> (\<not> isProxyReauthResponse rkv (frame_header f) \<and> prefix g f
        \<and> GetResponseModifier (rkv_ApiKey rkv) (rkv_ApiVersion rkv) (pr_netAddressMappingFunc p) = Inr None)
     \<or> (\<exists>reply. reply_for p rkv f reply \<and> prefix g reply)"

lemma part_of_reply_none [simp]: "part_of_reply p rkv f []"
  by (simp add: part_of_reply_def)

lemma part_of_reauth: "part_of_reply p rkv f g \<Longrightarrow> isProxyReauthResponse rkv (frame_header f) \<Longrightarrow> g = []"
  by (auto simp: part_of_reply_def reply_for_def)

text \<open>After a failure: \<open>f\<close> was taken, and the client was sent a part of the reply, if anything.\<close>

definition response_failure :: "'s processor \<Rightarrow> traffic \<Rightarrow> traffic \<Rightarrow> bool" where
  "response_failure p t t' \<longleftrightarrow> (\<exists>f g. t' = t\<lparr>t_broker_got := t_broker_got t @ f,
       t_client_sent := t_client_sent t @ g, t_open := t_open t'\<rparr>
     \<and> t_open t' \<in> {t_open t, tl (t_open t)}
     \<and> (g = [] \<or> t_open t \<noteq> [] \<and> part_of_reply p (hd (t_open t)) f g))"

subsection \<open>The steps of the handler\<close>

text \<open>
  \<open>exchange t P t'\<close>: from \<open>t\<close> to \<open>t'\<close> some bytes were taken from the broker and some sent to the
  client, related by \<open>P\<close>, and nothing else happened.
\<close>

definition exchange :: "traffic \<Rightarrow> (byte list \<Rightarrow> byte list \<Rightarrow> bool) \<Rightarrow> traffic \<Rightarrow> bool" where
  "exchange t P t' \<longleftrightarrow> (\<exists>f g. t' = t\<lparr>t_broker_got := t_broker_got t @ f,
     t_client_sent := t_client_sent t @ g\<rparr> \<and> P f g)"

lemma exchange_simps [simp]:
  "exchange t P t = P [] []"
  "exchange t P (t\<lparr>t_broker_got := t_broker_got t @ f\<rparr>) = P f []"
  "exchange t P (t\<lparr>t_client_sent := t_client_sent t @ g\<rparr>) = P [] g"
  "exchange t P (t\<lparr>t_broker_got := t_broker_got t @ f, t_client_sent := t_client_sent t @ g\<rparr>) = P f g"
  by (cases t; auto simp: exchange_def)+

lemma sint_minus_4: "4 \<le> sint (n :: 32 word) \<Longrightarrow> sint (n - 4) = sint n - 4"
  using sint_lt [of n]
  by (simp add: sint_word_ariths(2) signed_take_bit_int_eq_self)

lemma consumeReauthResponse_wp:
  "wp (consumeReauthResponse p h)
    (\<lambda>_ \<sigma>'. exchange (traffic \<sigma>) (\<lambda>body g. int (length body) = sint (rh_Length h - 4) \<and> g = []) (traffic \<sigma>'))
    (\<lambda>_ \<sigma>'. exchange (traffic \<sigma>) (\<lambda>body g. g = []) (traffic \<sigma>')) \<sigma>"
  unfolding consumeReauthResponse_def completeReauthHandshake_def
  by (intro wp_intros; simp add: sint_minus_4)

lemma nil_slice_simps: "nil_slice (Some xs) = xs" "nil_slice None = []"
  by (simp_all add: nil_slice_def)

lemma rewriteResponse_wp:
  "wp (rewriteResponse p h tags m)
    (\<lambda>_ \<sigma>'. exchange (traffic \<sigma>) (\<lambda>body g. int (length body) = sint (rh_Length h - of_nat (4 + length tags))
       \<and> (\<exists>body'. returns (responseModifier_Apply m (Some body)) body'
            \<and> g = new_header h tags (nil_slice body') @ tags @ nil_slice body')) (traffic \<sigma>'))
    (\<lambda>_ \<sigma>'. exchange (traffic \<sigma>) (\<lambda>body g. g = []
       \<or> int (length body) = sint (rh_Length h - of_nat (4 + length tags))
         \<and> (\<exists>body'. returns (responseModifier_Apply m (Some body)) body'
            \<and> prefix g (new_header h tags (nil_slice body') @ tags @ nil_slice body'))) (traffic \<sigma>')) \<sigma>"
  unfolding rewriteResponse_def Let_def
  by (intro wp_intros; (simp only: Encode_new_header Inr_Inl_False sum.distinct sum.inject)?;
      (auto simp: nil_slice_simps)?; blast intro: new_header_prefixes)

lemma copyResponse_wp:
  "wp (copyResponse p hb h tags)
    (\<lambda>_ \<sigma>'. exchange (traffic \<sigma>) (\<lambda>body g. int (length body) = sint (rh_Length h - of_nat (4 + length tags))
       \<and> g = hb @ tags @ body) (traffic \<sigma>'))
    (\<lambda>_ \<sigma>'. exchange (traffic \<sigma>) (\<lambda>body g. prefix g (hb @ tags @ body)) (traffic \<sigma>')) \<sigma>"
  unfolding copyResponse_def
  by (intro wp_intros; simp add: prefix_parts)

lemma exchange_mono:
  "exchange t P t' \<Longrightarrow> (\<And>f g. P f g \<Longrightarrow> Q f g) \<Longrightarrow> exchange t Q t'"
  by (auto simp: exchange_def)

lemma exchange_after:
  "exchange (t\<lparr>t_broker_got := t_broker_got t @ bs\<rparr>) P t' \<Longrightarrow>
   exchange t (\<lambda>f g. \<exists>f'. f = bs @ f' \<and> P f' g) t'"
  by (auto simp: exchange_def)

lemma reply_for_rewritten:
  assumes "length hb = 8" "whole_response (hb @ tags @ body)" "\<not> isProxyReauthResponse rkv (frame_header hb)"
    and "GetResponseModifier (rkv_ApiKey rkv) (rkv_ApiVersion rkv) (pr_netAddressMappingFunc p) = Inr (Some m)"
    and "sint (ResponseHeaderVersion rkv) < 1 \<longrightarrow> tags = []"
    and "returns (responseModifier_Apply m (Some body)) body'"
  shows "reply_for p rkv (hb @ tags @ body)
    (new_header (frame_header hb) tags (nil_slice body') @ tags @ nil_slice body')"
  unfolding reply_for_def frame_header_append [OF assms(1)]
  using assms by auto

lemma forwardResponse_wp:
  assumes hb: "length hb = 8" "4 < sint (rh_Length (frame_header hb))"
    and ours: "\<not> isProxyReauthResponse rkv (frame_header hb)"
  shows "wp (forwardResponse p hb rkv (frame_header hb))
    (\<lambda>_ \<sigma>'. exchange (traffic \<sigma>) (\<lambda>f g. reply_for p rkv (hb @ f) g) (traffic \<sigma>'))
    (\<lambda>_ \<sigma>'. exchange (traffic \<sigma>) (\<lambda>f g. part_of_reply p rkv (hb @ f) g) (traffic \<sigma>')) \<sigma>"
proof -
  let ?h = "frame_header hb"
  have copied: "wp (copyResponse p hb ?h tags)
      (\<lambda>_ \<sigma>'. exchange (traffic \<sigma>) (\<lambda>f g. reply_for p rkv (hb @ f) g) (traffic \<sigma>'))
      (\<lambda>_ \<sigma>'. exchange (traffic \<sigma>) (\<lambda>f g. part_of_reply p rkv (hb @ f) g) (traffic \<sigma>')) \<tau>"
    if m: "GetResponseModifier (rkv_ApiKey rkv) (rkv_ApiVersion rkv) (pr_netAddressMappingFunc p) = Inr None"
      and \<tau>: "traffic \<tau> = (traffic \<sigma>)\<lparr>t_broker_got := t_broker_got (traffic \<sigma>) @ tags\<rparr>" for tags \<tau>
    by (rule wp_conseq [OF copyResponse_wp]; unfold \<tau>; drule exchange_after; erule exchange_mono)
      (use whole_copied [OF hb] ours in \<open>auto simp: reply_for_def part_of_reply_def m frame_header_append hb(1)\<close>)
  have rewritten: "wp (rewriteResponse p ?h tags m)
      (\<lambda>_ \<sigma>'. exchange (traffic \<sigma>) (\<lambda>f g. reply_for p rkv (hb @ f) g) (traffic \<sigma>'))
      (\<lambda>_ \<sigma>'. exchange (traffic \<sigma>) (\<lambda>f g. part_of_reply p rkv (hb @ f) g) (traffic \<sigma>')) \<tau>"
    if m: "GetResponseModifier (rkv_ApiKey rkv) (rkv_ApiVersion rkv) (pr_netAddressMappingFunc p) = Inr (Some m)"
      and \<tau>: "traffic \<tau> = (traffic \<sigma>)\<lparr>t_broker_got := t_broker_got (traffic \<sigma>) @ tags\<rparr>"
      and v: "sint (ResponseHeaderVersion rkv) < 1 \<longrightarrow> tags = []" for tags \<tau> m
    by (rule wp_conseq [OF rewriteResponse_wp]; unfold \<tau>; drule exchange_after; erule exchange_mono)
      (use reply_for_rewritten [OF hb(1) whole_copied [OF hb] ours m v] in \<open>auto simp: part_of_reply_def\<close>)
  show ?thesis
    unfolding forwardResponse_def
  proof (intro wp_intros, goal_cases)
    case (1 _ \<sigma>1 _ \<sigma>2 _ \<sigma>3 r tags bs \<tau> m)
    then have \<tau>: "traffic \<tau> = (traffic \<sigma>)\<lparr>t_broker_got := t_broker_got (traffic \<sigma>) @ tags\<rparr>" by simp
    have "rhtf_version r = ResponseHeaderVersion rkv"
      using 1(4) by (auto simp: NewResponseHeaderTaggedFields_def Let_def split: if_splits)
    with 1(6) have v: "sint (ResponseHeaderVersion rkv) < 1 \<longrightarrow> tags = []"
      using MaybeRead_0 [of r] by auto
    show ?case
    proof (cases m)
      case None
      with copied [OF _ \<tau>] 1(8) show ?thesis by simp
    next
      case (Some x)
      with rewritten [OF _ \<tau> v] 1(8) show ?thesis by simp
    qed
  qed simp_all
qed

lemma response_failure_unsent:
  "response_failure p t t"
  "response_failure p t (t\<lparr>t_broker_got := t_broker_got t @ f\<rparr>)"
  "t_open t = [] \<Longrightarrow> response_failure p t (t\<lparr>t_broker_got := t_broker_got t @ f, t_open := []\<rparr>)"
  unfolding response_failure_def
  by (rule exI [of _ "[]"], rule exI [of _ "[]"], simp)
    (rule exI [of _ f], rule exI [of _ "[]"], simp)+

text \<open>From the state after the header and the open request are taken to the whole turn.\<close>

lemma after_header:
  assumes \<tau>: "t = t0\<lparr>t_broker_got := t_broker_got t0 @ hb, t_open := q\<rparr>"
    and hb: "length hb = 8" and q: "t_open t0 = rkv # q"
  shows "exchange t (\<lambda>f g. reply_for p rkv (hb @ f) g) u \<Longrightarrow> \<exists>f g. answered p f g t0 u"
    and "exchange t P u \<Longrightarrow> (\<And>f g. P f g \<Longrightarrow> part_of_reply p rkv (hb @ f) g)
      \<Longrightarrow> response_failure p t0 u"
proof -
  have u: "\<exists>f g. u = t0\<lparr>t_broker_got := t_broker_got t0 @ hb @ f,
        t_client_sent := t_client_sent t0 @ g, t_open := q\<rparr> \<and> R f g" if "exchange t R u" for R
    using that by (cases t0) (auto simp: exchange_def \<tau>)
  show "\<exists>f g. answered p f g t0 u" if "exchange t (\<lambda>f g. reply_for p rkv (hb @ f) g) u"
    using u [OF that] by (auto simp: answered_def q)
  show "response_failure p t0 u" if "exchange t P u"
    "\<And>f g. P f g \<Longrightarrow> part_of_reply p rkv (hb @ f) g"
  proof -
    from u [OF that(1)] obtain f g where fg: "u = t0
      \<lparr>t_broker_got := t_broker_got t0 @ hb @ f, t_client_sent := t_client_sent t0 @ g,
       t_open := q\<rparr>" "P f g" by blast
    with that(2) [OF fg(2)] show ?thesis
      unfolding response_failure_def
      by (intro exI [of _ "hb @ f"] exI [of _ g]) (simp add: q)
  qed
qed

lemma Decode_headerD:
  assumes "length hb = 8" "Decode (Some hb) ResponseHeader_decode x0 = Inr h"
  shows "h = frame_header hb" "4 < sint (rh_Length (frame_header hb))"
  using assms by (auto simp: Decode_header frame_header_def split: if_splits)

text \<open>What a turn of the default handler does.\<close>

lemma DefaultResponseHandler_wp:
  "wp (DefaultResponseHandler_handleResponse p)
    (\<lambda>_ \<sigma>'. \<exists>f g. answered p f g (traffic \<sigma>) (traffic \<sigma>'))
    (\<lambda>_ \<sigma>'. response_failure p (traffic \<sigma>) (traffic \<sigma>')) \<sigma>"
  unfolding DefaultResponseHandler_handleResponse_def chan_defs
proof (intro wp_intros allI impI, goal_cases)
  case (1 _ \<sigma>1 _ \<sigma>2 hb bs \<sigma>3 h rkv q \<tau>)
  then have hb: "length hb = 8" by simp
  note h = Decode_headerD [OF hb 1(6)]
  have \<tau>: "traffic \<tau> = (traffic \<sigma>)\<lparr>t_broker_got := t_broker_got (traffic \<sigma>) @ hb, t_open := q\<rparr>"
    and q: "t_open (traffic \<sigma>) = rkv # q" using 1 by auto
  note after = after_header [OF \<tau> hb q]
  show ?case
  proof (rule wp_conseq [OF consumeReauthResponse_wp])
    fix u and \<upsilon> :: "'a pstate"
    assume "exchange (traffic \<tau>) (\<lambda>body g. int (length body) = sint (rh_Length h - 4) \<and> g = []) (traffic \<upsilon>)"
    then show "\<exists>f g. answered p f g (traffic \<sigma>) (traffic \<upsilon>)"
      by (rule after(1) [OF exchange_mono])
        (use 1(9) whole_copied [OF hb h(2), of _ "[]"] h hb in \<open>simp add: reply_for_def frame_header_append\<close>)
  next
    fix e and \<upsilon> :: "'a pstate"
    assume "exchange (traffic \<tau>) (\<lambda>body g. g = []) (traffic \<upsilon>)"
    then show "response_failure p (traffic \<sigma>) (traffic \<upsilon>)" by (rule after(2)) simp
  qed
next
  case (2 _ \<sigma>1 _ \<sigma>2 hb bs \<sigma>3 h rkv q \<tau>)
  then have hb: "length hb = 8" by simp
  note h = Decode_headerD [OF hb 2(6)]
  have \<tau>: "traffic \<tau> = (traffic \<sigma>)\<lparr>t_broker_got := t_broker_got (traffic \<sigma>) @ hb, t_open := q\<rparr>"
    and q: "t_open (traffic \<sigma>) = rkv # q" using 2 by auto
  note after = after_header [OF \<tau> hb q]
  have ours: "\<not> isProxyReauthResponse rkv (frame_header hb)" using 2(9) h(1) by simp
  show ?case
    unfolding h(1)
  proof (rule wp_conseq [OF forwardResponse_wp [OF hb h(2) ours]])
    fix e and \<upsilon> :: "'a pstate"
    assume "exchange (traffic \<tau>) (\<lambda>f g. part_of_reply p rkv (hb @ f) g) (traffic \<upsilon>)"
    then show "response_failure p (traffic \<sigma>) (traffic \<upsilon>)" by (rule after(2))
  qed (rule after(1))
next
qed (simp_all add: response_failure_unsent)

end
