(* ===== verification/ReplyProps.thy ===== *)
theory ReplyProps
  imports CalmSteps ResponseFlow ResponseProps
begin

section \<open>The response loop: theorems\<close>

text \<open>
  The theorems on \<open>DefaultResponseHandler\<close>: what a turn sends to the client, that replies to the
  proxy's own requests are kept from it, that every reply on a working connection gets
  through, that an accepted re-authentication is completed, and a frame that makes the turn panic.
\<close>

subsection \<open>What the client is sent\<close>

text \<open>
  C7: A turn of the default response handler that returns without an error took one whole frame
  from the broker (of the length its prefix says) and one entry from the open requests.  If the
  entry and the frame's correlation id are those of a re-authentication the client was sent
  nothing; if the entry's response has no modifier it was sent exactly the frame; else it was
  sent a frame with the same correlation id and header fields, whose body is what the modifier
  made of the body.  Nothing is assumed of the connections.
\<close>

theorem response_turn_answers:
  assumes "DefaultResponseHandler_handleResponse p \<sigma> = (Inr (), \<sigma>')"
  shows "\<exists>f g. answered p f g (traffic \<sigma>) (traffic \<sigma>')"
  using wp_InrD [OF DefaultResponseHandler_wp assms] .

lemma answered_exchange:
  assumes "answered p f g t t'"
  shows "t_open t \<noteq> [] \<and> part_of_reply p (hd (t_open t)) f g
    \<and> t_broker_got t' = t_broker_got t @ f \<and> t_client_sent t' = t_client_sent t @ g
    \<and> t_client_got t' = t_client_got t \<and> t_broker_sent t' = t_broker_sent t"
  using assms by (auto simp: answered_def part_of_reply_def)

text \<open>
  C10: Whatever the outcome of a turn, an error or a panic included, the client was sent nothing
  but a part of the reply to the oldest open request: a prefix of the frame taken from the broker
  if the response to this request has no modifier, and else a prefix of the rewritten frame, whose
  body is what the modifier returned for the body taken from the broker.  It was sent nothing at
  all if no request was open or if the frame answers a re-authentication of the proxy; nothing was
  taken from the client or sent to the broker.
\<close>

theorem client_gets_replies_only:
  assumes "DefaultResponseHandler_handleResponse p \<sigma> = (r, \<sigma>')"
  shows "\<exists>f g. t_broker_got (traffic \<sigma>') = t_broker_got (traffic \<sigma>) @ f
    \<and> t_client_sent (traffic \<sigma>') = t_client_sent (traffic \<sigma>) @ g
    \<and> (g = [] \<or> t_open (traffic \<sigma>) \<noteq> [] \<and> part_of_reply p (hd (t_open (traffic \<sigma>))) f g)
    \<and> (isProxyReauthResponse (hd (t_open (traffic \<sigma>))) (frame_header f) \<longrightarrow> g = [])
    \<and> t_client_got (traffic \<sigma>') = t_client_got (traffic \<sigma>)
    \<and> t_broker_sent (traffic \<sigma>') = t_broker_sent (traffic \<sigma>)"
proof (cases r)
  case (Inr u)
  with assms have "DefaultResponseHandler_handleResponse p \<sigma> = (Inr u, \<sigma>')" by simp
  from wp_InrD [OF DefaultResponseHandler_wp this] obtain f g where
    "answered p f g (traffic \<sigma>) (traffic \<sigma>')" by blast
  from answered_exchange [OF this] show ?thesis
    by (intro exI [of _ f] exI [of _ g]) (auto dest: part_of_reauth)
next
  case (Inl e)
  with assms have "DefaultResponseHandler_handleResponse p \<sigma> = (Inl e, \<sigma>')" by simp
  from wp_InlD [OF DefaultResponseHandler_wp this] obtain f g where fg: "traffic \<sigma>' = (traffic \<sigma>)\<lparr>t_broker_got := t_broker_got (traffic \<sigma>) @ f,
       t_client_sent := t_client_sent (traffic \<sigma>) @ g, t_open := t_open (traffic \<sigma>')\<rparr>"
    "g = [] \<or> t_open (traffic \<sigma>) \<noteq> [] \<and> part_of_reply p (hd (t_open (traffic \<sigma>))) f g"
    by (auto simp: response_failure_def)
  have "t_broker_got (traffic \<sigma>') = t_broker_got (traffic \<sigma>) @ f"
    "t_client_sent (traffic \<sigma>') = t_client_sent (traffic \<sigma>) @ g"
    "t_client_got (traffic \<sigma>') = t_client_got (traffic \<sigma>)"
    "t_broker_sent (traffic \<sigma>') = t_broker_sent (traffic \<sigma>)"
    by (subst fg(1), simp)+
  with fg(2) show ?thesis by (intro exI [of _ f] exI [of _ g]) (auto dest: part_of_reauth)
qed

subsection \<open>Every reply gets through\<close>

text \<open>The tagged fields of the response header of \<open>rkv\<close>.\<close>

definition header_tags :: "RequestKeyVersion \<Rightarrow> byte list \<Rightarrow> bool" where
  "header_tags rkv tags \<longleftrightarrow>
     (if ResponseHeaderVersion rkv = 0 then tags = []
      else ResponseHeaderVersion rkv = 1 \<and> (\<exists>fs. ok_tagged fs \<and> tags = wire_tagged fs))"

lemma MaybeRead_tags:
  assumes "header_tags rkv tags"
  shows "\<exists>r. NewResponseHeaderTaggedFields rkv = Inr r \<and> consumes (MaybeRead r) tags tags"
  using assms consumes_MaybeRead consumes_aret [of "[]"]
  by (auto simp: header_tags_def NewResponseHeaderTaggedFields_def MaybeRead_0 split: if_splits)

text \<open>What the client is to get for a frame of the header \<open>h\<close>, the tagged fields and the body.\<close>

definition reply_due_to :: "'s processor \<Rightarrow> 's \<Rightarrow> RequestKeyVersion \<Rightarrow> byte list \<Rightarrow> byte list \<Rightarrow> byte list \<Rightarrow> byte list \<Rightarrow> bool" where
  "reply_due_to p x rkv hb tags body g \<longleftrightarrow>
     (case GetResponseModifier (rkv_ApiKey rkv) (rkv_ApiVersion rkv) (pr_netAddressMappingFunc p) of
        Inl _ \<Rightarrow> False
      | Inr None \<Rightarrow> g = hb @ tags @ body
      | Inr (Some m) \<Rightarrow> sint (rh_Length (frame_header hb)) \<le> MaxResponseSize
          \<and> (\<exists>body' x'. responseModifier_Apply m (Some body) x = (Inr (Some body'), x')
               \<and> g = new_header (frame_header hb) tags body' @ tags @ body'))"

lemma calm_ext:
  assumes "m (ps_ext \<sigma>) = (Inr a, x)" "calm cs bs \<sigma>"
    and "\<And>\<sigma>'. calm cs bs \<sigma>' \<Longrightarrow> traffic \<sigma>' = traffic \<sigma> \<Longrightarrow> Q a \<sigma>'"
  shows "wp (on_ext m) Q E \<sigma>"
  using assms by (simp add: on_ext_def wp_def zoom_def calm_def traffic_def)

lemma body_size:
  assumes "length hb = 8" "int (length (hb @ tags @ body)) = sint (rh_Length (frame_header hb)) + 4"
  shows "sint (rh_Length (frame_header hb) - of_nat (4 + length tags)) = int (length body)"
proof -
  let ?L = "rh_Length (frame_header hb)"
  have L: "sint ?L = int (4 + length tags + length body)" using assms by simp
  have b: "int (4 + length tags + length body) < 2 ^ 31" using sint_lt [of ?L] L by simp
  have "sint (of_nat (4 + length tags) :: 32 word) = int (4 + length tags)"
    using b by (intro sint_header_length) simp
  then show ?thesis
    using b L by (simp add: sint_word_ariths(2) signed_take_bit_int_eq_self)
qed

lemma calm_copyResponse:
  assumes "calm cs (body @ bs) \<tau>" "sint (rh_Length h - of_nat (4 + length tags)) = int (length body)"
    and "0 < pr_responseBufferSize p"
  shows "wp (copyResponse p hb h tags)
    (\<lambda>_ \<sigma>'. calm cs bs \<sigma>' \<and> traffic \<sigma>' = (traffic \<tau>)
       \<lparr>t_broker_got := t_broker_got (traffic \<tau>) @ body, t_client_sent := t_client_sent (traffic \<tau>) @ hb @ tags @ body\<rparr>)
    (\<lambda>_ _. False) \<tau>"
  unfolding copyResponse_def
  by (((rule wp_combinator_rules)
    | (rule calm_quiets, rule assms(1))
    | (rule calm_quiets, assumption)
    | (rule calm_copy_to_client, assumption, rule assms(2), rule assms(3))
    | (rule conjI, assumption, simp))+)

lemma calm_rewriteResponse:
  assumes c: "calm cs (body @ bs) \<tau>" and sz: "sint (rh_Length h - of_nat (4 + length tags)) = int (length body)"
    and L: "sint (rh_Length h) \<le> MaxResponseSize"
    and app: "responseModifier_Apply m (Some body) (ps_ext \<tau>) = (Inr (Some body'), x')"
  shows "wp (rewriteResponse p h tags m)
    (\<lambda>_ \<sigma>'. calm cs bs \<sigma>' \<and> traffic \<sigma>' = (traffic \<tau>)
       \<lparr>t_broker_got := t_broker_got (traffic \<tau>) @ body, t_client_sent := t_client_sent (traffic \<tau>) @ new_header h tags body' @ tags @ body'\<rparr>)
    (\<lambda>_ _. False) \<tau>"
proof -
  have n: "nat (sint (rh_Length h - of_nat (4 + length tags))) = length body" by (simp only: sz nat_int)
  show ?thesis
    unfolding rewriteResponse_def Let_def n
    apply (rule wp_if, use L in simp)
    apply (rule wp_if, simp only: sz)
    apply (rule wp_combinator_rules)+
    apply (rule calm_broker_read [OF consumes_read_full [OF refl] c])
    apply (rule wp_combinator_rules)+
    apply (rule calm_ext [where a = "Some body'" and x = x'], use app in \<open>simp add: held_def\<close>, assumption)
    apply (simp only: nil_slice_def option.case Encode_new_header)
    apply ((rule wp_combinator_rules | (rule calm_quiets, assumption))+)
    apply simp
    done
qed

lemma calm_forward:
  assumes c: "calm cs (tags @ body @ bs) \<sigma>" and hb: "length hb = 8"
    and sz: "int (length (hb @ tags @ body)) = sint (rh_Length (frame_header hb)) + 4"
    and tags: "header_tags rkv tags" and due: "reply_due_to p (ps_ext \<sigma>) rkv hb tags body g"
    and buf: "0 < pr_responseBufferSize p"
  shows "wp (forwardResponse p hb rkv (frame_header hb))
    (\<lambda>_ \<sigma>'. calm cs bs \<sigma>' \<and> traffic \<sigma>' = (traffic \<sigma>)
       \<lparr>t_broker_got := t_broker_got (traffic \<sigma>) @ tags @ body, t_client_sent := t_client_sent (traffic \<sigma>) @ g\<rparr>)
    (\<lambda>_ _. False) \<sigma>"
proof -
  obtain r where r: "NewResponseHeaderTaggedFields rkv = Inr r" "consumes (MaybeRead r) tags tags"
    using MaybeRead_tags [OF tags] by blast
  note bsz = body_size [OF hb sz]
  have body: "wp (case m of Some m \<Rightarrow> rewriteResponse p (frame_header hb) tags m
        | None \<Rightarrow> copyResponse p hb (frame_header hb) tags)
      (\<lambda>_ \<sigma>'. calm cs bs \<sigma>' \<and> traffic \<sigma>' = (traffic \<sigma>)
         \<lparr>t_broker_got := t_broker_got (traffic \<sigma>) @ tags @ body, t_client_sent := t_client_sent (traffic \<sigma>) @ g\<rparr>)
      (\<lambda>_ _. False) \<tau>"
    if m: "GetResponseModifier (rkv_ApiKey rkv) (rkv_ApiVersion rkv) (pr_netAddressMappingFunc p) = Inr m"
      and \<tau>: "calm cs (body @ bs) \<tau>" "held \<tau> = held \<sigma>"
        "traffic \<tau> = (traffic \<sigma>)\<lparr>t_broker_got := t_broker_got (traffic \<sigma>) @ tags\<rparr>" for m \<tau>
  proof (cases m)
    case None
    with due m \<tau>(3) show ?thesis
      by (auto simp: reply_due_to_def intro: wp_conseq [OF calm_copyResponse [OF \<tau>(1) bsz buf]])
  next
    case (Some x)
    from \<tau>(2) have "ps_ext \<tau> = ps_ext \<sigma>" by (simp add: held_def)
    with due m Some \<tau>(3) show ?thesis
      by (auto simp: reply_due_to_def intro: wp_conseq [OF calm_rewriteResponse [OF \<tau>(1) bsz]])
  qed
  show ?thesis
    unfolding forwardResponse_def r(1)
    by (((rule wp_combinator_rules)
      | (rule calm_quiets, rule c)
      | (rule calm_quiets, assumption)
      | (rule calm_broker_read [OF r(2)], assumption)
      | (rule wp_alift, rule body, assumption+, simp, simp)
      | (use due in \<open>simp add: reply_due_to_def\<close>))+)
qed

lemma calm_response:
  assumes "calm cs ((hb @ tags @ body) @ bs) \<sigma>" "ps_openRequests \<sigma> = rkv # q"
    and "length hb = 8" "4 < sint (rh_Length (frame_header hb))"
    and "int (length (hb @ tags @ body)) = sint (rh_Length (frame_header hb)) + 4"
    and "header_tags rkv tags" "\<not> isProxyReauthResponse rkv (frame_header hb)"
    and "reply_due_to p (ps_ext \<sigma>) rkv hb tags body g" "0 < pr_responseBufferSize p"
  shows "wp (DefaultResponseHandler_handleResponse p)
      (\<lambda>_ \<sigma>'. calm cs bs \<sigma>' \<and> traffic \<sigma>' = (traffic \<sigma>)\<lparr>t_broker_got := t_broker_got (traffic \<sigma>) @ hb @ tags @ body,
        t_client_sent := t_client_sent (traffic \<sigma>) @ g, t_open := q\<rparr>) (\<lambda>_ _. False) \<sigma>"
proof -
  have c: "calm cs (hb @ (tags @ body @ bs)) \<sigma>" using assms(1) by simp
  have q: "t_open (traffic \<sigma>) = rkv # q" using assms(2) by (simp add: traffic_sel)
  have dec: "Decode (Some hb) ResponseHeader_decode x0 = Inr (frame_header hb)" for x0
    using assms(3,4) by (simp add: Decode_header frame_header_def)
  have fwd: "wp (forwardResponse p hb rkv (frame_header hb))
      (\<lambda>_ \<sigma>'. calm cs bs \<sigma>' \<and> traffic \<sigma>' = (traffic \<sigma>)\<lparr>t_broker_got := t_broker_got (traffic \<sigma>) @ hb @ tags @ body,
        t_client_sent := t_client_sent (traffic \<sigma>) @ g, t_open := q\<rparr>) (\<lambda>_ _. False) \<tau>"
    if \<tau>: "calm cs (tags @ body @ bs) \<tau>" "held \<tau> = held \<sigma>"
      "traffic \<tau> = (traffic \<sigma>)\<lparr>t_broker_got := t_broker_got (traffic \<sigma>) @ hb, t_open := q\<rparr>" for \<tau>
    by (rule wp_conseq [OF calm_forward [OF \<tau>(1) assms(3,5,6) _ assms(9)]])
      (use \<tau>(2,3) assms(8) in \<open>auto simp: held_def\<close>)
  show ?thesis
    unfolding DefaultResponseHandler_handleResponse_def chan_defs
    by (((rule wp_combinator_rules)
      | (rule calm_quiets, rule c)
      | (rule calm_quiets, assumption)
      | (rule calm_broker_read [OF consumes_read_full [OF assms(3)]], assumption)
      | (simp only: dec wp_simps)
      | (rule calm_get_open, assumption, use q in simp)
      | (simp only: assms(7) if_False, rule fwd, assumption, simp, simp))+)
qed

text \<open>
  C15: Every reply on a working connection gets through, however its bytes are cut into reads.  If
  the broker is to deliver the whole frame of a header, the tagged fields its version calls for
  and a body, then \<open>bs\<close>; if the frame answers the first open request and is not the proxy's own;
  and if, where the response has a modifier, it is not beyond the size limit and the modifier
  succeeds on it; then the turn succeeds: the client is sent the frame, or the modified frame,
  the open request is done, and \<open>bs\<close> is still to come.
\<close>

theorem reply_gets_through:
  assumes "calm cs ((hb @ tags @ body) @ bs) \<sigma>" "ps_openRequests \<sigma> = rkv # q"
    and "length hb = 8" "4 < sint (rh_Length (frame_header hb))"
    and "int (length (hb @ tags @ body)) = sint (rh_Length (frame_header hb)) + 4"
    and "header_tags rkv tags" "\<not> isProxyReauthResponse rkv (frame_header hb)"
    and "reply_due_to p (ps_ext \<sigma>) rkv hb tags body g" "0 < pr_responseBufferSize p"
  shows "\<exists>\<sigma>'. DefaultResponseHandler_handleResponse p \<sigma> = (Inr (), \<sigma>') \<and> calm cs bs \<sigma>'
    \<and> traffic \<sigma>' = (traffic \<sigma>)\<lparr>t_broker_got := t_broker_got (traffic \<sigma>) @ hb @ tags @ body,
        t_client_sent := t_client_sent (traffic \<sigma>) @ g, t_open := q\<rparr>"
  using wp_succeeds [OF calm_response [OF assms]] by auto

text \<open>
  A reply to a metadata request of version 0, in three pieces with a byte behind it, and the
  state that waits for it.
\<close>

definition reply_config :: "nat ProcessorConfig" where
  "reply_config = \<lparr>pc_MaxOpenRequests = 256, pc_NetAddressMappingFunc = Some sample_mapping,
     pc_RequestBufferSize = 0, pc_ResponseBufferSize = 0, pc_WriteTimeout = 0, pc_ReadTimeout = 0,
     pc_ForbiddenApiKeys = [], pc_ProducerAcks0Disabled = False, pc_InitialSessionLifetimeMs = 3600000,
     pc_SaslAuthByProxy = None\<rparr>"

definition reply_pstate :: "byte list list \<Rightarrow> RequestKeyVersion list \<Rightarrow> nat pstate" where
  "reply_pstate bs rkvs = (new_pstate reply_config 0 (sample_conn bs) (sample_conn []) sample_clock 0)
     \<lparr>ps_openRequests := rkvs\<rparr>"

lemma reply_calm:
  "list_all (\<lambda>c. c \<noteq> []) bs \<Longrightarrow> calm [] (concat bs) (reply_pstate bs rkvs)"
  by (simp add: calm_def reply_pstate_def new_pstate_def sample_conn_def sample_source_def clean_def
      pending_def list_all_iff comp_def)

lemmas reply_defs = reply_pstate_def new_pstate_def reply_config_def newProcessor_def
  minOpenRequests_def defaultResponseBufferSize_def Let_def

definition metadata_rkv :: RequestKeyVersion where
  "metadata_rkv = \<lparr>rkv_Length = 9, rkv_ApiKey = 3, rkv_ApiVersion = 0\<rparr>"

definition reply_header :: "byte list" where
  "reply_header = [0, 0, 0, 24, 0, 0, 0, 7]"

definition mapped_reply :: "byte list" where
  "mapped_reply = [0,0,0,1, 0,0,0,1, 0,5,112,114,111,120,121, 0,0,35,133, 0,0,0,0]"

definition waiting :: "nat pstate" where
  "waiting = reply_pstate [[0, 0, 0], [24, 0, 0, 0, 7, 0, 0], drop 2 sample_response, [99]] [metadata_rkv]"

lemma waiting_facts:
  "calm [] ((reply_header @ [] @ sample_response) @ [99]) waiting" "ps_openRequests waiting = metadata_rkv # []"
  "length reply_header = 8" "4 < sint (rh_Length (frame_header reply_header))"
  "int (length (reply_header @ [] @ sample_response)) = sint (rh_Length (frame_header reply_header)) + 4"
  "header_tags metadata_rkv []" "\<not> isProxyReauthResponse metadata_rkv (frame_header reply_header)"
  "reply_due_to (newProcessor reply_config) (ps_ext waiting) metadata_rkv reply_header [] sample_response
     ([0, 0, 0, 27, 0, 0, 0, 7] @ mapped_reply)"
  "0 < pr_responseBufferSize (newProcessor reply_config)"
proof -
  have h: "frame_header reply_header = \<lparr>rh_Length = 24, rh_CorrelationID = 7\<rparr>"
    by (simp add: frame_header_def get_be32_def reply_header_def)
  have "calm [] (concat [[0, 0, 0], [24, 0, 0, 0, 7, 0, 0], drop 2 sample_response, [99]]) waiting"
    unfolding waiting_def by (rule reply_calm) (simp add: sample_response_def)
  then show "calm [] ((reply_header @ [] @ sample_response) @ [99]) waiting"
    by (simp add: reply_header_def sample_response_def)
  show "ps_openRequests waiting = metadata_rkv # []" by (simp add: waiting_def reply_pstate_def)
  show "length reply_header = 8" by (simp add: reply_header_def)
  show "4 < sint (rh_Length (frame_header reply_header))" by (simp add: h)
  show "int (length (reply_header @ [] @ sample_response)) = sint (rh_Length (frame_header reply_header)) + 4"
    unfolding h by (simp add: reply_header_def sample_response_def)
  have "ResponseHeaderVersion metadata_rkv = 0" by code_simp
  then show "header_tags metadata_rkv []" by (simp add: header_tags_def)
  show "\<not> isProxyReauthResponse metadata_rkv (frame_header reply_header)"
    by (simp add: isProxyReauthResponse_def isProxyReauthHandshakeResponse_def metadata_rkv_def
        apiKeySaslHandshake_def apiKeySaslAuthenticate_def)
  have x: "ps_ext waiting = 0" by (simp add: waiting_def reply_defs)
  have "new_header (frame_header reply_header) [] mapped_reply = [0, 0, 0, 27, 0, 0, 0, 7]"
    unfolding h by code_simp
  then show "reply_due_to (newProcessor reply_config) (ps_ext waiting) metadata_rkv reply_header [] sample_response
     ([0, 0, 0, 27, 0, 0, 0, 7] @ mapped_reply)"
    using sample_apply
    by (simp add: reply_due_to_def x metadata_rkv_def newProcessor_def reply_config_def Let_def
        sample_GetResponseModifier h MaxResponseSize_def mapped_reply_def)
  show "0 < pr_responseBufferSize (newProcessor reply_config)" by (simp add: reply_defs)
qed

lemma reply_gets_through_witness:
  "\<exists>\<sigma>'. DefaultResponseHandler_handleResponse (newProcessor reply_config) waiting = (Inr (), \<sigma>')
    \<and> calm [] [99] \<sigma>'
    \<and> traffic \<sigma>' = (traffic waiting)\<lparr>t_broker_got := t_broker_got (traffic waiting) @ reply_header @ [] @ sample_response,
        t_client_sent := t_client_sent (traffic waiting) @ [0, 0, 0, 27, 0, 0, 0, 7] @ mapped_reply, t_open := []\<rparr>"
  by (rule reply_gets_through [OF waiting_facts])

definition after_reply :: "nat pstate" where
  "after_reply = snd (DefaultResponseHandler_handleResponse (newProcessor reply_config) waiting)"

lemma after_reply:
  "DefaultResponseHandler_handleResponse (newProcessor reply_config) waiting = (Inr (), after_reply)"
  using wp_succeeds [OF calm_response [OF waiting_facts]] by (auto simp: after_reply_def)

lemma response_turn_answers_witness:
  "\<exists>f g. answered (newProcessor reply_config) f g (traffic waiting) (traffic after_reply)"
  by (rule response_turn_answers [OF after_reply])

lemma client_gets_replies_only_witness:
  "\<exists>f g. t_broker_got (traffic after_reply) = t_broker_got (traffic waiting) @ f
    \<and> t_client_sent (traffic after_reply) = t_client_sent (traffic waiting) @ g
    \<and> (g = [] \<or> t_open (traffic waiting) \<noteq> []
         \<and> part_of_reply (newProcessor reply_config) (hd (t_open (traffic waiting))) f g)
    \<and> (isProxyReauthResponse (hd (t_open (traffic waiting))) (frame_header f) \<longrightarrow> g = [])
    \<and> t_client_got (traffic after_reply) = t_client_got (traffic waiting)
    \<and> t_broker_sent (traffic after_reply) = t_broker_sent (traffic waiting)"
  by (rule client_gets_replies_only [OF after_reply])

subsection \<open>Completed re-authentications\<close>

lemma calm_auth:
  assumes "calm cs bs \<sigma>" "calm cs bs (ps_auth_update f \<sigma>) \<Longrightarrow> Q () (ps_auth_update f \<sigma>)"
  shows "wp (amod (ps_auth_update f)) Q E \<sigma>"
  using assms by (simp add: wp_simps calm_def)

text \<open>
  C20: A re-authentication the broker accepts is completed.  If the first open request is an
  authenticate marker and the broker is to deliver a frame with the reserved correlation id
  whose body decodes to a reply with the error code zero, then the turn succeeds, the frame is
  taken, the client is sent nothing, and the authentication state is completed with the session
  lifetime of the reply: it is no longer in flight.
\<close>

theorem accepted_reauth_completes:
  assumes "calm cs ((hb @ body) @ bs) \<sigma>" "ps_openRequests \<sigma> = rkv # q" "ps_auth \<sigma> = Some a"
    and "length hb = 8" "4 < sint (rh_Length (frame_header hb))"
    and "int (length (hb @ body)) = sint (rh_Length (frame_header hb)) + 4"
    and "rkv_ApiKey rkv = apiKeySaslAuthenticate" "rh_CorrelationID (frame_header hb) = reauthCorrelationID"
    and "Decode (Some body) SaslAuthenticateResponseV1_decode
      \<lparr>sr1_Err = 0, sr1_ErrMsg = None, sr1_SaslAuthBytes = None, sr1_SessionLifetimeMs = 0\<rparr> = Inr res"
    and "sr1_Err res = 0"
  shows "\<exists>\<sigma>' t. DefaultResponseHandler_handleResponse p \<sigma> = (Inr (), \<sigma>') \<and> calm cs bs \<sigma>'
    \<and> traffic \<sigma>' = (traffic \<sigma>)\<lparr>t_broker_got := t_broker_got (traffic \<sigma>) @ hb @ body, t_open := q\<rparr>
    \<and> ps_auth \<sigma>' = Some (CompleteReauth (sr1_SessionLifetimeMs res) t a) \<and> \<not> cas_inFlight (the (ps_auth \<sigma>'))"
proof -
  have c: "calm cs (hb @ (body @ bs)) \<sigma>" using assms(1) by simp
  have q: "t_open (traffic \<sigma>) = rkv # q" using assms(2) by (simp add: traffic_sel)
  have dec: "Decode (Some hb) ResponseHeader_decode x0 = Inr (frame_header hb)" for x0
    using assms(4,5) by (simp add: Decode_header frame_header_def)
  have ours: "isProxyReauthResponse rkv (frame_header hb)"
    using assms(7,8) by (simp add: isProxyReauthResponse_def)
  have other: "rh_CorrelationID (frame_header hb) \<noteq> reauthHandshakeCorrelationID"
    using assms(8) by (simp add: reauthCorrelationID_def reauthHandshakeCorrelationID_def)
  have n: "nat (sint (rh_Length (frame_header hb) - 4)) = length body"
    using assms(4-6) by (simp add: sint_minus_4)
  let ?Q = "\<lambda>_ \<sigma>'. calm cs bs \<sigma>'
      \<and> traffic \<sigma>' = (traffic \<sigma>)\<lparr>t_broker_got := t_broker_got (traffic \<sigma>) @ hb @ body, t_open := q\<rparr>
      \<and> (\<exists>t. ps_auth \<sigma>' = Some (CompleteReauth (sr1_SessionLifetimeMs res) t a))"
  have consume: "wp (consumeReauthResponse p (frame_header hb)) ?Q (\<lambda>_ _. False) \<tau>"
    if \<tau>: "calm cs (body @ bs) \<tau>" "held \<tau> = held \<sigma>"
      "traffic \<tau> = (traffic \<sigma>)\<lparr>t_broker_got := t_broker_got (traffic \<sigma>) @ hb, t_open := q\<rparr>" for \<tau>
    unfolding consumeReauthResponse_def n
    by (((rule wp_combinator_rules(1-5,7-9))
      | (rule calm_quiets, rule \<tau>(1))
      | (rule calm_quiets, assumption)
      | (rule wp_if, use assms(5) in simp)
      | (rule calm_broker_read [OF consumes_read_full [OF refl]], assumption)
      | (simp only: other assms(9,10) if_False simp_thms wp_simps)
      | (use \<tau> assms(3) in \<open>auto simp: calm_def held_def\<close>))+)
  have "wp (DefaultResponseHandler_handleResponse p) ?Q (\<lambda>_ _. False) \<sigma>"
    unfolding DefaultResponseHandler_handleResponse_def chan_defs
    by (((rule wp_combinator_rules)
      | (rule calm_quiets, rule c)
      | (rule calm_quiets, assumption)
      | (rule calm_broker_read [OF consumes_read_full [OF assms(4)]], assumption)
      | (simp only: dec wp_simps)
      | (rule calm_get_open, assumption, use q in simp)
      | (simp only: ours if_True, rule consume, assumption, simp, simp))+)
  from wp_succeeds [OF this] show ?thesis by (auto simp: CompleteReauth_def Let_def)
qed

subsection \<open>A frame shorter than its header\<close>

text \<open>
  C39: A frame whose tagged header fields reach beyond its length makes the turn panic: the length
  of the buffer for the body is negative.  The frame is a reply to a request of the client whose
  response has a modifier (without one it is copied, and the copy fails with an error), its length
  is more than 4, and its header with the tagged fields stays within the maximum response size.
  The client was sent nothing.
\<close>

theorem short_frame_panics:
  assumes "calm cs ((hb @ tags) @ bs) \<sigma>" "ps_openRequests \<sigma> = rkv # q"
    and "length hb = 8" "4 < sint (rh_Length (frame_header hb))"
    and "sint (rh_Length (frame_header hb)) < int (4 + length tags)" "int (4 + length tags) \<le> MaxResponseSize"
    and "header_tags rkv tags" "\<not> isProxyReauthResponse rkv (frame_header hb)"
    and "GetResponseModifier (rkv_ApiKey rkv) (rkv_ApiVersion rkv) (pr_netAddressMappingFunc p) = Inr (Some m)"
  shows "\<exists>\<sigma>'. DefaultResponseHandler_handleResponse p \<sigma>
      = (Inl (True, GoPanic ''makeslice: len out of range''), \<sigma>')
    \<and> t_client_sent (traffic \<sigma>') = t_client_sent (traffic \<sigma>)"
proof -
  have c: "calm cs (hb @ (tags @ bs)) \<sigma>" using assms(1) by simp
  have q: "t_open (traffic \<sigma>) = rkv # q" using assms(2) by (simp add: traffic_sel)
  have dec: "Decode (Some hb) ResponseHeader_decode x0 = Inr (frame_header hb)" for x0
    using assms(3,4) by (simp add: Decode_header frame_header_def)
  obtain r where r: "NewResponseHeaderTaggedFields rkv = Inr r" "consumes (MaybeRead r) tags tags"
    using MaybeRead_tags [OF assms(7)] by blast
  let ?L = "rh_Length (frame_header hb)"
  have n: "sint (of_nat (4 + length tags) :: 32 word) = int (4 + length tags)"
    using assms(6) by (intro sint_header_length) (simp add: MaxResponseSize_def)
  have "signed_take_bit 31 (sint ?L - int (4 + length tags)) = sint ?L - int (4 + length tags)"
    using assms(4-6) by (intro signed_take_bit_int_eq_self) (auto simp: MaxResponseSize_def)
  with n assms(5) have neg: "sint (?L - of_nat (4 + length tags)) < 0" by (simp add: sint_word_ariths(2))
  have max: "\<not> sint ?L > MaxResponseSize"
    using assms(5,6) by simp
  let ?Q = "\<lambda>e \<sigma>'. e = (True, GoPanic ''makeslice: len out of range'')
    \<and> t_client_sent (traffic \<sigma>') = t_client_sent (traffic \<sigma>)"
  have "wp (DefaultResponseHandler_handleResponse p) (\<lambda>_ _. False) ?Q \<sigma>"
    unfolding DefaultResponseHandler_handleResponse_def chan_defs
    by (((rule wp_combinator_rules)
      | (rule calm_quiets, rule c)
      | (rule calm_quiets, assumption)
      | (rule calm_broker_read [OF consumes_read_full [OF assms(3)]], assumption)
      | (rule calm_broker_read [OF r(2)], assumption)
      | (simp only: dec wp_simps r(1))
      | (rule calm_get_open, assumption, use q in simp)
      | (simp only: assms(8,9) if_False forwardResponse_def)
      | (simp only: rewriteResponse_def Let_def max neg if_False if_True option.case)
      | simp)+)
  then show ?thesis by (auto simp: wp_def split: prod.splits sum.splits)
qed

text \<open>
  The reply to an authenticate request with a lifetime of an hour; and a find-coordinator reply
  of five announced bytes whose header has a tagged field of two.
\<close>

definition accepted_header :: "byte list" where
  "accepted_header = [0, 0, 0, 20, 127, 255, 255, 254]"

definition accepted_body :: "byte list" where
  "accepted_body = [0, 0, 255, 255, 0, 0, 0, 0, 0, 0, 0, 0, 0, 54, 238, 128]"

lemma accepted_reauth_completes_witness:
  "\<exists>\<sigma>' t. DefaultResponseHandler_handleResponse (newProcessor reply_config)
        (reply_pstate [accepted_header, accepted_body, [99]] [authenticate_marker]) = (Inr (), \<sigma>')
    \<and> calm [] [99] \<sigma>'
    \<and> traffic \<sigma>' = (traffic (reply_pstate [accepted_header, accepted_body, [99]] [authenticate_marker]))
        \<lparr>t_broker_got := t_broker_got (traffic (reply_pstate [accepted_header, accepted_body, [99]] [authenticate_marker]))
           @ accepted_header @ accepted_body, t_open := []\<rparr>
    \<and> ps_auth \<sigma>' = Some (CompleteReauth (sr1_SessionLifetimeMs \<lparr>sr1_Err = 0, sr1_ErrMsg = None,
          sr1_SaslAuthBytes = Some [], sr1_SessionLifetimeMs = 3600000\<rparr>) t (newConnectionAuthState 3600000 0))
    \<and> \<not> cas_inFlight (the (ps_auth \<sigma>'))"
proof (rule accepted_reauth_completes)
  have h: "frame_header accepted_header = \<lparr>rh_Length = 20, rh_CorrelationID = 0x7FFFFFFE\<rparr>"
    by (simp add: frame_header_def get_be32_def accepted_header_def)
  show "calm [] ((accepted_header @ accepted_body) @ [99])
      (reply_pstate [accepted_header, accepted_body, [99]] [authenticate_marker])"
    using reply_calm [of "[accepted_header, accepted_body, [99]]" "[authenticate_marker]"]
    by (simp add: accepted_header_def accepted_body_def)
  show "length accepted_header = 8" by (simp add: accepted_header_def)
  show "4 < sint (rh_Length (frame_header accepted_header))" by (simp add: h)
  show "int (length (accepted_header @ accepted_body)) = sint (rh_Length (frame_header accepted_header)) + 4"
    unfolding h by (simp add: accepted_header_def accepted_body_def)
  show "rh_CorrelationID (frame_header accepted_header) = reauthCorrelationID"
    by (simp add: h reauthCorrelationID_def)
  show "Decode (Some accepted_body) SaslAuthenticateResponseV1_decode
      \<lparr>sr1_Err = 0, sr1_ErrMsg = None, sr1_SaslAuthBytes = None, sr1_SessionLifetimeMs = 0\<rparr>
    = Inr \<lparr>sr1_Err = 0, sr1_ErrMsg = None, sr1_SaslAuthBytes = Some [], sr1_SessionLifetimeMs = 3600000\<rparr>"
    by code_simp
  show "rkv_ApiKey authenticate_marker = apiKeySaslAuthenticate" by (simp add: authenticate_marker_def)
qed (simp_all add: reply_defs)

definition overrun_tags :: "byte list" where
  "overrun_tags = [1, 0, 2, 5, 6]"

definition overrun_rkv :: RequestKeyVersion where
  "overrun_rkv = \<lparr>rkv_Length = 9, rkv_ApiKey = 10, rkv_ApiVersion = 4\<rparr>"

lemma short_frame_panics_witness:
  "\<exists>\<sigma>'. DefaultResponseHandler_handleResponse (newProcessor reply_config)
        (reply_pstate [[0, 0, 0, 5, 0, 0, 0, 7], overrun_tags] [overrun_rkv])
      = (Inl (True, GoPanic ''makeslice: len out of range''), \<sigma>')
    \<and> t_client_sent (traffic \<sigma>') = t_client_sent (traffic (reply_pstate [[0, 0, 0, 5, 0, 0, 0, 7], overrun_tags] [overrun_rkv]))"
proof (rule short_frame_panics)
  have h: "frame_header [0, 0, 0, 5, 0, 0, 0, 7] = \<lparr>rh_Length = 5, rh_CorrelationID = 7\<rparr>"
    by (simp add: frame_header_def get_be32_def)
  show "calm [] (([0, 0, 0, 5, 0, 0, 0, 7] @ overrun_tags) @ [])
      (reply_pstate [[0, 0, 0, 5, 0, 0, 0, 7], overrun_tags] [overrun_rkv])"
    using reply_calm [of "[[0, 0, 0, 5, 0, 0, 0, 7], overrun_tags]" "[overrun_rkv]"]
    by (simp add: overrun_tags_def)
  show "4 < sint (rh_Length (frame_header [0, 0, 0, 5, 0, 0, 0, 7]))" unfolding h by simp
  show "sint (rh_Length (frame_header [0, 0, 0, 5, 0, 0, 0, 7])) < int (4 + length overrun_tags)"
    unfolding h by (simp add: overrun_tags_def)
  show "\<not> isProxyReauthResponse overrun_rkv (frame_header [0, 0, 0, 5, 0, 0, 0, 7])"
    by (simp add: isProxyReauthResponse_def isProxyReauthHandshakeResponse_def overrun_rkv_def
        apiKeySaslHandshake_def apiKeySaslAuthenticate_def)
  have "ok_tagged [\<lparr>rt_tag = 0, rt_data = Some [5, 6]\<rparr>]"
    by (simp add: ok_tagged_def ok_raw_tagged_def fits63_def maxAlloc_def)
  moreover have "overrun_tags = wire_tagged [\<lparr>rt_tag = 0, rt_data = Some [5, 6]\<rparr>]" by code_simp
  moreover have "ResponseHeaderVersion overrun_rkv = 1" by code_simp
  ultimately show "header_tags overrun_rkv overrun_tags"
    unfolding header_tags_def by (metis zero_neq_one)
  show "GetResponseModifier (rkv_ApiKey overrun_rkv) (rkv_ApiVersion overrun_rkv)
      (pr_netAddressMappingFunc (newProcessor reply_config)) = Inr (Some hostile_modifier)"
    using hostile_GetResponseModifier by (simp add: overrun_rkv_def reply_defs)
qed (simp_all add: reply_defs overrun_tags_def MaxResponseSize_def)

end
