(* ===== verification/Session.thy ===== *)
theory Session
  imports ResponseFlow
begin

section \<open>Sessions: the two loops together\<close>

text \<open>
  The request loop and the response loop of a connection share three channels.  Their purpose is
  one queue: the replies the broker still owes, in the order of the requests.  Here that queue
  is the specification (\<open>spec_request\<close>, \<open>spec_response\<close>), and the theorem is that every
  interleaving of turns of the two loops follows it: \<open>paired\<close> relates the contents of the
  channels to the queue.  The handler channel of the responses runs one ahead of the queue, as
  \<open>newProcessor\<close> seeds it; the handler it is ahead by is the one for the reply to the next
  request, which the handler in the other channel will send.

  A turn of the response loop is taken when a reply is outstanding: a broker answers only what it
  was asked.  (The loop of the source takes its handler earlier and waits in the read.)
\<close>

datatype reply = Framed RequestKeyVersion | RawSasl

fun handler_of :: "reply \<Rightarrow> ResponseHandler" where
  "handler_of (Framed rkv) = DefaultResponseHandler"
| "handler_of RawSasl = SaslAuthV0ResponseHandler"

fun leading :: "RequestHandler \<Rightarrow> ResponseHandler" where
  "leading DefaultRequestHandler = DefaultResponseHandler"
| "leading SaslAuthV0RequestHandler = SaslAuthV0ResponseHandler"

fun framed_of :: "reply \<Rightarrow> RequestKeyVersion list" where
  "framed_of (Framed rkv) = [rkv]"
| "framed_of RawSasl = []"

type_synonym outstanding = "reply list \<times> RequestHandler"

subsection \<open>The specification\<close>

text \<open>
  \<open>spec_request p st got s st'\<close>: with \<open>got\<close> from the client, \<open>s\<close> is sent to the broker, and the replies
  that are now owed come at the end of the queue.
\<close>

inductive spec_request ::
  "'s processor \<Rightarrow> outstanding \<Rightarrow> byte list \<Rightarrow> byte list \<Rightarrow> outstanding \<Rightarrow> bool" for p where
  spec_forward: "whole_request req \<Longrightarrow> admitted p (frame_rkv req) \<Longrightarrow>
    reply = reply_expected p (frame_rkv req) (drop 8 req) \<Longrightarrow>
    spec_request p (owed, DefaultRequestHandler) req req
      (owed @ (if reply then [Framed (frame_rkv req)] else []),
       if v0_handshake (frame_rkv req) then SaslAuthV0RequestHandler else DefaultRequestHandler)"
| spec_idle: "length lost < 8 \<Longrightarrow>
    spec_request p (owed, DefaultRequestHandler) lost [] (owed, DefaultRequestHandler)"
| spec_reauth: "length lost < 8 \<Longrightarrow> pr_saslAuthByProxy p = Some sb \<Longrightarrow>
    returns (sa_buildReauthHandshakeRequest sb reauthHandshakeCorrelationID) handshake \<Longrightarrow>
    returns (sa_buildReauthRequest sb reauthCorrelationID) request \<Longrightarrow>
    spec_request p (owed, DefaultRequestHandler) lost (handshake @ request)
      (owed @ [Framed handshake_marker, Framed authenticate_marker], DefaultRequestHandler)"
| spec_raw: "length size_buf = 4 \<Longrightarrow> length body = unat (get_be32 size_buf) \<Longrightarrow>
    spec_request p (owed, SaslAuthV0RequestHandler) (size_buf @ body) (size_buf @ body)
      (owed @ [RawSasl], DefaultRequestHandler)"

text \<open>
  \<open>spec_response p st f g st'\<close>: the first reply owed comes as \<open>f\<close> from the broker and the client is
  sent \<open>g\<close>.  (Of a raw SASL message only the length is relayed as its reply, as the source does.)
\<close>

inductive spec_response ::
  "'s processor \<Rightarrow> outstanding \<Rightarrow> byte list \<Rightarrow> byte list \<Rightarrow> outstanding \<Rightarrow> bool" for p where
  spec_framed: "reply_for p rkv f g \<Longrightarrow> spec_response p (Framed rkv # owed, h) f g (owed, h)"
| spec_raw_reply: "length f = 4 \<Longrightarrow> spec_response p (RawSasl # owed, h) f f (owed, h)"

datatype event = Sent "byte list" "byte list" | Answered "byte list" "byte list"

inductive spec_run :: "'s processor \<Rightarrow> event list \<Rightarrow> outstanding \<Rightarrow> bool" for p where
  spec_start: "spec_run p [] ([], DefaultRequestHandler)"
| spec_sent: "spec_run p evs st \<Longrightarrow> spec_request p st c s st' \<Longrightarrow> spec_run p (evs @ [Sent c s]) st'"
| spec_answered: "spec_run p evs st \<Longrightarrow> spec_response p st f g st' \<Longrightarrow>
    spec_run p (evs @ [Answered f g]) st'"

subsection \<open>Sessions of the model\<close>

text \<open>
  The traffic two turns apart, as an event: what the turn took and sent.
\<close>

definition request_event :: "traffic \<Rightarrow> traffic \<Rightarrow> event" where
  "request_event t t' = Sent (drop (length (t_client_got t)) (t_client_got t'))
     (drop (length (t_broker_sent t)) (t_broker_sent t'))"

definition response_event :: "traffic \<Rightarrow> traffic \<Rightarrow> event" where
  "response_event t t' = Answered (drop (length (t_broker_got t)) (t_broker_got t'))
     (drop (length (t_client_sent t)) (t_client_sent t'))"

inductive session :: "'s ProcessorConfig \<Rightarrow> event list \<Rightarrow> 's pstate \<Rightarrow> bool" for cfg where
  session_start: "session cfg [] (new_pstate cfg t remote local clock x)"
| session_request: "session cfg evs \<sigma> \<Longrightarrow> requestsLoop_turn (newProcessor cfg) \<sigma> = (Inr b, \<sigma>') \<Longrightarrow>
    session cfg (evs @ [request_event (traffic \<sigma>) (traffic \<sigma>')]) \<sigma>'"
| session_response: "session cfg evs \<sigma> \<Longrightarrow> 1 < length (ps_nextResponse \<sigma>) \<Longrightarrow>
    responsesLoop_turn (newProcessor cfg) \<sigma> = (Inr (), \<sigma>') \<Longrightarrow>
    session cfg (evs @ [response_event (traffic \<sigma>) (traffic \<sigma>')]) \<sigma>'"

definition paired :: "traffic \<Rightarrow> outstanding \<Rightarrow> bool" where
  "paired t st \<longleftrightarrow> t_nextRequest t = [snd st] \<and> t_open t = concat (map framed_of (fst st))
     \<and> t_nextResponse t = map handler_of (fst st) @ [leading (snd st)]"

subsection \<open>Turns of the request loop\<close>

lemma SaslAuthV0RequestHandler_wp:
  "wp (SaslAuthV0RequestHandler_handleRequest p)
    (\<lambda>_ \<sigma>'. \<exists>size_buf body. length size_buf = 4 \<and> length body = unat (get_be32 size_buf)
       \<and> traffic \<sigma>' = (traffic \<sigma>)
         \<lparr>t_client_got := t_client_got (traffic \<sigma>) @ size_buf @ body,
          t_broker_sent := t_broker_sent (traffic \<sigma>) @ size_buf @ body,
          t_nextRequest := t_nextRequest (traffic \<sigma>) @ [DefaultRequestHandler],
          t_nextResponse := t_nextResponse (traffic \<sigma>) @ [DefaultResponseHandler]\<rparr>)
    (\<lambda>_ _. True) \<sigma>"
  unfolding SaslAuthV0RequestHandler_handleRequest_def copySaslAuthRequest_def chan_defs
proof (intro wp_intros allI impI, goal_cases)
  case (2 _ _ _ _ _ _ size_buf _ _ body)
  then have "int (length body) = int (unat (get_be32 size_buf))" by simp
  then have "length body = unat (get_be32 size_buf)" by (simp only: of_nat_eq_iff)
  with 2 show ?case by (simp only: simp_thms) (rule exI [of _ size_buf], rule exI [of _ body], simp)
qed simp_all

text \<open>What a turn of the request loop did, in terms of the specification.\<close>

definition requested :: "'s processor \<Rightarrow> traffic \<Rightarrow> outstanding \<Rightarrow> traffic \<Rightarrow> bool" where
  "requested p t st t' \<longleftrightarrow> (\<exists>c s st'. spec_request p st c s st' \<and> paired t' st'
     \<and> t_client_got t' = t_client_got t @ c \<and> t_broker_sent t' = t_broker_sent t @ s
     \<and> t_broker_got t' = t_broker_got t \<and> t_client_sent t' = t_client_sent t)"

lemma requestedI:
  assumes "spec_request p st c s st'" "paired t' st'" "t_client_got t' = t_client_got t @ c"
    and "t_broker_sent t' = t_broker_sent t @ s" "t_broker_got t' = t_broker_got t"
    and "t_client_sent t' = t_client_sent t"
  shows "requested p t st t'"
  unfolding requested_def using assms by blast

lemma idle_turn_spec:
  assumes "idle_turn p lost t0 t'" "t0 = t\<lparr>t_nextRequest := []\<rparr>" "paired t (owed, DefaultRequestHandler)"
  shows "requested p t (owed, DefaultRequestHandler) t'"
proof -
  from assms(1) obtain u where l: "length lost < 8" and u: "may_reauth p t0 u"
    and t': "t' = u\<lparr>t_client_got := t_client_got t0 @ lost, t_nextRequest := t_nextRequest t0 @ [DefaultRequestHandler]\<rparr>"
    by (auto simp: idle_turn_def)
  show ?thesis
  proof (cases "u = t0")
    case True
    show ?thesis
      by (rule requestedI [OF spec_idle [OF l]]) (use True assms(2,3) in \<open>simp_all add: t' paired_def\<close>)
  next
    case False
    with u obtain sb h r where sb: "pr_saslAuthByProxy p = Some sb"
      and hr: "returns (sa_buildReauthHandshakeRequest sb reauthHandshakeCorrelationID) h"
        "returns (sa_buildReauthRequest sb reauthCorrelationID) r"
      and u: "u = reauth_sent h r t0" by (auto simp: may_reauth_def)
    show ?thesis
      by (rule requestedI [OF spec_reauth [OF l sb hr]])
        (use assms(2,3) in \<open>simp_all add: t' u reauth_sent_def paired_def\<close>)
  qed
qed

lemma forwards_request_spec:
  assumes "forwards_request p req t0 t'" "t0 = t\<lparr>t_nextRequest := []\<rparr>" "paired t (owed, DefaultRequestHandler)"
  shows "requested p t (owed, DefaultRequestHandler) t'"
proof -
  let ?reply = "reply_expected p (frame_rkv req) (drop 8 req)"
  from assms(1) have r: "whole_request req" "admitted p (frame_rkv req)"
    and t': "t' = forwarded req (frame_rkv req) ?reply t0"
    by (auto simp: forwards_request_def)
  have "v0_handshake (frame_rkv req) \<longrightarrow> ?reply"
    by (auto simp: v0_handshake_def apiKeySaslHandshake_def apiKeyProduce_def)
  with assms(2,3) show ?thesis
    by (intro requestedI [OF spec_forward [OF r refl]]) (auto simp: t' forwarded_def next_handlers_def paired_def)
qed

lemma handleRequest_wp:
  assumes "paired t st" "traffic \<sigma> = t\<lparr>t_nextRequest := []\<rparr>"
  shows "wp (handleRequest p (snd st)) (\<lambda>_ \<sigma>'. requested p t st (traffic \<sigma>')) (\<lambda>_ _. True) \<sigma>"
proof (cases "snd st")
  case DefaultRequestHandler
  then have st: "st = (fst st, DefaultRequestHandler)" by (cases st) simp
  with assms(1) have pt: "paired t (fst st, DefaultRequestHandler)" by simp
  have "wp (DefaultRequestHandler_handleRequest p) (\<lambda>_ \<sigma>'. requested p t (fst st, DefaultRequestHandler) (traffic \<sigma>'))
      (\<lambda>_ _. True) \<sigma>"
    by (rule wp_conseq [OF DefaultRequestHandler_wp])
      (use forwards_request_spec [OF _ assms(2) pt] idle_turn_spec [OF _ assms(2) pt] in auto)
  with DefaultRequestHandler st show ?thesis by simp
next
  case SaslAuthV0RequestHandler
  then have st: "st = (fst st, SaslAuthV0RequestHandler)" by (cases st) simp
  with assms(1) have pt: "paired t (fst st, SaslAuthV0RequestHandler)" by simp
  have "wp (SaslAuthV0RequestHandler_handleRequest p) (\<lambda>_ \<sigma>'. requested p t (fst st, SaslAuthV0RequestHandler) (traffic \<sigma>'))
      (\<lambda>_ _. True) \<sigma>"
  proof (rule wp_conseq [OF SaslAuthV0RequestHandler_wp])
    fix u and \<sigma>' :: "'a pstate"
    assume "\<exists>size_buf body. length size_buf = 4 \<and> length body = unat (get_be32 size_buf)
       \<and> traffic \<sigma>' = (traffic \<sigma>)\<lparr>t_client_got := t_client_got (traffic \<sigma>) @ size_buf @ body,
          t_broker_sent := t_broker_sent (traffic \<sigma>) @ size_buf @ body,
          t_nextRequest := t_nextRequest (traffic \<sigma>) @ [DefaultRequestHandler],
          t_nextResponse := t_nextResponse (traffic \<sigma>) @ [DefaultResponseHandler]\<rparr>"
    then obtain sz body where m: "length sz = 4" "length body = unat (get_be32 sz)"
      and t': "traffic \<sigma>' = (traffic \<sigma>)\<lparr>t_client_got := t_client_got (traffic \<sigma>) @ sz @ body,
          t_broker_sent := t_broker_sent (traffic \<sigma>) @ sz @ body,
          t_nextRequest := t_nextRequest (traffic \<sigma>) @ [DefaultRequestHandler],
          t_nextResponse := t_nextResponse (traffic \<sigma>) @ [DefaultResponseHandler]\<rparr>" by blast
    show "requested p t (fst st, SaslAuthV0RequestHandler) (traffic \<sigma>')"
      by (rule requestedI [OF spec_raw [OF m]]) (use assms(2) pt in \<open>simp_all add: t' paired_def\<close>)
  qed simp
  with SaslAuthV0RequestHandler st show ?thesis by simp
qed

text \<open>A turn of the request loop runs the one handler that is there.\<close>

lemma one_handler_turn_wp:
  assumes "t_nextRequest (traffic \<sigma>) = [h]"
    and "\<And>\<upsilon>. traffic \<upsilon> = (traffic \<sigma>)\<lparr>t_nextRequest := []\<rparr> \<Longrightarrow> wp (handleRequest p h) (\<lambda>_. Q) (\<lambda>_ _. True) \<upsilon>"
  shows "wp (requestsLoop_turn p) (\<lambda>b \<sigma>'. b \<and> Q \<sigma>') (\<lambda>_ _. True) \<sigma>"
proof -
  have next1: "wp (abind (atry getNextRequestHandler) (\<lambda>h. case h of Inl _ \<Rightarrow> aret False
         | Inr nextRequestHandler \<Rightarrow> abind (handleRequest p nextRequestHandler) (\<lambda>_. aret True)))
      (\<lambda>b \<sigma>'. b \<and> Q \<sigma>') (\<lambda>_ _. True) \<tau>"
    if \<tau>: "traffic \<tau> = traffic \<sigma>" for \<tau>
    unfolding chan_defs
  proof (intro wp_intros allI impI, goal_cases)
    case (1 k q \<upsilon>)
    then have k: "k = h" and \<upsilon>: "traffic \<upsilon> = (traffic \<sigma>)\<lparr>t_nextRequest := []\<rparr>"
      using assms(1) by (auto simp: \<tau>)
    show ?case
      unfolding sum.case k
      by (intro wp_intros, rule wp_conseq [OF assms(2) [OF \<upsilon>]]) (simp_all add: wp_simps)
  next
    case 2
    with assms(1) show ?case by (simp add: \<tau>)
  qed
  show ?thesis
  proof (cases "ps_auth \<sigma>")
    case None
    then show ?thesis unfolding requestsLoop_turn_def by (simp add: wp_simps) (use next1 in \<open>simp add: wp_simps\<close>)
  next
    case (Some a)
    show ?thesis
      unfolding requestsLoop_turn_def
      by (rule wp_combinator_rules(9), rule wp_combinator_rules(5), unfold Some option.case,
          rule wp_combinator_rules(9), rule wp_combinator_rules(9), rule wp_quiet [OF quiet_now],
          rule wp_combinator_rules(1), rule wp_if) (simp_all add: wp_simps(2,7) next1)
  qed
qed

lemma requestsLoop_turn_wp:
  assumes "paired (traffic \<sigma>) st"
  shows "wp (requestsLoop_turn p) (\<lambda>b \<sigma>'. b \<and> requested p (traffic \<sigma>) st (traffic \<sigma>')) (\<lambda>_ _. True) \<sigma>"
  by (rule one_handler_turn_wp [where h = "snd st"])
    (use assms handleRequest_wp [OF assms] in \<open>simp_all add: paired_def\<close>)

subsection \<open>Turns of the response loop\<close>

definition responded :: "'s processor \<Rightarrow> traffic \<Rightarrow> outstanding \<Rightarrow> traffic \<Rightarrow> bool" where
  "responded p t st t' \<longleftrightarrow> (\<exists>f g st'. spec_response p st f g st' \<and> paired t' st'
     \<and> t_broker_got t' = t_broker_got t @ f \<and> t_client_sent t' = t_client_sent t @ g
     \<and> t_client_got t' = t_client_got t \<and> t_broker_sent t' = t_broker_sent t)"

lemma respondedI:
  assumes "spec_response p st f g st'" "paired t' st'" "t_broker_got t' = t_broker_got t @ f"
    and "t_client_sent t' = t_client_sent t @ g" "t_client_got t' = t_client_got t"
    and "t_broker_sent t' = t_broker_sent t"
  shows "responded p t st t'"
  unfolding responded_def using assms by blast

lemma SaslAuthV0ResponseHandler_wp:
  "wp (SaslAuthV0ResponseHandler_handleResponse p)
    (\<lambda>_ \<sigma>'. exchange (traffic \<sigma>) (\<lambda>f g. length f = 4 \<and> g = f) (traffic \<sigma>')) (\<lambda>_ _. True) \<sigma>"
  unfolding SaslAuthV0ResponseHandler_handleResponse_def copySaslAuthResponse_def
  by (intro wp_intros; simp)

lemma responsesLoop_turn_wp:
  assumes "paired (traffic \<sigma>) (x # owed, h)"
  shows "wp (responsesLoop_turn p) (\<lambda>_ \<sigma>'. responded p (traffic \<sigma>) (x # owed, h) (traffic \<sigma>')) (\<lambda>_ _. True) \<sigma>"
  unfolding responsesLoop_turn_def chan_defs
proof (intro wp_intros allI impI, goal_cases)
  case (1 k q \<tau>)
  then have k: "k = handler_of x"
    and \<tau>: "traffic \<tau> = (traffic \<sigma>)\<lparr>t_nextResponse := map handler_of owed @ [leading h]\<rparr>"
    using assms by (auto simp: paired_def)
  show ?case
  proof (cases x)
    case (Framed rkv)
    have "wp (DefaultResponseHandler_handleResponse p)
        (\<lambda>_ \<sigma>'. responded p (traffic \<sigma>) (x # owed, h) (traffic \<sigma>')) (\<lambda>_ _. True) \<tau>"
    proof (rule wp_conseq [OF DefaultResponseHandler_wp])
      fix u and \<sigma>' :: "'a pstate"
      assume "\<exists>f g. answered p f g (traffic \<tau>) (traffic \<sigma>')"
      then obtain f g rkv' q where q: "t_open (traffic \<tau>) = rkv' # q" and r: "reply_for p rkv' f g"
        and t': "traffic \<sigma>' = (traffic \<tau>)\<lparr>t_broker_got := t_broker_got (traffic \<tau>) @ f,
          t_client_sent := t_client_sent (traffic \<tau>) @ g, t_open := q\<rparr>" by (auto simp: answered_def)
      have "rkv' = rkv" "q = concat (map framed_of owed)"
        using q assms Framed by (simp_all add: \<tau> paired_def)
      then show "responded p (traffic \<sigma>) (x # owed, h) (traffic \<sigma>')"
        unfolding Framed
        by (intro respondedI [OF spec_framed [OF r [unfolded \<open>rkv' = rkv\<close>]]])
          (use assms in \<open>simp_all add: t' \<tau> paired_def\<close>)
    qed simp
    then show ?thesis by (simp add: k Framed)
  next
    case RawSasl
    have "wp (SaslAuthV0ResponseHandler_handleResponse p)
        (\<lambda>_ \<sigma>'. responded p (traffic \<sigma>) (x # owed, h) (traffic \<sigma>')) (\<lambda>_ _. True) \<tau>"
    proof (rule wp_conseq [OF SaslAuthV0ResponseHandler_wp])
      fix u and \<sigma>' :: "'a pstate"
      assume "exchange (traffic \<tau>) (\<lambda>f g. length f = 4 \<and> g = f) (traffic \<sigma>')"
      then obtain f where f: "length f = 4" and t': "traffic \<sigma>' = (traffic \<tau>)
          \<lparr>t_broker_got := t_broker_got (traffic \<tau>) @ f, t_client_sent := t_client_sent (traffic \<tau>) @ f\<rparr>"
        by (auto simp: exchange_def)
      show "responded p (traffic \<sigma>) (x # owed, h) (traffic \<sigma>')"
        unfolding RawSasl
        by (rule respondedI [OF spec_raw_reply [OF f]]) (use assms RawSasl in \<open>simp_all add: t' \<tau> paired_def\<close>)
    qed simp
    then show ?thesis by (simp add: k RawSasl)
  qed
qed simp

subsection \<open>Every interleaving follows the specification\<close>

lemma requested_event:
  assumes "requested p t st t'" "spec_run p evs st"
  shows "\<exists>st'. spec_run p (evs @ [request_event t t']) st' \<and> paired t' st'"
proof -
  from assms(1) obtain c s st' where r: "spec_request p st c s st'" "paired t' st'"
    and e: "request_event t t' = Sent c s" by (auto simp: requested_def request_event_def)
  from spec_sent [OF assms(2) r(1)] r(2) show ?thesis unfolding e by (intro exI conjI)
qed

lemma responded_event:
  assumes "responded p t st t'" "spec_run p evs st"
  shows "\<exists>st'. spec_run p (evs @ [response_event t t']) st' \<and> paired t' st'"
proof -
  from assms(1) obtain f g st' where r: "spec_response p st f g st'" "paired t' st'"
    and e: "response_event t t' = Answered f g" by (auto simp: responded_def response_event_def)
  from spec_answered [OF assms(2) r(1)] r(2) show ?thesis unfolding e by (intro exI conjI)
qed

lemma session_spec:
  assumes "session cfg evs \<sigma>"
  shows "\<exists>st. spec_run (newProcessor cfg) evs st \<and> paired (traffic \<sigma>) st"
  using assms
proof (induction rule: session.induct)
  case (session_start t remote local clock x)
  have "paired (traffic (new_pstate cfg t remote local clock x)) ([], DefaultRequestHandler)"
    by (simp add: paired_def traffic_def new_pstate_def)
  with spec_start show ?case by blast
next
  case (session_request evs \<sigma> b \<sigma>')
  then obtain st where st: "spec_run (newProcessor cfg) evs st" "paired (traffic \<sigma>) st" by blast
  from wp_InrD [OF requestsLoop_turn_wp [OF st(2)] session_request(2)] st(1)
  show ?case by (intro requested_event) auto
next
  case (session_response evs \<sigma> \<sigma>')
  then obtain st where st: "spec_run (newProcessor cfg) evs st" "paired (traffic \<sigma>) st" by blast
  have "length (ps_nextResponse \<sigma>) = length (fst st) + 1"
    using st(2) by (simp add: paired_def traffic_sel)
  with session_response(2) obtain x owed h where x: "st = (x # owed, h)"
    by (cases st; cases "fst st") auto
  from wp_InrD [OF responsesLoop_turn_wp [OF st(2) [unfolded x]] session_response(3)] st(1)
  show ?case unfolding x by (intro responded_event) auto
qed

end
