(* ===== verification/Teardown.thy ===== *)
theory Teardown
  imports Session
begin

section \<open>Taking a connection down\<close>

text \<open>
  \<open>copyThenClose\<close>, \<open>classifyTeardown\<close> and \<open>copyError\<close> of \<open>proxy/common.go\<close>.  Each loop that returns
  goes through the \<open>select\<close> on \<open>firstErr\<close>, a channel of capacity one: the first to come records the
  label of its reason and closes both connections, the second finds the channel full.  How often
  each connection was closed is counted.  A loop
  that panics does not get there: \<open>withRecover\<close> (around the request loop, and in \<open>Client.Run\<close>
  around the response loop) catches the panic above it.
\<close>

record teardown =
  td_firstErr :: "goerror option list"
  td_labels :: "string list"
  td_remote_closed :: nat
  td_local_closed :: nat

definition new_teardown :: teardown where
  "new_teardown = \<lparr>td_firstErr = [], td_labels = [], td_remote_closed = 0, td_local_closed = 0\<rparr>"

definition classifyTeardown :: "bool \<Rightarrow> goerror option \<Rightarrow> string" where
  "classifyTeardown readErr err =
     (if err = None then ''clean''
      else if readErr \<and> err = Some IoEOF then ''client_eof''
      else if err = Some IoEOF then ''eof_write_side''
      else ''error'')"

text \<open>The entry of the log: a description and the error, whose message a nil error does not have.\<close>

definition copyError :: "string \<Rightarrow> string \<Rightarrow> bool \<Rightarrow> goerror option \<Rightarrow> (string \<times> goerror) result" where
  "copyError readDesc writeDesc readErr err =
     (let desc = (if readErr then ''Reading data from '' @ readDesc else ''Writing data to '' @ writeDesc) in
      case err of
        None \<Rightarrow> Inl (GoPanic ''invalid memory address or nil pointer dereference'')
      | Some e \<Rightarrow> Inr (desc, e))"

definition close_both :: "(teardown, unit) action" where
  "close_both = amod (\<lambda>td. td\<lparr>td_remote_closed := Suc (td_remote_closed td), td_local_closed := Suc (td_local_closed td)\<rparr>)"

text \<open>What a loop that returned \<open>(readErr, err)\<close> does; \<open>rename\<close> is the change of the label.\<close>

definition loop_exit ::
  "(string \<Rightarrow> string) \<Rightarrow> string \<Rightarrow> string \<Rightarrow> string \<Rightarrow> bool \<times> goerror option \<Rightarrow> (teardown, unit) action" where
  "loop_exit rename quiet readDesc writeDesc x =
     abind (agets td_firstErr) (\<lambda>firstErr.
     if firstErr \<noteq> [] then aret ()
     else
       (let reason = rename (classifyTeardown (fst x) (snd x)) in
        abind (amod (\<lambda>td. td\<lparr>td_firstErr := [snd x], td_labels := td_labels td @ [reason]\<rparr>)) (\<lambda>_.
        abind (if reason = quiet then aret ()
               else abind (alift (copyError readDesc writeDesc (fst x) (snd x))) (\<lambda>_. aret ())) (\<lambda>_.
        close_both))))"

definition requests_exit :: "string \<Rightarrow> string \<Rightarrow> bool \<times> goerror option \<Rightarrow> (teardown, unit) action" where
  "requests_exit remoteDesc localDesc = loop_exit (\<lambda>reason. reason) ''client_eof'' localDesc remoteDesc"

definition responses_exit :: "string \<Rightarrow> string \<Rightarrow> bool \<times> goerror option \<Rightarrow> (teardown, unit) action" where
  "responses_exit remoteDesc localDesc =
     loop_exit (\<lambda>reason. if reason = ''client_eof'' then ''broker_eof'' else reason) ''broker_eof''
       remoteDesc localDesc"

text \<open>
  What a loop returns when a turn of it ends it; nothing, if it panics.  A turn of the request
  loop that goes on gives \<open>Inr True\<close>.
\<close>

fun loop_result :: "(bool \<times> gofail) + bool \<Rightarrow> (bool \<times> goerror option) option" where
  "loop_result (Inl (readErr, GoErr e)) = Some (readErr, Some e)"
| "loop_result (Inl (readErr, GoPanic msg)) = None"
| "loop_result (Inr goes_on) = (if goes_on then None else Some (False, None))"

lemma loop_exit_error:
  "loop_exit rename quiet r w (readErr, Some e) new_teardown =
    (Inr (), \<lparr>td_firstErr = [Some e], td_labels = [rename (classifyTeardown readErr (Some e))],
       td_remote_closed = 1, td_local_closed = 1\<rparr>)"
  by (simp add: loop_exit_def new_teardown_def abind_def agets_def amod_def copyError_def close_both_def
      aret_def alift_def Let_def)

lemma loop_exit_second: "td_firstErr td \<noteq> [] \<Longrightarrow> loop_exit rename quiet r w x td = (Inr (), td)"
  by (simp add: loop_exit_def abind_def agets_def aret_def)

lemma loop_exit_clean:
  "rename ''clean'' \<noteq> quiet \<Longrightarrow>
   loop_exit rename quiet r w (readErr, None) new_teardown =
    (Inl (GoPanic ''invalid memory address or nil pointer dereference''),
       \<lparr>td_firstErr = [None], td_labels = [rename ''clean''], td_remote_closed = 0, td_local_closed = 0\<rparr>)"
  by (simp add: loop_exit_def new_teardown_def abind_def agets_def amod_def copyError_def close_both_def
      classifyTeardown_def aret_def alift_def Let_def)

end
