(* ===== verification/SessionProps.thy ===== *)
theory SessionProps
  imports Teardown RequestProps
begin

section \<open>Sessions: theorems\<close>

text \<open>
  That every interleaving of the two loops follows the queue of outstanding replies, how a
  session ends, and that the replies come in the order of the requests.
\<close>

text \<open>
  C2: The channels implement one queue.  Along every interleaving of successful turns of the two
  loops, from the state \<open>newProcessor\<close> leaves, the traffic follows the specification: each turn
  of the request loop forwards a whole admitted request, relays a raw SASL message, is idle or
  injects a re-authentication, and puts the replies that are owed at the end of a queue; each
  turn of the response loop answers the reply at the head of the queue by what is due for it.
  The open requests and both handler channels are determined by the queue.
\<close>

theorem session_refines_queue:
  assumes "session cfg evs \<sigma>"
  shows "\<exists>st. spec_run (newProcessor cfg) evs st \<and> paired (traffic \<sigma>) st"
  using session_spec [OF assms] .

definition fresh_pstate :: "byte list list \<Rightarrow> nat pstate" where
  "fresh_pstate cs = new_pstate sample_config 0 (sample_conn []) (sample_conn cs) sample_clock 0"

definition ticked :: "byte list list \<Rightarrow> nat pstate" where
  "ticked cs = (sample_pstate cs [])\<lparr>ps_clock := sample_clock\<lparr>ck_ticks := 1\<rparr>\<rparr>"

lemma fresh_turn:
  "requestsLoop_turn (newProcessor sample_config) (fresh_pstate cs) =
    abind (DefaultRequestHandler_handleRequest (newProcessor sample_config)) (\<lambda>_. aret True) (ticked cs)"
  by (simp add: requestsLoop_turn_def fresh_pstate_def ticked_def sample_pstate_def new_pstate_def
      abind_def agets_def atry_def now_def zoom_def clock_now_def getNextRequestHandler_def on_nextRequest_def
      chan_get_def InFlightExpired_def newConnectionAuthState_def sample_clock_def aret_def Let_def
      split: prod.splits sum.splits)

lemma fresh_turns:
  "fst (requestsLoop_turn (newProcessor sample_config) (fresh_pstate sample_pieces)) = Inr True"
  "fst (requestsLoop_turn (newProcessor sample_config) (fresh_pstate [])) = Inl (True, GoErr IoEOF)"
proof -
  have c: "calm (sample_request_frame @ [99]) [] (ticked sample_pieces)"
    using sample_request_facts(1) by (simp add: calm_def ticked_def)
  have r: "room (newProcessor sample_config) (traffic (ticked sample_pieces))"
    using sample_request_facts(7) by (simp add: room_def traffic_def ticked_def)
  from wp_succeeds [OF calm_handler [OF c sample_request_facts(3,4,6) r sample_request_facts(8,5)]]
  show "fst (requestsLoop_turn (newProcessor sample_config) (fresh_pstate sample_pieces)) = Inr True"
    by (auto simp: fresh_turn abind_def aret_def)
  show "fst (requestsLoop_turn (newProcessor sample_config) (fresh_pstate [])) = Inl (True, GoErr IoEOF)"
    by (simp add: fresh_turn ticked_def sample_pstate_def new_pstate_def sample_conn_def sample_source_def
        DefaultRequestHandler_handleRequest_def abind_def agets_def atry_def flag_def zooms zoom_def
        SetReadDeadline_def SetWriteDeadline_def deadline_call_def amod_def read_full_def
        read_full_loop.simps src_read_def aret_def alift_def isReadDeadlineTimeout_def)
qed

definition one_request :: "nat pstate" where
  "one_request = snd (requestsLoop_turn (newProcessor sample_config) (fresh_pstate sample_pieces))"

lemma sample_session:
  "session sample_config [] (fresh_pstate cs)"
  "session sample_config ([] @ [request_event (traffic (fresh_pstate sample_pieces)) (traffic one_request)]) one_request"
proof -
  show s: "session sample_config [] (fresh_pstate cs)" for cs
    unfolding fresh_pstate_def by (rule session_start)
  show "session sample_config ([] @ [request_event (traffic (fresh_pstate sample_pieces)) (traffic one_request)]) one_request"
    by (rule session_request [OF s, where b = True])
      (use fresh_turns(1) in \<open>simp add: one_request_def prod_eq_iff\<close>)
qed

lemma session_refines_queue_witness:
  "\<exists>st. spec_run (newProcessor sample_config) ([] @ [request_event (traffic (fresh_pstate sample_pieces)) (traffic one_request)]) st
     \<and> paired (traffic one_request) st"
  by (rule session_refines_queue [OF sample_session(2)])

text \<open>
  A session that its request loop ends is taken down once.  If a turn of the request loop
  returns an error or finds no handler, then it has an error to report (in a session a handler is
  never missing, and the log of a nil error would panic before the connections are closed); both
  connections are closed once, the one label is that of this error, and the exit of the response loop
  that follows changes nothing.
\<close>

theorem session_taken_down_once:
  assumes "session cfg evs \<sigma>" "requestsLoop_turn (newProcessor cfg) \<sigma> = (r, \<sigma>')" "loop_result r = Some x"
  shows "\<exists>e td. snd x = Some e \<and> requests_exit remoteDesc localDesc x new_teardown = (Inr (), td)
    \<and> td_labels td = [classifyTeardown (fst x) (Some e)] \<and> td_remote_closed td = 1 \<and> td_local_closed td = 1
    \<and> responses_exit remoteDesc localDesc y td = (Inr (), td)"
proof -
  from session_spec [OF assms(1)] obtain st where "paired (traffic \<sigma>) st" by blast
  note turn = wp_InrD [OF requestsLoop_turn_wp [OF this], of "newProcessor cfg"]
  obtain b e where x: "x = (b, Some e)"
  proof (cases r)
    case (Inl f)
    with assms(3) that show thesis by (cases f; cases "snd f") auto
  next
    case (Inr goes_on)
    with turn assms(2) have goes_on by blast
    with assms(3) Inr show thesis by simp
  qed
  show ?thesis
    unfolding x requests_exit_def
    by (simp add: loop_exit_error responses_exit_def loop_exit_second)
qed

definition after_eof :: "nat pstate" where
  "after_eof = snd (requestsLoop_turn (newProcessor sample_config) (fresh_pstate []))"

lemma session_taken_down_once_witness:
  "\<exists>e td. snd (True, Some IoEOF) = Some e
    \<and> requests_exit ''broker'' ''client'' (True, Some IoEOF) new_teardown = (Inr (), td)
    \<and> td_labels td = [classifyTeardown (fst (True, Some IoEOF)) (Some e)] \<and> td_remote_closed td = 1 \<and> td_local_closed td = 1
    \<and> responses_exit ''broker'' ''client'' (True, Some IoEOF) td = (Inr (), td)"
proof (rule session_taken_down_once [OF sample_session(1)])
  show "requestsLoop_turn (newProcessor sample_config) (fresh_pstate []) = (Inl (True, GoErr IoEOF), after_eof)"
    using fresh_turns(2) by (simp add: after_eof_def prod_eq_iff)
qed simp

subsection \<open>The order of the replies\<close>

inductive_cases spec_requestE: "spec_request p st c s st'"
inductive_cases spec_responseE: "spec_response p st f g st'"

text \<open>The replies that a turn of the request loop makes the broker owe, by what it took and sent.\<close>

inductive owes :: "'s processor \<Rightarrow> byte list \<Rightarrow> byte list \<Rightarrow> reply list \<Rightarrow> bool" for p where
  owes_request: "whole_request req \<Longrightarrow> admitted p (frame_rkv req) \<Longrightarrow>
    reply = reply_expected p (frame_rkv req) (drop 8 req) \<Longrightarrow>
    owes p req req (if reply then [Framed (frame_rkv req)] else [])"
| owes_idle: "length lost < 8 \<Longrightarrow> owes p lost [] []"
| owes_reauth: "length lost < 8 \<Longrightarrow> pr_saslAuthByProxy p = Some sb \<Longrightarrow>
    returns (sa_buildReauthHandshakeRequest sb reauthHandshakeCorrelationID) handshake \<Longrightarrow>
    returns (sa_buildReauthRequest sb reauthCorrelationID) request \<Longrightarrow>
    owes p lost (handshake @ request) [Framed handshake_marker, Framed authenticate_marker]"
| owes_raw: "length size_buf = 4 \<Longrightarrow> length body = unat (get_be32 size_buf) \<Longrightarrow>
    owes p (size_buf @ body) (size_buf @ body) [RawSasl]"

definition answers :: "'s processor \<Rightarrow> reply \<Rightarrow> byte list \<Rightarrow> byte list \<Rightarrow> bool" where
  "answers p r f g = (case r of Framed rkv \<Rightarrow> reply_for p rkv f g | RawSasl \<Rightarrow> length f = 4 \<and> g = f)"

fun sents :: "event list \<Rightarrow> (byte list \<times> byte list) list" where
  "sents [] = []"
| "sents (Sent c s # evs) = (c, s) # sents evs"
| "sents (Answered f g # evs) = sents evs"

fun answereds :: "event list \<Rightarrow> (byte list \<times> byte list) list" where
  "answereds [] = []"
| "answereds (Sent c s # evs) = answereds evs"
| "answereds (Answered f g # evs) = (f, g) # answereds evs"

lemma events_append [simp]:
  "sents (evs @ evs') = sents evs @ sents evs'" "answereds (evs @ evs') = answereds evs @ answereds evs'"
  by (induction evs rule: sents.induct) simp_all

lemma spec_request_owes:
  "spec_request p st c s st' \<Longrightarrow> \<exists>rs. owes p c s rs \<and> fst st' = fst st @ rs"
  by (erule spec_requestE) (auto intro: owes.intros dest: owes_request [OF _ _ refl] split: if_splits)

lemma spec_response_answers:
  "spec_response p st f g st' \<Longrightarrow> \<exists>r. answers p r f g \<and> fst st = r # fst st'"
  by (erule spec_responseE) (auto simp: answers_def)

lemma spec_run_order:
  "spec_run p evs st \<Longrightarrow> \<exists>rss as. list_all2 (\<lambda>(c, s) rs. owes p c s rs) (sents evs) rss
     \<and> list_all2 (\<lambda>(f, g) r. answers p r f g) (answereds evs) as \<and> concat rss = as @ fst st"
proof (induction rule: spec_run.induct)
  case spec_start
  then show ?case by simp
next
  case (spec_sent evs st c s st')
  then obtain rss as where "list_all2 (\<lambda>(c, s) rs. owes p c s rs) (sents evs) rss"
    "list_all2 (\<lambda>(f, g) r. answers p r f g) (answereds evs) as" "concat rss = as @ fst st" by blast
  moreover from spec_request_owes [OF spec_sent.hyps(2)] obtain rs where "owes p c s rs" "fst st' = fst st @ rs" by blast
  ultimately show ?case
    by (intro exI [of _ "rss @ [rs]"] exI [of _ as]) (auto intro: list_all2_appendI)
next
  case (spec_answered evs st f g st')
  then obtain rss as where "list_all2 (\<lambda>(c, s) rs. owes p c s rs) (sents evs) rss"
    "list_all2 (\<lambda>(f, g) r. answers p r f g) (answereds evs) as" "concat rss = as @ fst st" by blast
  moreover from spec_response_answers [OF spec_answered.hyps(2)] obtain r where "answers p r f g" "fst st = r # fst st'" by blast
  ultimately show ?case
    by (intro exI [of _ rss] exI [of _ "as @ [r]"]) (auto intro: list_all2_appendI)
qed

text \<open>
  C3: Replies come back in the order of the requests.  Along every interleaving of successful turns
  of the two loops, the requests sent make the broker owe certain replies, in their order; the
  frames the client was answered are the first of them, each of them what is due for its own
  request; and the rest of them is what the open requests say.
\<close>

theorem replies_in_order:
  assumes "session cfg evs \<sigma>"
  shows "\<exists>rss as owed. list_all2 (\<lambda>(c, s) rs. owes (newProcessor cfg) c s rs) (sents evs) rss
    \<and> list_all2 (\<lambda>(f, g) r. answers (newProcessor cfg) r f g) (answereds evs) as
    \<and> concat rss = as @ owed \<and> t_open (traffic \<sigma>) = concat (map framed_of owed)"
proof -
  from session_spec [OF assms] obtain st where "spec_run (newProcessor cfg) evs st" "paired (traffic \<sigma>) st" by blast
  with spec_run_order [of "newProcessor cfg" evs st] show ?thesis by (auto simp: paired_def)
qed

lemma replies_in_order_witness:
  "\<exists>rss as owed. list_all2 (\<lambda>(c, s) rs. owes (newProcessor sample_config) c s rs)
      (sents [request_event (traffic (fresh_pstate sample_pieces)) (traffic one_request)]) rss
    \<and> concat rss = as @ owed \<and> t_open (traffic one_request) = concat (map framed_of owed)"
  using replies_in_order [OF sample_session(2)] by auto

end
