(* ===== verification/Config.thy ===== *)
theory Config
  imports AuthState GoNet
begin

section \<open>The configuration\<close>

text \<open>
  \<open>config/config.go\<close>: the nested structs as one record (\<open>Proxy_X\<close> is \<open>c.Proxy.X\<close>), the parsing of
  the server and dial mappings of the command line, the defaults and \<open>Validate\<close>.  Whether a
  string is an IP address is asked of \<open>net.ParseIP\<close>, here the parameter \<open>is_ip\<close>.
\<close>

record ConfigListenerConfig =
  sm_BrokerAddress :: string
  sm_ListenerAddress :: string
  sm_AdvertisedAddress :: string

record DialAddressMapping =
  dm_SourceAddress :: string
  dm_DestinationAddress :: string

record Config =
  Http_ListenAddress :: string
  Http_MetricsPath :: string
  Http_HealthPath :: string
  Http_Disable :: bool
  Debug_ListenAddress :: string
  Debug_DebugPath :: string
  Debug_Enabled :: bool
  Log_Format :: string
  Log_Level :: string
  Proxy_DefaultListenerIP :: string
  Proxy_BootstrapServers :: "ConfigListenerConfig list"
  Proxy_ExternalServers :: "ConfigListenerConfig list"
  Proxy_DeterministicListeners :: bool
  Proxy_DialAddressMappings :: "DialAddressMapping list"
  Proxy_DisableDynamicListeners :: bool
  Proxy_DynamicAdvertisedListener :: string
  Proxy_DynamicSequentialMinPort :: "16 word"
  Proxy_DynamicSequentialMaxPorts :: "16 word"
  Proxy_RequestBufferSize :: int
  Proxy_ResponseBufferSize :: int
  Proxy_ListenerReadBufferSize :: int
  Proxy_ListenerWriteBufferSize :: int
  Proxy_ListenerKeepAlive :: duration
  Kafka_ClientID :: string
  Kafka_MaxOpenRequests :: int
  Kafka_ForbiddenApiKeys :: "int list"
  Kafka_DialTimeout :: duration
  Kafka_WriteTimeout :: duration
  Kafka_ReadTimeout :: duration
  Kafka_KeepAlive :: duration
  Kafka_ConnectionReadBufferSize :: int
  Kafka_ConnectionWriteBufferSize :: int
  Kafka_TLS_Enable :: bool
  Kafka_TLS_Refresh :: duration
  Kafka_TLS_InsecureSkipVerify :: bool
  Kafka_TLS_CAChainCertFile :: string
  Kafka_TLS_SystemCertPool :: bool
  Kafka_SASL_Enable :: bool
  Kafka_Producer_Acks0Disabled :: bool

subsection \<open>Mappings of the command line\<close>

definition join_address :: "string \<times> 32 word \<Rightarrow> string" where
  "join_address a = JoinHostPort (fst a) (go_itoa (sint (snd a)))"

definition server_mapping_form :: goerror where
  "server_mapping_form =
     ErrNew (''server-mapping must be in form '' @ [CHR 0x27] @
       ''remotehost:remoteport,localhost:localport(,advhost:advport)'' @ [CHR 0x27])"

definition dial_mapping_form :: goerror where
  "dial_mapping_form = ErrNew (''dial-mapping must be in form '' @ [CHR 0x27] @ ''srchost:srcport,dsthost:dstport'' @ [CHR 0x27])"

definition getListenerConfig :: "string \<Rightarrow> ConfigListenerConfig result" where
  "getListenerConfig v =
     (let pair = go_split CHR '','' v in
      if length pair \<noteq> 2 \<and> length pair \<noteq> 3 then Inl (GoErr server_mapping_form)
      else
        rbind (SplitHostPort (pair ! 0)) (\<lambda>remote.
        rbind (SplitHostPort (pair ! 1)) (\<lambda>local.
        rbind (if length pair = 3 then SplitHostPort (pair ! 2) else Inr local) (\<lambda>adv.
        Inr \<lparr>sm_BrokerAddress = join_address remote, sm_ListenerAddress = join_address local,
          sm_AdvertisedAddress = join_address adv\<rparr>))))"

fun getListenerConfigs :: "string list \<Rightarrow> ConfigListenerConfig list result" where
  "getListenerConfigs [] = Inr []"
| "getListenerConfigs (v # vs) =
     rbind (getListenerConfig v) (\<lambda>c. rbind (getListenerConfigs vs) (\<lambda>cs. Inr (c # cs)))"

definition getDialAddressMapping :: "string \<Rightarrow> DialAddressMapping result" where
  "getDialAddressMapping v =
     (let pair = go_split CHR '','' v in
      if length pair \<noteq> 2 then Inl (GoErr dial_mapping_form)
      else
        rbind (SplitHostPort (pair ! 0)) (\<lambda>src.
        rbind (SplitHostPort (pair ! 1)) (\<lambda>dst.
        Inr \<lparr>dm_SourceAddress = join_address src, dm_DestinationAddress = join_address dst\<rparr>)))"

fun getDialAddressMappings :: "string list \<Rightarrow> DialAddressMapping list result" where
  "getDialAddressMappings [] = Inr []"
| "getDialAddressMappings (v # vs) =
     rbind (getDialAddressMapping v) (\<lambda>c. rbind (getDialAddressMappings vs) (\<lambda>cs. Inr (c # cs)))"

text \<open>On an error the result of the parsing, nil, is stored all the same.\<close>

definition InitBootstrapServers :: "string list \<Rightarrow> Config \<Rightarrow> unit result \<times> Config" where
  "InitBootstrapServers ms c =
     (case getListenerConfigs ms of
        Inl e \<Rightarrow> (Inl e, c\<lparr>Proxy_BootstrapServers := []\<rparr>)
      | Inr l \<Rightarrow> (Inr (), c\<lparr>Proxy_BootstrapServers := l\<rparr>))"

definition InitExternalServers :: "string list \<Rightarrow> Config \<Rightarrow> unit result \<times> Config" where
  "InitExternalServers ms c =
     (case getListenerConfigs ms of
        Inl e \<Rightarrow> (Inl e, c\<lparr>Proxy_ExternalServers := []\<rparr>)
      | Inr l \<Rightarrow> (Inr (), c\<lparr>Proxy_ExternalServers := l\<rparr>))"

definition InitDialAddressMappings :: "string list \<Rightarrow> Config \<Rightarrow> unit result \<times> Config" where
  "InitDialAddressMappings ms c =
     (case getDialAddressMappings ms of
        Inl e \<Rightarrow> (Inl e, c\<lparr>Proxy_DialAddressMappings := []\<rparr>)
      | Inr l \<Rightarrow> (Inr (), c\<lparr>Proxy_DialAddressMappings := l\<rparr>))"

subsection \<open>Defaults and validation\<close>

definition seconds :: "int \<Rightarrow> duration" where
  "seconds n = of_int (n * second)"

definition defaultClientID :: string where
  "defaultClientID = ''kafka-gcp-proxy''"

definition NewConfig :: Config where
  "NewConfig = \<lparr>Http_ListenAddress = [], Http_MetricsPath = ''/metrics'', Http_HealthPath = ''/health'',
     Http_Disable = False, Debug_ListenAddress = [], Debug_DebugPath = [], Debug_Enabled = False,
     Log_Format = [], Log_Level = [], Proxy_DefaultListenerIP = ''127.0.0.1'',
     Proxy_BootstrapServers = [], Proxy_ExternalServers = [], Proxy_DeterministicListeners = False,
     Proxy_DialAddressMappings = [], Proxy_DisableDynamicListeners = False,
     Proxy_DynamicAdvertisedListener = [], Proxy_DynamicSequentialMinPort = 0,
     Proxy_DynamicSequentialMaxPorts = 0, Proxy_RequestBufferSize = 4096,
     Proxy_ResponseBufferSize = 4096, Proxy_ListenerReadBufferSize = 0,
     Proxy_ListenerWriteBufferSize = 0, Proxy_ListenerKeepAlive = seconds 60,
     Kafka_ClientID = defaultClientID, Kafka_MaxOpenRequests = 256, Kafka_ForbiddenApiKeys = [],
     Kafka_DialTimeout = seconds 15, Kafka_WriteTimeout = seconds 30, Kafka_ReadTimeout = seconds 30,
     Kafka_KeepAlive = seconds 60, Kafka_ConnectionReadBufferSize = 0,
     Kafka_ConnectionWriteBufferSize = 0, Kafka_TLS_Enable = False, Kafka_TLS_Refresh = 0,
     Kafka_TLS_InsecureSkipVerify = False, Kafka_TLS_CAChainCertFile = [],
     Kafka_TLS_SystemCertPool = False, Kafka_SASL_Enable = True, Kafka_Producer_Acks0Disabled = False\<rparr>"

text \<open>The conditions of \<open>Validate\<close> that end it with an error, in its order.\<close>

definition config_errors :: "(string \<Rightarrow> bool) \<Rightarrow> Config \<Rightarrow> (bool \<times> string) list" where
  "config_errors is_ip c =
     [(\<not> Kafka_SASL_Enable c, ''Kafka.SASL.Enable must be true (OAUTHBEARER via google-access-token-provider)''),
      (sint (Kafka_KeepAlive c) < 0, ''KeepAlive must be greater or equal 0''),
      (sint (Kafka_DialTimeout c) < 0, ''DialTimeout must be greater or equal 0''),
      (sint (Kafka_ReadTimeout c) < 0, ''ReadTimeout must be greater or equal 0''),
      (sint (Kafka_WriteTimeout c) < 0, ''WriteTimeout must be greater or equal 0''),
      (Kafka_MaxOpenRequests c < 1, ''MaxOpenRequests must be greater than 0''),
      (Proxy_BootstrapServers c = [], ''list of bootstrap-server-mapping must not be empty''),
      (Proxy_DefaultListenerIP c = [], ''DefaultListenerIP must not be empty''),
      (\<not> is_ip (Proxy_DefaultListenerIP c), ''DefaultListenerIP is not a valid IP''),
      (Proxy_RequestBufferSize c < 1, ''RequestBufferSize must be greater than 0''),
      (Proxy_ResponseBufferSize c < 1, ''ResponseBufferSize must be greater than 0''),
      (sint (Proxy_ListenerKeepAlive c) < 0, ''ListenerKeepAlive must be greater or equal 0''),
      (\<not> Proxy_DisableDynamicListeners c \<and> Proxy_DynamicSequentialMinPort c = 0
         \<and> Proxy_DeterministicListeners c,
       ''Proxy.DynamicSequentialMinPort must be set when Proxy.DeterministicListeners is enabled''),
      (\<not> Proxy_DisableDynamicListeners c \<and> Proxy_DynamicSequentialMinPort c = 0
         \<and> 0 < Proxy_DynamicSequentialMaxPorts c,
       ''Proxy.DynamicSequentialMinPort must be set when Proxy.DynamicSequentialMaxPorts is set'')]"

definition Validate :: "(string \<Rightarrow> bool) \<Rightarrow> Config \<Rightarrow> Config result" where
  "Validate is_ip c =
     (case find fst (config_errors is_ip c) of
        Some (_, msg) \<Rightarrow> Inl (GoErr (ErrNew msg))
      | None \<Rightarrow>
          Inr (if \<not> Proxy_DisableDynamicListeners c \<and> Proxy_DynamicSequentialMaxPorts c = 0
                  \<and> 0 < Proxy_DynamicSequentialMinPort c
               then c\<lparr>Proxy_DynamicSequentialMaxPorts :=
                      ucast (65536 - ucast (Proxy_DynamicSequentialMinPort c) :: 32 word)\<rparr>
               else c))"

lemma Validate_no_error:
  assumes "Validate is_ip c = Inr c'"
  shows "list_all (\<lambda>(bad, msg). \<not> bad) (config_errors is_ip c)"
proof -
  from assms have "find fst (config_errors is_ip c) = None"
    by (auto simp: Validate_def split: option.splits)
  then show ?thesis by (auto simp: find_None_iff list_all_iff)
qed

end
