(* ===== verification/Listeners.thy ===== *)
theory Listeners
  imports Conns Responses Config "HOL-Library.AList"
begin

section \<open>The listeners of the proxy\<close>

text \<open>
  \<open>proxy/proxy.go\<close> and \<open>proxy/proxy_config.go\<close>: the table from broker addresses to the listeners
  that stand for them, and the listeners started on demand.  The source shares \<open>ListenerConfig\<close>
  objects between the table and the accept loops, and changes the broker address of one in
  place; so the configurations live in a store (\<open>ls_configs\<close>) and the table and the loops hold
  indices into it.  A Go map is an association list in the order of the coming iteration.  The
  lock makes each operation atomic.

  \<open>net.Listen\<close> is the parameter \<open>lf_listenFunc\<close> (from the listener address to the port bound, on a
  state of its own), and \<open>text/template\<close> the parameter \<open>lf_template\<close> (from the template and the
  broker id to the text); log lines are left out.
\<close>

subsection \<open>Data\<close>

definition UnknownBrokerID :: "32 word" where
  "UnknownBrokerID = - 1"

record ListenerConfig =
  lc_BrokerAddress :: string
  lc_ListenerAddress :: string
  lc_AdvertisedAddress :: string
  lc_BrokerID :: "32 word"

definition FromListenerConfig :: "ConfigListenerConfig \<Rightarrow> ListenerConfig" where
  "FromListenerConfig c = \<lparr>lc_BrokerAddress = sm_BrokerAddress c, lc_ListenerAddress = sm_ListenerAddress c,
     lc_AdvertisedAddress = sm_AdvertisedAddress c, lc_BrokerID = UnknownBrokerID\<rparr>"

definition NewListenerConfig :: "string \<Rightarrow> string \<Rightarrow> string \<Rightarrow> 32 word \<Rightarrow> ListenerConfig" where
  "NewListenerConfig brokerAddress listenerAddress advertisedAddress brokerID =
     \<lparr>lc_BrokerAddress = brokerAddress, lc_ListenerAddress = listenerAddress,
      lc_AdvertisedAddress = advertisedAddress, lc_BrokerID = brokerID\<rparr>"

definition ToListenerConfig :: "ListenerConfig \<Rightarrow> ConfigListenerConfig" where
  "ToListenerConfig c = \<lparr>sm_BrokerAddress = lc_BrokerAddress c, sm_ListenerAddress = lc_ListenerAddress c,
     sm_AdvertisedAddress = lc_AdvertisedAddress c\<rparr>"

text \<open>The fixed part of \<open>Listeners\<close>, and its state.\<close>

record 's listeners_config =
  lf_defaultListenerIP :: string
  lf_dynamicAdvertisedListener :: string
  lf_deterministicListeners :: bool
  lf_disableDynamicListeners :: bool
  lf_dynamicSequentialMinPort :: "16 word"
  lf_dynamicSequentialMaxPorts :: "16 word"
  lf_listenFunc :: "string \<Rightarrow> ('s, int) action"
  lf_template :: "string \<Rightarrow> 32 word \<Rightarrow> string result"

record 's listeners =
  ls_configs :: "ListenerConfig list"
  ls_table :: "(string \<times> nat) list"
  ls_counter :: "64 word"
  ls_accepting :: "(nat \<times> int) list"
  ls_closed :: "(nat \<times> int) list"
  ls_ext :: 's

subsection \<open>Ports\<close>

definition port_overflow :: "string \<Rightarrow> 32 word \<Rightarrow> 16 word \<Rightarrow> goerror" where
  "port_overflow brokerAddress brokerId port = ErrNew (''port assignment overflow '' @ brokerAddress @ '' ''
     @ go_itoa (sint brokerId) @ '': '' @ go_itoa (uint port))"

definition nextDynamicPort :: "'s listeners_config \<Rightarrow> 64 word \<Rightarrow> string \<Rightarrow> 32 word \<Rightarrow> 16 word result" where
  "nextDynamicPort f portOffset brokerAddress brokerId =
     (if lf_dynamicSequentialMaxPorts f = 0 then Inl (GoErr (ErrNew ''dynamic sequential max ports is 0''))
      else
        (let port = lf_dynamicSequentialMinPort f + ucast (portOffset mod ucast (lf_dynamicSequentialMaxPorts f)) in
         if port < lf_dynamicSequentialMinPort f then Inl (GoErr (port_overflow brokerAddress brokerId port))
         else Inr port))"

definition getDynamicAdvertisedAddress :: "'s listeners_config \<Rightarrow> 32 word \<Rightarrow> int \<Rightarrow> (string \<times> int) result" where
  "getDynamicAdvertisedAddress f brokerID port =
     (if lf_dynamicAdvertisedListener f = [] then Inr (lf_defaultListenerIP f, port)
      else
        rbind (lf_template f (lf_dynamicAdvertisedListener f) brokerID) (\<lambda>dynamicAdvertisedListener.
          case net_SplitHostPort dynamicAdvertisedListener of
            Inl _ \<Rightarrow> Inr (dynamicAdvertisedListener, port)
          | Inr (advHost, advPortStr) \<Rightarrow>
              (case go_atoi advPortStr of
                 Inl _ \<Rightarrow> Inr (dynamicAdvertisedListener, port)
               | Inr advPort \<Rightarrow> Inr (advHost, advPort))))"

subsection \<open>The store and the table\<close>

definition config_at :: "'s listeners \<Rightarrow> nat \<Rightarrow> ListenerConfig" where
  "config_at \<sigma> q = ls_configs \<sigma> ! q"

definition alloc :: "ListenerConfig \<Rightarrow> ('s listeners, nat) action" where
  "alloc c \<sigma> = (Inr (length (ls_configs \<sigma>)), \<sigma>\<lparr>ls_configs := ls_configs \<sigma> @ [c]\<rparr>)"

definition set_config :: "nat \<Rightarrow> (ListenerConfig \<Rightarrow> ListenerConfig) \<Rightarrow> ('s listeners, unit) action" where
  "set_config q g = amod (\<lambda>\<sigma>. \<sigma>\<lparr>ls_configs := (ls_configs \<sigma>)[q := g (ls_configs \<sigma> ! q)]\<rparr>)"

definition table_put :: "string \<Rightarrow> nat \<Rightarrow> ('s listeners, unit) action" where
  "table_put a q = amod (\<lambda>\<sigma>. \<sigma>\<lparr>ls_table := AList.update a q (ls_table \<sigma>)\<rparr>)"

definition table_delete :: "string \<Rightarrow> ('s listeners, unit) action" where
  "table_delete a = amod (\<lambda>\<sigma>. \<sigma>\<lparr>ls_table := AList.delete a (ls_table \<sigma>)\<rparr>)"

definition on_os :: "('s \<Rightarrow> 'r \<times> 's) \<Rightarrow> 's listeners \<Rightarrow> 'r \<times> 's listeners" where
  "on_os = zoom ls_ext (\<lambda>x. ls_ext_update (\<lambda>_. x))"

definition findListenerConfig :: "32 word \<Rightarrow> 's listeners \<Rightarrow> nat option" where
  "findListenerConfig brokerId \<sigma> =
     map_option snd (find (\<lambda>(a, q). lc_BrokerID (config_at \<sigma> q) = brokerId) (ls_table \<sigma>))"

definition SetBrokerAddress :: "nat \<Rightarrow> string \<Rightarrow> ('s listeners, unit) action" where
  "SetBrokerAddress q address = set_config q (lc_BrokerAddress_update (\<lambda>_. address))"

subsection \<open>Listening\<close>

text \<open>
  \<open>ls_accepting\<close> has the accept loops that run, by their configuration and their port, and \<open>ls_closed\<close>
  those that have ended.  \<open>listenInstance\<close> starts the loop of the configuration \<open>q\<close>.
\<close>

definition listenInstance :: "'s listeners_config \<Rightarrow> nat \<Rightarrow> ('s listeners, int) action" where
  "listenInstance f q =
     abind (agets (\<lambda>\<sigma>. lc_ListenerAddress (config_at \<sigma> q))) (\<lambda>listenerAddress.
     abind (on_os (lf_listenFunc f listenerAddress)) (\<lambda>port.
     abind (amod (\<lambda>\<sigma>. \<sigma>\<lparr>ls_accepting := ls_accepting \<sigma> @ [(q, port)]\<rparr>)) (\<lambda>_. aret port)))"

text \<open>
  One round of an accept loop, by what \<open>Accept\<close> returns: at an error the loop closes its listener and
  returns; a connection is handed to the channel of the client with the broker address that the
  configuration has at the time.  Options of the connection that cannot be set are only logged.
\<close>

definition accepted_for :: "'s listeners \<Rightarrow> nat \<Rightarrow> string" where
  "accepted_for \<sigma> q = lc_BrokerAddress (config_at \<sigma> q)"

definition accept_turn ::
  "nat \<times> int \<Rightarrow> nat result \<Rightarrow> 's listeners \<Rightarrow> (string \<times> nat) option \<times> 's listeners" where
  "accept_turn loop accepted \<sigma> =
     (case accepted of
        Inl err \<Rightarrow> (None, \<sigma>\<lparr>ls_accepting := remove1 loop (ls_accepting \<sigma>), ls_closed := ls_closed \<sigma> @ [loop]\<rparr>)
      | Inr c \<Rightarrow> (Some (accepted_for \<sigma> (fst loop), c), \<sigma>))"

text \<open>The listeners given on the command line.\<close>

fun ListenInstances :: "'s listeners_config \<Rightarrow> ConfigListenerConfig list \<Rightarrow> ('s listeners, unit) action" where
  "ListenInstances f [] = aret ()"
| "ListenInstances f (v # cfgs) =
     abind (alloc (FromListenerConfig v)) (\<lambda>q.
     abind (listenInstance f q) (\<lambda>_. ListenInstances f cfgs))"

text \<open>The part of \<open>ListenDynamicInstance\<close> that starts a listener.\<close>

definition startDynamicListener ::
  "'s listeners_config \<Rightarrow> string \<Rightarrow> 32 word \<Rightarrow> string \<Rightarrow> ('s listeners, string \<times> 32 word) action" where
  "startDynamicListener f brokerAddress brokerId listenerAddress =
     abind (alloc (NewListenerConfig brokerAddress listenerAddress [] brokerId)) (\<lambda>q.
     abind (listenInstance f q) (\<lambda>port.
     abind (alift (getDynamicAdvertisedAddress f brokerId port)) (\<lambda>(dynamicAdvertisedHost, dynamicAdvertisedPort).
     abind (set_config q (\<lambda>c. c\<lparr>
         lc_AdvertisedAddress := JoinHostPort dynamicAdvertisedHost (go_itoa dynamicAdvertisedPort),
         lc_ListenerAddress := JoinHostPort (lf_defaultListenerIP f) (go_itoa port)\<rparr>)) (\<lambda>_.
     abind (table_put brokerAddress q) (\<lambda>_.
     aret (dynamicAdvertisedHost, of_int dynamicAdvertisedPort))))))"

text \<open>In deterministic mode a known broker id keeps its listener when its address changes.\<close>

definition rebind :: "nat \<Rightarrow> string \<Rightarrow> ('s listeners, unit) action" where
  "rebind q brokerAddress =
     abind (agets (\<lambda>\<sigma>. lc_BrokerAddress (config_at \<sigma> q))) (\<lambda>oldBrokerAddress.
     if oldBrokerAddress \<noteq> brokerAddress
     then abind (table_delete oldBrokerAddress) (\<lambda>_.
          abind (SetBrokerAddress q brokerAddress) (\<lambda>_.
          table_put brokerAddress q))
     else aret ())"

definition advertised :: "nat \<Rightarrow> ('s listeners, string \<times> 32 word) action" where
  "advertised q =
     abind (agets (\<lambda>\<sigma>. lc_AdvertisedAddress (config_at \<sigma> q))) (\<lambda>a. alift (SplitHostPort a))"

definition ListenDynamicInstance ::
  "'s listeners_config \<Rightarrow> string \<Rightarrow> 32 word \<Rightarrow> ('s listeners, string \<times> 32 word) action" where
  "ListenDynamicInstance f brokerAddress brokerId =
     abind (agets (\<lambda>\<sigma>. map_of (ls_table \<sigma>) brokerAddress)) (\<lambda>known.
     case known of
       Some q \<Rightarrow> advertised q
     | None \<Rightarrow>
         if lf_deterministicListeners f then
           if sint brokerId < 0
           then aerr (ErrNew (''brokerId is negative '' @ brokerAddress @ '' '' @ go_itoa (sint brokerId)))
           else
             abind (alift (nextDynamicPort f (ucast brokerId) brokerAddress brokerId)) (\<lambda>deterministicPort.
             abind (agets (findListenerConfig brokerId)) (\<lambda>cfg.
             case cfg of
               Some q \<Rightarrow> abind (rebind q brokerAddress) (\<lambda>_. advertised q)
             | None \<Rightarrow> startDynamicListener f brokerAddress brokerId
                 (JoinHostPort (lf_defaultListenerIP f) (go_itoa (uint deterministicPort)))))
         else if lf_dynamicSequentialMinPort f = 0
         then startDynamicListener f brokerAddress brokerId (JoinHostPort (lf_defaultListenerIP f) (go_itoa 0))
         else
           abind (agets ls_counter) (\<lambda>n.
           abind (alift (nextDynamicPort f n brokerAddress brokerId)) (\<lambda>port.
           abind (amod (\<lambda>\<sigma>. \<sigma>\<lparr>ls_counter := ls_counter \<sigma> + 1\<rparr>)) (\<lambda>_.
           startDynamicListener f brokerAddress brokerId
             (JoinHostPort (lf_defaultListenerIP f) (go_itoa (uint port)))))))"

definition GetNetAddressMapping :: "'s listeners_config \<Rightarrow> 's listeners netAddressMappingFunc" where
  "GetNetAddressMapping f brokerHost brokerPort brokerId =
     (if brokerHost = [] \<or> sint brokerPort \<le> 0
      then aerr (ErrNew (''broker address '' @ [CHR 0x27] @ brokerHost @ '':'' @ go_itoa (sint brokerPort)
             @ [CHR 0x27] @ '' is invalid''))
      else
        (let brokerAddress = JoinHostPort brokerHost (go_itoa (sint brokerPort)) in
         abind (agets (\<lambda>\<sigma>. map_of (ls_table \<sigma>) brokerAddress)) (\<lambda>known.
         case known of
           Some q \<Rightarrow> advertised q
         | None \<Rightarrow>
             if \<not> lf_disableDynamicListeners f then ListenDynamicInstance f brokerAddress brokerId
             else aerr (ErrNew (''net address mapping for '' @ brokerHost @ '':'' @ go_itoa (sint brokerPort)
                    @ '' was not found'')))))"

end
