(* ===== verification/AddLoop.thy ===== *)
theory AddLoop
  imports KPrelude
begin

section \<open>Loops that fill a map\<close>

text \<open>
  \<open>getBrokerToListenerConfig\<close> (\<open>proxy/proxy.go\<close>) and \<open>getAddressToDialAddressMapping\<close>
  (\<open>proxy/client.go\<close>) fill Go maps in loops of one shape: a value whose key is in the map is
  compared with what is there, and either refused or skipped; another is put in, once it has
  been checked.  \<open>add_all\<close> is the shape, with the key, the comparison and the new entry as
  arguments, and the locale \<open>add_loop\<close> what such a loop does whatever they are.
\<close>

fun add_all ::
  "('v \<Rightarrow> string) \<Rightarrow> ('v \<Rightarrow> 'c \<Rightarrow> goerror option) \<Rightarrow> ('v \<Rightarrow> 'c result) \<Rightarrow> 'v list
    \<Rightarrow> (string \<times> 'c) list \<Rightarrow> (string \<times> 'c) list result" where
  "add_all key clash entry [] m = Inr m"
| "add_all key clash entry (v # vs) m =
     (case map_of m (key v) of
        Some c \<Rightarrow> (case clash v c of Some e \<Rightarrow> Inl (GoErr e) | None \<Rightarrow> add_all key clash entry vs m)
      | None \<Rightarrow> rbind (entry v) (\<lambda>c. add_all key clash entry vs (m @ [(key v, c)])))"

text \<open>What the map holds for a key in the end: what it held, or the entry of the first value.\<close>

definition settled ::
  "('v \<Rightarrow> string) \<Rightarrow> ('v \<Rightarrow> 'c result) \<Rightarrow> 'v list \<Rightarrow> (string \<times> 'c) list \<Rightarrow> string \<Rightarrow> 'c option" where
  "settled key entry vs m a =
     (case map_of m a of
        Some c \<Rightarrow> Some c
      | None \<Rightarrow> (case find (\<lambda>v. key v = a) vs of
          None \<Rightarrow> None
        | Some v \<Rightarrow> (case entry v of Inl _ \<Rightarrow> None | Inr c \<Rightarrow> Some c)))"

lemma settled_present: "map_of m (key v) = Some c \<Longrightarrow> settled key entry (v # vs) m = settled key entry vs m"
  by (auto simp: settled_def fun_eq_iff split: option.splits)

lemma settled_absent:
  "map_of m (key v) = None \<Longrightarrow> entry v = Inr c \<Longrightarrow>
   settled key entry vs (m @ [(key v, c)]) = settled key entry (v # vs) m"
  by (auto simp: settled_def fun_eq_iff map_add_def split: option.splits)

lemma settled_Nil: "settled key entry [] m = map_of m"
  by (auto simp: settled_def fun_eq_iff split: option.splits)

lemma settled_old: "map_of m a = Some c \<Longrightarrow> settled key entry vs m a = Some c"
  by (simp add: settled_def)

text \<open>The values that are refused nowhere.\<close>

definition addable ::
  "('v \<Rightarrow> string) \<Rightarrow> ('v \<Rightarrow> 'c \<Rightarrow> goerror option) \<Rightarrow> ('v \<Rightarrow> 'c result) \<Rightarrow> 'v list
    \<Rightarrow> (string \<times> 'c) list \<Rightarrow> bool" where
  "addable key clash entry vs m \<longleftrightarrow>
     (\<forall>v \<in> set vs. \<exists>c. settled key entry vs m (key v) = Some c \<and> clash v c = None)"

lemma addable_present:
  "map_of m (key v) = Some c \<Longrightarrow>
   addable key clash entry (v # vs) m \<longleftrightarrow> clash v c = None \<and> addable key clash entry vs m"
  by (auto simp: addable_def settled_present settled_old)

locale add_loop =
  fixes key :: "'v \<Rightarrow> string"
    and clash :: "'v \<Rightarrow> 'c \<Rightarrow> goerror option"
    and entry :: "'v \<Rightarrow> 'c result"
  assumes own_entry: "entry v = Inr c \<Longrightarrow> clash v c = None"
    and entry_no_panic: "\<not> is_panic (entry v)"
begin

lemma addable_absent:
  assumes "map_of m (key v) = None" "entry v = Inr c"
  shows "addable key clash entry (v # vs) m \<longleftrightarrow> addable key clash entry vs (m @ [(key v, c)])"
proof -
  have "settled key entry (v # vs) m (key v) = Some c"
    by (simp add: settled_def assms)
  then show ?thesis
    using own_entry [OF assms(2)] by (auto simp: addable_def settled_absent [where vs = vs and key = key and entry = entry and v = v, OF assms])
qed

lemma add_all_settled:
  "distinct (map fst m) \<Longrightarrow>
   if addable key clash entry vs m
   then \<exists>m'. add_all key clash entry vs m = Inr m' \<and> distinct (map fst m')
     \<and> map_of m' = settled key entry vs m
   else \<exists>e. add_all key clash entry vs m = Inl (GoErr e)"
proof (induction vs arbitrary: m)
  case Nil
  then show ?case by (simp add: addable_def settled_Nil)
next
  case (Cons v vs)
  show ?case
  proof (cases "map_of m (key v)")
    case (Some c)
    then show ?thesis
      using Cons.IH [OF Cons.prems]
      by (cases "clash v c")
        (simp_all add: addable_present [where key = key and v = v, OF Some] settled_present)
  next
    case None
    show ?thesis
    proof (cases "entry v")
      case (Inl e)
      then obtain x where "e = GoErr x" using entry_no_panic [of v] by (cases e) auto
      with Inl None show ?thesis by (simp add: addable_def settled_def)
    next
      case (Inr c)
      have "distinct (map fst (m @ [(key v, c)]))"
        using Cons.prems None by (simp add: map_of_eq_None_iff)
      from Cons.IH [OF this] show ?thesis
        by (cases "addable key clash entry vs (m @ [(key v, c)])") (simp_all add: None Inr addable_absent [OF None Inr] settled_absent [where key = key and entry = entry and v = v, OF None Inr])
    qed
  qed
qed

lemma add_all_keys:
  assumes "add_all key clash entry vs m = Inr m'"
    and "\<And>v c. entry v = Inr c \<Longrightarrow> Q (key v) c" "list_all (\<lambda>(a, c). Q a c) m"
  shows "list_all (\<lambda>(a, c). Q a c) m'"
  using assms(1,3)
proof (induction vs arbitrary: m)
  case (Cons v vs)
  then show ?case
    using assms(2) by (auto simp: rbind_Inr_conv split: option.splits)
qed simp

end

end
