(* ===== verification/ListenerTable.thy ===== *)
theory ListenerTable
  imports Listeners AddLoop "HOL-Library.Multiset"
begin

section \<open>The listeners given by the configuration\<close>

text \<open>
  \<open>NewListeners\<close> and \<open>getBrokerToListenerConfig\<close> of \<open>proxy/proxy.go\<close>: the table is filled from the
  bootstrap servers, then from the external servers, which go through a map of their own.  The
  order in which Go iterates over this map is the parameter \<open>order\<close>.
\<close>

definition show_mapping :: "ConfigListenerConfig \<Rightarrow> string" where
  "show_mapping v = ''{'' @ sm_BrokerAddress v @ '' '' @ sm_ListenerAddress v @ '' '' @ sm_AdvertisedAddress v @ ''}''"

definition bootstrap_clash :: "ConfigListenerConfig \<Rightarrow> ListenerConfig \<Rightarrow> goerror option" where
  "bootstrap_clash v lc =
     (if lc_ListenerAddress lc \<noteq> sm_ListenerAddress v \<or> lc_AdvertisedAddress lc \<noteq> sm_AdvertisedAddress v
      then Some (ErrNew (''bootstrap server mapping '' @ sm_BrokerAddress v @ '' configured twice: ''
             @ show_mapping v @ '' and '' @ show_mapping (ToListenerConfig lc)))
      else None)"

definition bootstrap_entry :: "ConfigListenerConfig \<Rightarrow> ListenerConfig result" where
  "bootstrap_entry v = Inr (FromListenerConfig v)"

definition external_clash :: "ConfigListenerConfig \<Rightarrow> ConfigListenerConfig \<Rightarrow> goerror option" where
  "external_clash v lc =
     (if sm_ListenerAddress lc \<noteq> sm_ListenerAddress v
      then Some (ErrNew (''external server mapping '' @ sm_BrokerAddress v @ '' configured twice: ''
             @ sm_ListenerAddress v @ '' and '' @ show_mapping lc))
      else None)"

definition external_entry :: "ConfigListenerConfig \<Rightarrow> ConfigListenerConfig result" where
  "external_entry v =
     (if sm_ListenerAddress v \<noteq> sm_AdvertisedAddress v
      then Inl (GoErr (ErrNew (''external server mapping has different listener and advertised addresses ''
             @ show_mapping v)))
      else Inr v)"

definition merge_clash :: "ConfigListenerConfig \<Rightarrow> ListenerConfig \<Rightarrow> goerror option" where
  "merge_clash v lc =
     (if lc_AdvertisedAddress lc \<noteq> sm_AdvertisedAddress v
      then Some (ErrNew (''bootstrap and external server mappings '' @ sm_BrokerAddress v
             @ '' with different advertised addresses: '' @ sm_ListenerAddress v @ '' and '' @ lc_AdvertisedAddress lc))
      else None)"

type_synonym iteration = "(string \<times> ConfigListenerConfig) list \<Rightarrow> (string \<times> ConfigListenerConfig) list"

definition getBrokerToListenerConfig :: "iteration \<Rightarrow> Config \<Rightarrow> (string \<times> ListenerConfig) list result" where
  "getBrokerToListenerConfig order cfg =
     rbind (add_all sm_BrokerAddress bootstrap_clash bootstrap_entry (Proxy_BootstrapServers cfg) [])
       (\<lambda>brokerToListenerConfig.
     rbind (add_all sm_BrokerAddress external_clash external_entry (Proxy_ExternalServers cfg) [])
       (\<lambda>externalToListenerConfig.
     add_all sm_BrokerAddress merge_clash bootstrap_entry (map snd (order externalToListenerConfig))
       brokerToListenerConfig))"

text \<open>The store starts with the configurations of the table, each in a place of its own.\<close>

definition NewListeners ::
  "iteration \<Rightarrow> (string \<Rightarrow> ('s, int) action) \<Rightarrow> (string \<Rightarrow> 32 word \<Rightarrow> string result) \<Rightarrow> Config \<Rightarrow> 's
    \<Rightarrow> ('s listeners_config \<times> 's listeners) result" where
  "NewListeners order listenFunc template cfg ext =
     rbind (getBrokerToListenerConfig order cfg) (\<lambda>m.
       Inr (\<lparr>lf_defaultListenerIP = Proxy_DefaultListenerIP cfg,
             lf_dynamicAdvertisedListener = Proxy_DynamicAdvertisedListener cfg,
             lf_deterministicListeners = Proxy_DeterministicListeners cfg,
             lf_disableDynamicListeners = Proxy_DisableDynamicListeners cfg,
             lf_dynamicSequentialMinPort = Proxy_DynamicSequentialMinPort cfg,
             lf_dynamicSequentialMaxPorts = Proxy_DynamicSequentialMaxPorts cfg,
             lf_listenFunc = listenFunc, lf_template = template\<rparr>,
            \<lparr>ls_configs = map snd m, ls_table = zip (map fst m) [0..<length m], ls_counter = 0,
             ls_accepting = [], ls_closed = [], ls_ext = ext\<rparr>))"

subsection \<open>What the table holds\<close>

interpretation bootstrap: add_loop sm_BrokerAddress bootstrap_clash bootstrap_entry
  by unfold_locales (auto simp: bootstrap_clash_def bootstrap_entry_def FromListenerConfig_def)

interpretation external: add_loop sm_BrokerAddress external_clash external_entry
  by unfold_locales (auto simp: external_clash_def external_entry_def split: if_splits)

interpretation merge: add_loop sm_BrokerAddress merge_clash bootstrap_entry
  by unfold_locales (auto simp: merge_clash_def bootstrap_entry_def FromListenerConfig_def)

definition first_for :: "string \<Rightarrow> ConfigListenerConfig list \<Rightarrow> ConfigListenerConfig option" where
  "first_for a vs = find (\<lambda>v. sm_BrokerAddress v = a) vs"

text \<open>
  The configurations that are accepted: bootstrap servers for one broker address are equal,
  external servers for one agree on the listener, the first of them advertises its listener,
  and so does a bootstrap server for the same broker address.
\<close>

definition consistent_servers :: "Config \<Rightarrow> bool" where
  "consistent_servers cfg \<longleftrightarrow>
     (\<forall>v \<in> set (Proxy_BootstrapServers cfg). first_for (sm_BrokerAddress v) (Proxy_BootstrapServers cfg) = Some v)
   \<and> (\<forall>v \<in> set (Proxy_ExternalServers cfg). \<exists>w.
        first_for (sm_BrokerAddress v) (Proxy_ExternalServers cfg) = Some w
        \<and> sm_ListenerAddress w = sm_ListenerAddress v \<and> sm_ListenerAddress w = sm_AdvertisedAddress w)
   \<and> (\<forall>v \<in> set (Proxy_BootstrapServers cfg). \<forall>w \<in> set (Proxy_ExternalServers cfg).
        sm_BrokerAddress v = sm_BrokerAddress w \<longrightarrow> sm_AdvertisedAddress v = sm_ListenerAddress w)"

definition configured :: "Config \<Rightarrow> string \<Rightarrow> ListenerConfig option" where
  "configured cfg a =
     map_option FromListenerConfig (first_for a (Proxy_BootstrapServers cfg @ Proxy_ExternalServers cfg))"

lemma first_for_SomeD: "first_for a vs = Some v \<Longrightarrow> v \<in> set vs \<and> sm_BrokerAddress v = a"
  by (induction vs) (auto simp: first_for_def split: if_splits)

lemma first_for_None: "first_for a vs = None \<longleftrightarrow> a \<notin> sm_BrokerAddress ` set vs"
  by (auto simp: first_for_def find_None_iff)

lemma first_for_append:
  "first_for a (vs @ ws) = (case first_for a vs of Some v \<Rightarrow> Some v | None \<Rightarrow> first_for a ws)"
  by (induction vs) (auto simp: first_for_def)

lemma settled_bootstrap:
  "settled sm_BrokerAddress bootstrap_entry vs m a =
     (case map_of m a of Some c \<Rightarrow> Some c | None \<Rightarrow> map_option FromListenerConfig (first_for a vs))"
  by (auto simp: settled_def bootstrap_entry_def first_for_def split: option.splits)

lemma settled_external:
  "settled sm_BrokerAddress external_entry vs [] a =
     (case first_for a vs of None \<Rightarrow> None
      | Some v \<Rightarrow> if sm_ListenerAddress v = sm_AdvertisedAddress v then Some v else None)"
  by (auto simp: settled_def external_entry_def first_for_def split: option.splits)

text \<open>The order of the iteration is of no account: the values of the map are found by their key.\<close>

lemma first_for_iteration:
  assumes "mset e' = mset e" "distinct (map fst e)" "list_all (\<lambda>(a, v). sm_BrokerAddress v = a) e"
  shows "first_for a (map snd e') = map_of e a"
proof -
  have s: "set e' = set e" by (rule mset_eq_setD [OF assms(1)])
  have k: "sm_BrokerAddress v = b" if "(b, v) \<in> set e" for b v
    using assms(3) that by (auto simp: list_all_iff)
  show ?thesis
  proof (cases "map_of e a")
    case None
    then have "a \<notin> sm_BrokerAddress ` set (map snd e')"
      using k by (force simp: map_of_eq_None_iff s)
    then show ?thesis by (simp add: None first_for_None)
  next
    case (Some v)
    then have v: "(a, v) \<in> set e" by (rule map_of_SomeD)
    then have "v \<in> set (map snd e')" by (force simp: s)
    then have "first_for a (map snd e') \<noteq> None" using k [OF v] by (auto simp: first_for_None)
    then obtain w where w: "first_for a (map snd e') = Some w" by auto
    from first_for_SomeD [OF w] obtain b where b: "(b, w) \<in> set e" and wa: "sm_BrokerAddress w = a"
      by (auto simp: s)
    from k [OF b] wa have "b = a" by simp
    with b have "map_of e a = Some w" using assms(2) by simp
    with w Some show ?thesis by simp
  qed
qed

lemma addable_bootstrap:
  "addable sm_BrokerAddress bootstrap_clash bootstrap_entry vs [] \<longleftrightarrow>
     (\<forall>v \<in> set vs. first_for (sm_BrokerAddress v) vs = Some v)"
proof -
  have "map_option FromListenerConfig (first_for (sm_BrokerAddress v) vs) = Some c \<and> bootstrap_clash v c = None
      \<longleftrightarrow> first_for (sm_BrokerAddress v) vs = Some v \<and> c = FromListenerConfig v" for v c
  proof
    assume "map_option FromListenerConfig (first_for (sm_BrokerAddress v) vs) = Some c \<and> bootstrap_clash v c = None"
    then obtain w where "first_for (sm_BrokerAddress v) vs = Some w" "c = FromListenerConfig w"
      "bootstrap_clash v c = None" by auto
    moreover from first_for_SomeD [OF this(1)] have "sm_BrokerAddress w = sm_BrokerAddress v" ..
    ultimately show "first_for (sm_BrokerAddress v) vs = Some v \<and> c = FromListenerConfig v"
      by (auto simp: bootstrap_clash_def FromListenerConfig_def split: if_splits)
  next
    assume "first_for (sm_BrokerAddress v) vs = Some v \<and> c = FromListenerConfig v"
    then show "map_option FromListenerConfig (first_for (sm_BrokerAddress v) vs) = Some c \<and> bootstrap_clash v c = None"
      using bootstrap.own_entry [of v] by (simp add: bootstrap_entry_def)
  qed
  then show ?thesis by (simp add: addable_def settled_bootstrap)
qed

lemma addable_external:
  "addable sm_BrokerAddress external_clash external_entry vs [] \<longleftrightarrow>
     (\<forall>v \<in> set vs. \<exists>w. first_for (sm_BrokerAddress v) vs = Some w
        \<and> sm_ListenerAddress w = sm_ListenerAddress v \<and> sm_ListenerAddress w = sm_AdvertisedAddress w)"
  unfolding addable_def settled_external
  by (intro ball_cong refl) (auto simp: external_clash_def split: option.splits if_splits)

lemma external_values:
  assumes "add_all sm_BrokerAddress external_clash external_entry vs [] = Inr e"
  shows "list_all (\<lambda>(a, v). sm_BrokerAddress v = a) e"
  by (rule external.add_all_keys [OF assms, where Q = "\<lambda>a v. sm_BrokerAddress v = a"])
    (auto simp: external_entry_def split: if_splits)

lemma addable_merge:
  assumes "\<And>a. map_of m a = map_option FromListenerConfig (first_for a bs)" "distinct (map fst e)"
    and "\<And>a. first_for a (map snd e') = map_of e a" "set e' = set e" "list_all (\<lambda>(a, v). sm_BrokerAddress v = a) e"
  shows "addable sm_BrokerAddress merge_clash bootstrap_entry (map snd e') m \<longleftrightarrow>
    (\<forall>(a, v) \<in> set e. \<forall>w. first_for a bs = Some w \<longrightarrow> sm_AdvertisedAddress w = sm_AdvertisedAddress v)"
proof -
  let ?S = "settled sm_BrokerAddress bootstrap_entry (map snd e') m"
  have "(\<exists>c. ?S (sm_BrokerAddress v) = Some c \<and> merge_clash v c = None) \<longleftrightarrow>
      (\<forall>w. first_for a bs = Some w \<longrightarrow> sm_AdvertisedAddress w = sm_AdvertisedAddress v)"
    if "(a, v) \<in> set e" for a v
  proof -
    from that assms(5) have a: "sm_BrokerAddress v = a" by (auto simp: list_all_iff)
    from that assms(2) have "map_of e a = Some v" by simp
    then show ?thesis
      by (cases "first_for a bs")
        (auto simp: settled_bootstrap assms(1,3) a merge_clash_def FromListenerConfig_def split: if_splits)
  qed
  then show ?thesis by (simp add: addable_def assms(4) case_prod_beta) (metis prod.collapse)
qed

lemma set_map_of: "distinct (map fst e) \<Longrightarrow> (\<forall>(a, v) \<in> set e. P a v) \<longleftrightarrow> (\<forall>a v. map_of e a = Some v \<longrightarrow> P a v)"
  by auto

text \<open>The last condition in terms of the maps, where the first two hold.\<close>

lemma merge_consistent:
  assumes "addable sm_BrokerAddress bootstrap_clash bootstrap_entry bs []"
    and "addable sm_BrokerAddress external_clash external_entry es []"
  shows "(\<forall>a v. first_for a es = Some v \<longrightarrow> (\<forall>w. first_for a bs = Some w \<longrightarrow> sm_AdvertisedAddress w = sm_AdvertisedAddress v))
    \<longleftrightarrow> (\<forall>v \<in> set bs. \<forall>w \<in> set es. sm_BrokerAddress v = sm_BrokerAddress w \<longrightarrow> sm_AdvertisedAddress v = sm_ListenerAddress w)"
    (is "?L \<longleftrightarrow> ?R")
proof
  assume L: ?L
  show ?R
  proof (intro ballI impI)
    fix v w assume v: "v \<in> set bs" and w: "w \<in> set es" and a: "sm_BrokerAddress v = sm_BrokerAddress w"
    from assms(1) v have "first_for (sm_BrokerAddress v) bs = Some v" by (simp add: addable_bootstrap)
    moreover from assms(2) w obtain u where "first_for (sm_BrokerAddress w) es = Some u"
      "sm_ListenerAddress u = sm_ListenerAddress w" "sm_ListenerAddress u = sm_AdvertisedAddress u"
      unfolding addable_external by blast
    ultimately show "sm_AdvertisedAddress v = sm_ListenerAddress w" using L a by metis
  qed
next
  assume R: ?R
  show ?L
  proof (intro allI impI)
    fix a v w assume v: "first_for a es = Some v" and w: "first_for a bs = Some w"
    from first_for_SomeD [OF v] first_for_SomeD [OF w] R
    have "sm_AdvertisedAddress w = sm_ListenerAddress v" by simp
    also from first_for_SomeD [OF v] v assms(2) have "\<dots> = sm_AdvertisedAddress v"
      unfolding addable_external by auto
    finally show "sm_AdvertisedAddress w = sm_AdvertisedAddress v" .
  qed
qed

lemma getBrokerToListenerConfig_settled:
  assumes "\<And>e. mset (order e) = mset e"
  shows "if consistent_servers cfg
    then \<exists>m. getBrokerToListenerConfig order cfg = Inr m \<and> distinct (map fst m) \<and> map_of m = configured cfg
    else \<exists>e. getBrokerToListenerConfig order cfg = Inl (GoErr e)"
proof -
  let ?B = "Proxy_BootstrapServers cfg" and ?E = "Proxy_ExternalServers cfg"
  note boot = bootstrap.add_all_settled [of "[]" ?B, simplified]
    and ext = external.add_all_settled [of "[]" ?E, simplified]
  show ?thesis
  proof (cases "addable sm_BrokerAddress bootstrap_clash bootstrap_entry ?B []")
    case False
    with boot obtain e where "add_all sm_BrokerAddress bootstrap_clash bootstrap_entry ?B [] = Inl (GoErr e)" by auto
    moreover from False have "\<not> consistent_servers cfg" by (simp add: consistent_servers_def addable_bootstrap)
    ultimately show ?thesis by (simp add: getBrokerToListenerConfig_def)
  next
    case B: True
    with boot obtain m where m: "add_all sm_BrokerAddress bootstrap_clash bootstrap_entry ?B [] = Inr m"
      "distinct (map fst m)" "map_of m = settled sm_BrokerAddress bootstrap_entry ?B []" by auto
    show ?thesis
    proof (cases "addable sm_BrokerAddress external_clash external_entry ?E []")
      case False
      with ext obtain e where "add_all sm_BrokerAddress external_clash external_entry ?E [] = Inl (GoErr e)" by auto
      moreover from False have "\<not> consistent_servers cfg" by (simp add: consistent_servers_def addable_external)
      ultimately show ?thesis by (simp add: getBrokerToListenerConfig_def m(1))
    next
      case E: True
      with ext obtain e where e: "add_all sm_BrokerAddress external_clash external_entry ?E [] = Inr e"
        "distinct (map fst e)" "map_of e = settled sm_BrokerAddress external_entry ?E []" by auto
      note keyed = external_values [OF e(1)]
      note iterated = first_for_iteration [OF assms e(2) keyed]
      have me: "map_of m a = map_option FromListenerConfig (first_for a ?B)" for a
        by (simp add: m(3) settled_bootstrap)
      have fe: "map_of e a = first_for a ?E" for a
      proof (cases "first_for a ?E")
        case (Some v)
        with first_for_SomeD [OF Some] E show ?thesis
          by (auto simp: e(3) settled_external addable_external)
      qed (simp add: e(3) settled_external)
      let ?M = "addable sm_BrokerAddress merge_clash bootstrap_entry (map snd (order e)) m"
      have "consistent_servers cfg \<longleftrightarrow> ?M"
        using B E
        by (simp add: consistent_servers_def addable_bootstrap addable_external merge_consistent [OF B E]
            addable_merge [OF me e(2) iterated mset_eq_setD [OF assms] keyed] set_map_of [OF e(2)] fe)
      moreover have "settled sm_BrokerAddress bootstrap_entry (map snd (order e)) m = configured cfg"
        by (auto simp: fun_eq_iff settled_bootstrap me iterated fe configured_def first_for_append split: option.splits)
      ultimately show ?thesis
        using merge.add_all_settled [OF m(2), of "map snd (order e)"]
        by (cases ?M) (simp_all add: getBrokerToListenerConfig_def m(1) e(1))
    qed
  qed
qed

end
