(* ===== verification/ListenerFacts.thy ===== *)
theory ListenerFacts
  imports ListenerTable
begin

section \<open>Invariants of the listeners\<close>

text \<open>
  What holds of the listeners in every state they reach: each entry of the table is one of the
  configuration or has had an accept loop started that stands for its broker, and so has each
  bootstrap server; a loop runs until its own \<open>Accept\<close> fails; in deterministic mode a broker id has
  one listener.
\<close>

subsection \<open>The operations in full\<close>

lemma update_new: "a \<notin> fst ` set m \<Longrightarrow> AList.update a q m = m @ [(a, q)]"
  by (induction m) auto

definition advertise :: "'s listeners_config \<Rightarrow> int \<Rightarrow> string \<times> int \<Rightarrow> ListenerConfig \<Rightarrow> ListenerConfig" where
  "advertise f port adv c = c\<lparr>lc_AdvertisedAddress := JoinHostPort (fst adv) (go_itoa (snd adv)),
     lc_ListenerAddress := JoinHostPort (lf_defaultListenerIP f) (go_itoa port)\<rparr>"

lemma listenInstance_run:
  "listenInstance f q \<sigma> =
     (case lf_listenFunc f (lc_ListenerAddress (config_at \<sigma> q)) (ls_ext \<sigma>) of
        (Inl e, x) \<Rightarrow> (Inl e, \<sigma>\<lparr>ls_ext := x\<rparr>)
      | (Inr port, x) \<Rightarrow> (Inr port, \<sigma>\<lparr>ls_ext := x, ls_accepting := ls_accepting \<sigma> @ [(q, port)]\<rparr>))"
  by (simp add: listenInstance_def abind_def agets_def on_os_def zoom_def amod_def aret_def
      split: prod.splits sum.splits)

text \<open>A listener on demand: it fails to listen, has no address to advertise, or is started.\<close>

lemma startDynamicListener_run:
  fixes a l :: string and n :: "32 word"
  assumes "a \<notin> fst ` set (ls_table \<sigma>)"
  defines "c \<equiv> NewListenerConfig a l [] n"
  shows "startDynamicListener f a n l \<sigma> =
     (case lf_listenFunc f l (ls_ext \<sigma>) of
        (Inl e, x) \<Rightarrow> (Inl e, \<sigma>\<lparr>ls_configs := ls_configs \<sigma> @ [c], ls_ext := x\<rparr>)
      | (Inr port, x) \<Rightarrow>
          (let \<sigma>1 = \<sigma>\<lparr>ls_configs := ls_configs \<sigma> @ [c], ls_ext := x,
                     ls_accepting := ls_accepting \<sigma> @ [(length (ls_configs \<sigma>), port)]\<rparr> in
           case getDynamicAdvertisedAddress f n port of
             Inl e \<Rightarrow> (Inl e, \<sigma>1)
           | Inr adv \<Rightarrow> (Inr (fst adv, of_int (snd adv)),
               \<sigma>1\<lparr>ls_configs := ls_configs \<sigma> @ [advertise f port adv c],
                  ls_table := ls_table \<sigma> @ [(a, length (ls_configs \<sigma>))]\<rparr>)))"
  using assms
  by (auto simp: startDynamicListener_def abind_def alloc_def listenInstance_run config_at_def
      alift_def set_config_def table_put_def amod_def aret_def update_new Let_def advertise_def
      NewListenerConfig_def split: prod.splits sum.splits)

definition move_entry :: "nat \<Rightarrow> string \<Rightarrow> 's listeners \<Rightarrow> 's listeners" where
  "move_entry q a \<sigma> =
     \<sigma>\<lparr>ls_table := AList.delete (lc_BrokerAddress (config_at \<sigma> q)) (ls_table \<sigma>) @ [(a, q)],
       ls_configs := (ls_configs \<sigma>)[q := (config_at \<sigma> q)\<lparr>lc_BrokerAddress := a\<rparr>]\<rparr>"

lemma rebind_run:
  assumes "a \<notin> fst ` set (ls_table \<sigma>)" "lc_BrokerAddress (config_at \<sigma> q) \<noteq> a"
  shows "rebind q a \<sigma> = (Inr (), move_entry q a \<sigma>)"
proof -
  have "a \<notin> fst ` set (AList.delete b (ls_table \<sigma>))" for b
    using assms(1) by (auto simp: AList.delete_eq)
  then show ?thesis
    using assms(2)
    by (simp add: rebind_def abind_def agets_def table_delete_def SetBrokerAddress_def set_config_def
        table_put_def amod_def update_new move_entry_def config_at_def)
qed

subsection \<open>The invariant\<close>

definition entry :: "'s listeners \<Rightarrow> string \<Rightarrow> nat option" where
  "entry \<sigma> a = map_of (ls_table \<sigma>) a"

text \<open>
  The accept loops that were started: those that run and those that have ended.  Each has a
  configuration of its own.
\<close>

definition loops :: "'s listeners \<Rightarrow> (nat \<times> int) set" where
  "loops \<sigma> = set (ls_accepting \<sigma>) \<union> set (ls_closed \<sigma>)"

definition loops_ok :: "'s listeners \<Rightarrow> bool" where
  "loops_ok \<sigma> \<longleftrightarrow> distinct (map fst (ls_accepting \<sigma> @ ls_closed \<sigma>)) \<and> (\<forall>(q, port) \<in> loops \<sigma>. q < length (ls_configs \<sigma>))"

text \<open>The accept loop of \<open>q\<close>, with the address that is advertised for its port.\<close>

definition accepts :: "'s listeners_config \<Rightarrow> 's listeners \<Rightarrow> nat \<Rightarrow> int \<Rightarrow> string \<times> int \<Rightarrow> bool" where
  "accepts f \<sigma> q port adv \<longleftrightarrow> (q, port) \<in> loops \<sigma>
     \<and> getDynamicAdvertisedAddress f (lc_BrokerID (config_at \<sigma> q)) port = Inr adv
     \<and> lc_AdvertisedAddress (config_at \<sigma> q) = JoinHostPort (fst adv) (go_itoa (snd adv))
     \<and> lc_ListenerAddress (config_at \<sigma> q) = JoinHostPort (lf_defaultListenerIP f) (go_itoa port)"

definition entry_ok :: "Config \<Rightarrow> 's listeners_config \<Rightarrow> 's listeners \<Rightarrow> string \<Rightarrow> nat \<Rightarrow> bool" where
  "entry_ok cfg f \<sigma> a q \<longleftrightarrow> q < length (ls_configs \<sigma>) \<and> lc_BrokerAddress (config_at \<sigma> q) = a
     \<and> (configured cfg a = Some (config_at \<sigma> q) \<or> (\<exists>port adv. accepts f \<sigma> q port adv))"

definition bootstrap_loop :: "'s listeners \<Rightarrow> ConfigListenerConfig \<Rightarrow> bool" where
  "bootstrap_loop \<sigma> v \<longleftrightarrow> (\<exists>q port. (q, port) \<in> loops \<sigma> \<and> q < length (ls_configs \<sigma>)
     \<and> q \<notin> snd ` set (ls_table \<sigma>) \<and> config_at \<sigma> q = FromListenerConfig v)"

definition one_listener_per_id :: "'s listeners \<Rightarrow> bool" where
  "one_listener_per_id \<sigma> \<longleftrightarrow> (\<forall>q \<in> snd ` set (ls_table \<sigma>). \<forall>r \<in> snd ` set (ls_table \<sigma>).
     lc_BrokerID (config_at \<sigma> q) = lc_BrokerID (config_at \<sigma> r) \<and> 0 \<le> sint (lc_BrokerID (config_at \<sigma> q))
     \<longrightarrow> q = r)"

definition listeners_inv :: "Config \<Rightarrow> 's listeners_config \<Rightarrow> 's listeners \<Rightarrow> bool" where
  "listeners_inv cfg f \<sigma> \<longleftrightarrow> distinct (map fst (ls_table \<sigma>)) \<and> distinct (map snd (ls_table \<sigma>))
     \<and> (\<forall>(a, q) \<in> set (ls_table \<sigma>). entry_ok cfg f \<sigma> a q)
     \<and> (\<forall>v \<in> set (Proxy_BootstrapServers cfg). bootstrap_loop \<sigma> v)
     \<and> loops_ok \<sigma>
     \<and> (lf_deterministicListeners f \<longrightarrow> one_listener_per_id \<sigma>)"

subsection \<open>Steps of the table\<close>

text \<open>
  What an operation does to the table: nothing; a listener that was not put into the table; a
  new entry; an entry that moves to the new address of its broker.
\<close>

inductive table_step :: "'s listeners_config \<Rightarrow> 's listeners \<Rightarrow> 's listeners \<Rightarrow> bool" for f where
  still: "ls_configs \<sigma>' = ls_configs \<sigma> \<Longrightarrow> ls_table \<sigma>' = ls_table \<sigma> \<Longrightarrow> ls_accepting \<sigma>' = ls_accepting \<sigma>
    \<Longrightarrow> ls_closed \<sigma>' = ls_closed \<sigma> \<Longrightarrow> table_step f \<sigma> \<sigma>'"
| failed: "ls_configs \<sigma>' = ls_configs \<sigma> @ [c] \<Longrightarrow> ls_table \<sigma>' = ls_table \<sigma>
    \<Longrightarrow> ls_accepting \<sigma>' = ls_accepting \<sigma> @ new \<Longrightarrow> new = [] \<or> new = [(length (ls_configs \<sigma>), port)]
    \<Longrightarrow> ls_closed \<sigma>' = ls_closed \<sigma> \<Longrightarrow> table_step f \<sigma> \<sigma>'"
| added: "a \<notin> fst ` set (ls_table \<sigma>) \<Longrightarrow> ls_configs \<sigma>' = ls_configs \<sigma> @ [c]
    \<Longrightarrow> ls_table \<sigma>' = ls_table \<sigma> @ [(a, length (ls_configs \<sigma>))]
    \<Longrightarrow> ls_accepting \<sigma>' = ls_accepting \<sigma> @ [(length (ls_configs \<sigma>), port)] \<Longrightarrow> ls_closed \<sigma>' = ls_closed \<sigma>
    \<Longrightarrow> lc_BrokerAddress c = a \<Longrightarrow> accepts f \<sigma>' (length (ls_configs \<sigma>)) port adv
    \<Longrightarrow> lf_deterministicListeners f \<longrightarrow> findListenerConfig (lc_BrokerID c) \<sigma> = None
    \<Longrightarrow> table_step f \<sigma> \<sigma>'"
| moved: "lf_deterministicListeners f \<Longrightarrow> (b, q) \<in> set (ls_table \<sigma>) \<Longrightarrow> 0 \<le> sint (lc_BrokerID (config_at \<sigma> q))
    \<Longrightarrow> a \<notin> fst ` set (ls_table \<sigma>) \<Longrightarrow> ls_configs \<sigma>' = ls_configs (move_entry q a \<sigma>)
    \<Longrightarrow> ls_table \<sigma>' = ls_table (move_entry q a \<sigma>) \<Longrightarrow> ls_accepting \<sigma>' = ls_accepting \<sigma>
    \<Longrightarrow> ls_closed \<sigma>' = ls_closed \<sigma> \<Longrightarrow> table_step f \<sigma> \<sigma>'"

lemma loops_okI:
  assumes "loops_ok \<sigma>" "ls_accepting \<sigma>' = ls_accepting \<sigma> @ new" "ls_closed \<sigma>' = ls_closed \<sigma>"
    and "new = [] \<or> new = [(length (ls_configs \<sigma>), port)] \<and> length (ls_configs \<sigma>) < length (ls_configs \<sigma>')"
    and "length (ls_configs \<sigma>) \<le> length (ls_configs \<sigma>')"
  shows "loops_ok \<sigma>'"
proof -
  have below: "q < length (ls_configs \<sigma>)" if "(q, port) \<in> loops \<sigma>" for q port
    using assms(1) that by (auto simp: loops_ok_def)
  have "length (ls_configs \<sigma>) \<notin> fst ` loops \<sigma>" using below by force
  then show ?thesis
    using assms below by (fastforce simp: loops_ok_def loops_def image_Un)
qed

lemma table_step_loops:
  assumes "table_step f \<sigma> \<sigma>'"
  shows "set (ls_accepting \<sigma>) \<subseteq> set (ls_accepting \<sigma>') \<and> ls_closed \<sigma>' = ls_closed \<sigma> \<and> loops \<sigma> \<subseteq> loops \<sigma>'
    \<and> (loops_ok \<sigma> \<longrightarrow> loops_ok \<sigma>')"
  using assms
proof cases
  case still
  then show ?thesis using loops_okI [of \<sigma> \<sigma>' "[]"] by (auto simp: loops_def)
next
  case (failed c new port)
  then show ?thesis using loops_okI [of \<sigma> \<sigma>' new port] by (auto simp: loops_def)
next
  case (added a c port adv)
  then show ?thesis using loops_okI [of \<sigma> \<sigma>' "[(length (ls_configs \<sigma>), port)]" port] by (auto simp: loops_def)
next
  case moved
  then show ?thesis using loops_okI [of \<sigma> \<sigma>' "[]"] by (auto simp: loops_def move_entry_def)
qed

lemma startDynamicListener_step:
  assumes "startDynamicListener f a n l \<sigma> = (r, \<sigma>')" "a \<notin> fst ` set (ls_table \<sigma>)"
    and "lf_deterministicListeners f \<longrightarrow> findListenerConfig n \<sigma> = None"
  shows "table_step f \<sigma> \<sigma>'"
proof (cases "lf_listenFunc f l (ls_ext \<sigma>)")
  case (Pair r0 x)
  note run = startDynamicListener_run [OF assms(2), of f n l, unfolded assms(1) Pair prod.case]
  show ?thesis
  proof (cases r0)
    case (Inl e)
    with run show ?thesis by (auto intro!: failed)
  next
    case (Inr port)
    show ?thesis
    proof (cases "getDynamicAdvertisedAddress f n port")
      case (Inl e)
      with run Inr show ?thesis by (auto simp: Let_def intro!: failed)
    next
      case (Inr adv)
      with run \<open>r0 = Inr port\<close> have s: "\<sigma>' = \<sigma>\<lparr>ls_configs := ls_configs \<sigma> @ [advertise f port adv (NewListenerConfig a l [] n)],
          ls_ext := x, ls_accepting := ls_accepting \<sigma> @ [(length (ls_configs \<sigma>), port)],
          ls_table := ls_table \<sigma> @ [(a, length (ls_configs \<sigma>))]\<rparr>"
        by (simp add: Let_def)
      show ?thesis
        by (rule added [OF assms(2), where port = port and adv = adv and c = "advertise f port adv (NewListenerConfig a l [] n)"])
          (use assms(3) Inr in \<open>simp_all add: s advertise_def NewListenerConfig_def accepts_def loops_def config_at_def\<close>)
    qed
  qed
qed

lemma advertised_same: "advertised q \<sigma> = (SplitHostPort (lc_AdvertisedAddress (config_at \<sigma> q)), \<sigma>)"
  by (simp add: advertised_def abind_def agets_def alift_def)

lemma findListenerConfig_Some:
  "findListenerConfig n \<sigma> = Some q \<Longrightarrow> \<exists>b. (b, q) \<in> set (ls_table \<sigma>) \<and> lc_BrokerID (config_at \<sigma> q) = n"
  by (auto simp: findListenerConfig_def find_Some_iff) (metis nth_mem)

lemma findListenerConfig_None:
  "findListenerConfig n \<sigma> = None \<longleftrightarrow> (\<forall>(b, q) \<in> set (ls_table \<sigma>). lc_BrokerID (config_at \<sigma> q) \<noteq> n)"
  by (auto simp: findListenerConfig_def find_None_iff)

text \<open>
  The outcomes of \<open>ListenDynamicInstance\<close> for a broker address that is not in the table, in
  deterministic mode and otherwise, and all of them; a listener may be started with the port counter advanced.
\<close>

lemma unknown_run:
  assumes "map_of (ls_table \<sigma>) a = None" "ListenDynamicInstance f a n \<sigma> = (r, \<sigma>')"
  shows "(if lf_deterministicListeners f then
       if sint n < 0 then aerr (ErrNew (''brokerId is negative '' @ a @ '' '' @ go_itoa (sint n)))
       else abind (alift (nextDynamicPort f (ucast n) a n)) (\<lambda>port. abind (agets (findListenerConfig n)) (\<lambda>cfg.
         case cfg of Some q \<Rightarrow> abind (rebind q a) (\<lambda>_. advertised q)
         | None \<Rightarrow> startDynamicListener f a n (JoinHostPort (lf_defaultListenerIP f) (go_itoa (uint port)))))
     else if lf_dynamicSequentialMinPort f = 0
     then startDynamicListener f a n (JoinHostPort (lf_defaultListenerIP f) (go_itoa 0))
     else abind (agets ls_counter) (\<lambda>k. abind (alift (nextDynamicPort f k a n)) (\<lambda>port.
       abind (amod (\<lambda>\<sigma>. \<sigma>\<lparr>ls_counter := ls_counter \<sigma> + 1\<rparr>)) (\<lambda>_.
         startDynamicListener f a n (JoinHostPort (lf_defaultListenerIP f) (go_itoa (uint port))))))) \<sigma> = (r, \<sigma>')"
  using assms by (simp add: ListenDynamicInstance_def abind_def [of "agets _"] agets_def)

lemma deterministic_cases:
  assumes "listeners_inv cfg f \<sigma>" "ListenDynamicInstance f a n \<sigma> = (r, \<sigma>')"
    and "map_of (ls_table \<sigma>) a = None" "lf_deterministicListeners f"
  obtains (refused) e where "r = Inl e" "\<sigma>' = \<sigma>"
  | (moves) b q where "(b, q) \<in> set (ls_table \<sigma>)" "lc_BrokerID (config_at \<sigma> q) = n"
      "0 \<le> sint n" "advertised q (move_entry q a \<sigma>) = (r, \<sigma>')"
  | (starts) l where "findListenerConfig n \<sigma> = None" "startDynamicListener f a n l \<sigma> = (r, \<sigma>')"
proof (cases "0 \<le> sint n")
  case n: True
  note run = unknown_run [OF assms(3,2)]
  show thesis
  proof (cases "nextDynamicPort f (ucast n) a n")
    case (Inl e)
    with run n assms(4) refused show thesis by (auto simp: abind_lift_Inl)
  next
    case port: (Inr port)
    show thesis
    proof (cases "findListenerConfig n \<sigma>")
      case None
      with run n port assms(4) show thesis by (intro starts) (auto simp: abind_def agets_def)
    next
      case (Some q)
      from findListenerConfig_Some [OF this] obtain b where q: "(b, q) \<in> set (ls_table \<sigma>)" "lc_BrokerID (config_at \<sigma> q) = n"
        by blast
      have new: "a \<notin> fst ` set (ls_table \<sigma>)" using assms(3) by (simp add: map_of_eq_None_iff)
      from q(1) assms(1) have "lc_BrokerAddress (config_at \<sigma> q) = b" by (auto simp: listeners_inv_def entry_ok_def)
      with q(1) new have "lc_BrokerAddress (config_at \<sigma> q) \<noteq> a" by force
      from rebind_run [OF new this] have "advertised q (move_entry q a \<sigma>) = (r, \<sigma>')"
        using run n port Some assms(4) by (simp add: abind_def agets_def)
      with moves [OF q n] show thesis .
    qed
  qed
qed (use unknown_run [OF assms(3,2)] assms(4) refused in \<open>auto simp: aerr_def\<close>)

lemma sequential_cases:
  assumes "ListenDynamicInstance f a n \<sigma> = (r, \<sigma>')" "map_of (ls_table \<sigma>) a = None" "\<not> lf_deterministicListeners f"
  obtains (refused) e where "r = Inl e" "\<sigma>' = \<sigma>"
  | (starts) l k where "startDynamicListener f a n l (\<sigma>\<lparr>ls_counter := k\<rparr>) = (r, \<sigma>')"
proof (cases "lf_dynamicSequentialMinPort f = 0")
  case True
  with unknown_run [OF assms(2,1)] assms(3) show thesis
    by (intro starts [of _ "ls_counter \<sigma>"]) auto
next
  case seq: False
  note run = unknown_run [OF assms(2,1)]
  show thesis
  proof (cases "nextDynamicPort f (ls_counter \<sigma>) a n")
    case (Inl e)
    with run assms(3) seq refused show thesis by (auto simp: abind_def agets_def alift_def)
  next
    case (Inr port)
    with run assms(3) seq show thesis
      by (intro starts [of _ "ls_counter \<sigma> + 1"]) (auto simp: abind_def agets_def amod_def)
  qed
qed

lemma ListenDynamicInstance_cases:
  assumes "listeners_inv cfg f \<sigma>" "ListenDynamicInstance f a n \<sigma> = (r, \<sigma>')"
  obtains (known) q where "map_of (ls_table \<sigma>) a = Some q" "advertised q \<sigma> = (r, \<sigma>')"
  | (refused) e where "r = Inl e" "\<sigma>' = \<sigma>"
  | (moves) b q where "lf_deterministicListeners f" "(b, q) \<in> set (ls_table \<sigma>)" "lc_BrokerID (config_at \<sigma> q) = n"
      "0 \<le> sint n" "a \<notin> fst ` set (ls_table \<sigma>)" "advertised q (move_entry q a \<sigma>) = (r, \<sigma>')"
  | (starts) l k where "a \<notin> fst ` set (ls_table \<sigma>)" "lf_deterministicListeners f \<longrightarrow> findListenerConfig n \<sigma> = None"
      "startDynamicListener f a n l (\<sigma>\<lparr>ls_counter := k\<rparr>) = (r, \<sigma>')"
proof (cases "map_of (ls_table \<sigma>) a")
  case (Some q)
  then show thesis using assms(2) known by (simp add: ListenDynamicInstance_def abind_def agets_def)
next
  case None
  then have new: "a \<notin> fst ` set (ls_table \<sigma>)" by (simp add: map_of_eq_None_iff)
  show thesis
  proof (cases "lf_deterministicListeners f")
    case True
    have keep: "\<sigma>\<lparr>ls_counter := ls_counter \<sigma>\<rparr> = \<sigma>" by simp
    show thesis
    proof (rule deterministic_cases [OF assms None True])
      show thesis if "r = Inl e" "\<sigma>' = \<sigma>" for e using refused that .
      show thesis if "(b, q) \<in> set (ls_table \<sigma>)" "lc_BrokerID (config_at \<sigma> q) = n" "0 \<le> sint n"
          "advertised q (move_entry q a \<sigma>) = (r, \<sigma>')" for b q
        using moves [OF True that(1-3) new that(4)] .
      show thesis if "findListenerConfig n \<sigma> = None" "startDynamicListener f a n l \<sigma> = (r, \<sigma>')" for l
        using starts [OF new, where k = "ls_counter \<sigma>", unfolded keep] that by blast
    qed
  next
    case False
    with sequential_cases [OF assms(2) None False] refused starts [OF new] show thesis by metis
  qed
qed

lemma ListenDynamicInstance_step:
  assumes "listeners_inv cfg f \<sigma>" "ListenDynamicInstance f a n \<sigma> = (r, \<sigma>')"
  shows "table_step f \<sigma> \<sigma>'"
  using assms
proof (cases rule: ListenDynamicInstance_cases)
  case (starts l k)
  have "table_step f (\<sigma>\<lparr>ls_counter := k\<rparr>) \<sigma>'"
    by (rule startDynamicListener_step [OF starts(3)]) (use starts(1,2) in \<open>simp_all add: findListenerConfig_None config_at_def\<close>)
  then show ?thesis
    by (cases rule: table_step.cases)
      (auto intro: still failed added moved simp: findListenerConfig_None config_at_def move_entry_def)
qed (auto simp: advertised_same move_entry_def intro: still moved)

lemma GetNetAddressMapping_step:
  assumes "listeners_inv cfg f \<sigma>" "GetNetAddressMapping f h p n \<sigma> = (r, \<sigma>')"
  shows "table_step f \<sigma> \<sigma>'"
proof -
  have "\<sigma>' = \<sigma> \<or> ListenDynamicInstance f (JoinHostPort h (go_itoa (sint p))) n \<sigma> = (r, \<sigma>')"
    using assms(2)
    by (auto simp: GetNetAddressMapping_def abind_def agets_def aerr_def advertised_same Let_def
        split: if_splits option.splits)
  then show ?thesis using ListenDynamicInstance_step [OF assms(1)] by (auto intro: still)
qed

subsection \<open>The invariant is kept\<close>

lemma config_at_grown:
  "ls_configs \<sigma>' = ls_configs \<sigma> @ cs \<Longrightarrow> q < length (ls_configs \<sigma>) \<Longrightarrow> config_at \<sigma>' q = config_at \<sigma> q"
  by (simp add: config_at_def nth_append)

lemma accepts_mono:
  "accepts f \<sigma> q port adv \<Longrightarrow> loops \<sigma> \<subseteq> loops \<sigma>' \<Longrightarrow> config_at \<sigma>' q = config_at \<sigma> q
    \<Longrightarrow> accepts f \<sigma>' q port adv"
  by (auto simp: accepts_def)

lemma entry_ok_mono:
  assumes "entry_ok cfg f \<sigma> a q" "loops \<sigma> \<subseteq> loops \<sigma>'"
    and "config_at \<sigma>' q = config_at \<sigma> q" "length (ls_configs \<sigma>) \<le> length (ls_configs \<sigma>')"
  shows "entry_ok cfg f \<sigma>' a q"
  using assms(1,3,4) accepts_mono [OF _ assms(2,3)] unfolding entry_ok_def by (metis order.strict_trans2)

lemma bootstrap_loop_mono:
  assumes "bootstrap_loop \<sigma> v" "loops \<sigma> \<subseteq> loops \<sigma>'"
    and "length (ls_configs \<sigma>) \<le> length (ls_configs \<sigma>')"
    and "\<And>q. q < length (ls_configs \<sigma>) \<Longrightarrow> q \<notin> snd ` set (ls_table \<sigma>) \<Longrightarrow>
      config_at \<sigma>' q = config_at \<sigma> q \<and> q \<notin> snd ` set (ls_table \<sigma>')"
  shows "bootstrap_loop \<sigma>' v"
proof -
  from assms(1) obtain q port where q: "(q, port) \<in> loops \<sigma>" "q < length (ls_configs \<sigma>)"
    "q \<notin> snd ` set (ls_table \<sigma>)" "config_at \<sigma> q = FromListenerConfig v"
    unfolding bootstrap_loop_def by blast
  with assms(4) [OF q(2,3)] assms(2,3) show ?thesis
    unfolding bootstrap_loop_def by (intro exI [of _ q] exI [of _ port]) auto
qed

lemma inv_entry:
  assumes "listeners_inv cfg f \<sigma>" "(a, q) \<in> set (ls_table \<sigma>)"
  shows "entry_ok cfg f \<sigma> a q" "q < length (ls_configs \<sigma>)" "lc_BrokerAddress (config_at \<sigma> q) = a"
  using assms by (auto simp: listeners_inv_def entry_ok_def)

lemma configured_unknown: "configured cfg a = Some c \<Longrightarrow> lc_BrokerID c = UnknownBrokerID \<and> lc_BrokerAddress c = a"
  by (auto simp: configured_def FromListenerConfig_def dest: first_for_SomeD)

lemma inv_grown:
  assumes inv: "listeners_inv cfg f \<sigma>"
    and s: "ls_configs \<sigma>' = ls_configs \<sigma> @ cs" "ls_table \<sigma>' = ls_table \<sigma>" "loops \<sigma> \<subseteq> loops \<sigma>'"
    and lo: "loops_ok \<sigma>'"
  shows "listeners_inv cfg f \<sigma>'"
proof -
  have c: "config_at \<sigma>' q = config_at \<sigma> q" if "(a, q) \<in> set (ls_table \<sigma>)" for a q
    using config_at_grown [OF s(1)] inv_entry(2) [OF inv that] .
  have "entry_ok cfg f \<sigma>' a q" if "(a, q) \<in> set (ls_table \<sigma>)" for a q
    by (rule entry_ok_mono [OF inv_entry(1) [OF inv that] s(3) c [OF that]]) (simp add: s(1))
  moreover have "bootstrap_loop \<sigma>' v" if "bootstrap_loop \<sigma> v" for v
    by (rule bootstrap_loop_mono [OF that s(3)]) (simp_all add: s config_at_grown [OF s(1)])
  moreover have "one_listener_per_id \<sigma>'" if "one_listener_per_id \<sigma>"
    using that c unfolding one_listener_per_id_def s(2) by fastforce
  ultimately show ?thesis using inv lo by (auto simp: listeners_inv_def s(2))
qed

lemma inv_added:
  assumes inv: "listeners_inv cfg f \<sigma>" and a: "a \<notin> fst ` set (ls_table \<sigma>)"
    and s: "ls_configs \<sigma>' = ls_configs \<sigma> @ [c]" "ls_table \<sigma>' = ls_table \<sigma> @ [(a, length (ls_configs \<sigma>))]"
      "loops \<sigma> \<subseteq> loops \<sigma>'" "lc_BrokerAddress c = a"
    and acc: "accepts f \<sigma>' (length (ls_configs \<sigma>)) port adv"
    and lo: "loops_ok \<sigma>'"
    and fresh: "lf_deterministicListeners f \<longrightarrow> findListenerConfig (lc_BrokerID c) \<sigma> = None"
  shows "listeners_inv cfg f \<sigma>'"
proof -
  let ?q = "length (ls_configs \<sigma>)"
  have c: "config_at \<sigma>' q = config_at \<sigma> q" if "(b, q) \<in> set (ls_table \<sigma>)" for b q
    using config_at_grown [OF s(1)] inv_entry(2) [OF inv that] .
  have cq: "config_at \<sigma>' ?q = c" by (simp add: config_at_def s(1))
  have "entry_ok cfg f \<sigma>' b q" if "(b, q) \<in> set (ls_table \<sigma>)" for b q
    by (rule entry_ok_mono [OF inv_entry(1) [OF inv that] s(3) c [OF that]]) (simp add: s(1))
  moreover have "entry_ok cfg f \<sigma>' a ?q"
    using acc s(4) by (cases adv) (auto simp: entry_ok_def cq s(1))
  moreover have "bootstrap_loop \<sigma>' v" if "bootstrap_loop \<sigma> v" for v
    by (rule bootstrap_loop_mono [OF that s(3)]) (auto simp: s config_at_grown [OF s(1)])
  moreover have "?q \<notin> snd ` set (ls_table \<sigma>)" using inv_entry(2) [OF inv] by fastforce
  moreover have "one_listener_per_id \<sigma>'" if "one_listener_per_id \<sigma>" "findListenerConfig (lc_BrokerID c) \<sigma> = None"
  proof -
    have ids: "lc_BrokerID (config_at \<sigma>' (snd x)) = lc_BrokerID (config_at \<sigma> (snd x))"
        "lc_BrokerID (config_at \<sigma> (snd x)) \<noteq> lc_BrokerID c" if "x \<in> set (ls_table \<sigma>)" for x
      using \<open>findListenerConfig (lc_BrokerID c) \<sigma> = None\<close> that c [of "fst x" "snd x"]
      by (auto simp: findListenerConfig_None case_prod_beta)
    show ?thesis
      using that(1) by (simp add: one_listener_per_id_def s(2) cq ids not_sym [OF ids(2)])
  qed
  ultimately show ?thesis using inv a fresh lo by (auto simp: listeners_inv_def s(2))
qed

lemma inv_moved:
  assumes inv: "listeners_inv cfg f \<sigma>" and q: "(b, q) \<in> set (ls_table \<sigma>)" "0 \<le> sint (lc_BrokerID (config_at \<sigma> q))"
    and a: "a \<notin> fst ` set (ls_table \<sigma>)"
  shows "listeners_inv cfg f (move_entry q a \<sigma>)"
proof -
  let ?\<sigma> = "move_entry q a \<sigma>"
  note b = inv_entry(3) [OF inv q(1)] and len = inv_entry(2) [OF inv q(1)]
  have acc: "loops ?\<sigma> = loops \<sigma>" and lo: "loops_ok \<sigma> \<longrightarrow> loops_ok ?\<sigma>" and l: "length (ls_configs ?\<sigma>) = length (ls_configs \<sigma>)"
    and t: "ls_table ?\<sigma> = AList.delete b (ls_table \<sigma>) @ [(a, q)]"
    by (simp_all add: move_entry_def b loops_def loops_ok_def)
  have c: "config_at ?\<sigma> r = (if r = q then (config_at \<sigma> q)\<lparr>lc_BrokerAddress := a\<rparr> else config_at \<sigma> r)" for r
    using len by (simp add: config_at_def move_entry_def)
  have id: "lc_BrokerID (config_at ?\<sigma> r) = lc_BrokerID (config_at \<sigma> r)" for r by (simp add: c)
  have d: "distinct (map fst (ls_table \<sigma>))" "distinct (map snd (ls_table \<sigma>))"
    using inv by (auto simp: listeners_inv_def)
  have other: "r \<noteq> q \<and> (e, r) \<in> set (ls_table \<sigma>)" if "(e, r) \<in> set (AList.delete b (ls_table \<sigma>))" for e r
  proof -
    from that have e: "(e, r) \<in> set (ls_table \<sigma>)" "e \<noteq> b" by (auto simp: AList.delete_eq)
    with inv_entry(3) [OF inv e(1)] b show ?thesis by auto
  qed
  have "entry_ok cfg f ?\<sigma> e r" if "(e, r) \<in> set (AList.delete b (ls_table \<sigma>))" for e r
    using other [OF that] by (intro entry_ok_mono [OF inv_entry(1) [OF inv]]) (auto simp: acc l c)
  moreover have "entry_ok cfg f ?\<sigma> a q"
  proof -
    from configured_unknown q(2) have "configured cfg b \<noteq> Some (config_at \<sigma> q)" by (auto simp: UnknownBrokerID_def)
    with inv_entry(1) [OF inv q(1)] obtain port adv where "accepts f \<sigma> q port adv" by (auto simp: entry_ok_def)
    then have "accepts f ?\<sigma> q port adv" by (simp add: accepts_def acc c)
    then show ?thesis using len by (cases adv) (auto simp: entry_ok_def l c)
  qed
  moreover have "bootstrap_loop ?\<sigma> v" if "bootstrap_loop \<sigma> v" for v
    by (rule bootstrap_loop_mono [OF that]) (use q(1) other in \<open>force simp: acc l c t\<close>)+
  moreover have "one_listener_per_id ?\<sigma>" if "one_listener_per_id \<sigma>"
  proof -
    have "snd ` set (ls_table ?\<sigma>) \<subseteq> snd ` set (ls_table \<sigma>)"
      using q(1) by (force simp: t AList.delete_eq)
    then show ?thesis using that unfolding one_listener_per_id_def id by blast
  qed
  moreover have "distinct (map fst (AList.delete b (ls_table \<sigma>)))" "distinct (map snd (AList.delete b (ls_table \<sigma>)))"
    using d by (auto simp: AList.delete_eq distinct_map_filter intro: distinct_delete)
  moreover have "q \<notin> snd ` set (AList.delete b (ls_table \<sigma>))" using other by force
  moreover have "a \<notin> fst ` set (AList.delete b (ls_table \<sigma>))" using a by (auto simp: AList.delete_eq)
  ultimately show ?thesis using inv lo by (auto simp: listeners_inv_def t)
qed

lemma table_step_inv:
  assumes "table_step f \<sigma> \<sigma>'" "listeners_inv cfg f \<sigma>"
  shows "listeners_inv cfg f \<sigma>'"
proof -
  from assms(2) have "loops_ok \<sigma>" by (simp add: listeners_inv_def)
  with table_step_loops [OF assms(1)] have l: "loops \<sigma> \<subseteq> loops \<sigma>'" "loops_ok \<sigma>'" by simp_all
  from assms(1) show ?thesis
  proof cases
    case still
    then show ?thesis using inv_grown [OF assms(2), of \<sigma>' "[]"] l by simp
  next
    case failed
    then show ?thesis using inv_grown [OF assms(2)] l by blast
  next
    case (added a c port adv)
    from inv_added [OF assms(2) added(1-3) l(1) added(6,7) l(2) added(8)] show ?thesis .
  next
    case (moved b q a)
    have "loops (move_entry q a \<sigma>) = loops \<sigma>" by (simp add: move_entry_def loops_def)
    with inv_grown [OF inv_moved [OF assms(2) moved(2-4)], of \<sigma>' "[]"] moved(5,6) l show ?thesis
      by simp
  qed
qed

text \<open>A round of an accept loop changes neither the table nor a configuration.\<close>

lemma accept_turn_inv:
  assumes "listeners_inv cfg f \<sigma>" "loop \<in> set (ls_accepting \<sigma>)" "accept_turn loop r \<sigma> = (conn, \<sigma>')"
  shows "listeners_inv cfg f \<sigma>'"
proof (cases r)
  case (Inl e)
  with assms(3) have s: "\<sigma>' = \<sigma>\<lparr>ls_accepting := remove1 loop (ls_accepting \<sigma>), ls_closed := ls_closed \<sigma> @ [loop]\<rparr>"
    by (simp add: accept_turn_def)
  have ok: "loops_ok \<sigma>" using assms(1) by (simp add: listeners_inv_def)
  then have "distinct (ls_accepting \<sigma>)" by (auto simp: loops_ok_def distinct_map)
  with assms(2) have l: "loops \<sigma>' = loops \<sigma>" by (auto simp: s loops_def)
  have "mset (ls_accepting \<sigma>' @ ls_closed \<sigma>') = mset (ls_accepting \<sigma> @ ls_closed \<sigma>)"
    using assms(2) by (simp add: s)
  then have "mset (map fst (ls_accepting \<sigma>' @ ls_closed \<sigma>')) = mset (map fst (ls_accepting \<sigma> @ ls_closed \<sigma>))"
    by (metis mset_map)
  then have "distinct (map fst (ls_accepting \<sigma>' @ ls_closed \<sigma>'))"
    using ok mset_eq_imp_distinct_iff unfolding loops_ok_def by blast
  with ok l have "loops_ok \<sigma>'" by (simp add: loops_ok_def s)
  then show ?thesis using inv_grown [OF assms(1), of \<sigma>' "[]"] l by (simp add: s)
next
  case (Inr c)
  with assms(1,3) show ?thesis by (simp add: accept_turn_def)
qed

subsection \<open>The listeners at work\<close>

text \<open>
  The states of the listeners: \<open>NewListeners\<close>, then \<open>ListenInstances\<close> on the bootstrap servers, then
  any sequence of mappings and of rounds of the accept loops that run.  \<open>GetNetAddressMapping\<close> looks into the table before it takes the lock
  for \<open>ListenDynamicInstance\<close>; a call that has looked into it in an earlier state is a step of its own
  (\<open>raced\<close>).  What is not of the listeners may change the outside (\<open>outside\<close>).
\<close>

inductive listening :: "Config \<Rightarrow> 's listeners_config \<Rightarrow> 's listeners \<Rightarrow> bool" for cfg where
  started: "(\<And>e. mset (order e) = mset e) \<Longrightarrow> NewListeners order listenFunc template cfg ext = Inr (f, \<sigma>)
    \<Longrightarrow> ListenInstances f (Proxy_BootstrapServers cfg) \<sigma> = (Inr (), \<sigma>') \<Longrightarrow> listening cfg f \<sigma>'"
| mapped: "listening cfg f \<sigma> \<Longrightarrow> GetNetAddressMapping f h p n \<sigma> = (r, \<sigma>') \<Longrightarrow> listening cfg f \<sigma>'"
| outside: "listening cfg f \<sigma> \<Longrightarrow> listening cfg f (\<sigma>\<lparr>ls_ext := x\<rparr>)"
| raced: "listening cfg f \<sigma> \<Longrightarrow> \<not> lf_disableDynamicListeners f \<Longrightarrow> ListenDynamicInstance f a n \<sigma> = (r, \<sigma>')
    \<Longrightarrow> listening cfg f \<sigma>'"
| accepted: "listening cfg f \<sigma> \<Longrightarrow> loop \<in> set (ls_accepting \<sigma>) \<Longrightarrow> accept_turn loop acc \<sigma> = (conn, \<sigma>')
    \<Longrightarrow> listening cfg f \<sigma>'"

text \<open>The states between: all but the loops of the bootstrap servers.\<close>

definition table_inv :: "Config \<Rightarrow> 's listeners_config \<Rightarrow> 's listeners \<Rightarrow> bool" where
  "table_inv cfg f \<sigma> \<longleftrightarrow> distinct (map fst (ls_table \<sigma>)) \<and> distinct (map snd (ls_table \<sigma>))
     \<and> (\<forall>(a, q) \<in> set (ls_table \<sigma>). q < length (ls_configs \<sigma>) \<and> configured cfg a = Some (config_at \<sigma> q))
     \<and> loops_ok \<sigma>"

lemma NewListeners_inv:
  assumes "\<And>e. mset (order e) = mset e" "NewListeners order listenFunc template cfg ext = Inr (f, \<sigma>)"
  shows "table_inv cfg f \<sigma>"
proof -
  from assms(2) obtain m where m: "getBrokerToListenerConfig order cfg = Inr m"
    and s: "ls_configs \<sigma> = map snd m" "ls_table \<sigma> = zip (map fst m) [0..<length m]"
      "ls_accepting \<sigma> = []" "ls_closed \<sigma> = []"
    by (auto simp: NewListeners_def rbind_Inr_conv)
  from m getBrokerToListenerConfig_settled [of order cfg, OF assms(1)]
  have d: "distinct (map fst m)" and c: "map_of m = configured cfg"
    by (auto split: if_splits)
  have "configured cfg a = Some (config_at \<sigma> q) \<and> q < length m"
    if "(a, q) \<in> set (ls_table \<sigma>)" for a q
  proof -
    from that have q: "q < length m" "a = fst (m ! q)" by (auto simp: s(2) in_set_zip)
    then have "(a, snd (m ! q)) \<in> set m" by (metis nth_mem prod.collapse)
    then show ?thesis using d q(1) by (simp add: c [symmetric] config_at_def s(1))
  qed
  then show ?thesis using d by (auto simp: table_inv_def s loops_ok_def loops_def)
qed

lemma ListenInstances_run:
  "ListenInstances f vs \<sigma> = (Inr (), \<sigma>') \<Longrightarrow> table_inv cfg f \<sigma> \<Longrightarrow>
   ls_table \<sigma>' = ls_table \<sigma> \<and> table_inv cfg f \<sigma>' \<and> loops \<sigma> \<subseteq> loops \<sigma>'
    \<and> (\<exists>cs. ls_configs \<sigma>' = ls_configs \<sigma> @ cs) \<and> (\<forall>v \<in> set vs. bootstrap_loop \<sigma>' v)"
proof (induction vs arbitrary: \<sigma>)
  case Nil
  then show ?case by simp
next
  case (Cons v vs)
  let ?q = "length (ls_configs \<sigma>)"
  from Cons.prems(1) obtain port \<sigma>1 where run: "ListenInstances f vs \<sigma>1 = (Inr (), \<sigma>')"
    and s: "ls_configs \<sigma>1 = ls_configs \<sigma> @ [FromListenerConfig v]" "ls_table \<sigma>1 = ls_table \<sigma>"
      "ls_accepting \<sigma>1 = ls_accepting \<sigma> @ [(?q, port)]" "ls_closed \<sigma>1 = ls_closed \<sigma>"
    by (auto simp: abind_def alloc_def listenInstance_run split: prod.splits sum.splits)
  have c: "config_at \<sigma>1 r = config_at \<sigma> r" if "r < ?q" for r
    using config_at_grown [OF s(1)] that .
  have "loops_ok \<sigma>1"
    by (rule loops_okI [where \<sigma> = \<sigma> and new = "[(?q, port)]" and port = port]) (use Cons.prems(2) in \<open>simp_all add: table_inv_def s\<close>)
  then have inv: "table_inv cfg f \<sigma>1"
    using Cons.prems(2) c by (fastforce simp: table_inv_def s(1,2))
  from Cons.IH [OF run inv] obtain cs where t: "ls_table \<sigma>' = ls_table \<sigma>" "table_inv cfg f \<sigma>'"
    "loops \<sigma>1 \<subseteq> loops \<sigma>'" "ls_configs \<sigma>' = ls_configs \<sigma>1 @ cs"
    "\<forall>v \<in> set vs. bootstrap_loop \<sigma>' v" by (auto simp: s(2))
  have "?q \<notin> snd ` set (ls_table \<sigma>)" using Cons.prems(2) by (fastforce simp: table_inv_def)
  then have "bootstrap_loop \<sigma>' v"
    using t(3) unfolding bootstrap_loop_def
    by (intro exI [of _ ?q] exI [of _ port]) (auto simp: s t(1,4) loops_def config_at_def nth_append)
  moreover have "loops \<sigma> \<subseteq> loops \<sigma>1" by (auto simp: loops_def s)
  ultimately show ?case using t by (auto simp: s)
qed

lemma listening_inv:
  assumes "listening cfg f \<sigma>"
  shows "listeners_inv cfg f \<sigma>"
  using assms
proof induction
  case (started order listenFunc template ext f \<sigma> \<sigma>')
  note t = ListenInstances_run [OF started(3) NewListeners_inv [OF started(1,2)]]
  then have t2: "table_inv cfg f \<sigma>'" "\<forall>v \<in> set (Proxy_BootstrapServers cfg). bootstrap_loop \<sigma>' v" by simp_all
  have e: "entry_ok cfg f \<sigma>' a q" "lc_BrokerID (config_at \<sigma>' q) = UnknownBrokerID"
    if "(a, q) \<in> set (ls_table \<sigma>')" for a q
  proof -
    from t2(1) that have "q < length (ls_configs \<sigma>')" "configured cfg a = Some (config_at \<sigma>' q)"
      by (auto simp: table_inv_def)
    with configured_unknown [OF this(2)] show "entry_ok cfg f \<sigma>' a q" "lc_BrokerID (config_at \<sigma>' q) = UnknownBrokerID"
      unfolding entry_ok_def by blast+
  qed
  have "one_listener_per_id \<sigma>'"
    using e(2) by (auto simp: one_listener_per_id_def UnknownBrokerID_def)
  with t2 e(1) show ?case by (auto simp: listeners_inv_def table_inv_def)
next
  case (mapped f \<sigma> h p n r \<sigma>')
  then show ?case using table_step_inv [OF GetNetAddressMapping_step] by blast
next
  case (outside f \<sigma> x)
  have "table_step f \<sigma> (\<sigma>\<lparr>ls_ext := x\<rparr>)" by (rule table_step.still) simp_all
  then show ?case using outside(2) by (rule table_step_inv)
next
  case (raced f \<sigma> a n r \<sigma>')
  then show ?case using table_step_inv [OF ListenDynamicInstance_step] by blast
next
  case (accepted f \<sigma> loop acc conn \<sigma>')
  then show ?case by (blast intro: accept_turn_inv)
qed

subsection \<open>Answers\<close>

text \<open>
  Where the network gives ports in range and no advertised host has brackets, an address that
  is put together for the table is split into the same host and port again.
\<close>

definition plain_listeners :: "'s listeners_config \<Rightarrow> bool" where
  "plain_listeners f \<longleftrightarrow>
     (\<forall>a s. case fst (lf_listenFunc f a s) of Inl e \<Rightarrow> True | Inr port \<Rightarrow> 0 \<le> port \<and> port < 65536)
   \<and> (\<forall>n port. case getDynamicAdvertisedAddress f n port of Inl e \<Rightarrow> True | Inr (h, p) \<Rightarrow> plain_host h)"

lemma go_atoi_range: "go_atoi s = Inr i \<Longrightarrow> - (2 ^ 63) \<le> i \<and> i < 2 ^ 63"
  by (auto simp: go_atoi_def Let_def split: if_splits option.splits)

lemma advertised_port_range:
  assumes "getDynamicAdvertisedAddress f n port = Inr (h, p)" "0 \<le> port" "port < 65536"
  shows "- (2 ^ 63) \<le> p \<and> p < 2 ^ 63"
proof -
  have "p = port \<or> (\<exists>s. go_atoi s = Inr p)"
  proof (cases "lf_dynamicAdvertisedListener f = []")
    case True
    with assms(1) show ?thesis by (simp add: getDynamicAdvertisedAddress_def)
  next
    case False
    with assms(1) obtain a where a: "(case net_SplitHostPort a of Inl _ \<Rightarrow> Inr (a, port)
        | Inr (advHost, advPortStr) \<Rightarrow> (case go_atoi advPortStr of Inl _ \<Rightarrow> Inr (a, port)
          | Inr advPort \<Rightarrow> Inr (advHost, advPort))) = (Inr (h, p) :: (string \<times> int) result)"
      by (auto simp: getDynamicAdvertisedAddress_def rbind_Inr_conv)
    then show ?thesis
      by (cases "net_SplitHostPort a"; cases "go_atoi (snd (projr (net_SplitHostPort a)))") (auto simp: case_prod_beta)
  qed
  then show ?thesis using assms(2,3) go_atoi_range [of _ p] by auto
qed

text \<open>
  An answer is what the entry \<open>q\<close> advertises: the parts of the text that the table has, or, from
  the call that starts the listener, the host and the port that this text is put together of.
\<close>

definition gives :: "'s listeners_config \<Rightarrow> 's listeners \<Rightarrow> nat \<Rightarrow> string \<times> 32 word \<Rightarrow> bool" where
  "gives f \<sigma> q ans \<longleftrightarrow> SplitHostPort (lc_AdvertisedAddress (config_at \<sigma> q)) = Inr ans
     \<or> (\<exists>port adv. accepts f \<sigma> q port adv \<and> ans = (fst adv, of_int (snd adv)))"

definition served :: "Config \<Rightarrow> 's listeners_config \<Rightarrow> 's listeners \<Rightarrow> string \<Rightarrow> string \<times> 32 word \<Rightarrow> bool" where
  "served cfg f \<sigma> a ans \<longleftrightarrow> (\<exists>q. map_of (ls_table \<sigma>) a = Some q \<and> entry_ok cfg f \<sigma> a q \<and> gives f \<sigma> q ans
     \<and> (plain_listeners f \<longrightarrow> SplitHostPort (lc_AdvertisedAddress (config_at \<sigma> q)) = Inr ans))"

lemma advertised_served:
  assumes "listeners_inv cfg f \<sigma>'" "(a, q) \<in> set (ls_table \<sigma>')"
    and "gives f \<sigma>' q ans" "plain_listeners f \<longrightarrow> SplitHostPort (lc_AdvertisedAddress (config_at \<sigma>' q)) = Inr ans"
  shows "served cfg f \<sigma>' a ans"
  using assms inv_entry(1) [OF assms(1,2)] by (auto simp: served_def listeners_inv_def)

lemma startDynamicListener_served:
  assumes "startDynamicListener f a n l \<sigma> = (Inr ans, \<sigma>')" "a \<notin> fst ` set (ls_table \<sigma>)"
  shows "\<exists>q. (a, q) \<in> set (ls_table \<sigma>') \<and> gives f \<sigma>' q ans
    \<and> (plain_listeners f \<longrightarrow> SplitHostPort (lc_AdvertisedAddress (config_at \<sigma>' q)) = Inr ans)"
proof -
  let ?q = "length (ls_configs \<sigma>)"
  note run = startDynamicListener_run [OF assms(2), of f n l, unfolded assms(1)]
  obtain port x adv where l: "lf_listenFunc f l (ls_ext \<sigma>) = (Inr port, x)"
    and adv: "getDynamicAdvertisedAddress f n port = Inr adv" and ans: "ans = (fst adv, of_int (snd adv))"
    and s: "ls_table \<sigma>' = ls_table \<sigma> @ [(a, ?q)]" "ls_accepting \<sigma>' = ls_accepting \<sigma> @ [(?q, port)]"
      "ls_configs \<sigma>' = ls_configs \<sigma> @ [advertise f port adv (NewListenerConfig a l [] n)]"
    using run by (auto simp: Let_def split: prod.splits sum.splits)
  have "SplitHostPort (JoinHostPort (fst adv) (go_itoa (snd adv))) = Inr ans" if "plain_listeners f"
  proof -
    from that have "case fst (lf_listenFunc f l (ls_ext \<sigma>)) of Inl e \<Rightarrow> True | Inr port \<Rightarrow> 0 \<le> port \<and> port < 65536"
      "case getDynamicAdvertisedAddress f n port of Inl e \<Rightarrow> True | Inr (h, p) \<Rightarrow> plain_host h"
      unfolding plain_listeners_def by blast+
    then have port: "0 \<le> port" "port < 65536" and host: "plain_host (fst adv)"
      using l adv by (simp_all add: case_prod_beta)
    from advertised_port_range [of f n port "fst adv" "snd adv"] adv port
    show ?thesis using SplitHostPort_Join [OF host] by (simp add: ans)
  qed
  moreover have "accepts f \<sigma>' ?q port adv"
    using adv by (simp add: accepts_def loops_def s config_at_def advertise_def NewListenerConfig_def)
  then have "gives f \<sigma>' ?q ans" unfolding gives_def using ans by blast
  ultimately show ?thesis
    by (intro exI [of _ ?q]) (simp add: s config_at_def advertise_def)
qed

lemma ListenDynamicInstance_served:
  assumes inv: "listeners_inv cfg f \<sigma>" and run: "ListenDynamicInstance f a n \<sigma> = (Inr ans, \<sigma>')"
  shows "served cfg f \<sigma>' a ans"
proof -
  have inv': "listeners_inv cfg f \<sigma>'"
    by (rule table_step_inv [OF ListenDynamicInstance_step [OF inv run] inv])
  from inv run show ?thesis
  proof (cases rule: ListenDynamicInstance_cases)
    case (known q)
    then show ?thesis by (intro advertised_served [OF inv', of _ q]) (auto simp: advertised_same gives_def dest: map_of_SomeD)
  next
    case (moves b q)
    then show ?thesis
      by (intro advertised_served [OF inv', of _ q]) (auto simp: advertised_same gives_def, auto simp: move_entry_def)
  next
    case (starts l k)
    from startDynamicListener_served [OF starts(3)] starts(1) obtain q
      where "(a, q) \<in> set (ls_table \<sigma>')" "gives f \<sigma>' q ans"
        "plain_listeners f \<longrightarrow> SplitHostPort (lc_AdvertisedAddress (config_at \<sigma>' q)) = Inr ans" by auto
    then show ?thesis by (rule advertised_served [OF inv'])
  qed simp
qed

lemma GetNetAddressMapping_served:
  assumes "listeners_inv cfg f \<sigma>" "GetNetAddressMapping f h p n \<sigma> = (Inr ans, \<sigma>')"
  shows "served cfg f \<sigma>' (JoinHostPort h (go_itoa (sint p))) ans"
proof (cases "map_of (ls_table \<sigma>) (JoinHostPort h (go_itoa (sint p)))")
  case None
  with assms(2) have "ListenDynamicInstance f (JoinHostPort h (go_itoa (sint p))) n \<sigma> = (Inr ans, \<sigma>')"
    by (auto simp: GetNetAddressMapping_def abind_def agets_def aerr_def Let_def split: if_splits)
  then show ?thesis by (rule ListenDynamicInstance_served [OF assms(1)])
next
  case (Some q)
  with assms(2) have "\<sigma>' = \<sigma>" "SplitHostPort (lc_AdvertisedAddress (config_at \<sigma> q)) = Inr ans"
    by (auto simp: GetNetAddressMapping_def abind_def agets_def aerr_def Let_def advertised_same split: if_splits)
  with Some show ?thesis
    by (intro advertised_served [of _ _ _ _ q]) (use assms(1) in \<open>simp_all add: gives_def map_of_SomeD\<close>)
qed

end
