(* ===== verification/ListenerProps.thy ===== *)
theory ListenerProps
  imports ListenerFacts ResponseProps
begin

section \<open>The listeners: theorems\<close>

text \<open>
  What the address mapping promises to the rewriting of responses, stated as the locale
  \<open>net_address_mapping\<close> and interpreted on \<open>GetNetAddressMapping\<close>; the theorems on the listeners;
  and the theorem that joins both: what the addresses in a rewritten response are good for.
\<close>

subsection \<open>The contract of an address mapping\<close>

locale net_address_mapping =
  fixes fn :: "'s netAddressMappingFunc"
    and ok :: "'s \<Rightarrow> bool"
    and answers :: "'s \<Rightarrow> string \<Rightarrow> 32 word \<Rightarrow> string \<times> 32 word \<Rightarrow> bool"
  assumes keeps: "ok \<sigma> \<Longrightarrow> fn h p n \<sigma> = (r, \<sigma>') \<Longrightarrow> ok \<sigma>'"
    and answered: "ok \<sigma> \<Longrightarrow> fn h p n \<sigma> = (Inr a, \<sigma>') \<Longrightarrow> answers \<sigma>' h p a"
    and stable: "ok \<sigma> \<Longrightarrow> fn h p n \<sigma> = (r, \<sigma>') \<Longrightarrow> answers \<sigma> h' p' a \<Longrightarrow> answers \<sigma>' h' p' a"
begin

definition good :: "'s \<Rightarrow> address \<Rightarrow> string \<times> 32 word \<Rightarrow> bool" where
  "good \<sigma> = (\<lambda>(h, p, n) a. if h = [] \<and> sint p \<le> 0 then a = (h, p) else answers \<sigma> h p a)"

lemma map_address_good:
  "ok \<sigma> \<Longrightarrow> map_address fn x \<sigma> = (Inr a, \<sigma>') \<Longrightarrow> ok \<sigma>' \<and> good \<sigma>' x a \<and> (good \<sigma> y b \<longrightarrow> good \<sigma>' y b)"
  by (cases x; cases y) (auto simp: good_def intro: keeps answered stable split: if_splits)

lemma map_addresses_good:
  "map_addresses fn xs \<sigma> = (Inr as, \<sigma>') \<Longrightarrow> ok \<sigma> \<Longrightarrow>
   ok \<sigma>' \<and> list_all2 (good \<sigma>') xs as \<and> (\<forall>y b. good \<sigma> y b \<longrightarrow> good \<sigma>' y b)"
proof (induction xs arbitrary: \<sigma> as)
  case (Cons x xs)
  from Cons.prems(1) obtain a \<sigma>1 as1 where run: "map_address fn x \<sigma> = (Inr a, \<sigma>1)"
    "map_addresses fn xs \<sigma>1 = (Inr as1, \<sigma>')" "as = a # as1"
    by (auto simp: abind_Inr_conv)
  from map_address_good [OF Cons.prems(2) run(1)]
  have 1: "ok \<sigma>1" "good \<sigma>1 x a" "\<And>y b. good \<sigma> y b \<Longrightarrow> good \<sigma>1 y b" by blast+
  from Cons.IH [OF run(2) 1(1)]
  have 2: "ok \<sigma>'" "list_all2 (good \<sigma>') xs as1" "\<And>y b. good \<sigma>1 y b \<Longrightarrow> good \<sigma>' y b" by blast+
  from 1(2,3) 2 show ?case unfolding run(3) list_all2_Cons by blast
qed simp

end

subsection \<open>The mapping of the proxy\<close>

definition broker_address :: "string \<Rightarrow> 32 word \<Rightarrow> string" where
  "broker_address h p = JoinHostPort h (go_itoa (sint p))"

definition listener_step :: "'s listeners_config \<Rightarrow> 's listeners \<Rightarrow> 's listeners \<Rightarrow> bool" where
  "listener_step f \<sigma> \<sigma>' \<longleftrightarrow> (\<exists>h p n r. GetNetAddressMapping f h p n \<sigma> = (r, \<sigma>'))
     \<or> (\<not> lf_disableDynamicListeners f \<and> (\<exists>a n r. ListenDynamicInstance f a n \<sigma> = (r, \<sigma>')))"

lemma listener_step_listening: "listening cfg f \<sigma> \<Longrightarrow> listener_step f \<sigma> \<sigma>' \<Longrightarrow> listening cfg f \<sigma>'"
  unfolding listener_step_def by (blast intro: mapped raced)

lemma listener_step_table:
  "listening cfg f \<sigma> \<Longrightarrow> listener_step f \<sigma> \<sigma>' \<Longrightarrow> table_step f \<sigma> \<sigma>'"
  unfolding listener_step_def
  by (blast dest: listening_inv intro: GetNetAddressMapping_step ListenDynamicInstance_step)

lemma served_step:
  assumes "table_step f \<sigma> \<sigma>'" "listeners_inv cfg f \<sigma>" "\<not> lf_deterministicListeners f" "served cfg f \<sigma> a ans"
  shows "served cfg f \<sigma>' a ans"
proof -
  from assms(4) obtain q where q: "map_of (ls_table \<sigma>) a = Some q" "entry_ok cfg f \<sigma> a q" "gives f \<sigma> q ans"
    "plain_listeners f \<longrightarrow> SplitHostPort (lc_AdvertisedAddress (config_at \<sigma> q)) = Inr ans" by (auto simp: served_def)
  have acc: "loops \<sigma> \<subseteq> loops \<sigma>'" using table_step_loops [OF assms(1)] by blast
  have kept: ?thesis if t: "map_of (ls_table \<sigma>') a = Some q" and c: "ls_configs \<sigma>' = ls_configs \<sigma> @ cs" for cs
  proof -
    have same: "config_at \<sigma>' q = config_at \<sigma> q" using config_at_grown [OF c] q(2) by (simp add: entry_ok_def)
    then have "gives f \<sigma>' q ans" using q(3) accepts_mono [OF _ acc same] unfolding gives_def by metis
    with entry_ok_mono [OF q(2) acc] t q(4) c same show ?thesis by (auto simp: served_def)
  qed
  from assms(1) show ?thesis
  proof cases
    case still
    then show ?thesis using kept [of "[]"] q(1) by simp
  next
    case failed
    then show ?thesis using kept q(1) by simp
  next
    case (added b c port adv)
    then show ?thesis using kept [of "[c]"] q(1) by (simp add: map_add_def)
  next
    case moved
    with assms(3) show ?thesis by simp
  qed
qed

definition steady :: "Config \<Rightarrow> 's listeners_config \<Rightarrow> 's listeners \<Rightarrow> bool" where
  "steady cfg f \<sigma> \<longleftrightarrow> listening cfg f \<sigma> \<and> \<not> lf_deterministicListeners f"

interpretation listeners: net_address_mapping
  "GetNetAddressMapping f" "steady cfg f" "\<lambda>\<sigma> h p. served cfg f \<sigma> (broker_address h p)" for f cfg
proof unfold_locales
  fix \<sigma> h p n r \<sigma>'
  assume ok: "steady cfg f \<sigma>" and run: "GetNetAddressMapping f h p n \<sigma> = (r, \<sigma>')"
  then show "steady cfg f \<sigma>'" by (auto simp: steady_def intro: mapped)
next
  fix \<sigma> h p n a \<sigma>'
  assume "steady cfg f \<sigma>" "GetNetAddressMapping f h p n \<sigma> = (Inr a, \<sigma>')"
  then show "served cfg f \<sigma>' (broker_address h p) a"
    unfolding broker_address_def steady_def by (blast intro: GetNetAddressMapping_served listening_inv)
next
  fix \<sigma> h p n r \<sigma>' h' p' a
  assume "steady cfg f \<sigma>" "GetNetAddressMapping f h p n \<sigma> = (r, \<sigma>')" "served cfg f \<sigma> (broker_address h' p') a"
  then show "served cfg f \<sigma>' (broker_address h' p') a"
    unfolding steady_def by (blast intro: served_step GetNetAddressMapping_step listening_inv)
qed

subsection \<open>Listeners to try the theorems on\<close>

text \<open>
  One bootstrap server, and listeners on demand on ports that the system gives out from 40;
  \<open>deterministic\<close> has the ports from 30 in deterministic mode.
\<close>

definition sample_listen :: "string \<Rightarrow> (nat, int) action" where
  "sample_listen a n = (Inr (40 + int (n mod 100)), Suc n)"

definition sample_servers :: Config where
  "sample_servers = NewConfig\<lparr>Proxy_BootstrapServers :=
     [\<lparr>sm_BrokerAddress = ''b1:92'', sm_ListenerAddress = ''127.0.0.1:31'', sm_AdvertisedAddress = ''proxy:31''\<rparr>]\<rparr>"

definition deterministic_servers :: Config where
  "deterministic_servers = sample_servers\<lparr>Proxy_DeterministicListeners := True,
     Proxy_DynamicSequentialMinPort := 30, Proxy_DynamicSequentialMaxPorts := 10\<rparr>"

definition fresh_listeners :: "Config \<Rightarrow> nat listeners_config \<times> nat listeners" where
  "fresh_listeners cfg = projr (NewListeners (\<lambda>e. e) sample_listen (\<lambda>t n. Inr t) cfg 0)"

abbreviation listener_fields :: "Config \<Rightarrow> nat listeners_config" where
  "listener_fields cfg \<equiv> fst (fresh_listeners cfg)"

definition started_listeners :: "Config \<Rightarrow> nat listeners" where
  "started_listeners cfg =
     snd (ListenInstances (listener_fields cfg) (Proxy_BootstrapServers cfg) (snd (fresh_listeners cfg)))"

lemma sample_listening:
  "listening sample_servers (listener_fields sample_servers) (started_listeners sample_servers)"
  "listening deterministic_servers (listener_fields deterministic_servers) (started_listeners deterministic_servers)"
proof -
  have "case NewListeners (\<lambda>e. e) sample_listen (\<lambda>t n. Inr t) sample_servers 0 of Inl e \<Rightarrow> False | Inr fs \<Rightarrow> True"
    "case NewListeners (\<lambda>e. e) sample_listen (\<lambda>t n. Inr t) deterministic_servers 0 of Inl e \<Rightarrow> False | Inr fs \<Rightarrow> True"
    by code_simp+
  then have new: "NewListeners (\<lambda>e. e) sample_listen (\<lambda>t n. Inr t) cfg 0 = Inr (listener_fields cfg, snd (fresh_listeners cfg))"
    if "cfg = sample_servers \<or> cfg = deterministic_servers" for cfg
    using that by (auto simp: fresh_listeners_def split: sum.splits)
  have "fst (ListenInstances (listener_fields sample_servers) (Proxy_BootstrapServers sample_servers) (snd (fresh_listeners sample_servers))) = Inr ()"
    "fst (ListenInstances (listener_fields deterministic_servers) (Proxy_BootstrapServers deterministic_servers) (snd (fresh_listeners deterministic_servers))) = Inr ()"
    by code_simp+
  then have run: "ListenInstances (listener_fields cfg) (Proxy_BootstrapServers cfg) (snd (fresh_listeners cfg)) = (Inr (), started_listeners cfg)"
    if "cfg = sample_servers \<or> cfg = deterministic_servers" for cfg
    using that by (auto simp: started_listeners_def prod_eq_iff)
  show "listening sample_servers (listener_fields sample_servers) (started_listeners sample_servers)"
    "listening deterministic_servers (listener_fields deterministic_servers) (started_listeners deterministic_servers)"
    by (rule started [OF _ new run]; simp)+
qed

definition after_mapping :: "Config \<Rightarrow> string \<Rightarrow> 32 word \<Rightarrow> 32 word \<Rightarrow> nat listeners" where
  "after_mapping cfg h p n = snd (GetNetAddressMapping (listener_fields cfg) h p n (started_listeners cfg))"

lemma sample_mapped:
  "GetNetAddressMapping (listener_fields sample_servers) ''b2'' 92 2 (started_listeners sample_servers)
     = (Inr (''127.0.0.1'', 41), after_mapping sample_servers ''b2'' 92 2)"
  "GetNetAddressMapping (listener_fields deterministic_servers) ''b2'' 92 2 (started_listeners deterministic_servers)
     = (Inr (''127.0.0.1'', 41), after_mapping deterministic_servers ''b2'' 92 2)"
  by (simp_all only: after_mapping_def prod_eq_iff fst_conv snd_conv simp_thms, code_simp+)

subsection \<open>What an address is good for\<close>

text \<open>
  What an entry \<open>q\<close> for the broker address \<open>a\<close> stands for: a bootstrap server, for which an accept
  loop was started; an external server, for which the proxy does not listen; or a listener on
  demand.  A loop that was started is running or has ended by an error of its own \<open>Accept\<close>.
\<close>

definition stands_for :: "Config \<Rightarrow> 's listeners_config \<Rightarrow> 's listeners \<Rightarrow> string \<Rightarrow> nat \<Rightarrow> bool" where
  "stands_for cfg f \<sigma> a q \<longleftrightarrow>
     (\<exists>v \<in> set (Proxy_BootstrapServers cfg). sm_BrokerAddress v = a \<and> config_at \<sigma> q = FromListenerConfig v
        \<and> bootstrap_loop \<sigma> v)
   \<or> (\<exists>v \<in> set (Proxy_ExternalServers cfg). sm_BrokerAddress v = a \<and> config_at \<sigma> q = FromListenerConfig v)
   \<or> (\<exists>port adv. accepts f \<sigma> q port adv)"

text \<open>The address \<open>ans\<close> is what the entry for the broker address \<open>a\<close> advertises.\<close>

definition leads_to :: "Config \<Rightarrow> 's listeners_config \<Rightarrow> 's listeners \<Rightarrow> string \<Rightarrow> string \<times> 32 word \<Rightarrow> bool" where
  "leads_to cfg f \<sigma> a ans \<longleftrightarrow> (\<exists>q. map_of (ls_table \<sigma>) a = Some q \<and> accepted_for \<sigma> q = a
     \<and> gives f \<sigma> q ans \<and> stands_for cfg f \<sigma> a q)"

lemma configured_server:
  assumes "configured cfg a = Some c"
  shows "\<exists>v \<in> set (Proxy_BootstrapServers cfg) \<union> set (Proxy_ExternalServers cfg).
    sm_BrokerAddress v = a \<and> c = FromListenerConfig v"
  using assms first_for_SomeD [of a "Proxy_BootstrapServers cfg @ Proxy_ExternalServers cfg"]
  unfolding configured_def by force

lemma served_leads_to:
  assumes "listeners_inv cfg f \<sigma>" "served cfg f \<sigma> a ans"
  shows "leads_to cfg f \<sigma> a ans"
proof -
  from assms(2) obtain q where q: "map_of (ls_table \<sigma>) a = Some q" "entry_ok cfg f \<sigma> a q" "gives f \<sigma> q ans"
    by (auto simp: served_def)
  have boot: "bootstrap_loop \<sigma> v" if "v \<in> set (Proxy_BootstrapServers cfg)" for v
    using assms(1) that by (simp add: listeners_inv_def)
  from q(2) consider "configured cfg a = Some (config_at \<sigma> q)" | "\<exists>port adv. accepts f \<sigma> q port adv"
    by (auto simp: entry_ok_def)
  then have "stands_for cfg f \<sigma> a q"
  proof cases
    case 1
    from configured_server [OF this] boot show ?thesis unfolding stands_for_def by blast
  qed (simp add: stands_for_def)
  with q show ?thesis by (auto simp: leads_to_def entry_ok_def accepted_for_def)
qed

text \<open>
  C4: The addresses in a rewritten response lead to the brokers, unless the listeners are
  deterministic.  When \<open>Apply\<close> with the mapping of the listeners returns, the client's view of the
  response has the node ids of the original, and for every address in it that was not blank the
  table, in the state then reached, has an entry for the broker that it replaces, and the address
  is what this entry advertises.  The entry is that of a bootstrap server, for whose broker an
  accept loop was started, or that of an external server, for which the proxy itself does not
  listen, or a listener on demand whose connections are for this broker.  This holds for all the
  addresses of the response at once.  Deterministic listeners are left out because a later address
  of the response may there take over the listener of an earlier one.
\<close>

theorem rewritten_addresses_served:
  assumes "listening cfg f \<sigma>" "\<not> lf_deterministicListeners f"
    and "GetResponseModifier k v (Some (GetNetAddressMapping f)) = Inr (Some m)"
    and "responseModifier_Apply m (Some b) \<sigma> = (Inr out, \<sigma>')"
  shows "\<exists>s s' hps. DecodeSchema (Some b) (rm_schema m) = Inr (Some s)
    \<and> DecodeSchema out (rm_schema m) = Inr (Some s')
    \<and> response_addresses k s' = replace_addresses (response_addresses k s) hps
    \<and> list_all2 (\<lambda>(h, p, n) a. if h = [] \<and> sint p \<le> 0 then a = (h, p)
        else leads_to cfg f \<sigma>' (broker_address h p) a) (response_addresses k s) hps"
proof -
  from assms(3,4) obtain s hps b' where d: "DecodeSchema (Some b) (rm_schema m) = Inr (Some s)"
    and h: "map_addresses (GetNetAddressMapping f) (response_addresses k s) \<sigma> = (Inr hps, \<sigma>')" and o: "out = Some b'"
    and d': "DecodeSchema (Some b') (rm_schema m) = Inr (Some (response_put k s hps))"
    by (rule Apply_decodes)
  note laws = response_lens_laws [OF assms(3) d]
  have "steady cfg f \<sigma>" using assms(1,2) by (simp add: steady_def)
  note good = listeners.map_addresses_good [OF h this, unfolded listeners.good_def]
  then have inv: "listeners_inv cfg f \<sigma>'" by (simp add: steady_def listening_inv)
  have "list_all2 (\<lambda>(h, p, n) a. if h = [] \<and> sint p \<le> 0 then a = (h, p)
      else leads_to cfg f \<sigma>' (broker_address h p) a) (response_addresses k s) hps"
    by (rule list_all2_mono [OF good [THEN conjunct2, THEN conjunct1]])
      (use served_leads_to [OF inv] in \<open>simp add: case_prod_beta split: if_splits\<close>)
  with laws(2) [OF map_addresses_length [OF h]] d d' o show ?thesis by blast
qed

definition sample_listener_modifier :: "nat listeners responseModifier" where
  "sample_listener_modifier = \<lparr>rm_schema = metadataResponseSchemaVersions ! 0,
     rm_modifyResponseFunc = modifyMetadataResponse,
     rm_netAddressMappingFunc = Some (GetNetAddressMapping (listener_fields sample_servers))\<rparr>"

definition sample_metadata :: "byte list" where
  "sample_metadata = [0,0,0,1, 0,0,0,1, 0,2,107,98, 0,0,0,92, 0,0,0,0]"

definition after_metadata :: "nat listeners" where
  "after_metadata = snd (responseModifier_Apply sample_listener_modifier (Some sample_metadata) (started_listeners sample_servers))"

definition rewritten_metadata :: "byte list" where
  "rewritten_metadata = [0,0,0,1, 0,0,0,1, 0,9,49,50,55,46,48,46,48,46,49, 0,0,0,41, 0,0,0,0]"

lemma sample_metadata_rewritten:
  "responseModifier_Apply sample_listener_modifier (Some sample_metadata) (started_listeners sample_servers)
     = (Inr (Some rewritten_metadata), after_metadata)"
  by (simp only: after_metadata_def prod_eq_iff fst_conv snd_conv simp_thms, code_simp)

lemma sample_table: "\<exists>m. getBrokerToListenerConfig (\<lambda>e. e) sample_servers = Inr m"
  by (simp add: getBrokerToListenerConfig_def sample_servers_def NewConfig_def bootstrap_entry_def)

lemma sample_plain: "plain_listeners (listener_fields sample_servers)" "\<not> lf_deterministicListeners (listener_fields sample_servers)"
proof -
  have f: "lf_listenFunc (listener_fields sample_servers) = sample_listen"
    "lf_dynamicAdvertisedListener (listener_fields sample_servers) = []"
    "lf_defaultListenerIP (listener_fields sample_servers) = ''127.0.0.1''"
    using sample_table by (auto simp: fresh_listeners_def NewListeners_def sample_servers_def NewConfig_def)
  have port: "s mod 100 < (65496::nat)" for s
    by (rule less_trans [OF mod_less_divisor]) simp_all
  show "plain_listeners (listener_fields sample_servers)"
    by (simp add: port plain_listeners_def f sample_listen_def getDynamicAdvertisedAddress_def plain_host_def)
  show "\<not> lf_deterministicListeners (listener_fields sample_servers)" by code_simp
qed

lemma rewritten_addresses_served_witness:
  "\<exists>s s' hps. DecodeSchema (Some sample_metadata) (rm_schema sample_listener_modifier) = Inr (Some s)
    \<and> DecodeSchema (Some rewritten_metadata) (rm_schema sample_listener_modifier) = Inr (Some s')
    \<and> response_addresses 3 s' = replace_addresses (response_addresses 3 s) hps
    \<and> list_all2 (\<lambda>(h, p, n) a. if h = [] \<and> sint p \<le> 0 then a = (h, p)
        else leads_to sample_servers (listener_fields sample_servers) after_metadata (broker_address h p) a)
      (response_addresses 3 s) hps"
proof (rule rewritten_addresses_served [OF sample_listening(1) sample_plain(2) _ sample_metadata_rewritten])
  show "GetResponseModifier 3 0 (Some (GetNetAddressMapping (listener_fields sample_servers))) = Inr (Some sample_listener_modifier)"
    using schema_tables_length
    by (simp add: GetResponseModifier_def newResponseModifier_def getResponseSchema_def
        apiKeyMetadata_def sample_listener_modifier_def)
qed

text \<open>
  C16: A mapped address belongs to the broker.  When the listeners, in whatever state they are and
  whatever the configuration, answer a request for a broker's address, the table has an entry for
  this address whose connections are for it; the answer is what the entry advertises: the parts of
  the stored text or, from the call that starts the listener, the host and port the text is put
  together of; and the entry is that of a bootstrap server for this address, whose accept loop was
  started, that of an external server, or a listener on demand whose accept loop was started.
\<close>

theorem mapping_reaches_broker:
  assumes "listening cfg f \<sigma>" "GetNetAddressMapping f h p n \<sigma> = (Inr ans, \<sigma>')"
  shows "leads_to cfg f \<sigma>' (broker_address h p) ans \<and> listening cfg f \<sigma>'"
proof -
  have l: "listening cfg f \<sigma>'" by (rule mapped [OF assms])
  from GetNetAddressMapping_served [OF listening_inv [OF assms(1)] assms(2)]
  show ?thesis using served_leads_to [OF listening_inv [OF l]] l by (simp add: broker_address_def)
qed

lemma mapping_reaches_broker_witness:
  "leads_to sample_servers (listener_fields sample_servers) (after_mapping sample_servers ''b2'' 92 2)
      (broker_address ''b2'' 92) (''127.0.0.1'', 41)
    \<and> listening sample_servers (listener_fields sample_servers) (after_mapping sample_servers ''b2'' 92 2)"
  by (rule mapping_reaches_broker [OF sample_listening(1) sample_mapped(1)])

text \<open>
  In every state of the listeners each bootstrap server has an accept loop of its own that was
  started on its address and whose connections are for its broker: no mapping takes it away or
  gives it to another broker, and it runs unless its own \<open>Accept\<close> has failed.
\<close>

theorem bootstrap_servers_kept:
  assumes "listening cfg f \<sigma>" "v \<in> set (Proxy_BootstrapServers cfg)"
  shows "\<exists>q port. (q, port) \<in> set (ls_accepting \<sigma>) \<union> set (ls_closed \<sigma>) \<and> accepted_for \<sigma> q = sm_BrokerAddress v
    \<and> lc_ListenerAddress (config_at \<sigma> q) = sm_ListenerAddress v"
proof -
  from listening_inv [OF assms(1)] assms(2) have "bootstrap_loop \<sigma> v" by (auto simp: listeners_inv_def)
  then obtain q port where "(q, port) \<in> set (ls_accepting \<sigma>) \<union> set (ls_closed \<sigma>)" "config_at \<sigma> q = FromListenerConfig v"
    unfolding bootstrap_loop_def loops_def by blast
  then show ?thesis
    by (intro exI [of _ q] exI [of _ port]) (simp add: accepted_for_def FromListenerConfig_def)
qed

lemma bootstrap_servers_kept_witness:
  "\<exists>q port. (q, port) \<in> set (ls_accepting (started_listeners sample_servers)) \<union> set (ls_closed (started_listeners sample_servers))
    \<and> accepted_for (started_listeners sample_servers) q = ''b1:92''
    \<and> lc_ListenerAddress (config_at (started_listeners sample_servers) q) = ''127.0.0.1:31''"
proof -
  have "\<lparr>sm_BrokerAddress = ''b1:92'', sm_ListenerAddress = ''127.0.0.1:31'', sm_AdvertisedAddress = ''proxy:31''\<rparr>
      \<in> set (Proxy_BootstrapServers sample_servers)"
    by (simp add: sample_servers_def)
  from bootstrap_servers_kept [OF sample_listening(1) this] show ?thesis by simp
qed

text \<open>
  An answer stands.  Without deterministic listeners, and where no advertised host has brackets,
  the answer to a mapping is given again, and changes nothing, after any number of further steps
  of the listeners, whatever broker id comes with the request.
\<close>

theorem mapping_repeats:
  assumes "listening cfg f \<sigma>" "plain_listeners f" "\<not> lf_deterministicListeners f"
    and "GetNetAddressMapping f h p n \<sigma> = (Inr ans, \<sigma>1)" "(listener_step f)\<^sup>*\<^sup>* \<sigma>1 \<sigma>2"
  shows "GetNetAddressMapping f h p n' \<sigma>2 = (Inr ans, \<sigma>2)"
proof -
  have start: "served cfg f \<sigma>1 (broker_address h p) ans" "listening cfg f \<sigma>1"
    using GetNetAddressMapping_served [OF listening_inv [OF assms(1)] assms(4)] mapped [OF assms(1,4)]
    by (auto simp: broker_address_def)
  from assms(5) have "served cfg f \<sigma>2 (broker_address h p) ans \<and> listening cfg f \<sigma>2"
  proof induction
    case base
    then show ?case using start by blast
  next
    case (step \<sigma>2 \<sigma>3)
    then show ?case
      using served_step [OF listener_step_table listening_inv assms(3)] listener_step_listening by blast
  qed
  then obtain q where q: "map_of (ls_table \<sigma>2) (JoinHostPort h (go_itoa (sint p))) = Some q"
    "SplitHostPort (lc_AdvertisedAddress (config_at \<sigma>2 q)) = Inr ans"
    using assms(2) by (auto simp: served_def broker_address_def)
  have "\<not> (h = [] \<or> sint p \<le> 0)"
    using assms(4) by (auto simp: GetNetAddressMapping_def)
  then show ?thesis
    by (simp add: GetNetAddressMapping_def abind_def agets_def Let_def q advertised_same)
qed

lemma mapping_repeats_witness:
  "GetNetAddressMapping (listener_fields sample_servers) ''b2'' 92 7 (after_mapping sample_servers ''b2'' 92 2)
     = (Inr (''127.0.0.1'', 41), after_mapping sample_servers ''b2'' 92 2)"
  by (rule mapping_repeats [OF sample_listening(1) sample_plain sample_mapped(1)]) simp




text \<open>
  C31: In deterministic mode a broker that comes back under a new address keeps its listener.  If
  the table has a listener for the broker id, and the new address is not in the table, then the
  mapping of the new address gives what this listener advertises; no listener is started; the
  connections it accepts from now on are for the new address, and the old one is forgotten.
\<close>

theorem moved_broker_keeps_listener:
  assumes "listening cfg f \<sigma>" "lf_deterministicListeners f" "\<not> lf_disableDynamicListeners f"
    and "map_of (ls_table \<sigma>) b = Some q" "lc_BrokerID (config_at \<sigma> q) = n" "0 \<le> sint n"
    and "h \<noteq> []" "0 < sint p" "map_of (ls_table \<sigma>) (broker_address h p) = None"
    and "nextDynamicPort f (ucast n) (broker_address h p) n = Inr port"
  shows "\<exists>\<sigma>'. GetNetAddressMapping f h p n \<sigma> = (SplitHostPort (lc_AdvertisedAddress (config_at \<sigma> q)), \<sigma>')
    \<and> accepted_for \<sigma>' q = broker_address h p \<and> ls_accepting \<sigma>' = ls_accepting \<sigma>
    \<and> map_of (ls_table \<sigma>') = (map_of (ls_table \<sigma>))(b := None, broker_address h p \<mapsto> q)"
proof -
  let ?a = "broker_address h p"
  note inv = listening_inv [OF assms(1)]
  have q: "(b, q) \<in> set (ls_table \<sigma>)" using assms(4) by (rule map_of_SomeD)
  note b = inv_entry(3) [OF inv q] and len = inv_entry(2) [OF inv q]
  have "one_listener_per_id \<sigma>" using inv assms(2) by (simp add: listeners_inv_def)
  moreover obtain r where r: "findListenerConfig n \<sigma> = Some r"
    using q assms(5) findListenerConfig_None [of n \<sigma>] by (cases "findListenerConfig n \<sigma>") auto
  ultimately have "r = q"
    using findListenerConfig_Some [OF r] q assms(5,6) unfolding one_listener_per_id_def by force
  have new: "?a \<notin> fst ` set (ls_table \<sigma>)" using assms(9) by (simp add: map_of_eq_None_iff)
  then have "lc_BrokerAddress (config_at \<sigma> q) \<noteq> ?a" using q b by force
  note move = rebind_run [OF new this]
  have run: "GetNetAddressMapping f h p n \<sigma> = advertised q (move_entry q ?a \<sigma>)"
    using assms(2,3,6-10) r \<open>r = q\<close> move
    by (simp add: GetNetAddressMapping_def ListenDynamicInstance_def broker_address_def abind_def agets_def Let_def)
  have c: "config_at (move_entry q ?a \<sigma>) q = (config_at \<sigma> q)\<lparr>lc_BrokerAddress := ?a\<rparr>"
    using len by (simp add: config_at_def move_entry_def)
  have t: "map_of (ls_table (move_entry q ?a \<sigma>)) = (map_of (ls_table \<sigma>))(b := None, ?a \<mapsto> q)"
  proof
    fix x
    have "map_of (AList.delete b (ls_table \<sigma>)) ?a = None"
      using assms(9) by (simp add: AList.delete_conv')
    then show "map_of (ls_table (move_entry q ?a \<sigma>)) x = ((map_of (ls_table \<sigma>))(b := None, ?a \<mapsto> q)) x"
      by (auto simp: move_entry_def b map_add_def AList.delete_conv' split: option.splits)
  qed
  have acc: "ls_accepting (move_entry q ?a \<sigma>) = ls_accepting \<sigma>" by (simp add: move_entry_def)
  show ?thesis
    by (intro exI [of _ "move_entry q ?a \<sigma>"] conjI t acc)
      (simp_all add: run advertised_same accepted_for_def c)
qed

lemma moved_sample:
  "map_of (ls_table (after_mapping deterministic_servers ''b2'' 92 2)) ''b2:92'' = Some 2"
  "lc_BrokerID (config_at (after_mapping deterministic_servers ''b2'' 92 2) 2) = 2"
  "map_of (ls_table (after_mapping deterministic_servers ''b2'' 92 2)) (broker_address ''b3'' 92) = None"
  "nextDynamicPort (listener_fields deterministic_servers) (ucast (2 :: 32 word)) (broker_address ''b3'' 92) 2 = Inr 32"
  "lf_deterministicListeners (listener_fields deterministic_servers)"
  "\<not> lf_disableDynamicListeners (listener_fields deterministic_servers)"
  by code_simp+

lemma moved_broker_keeps_listener_witness:
  "\<exists>\<sigma>'. GetNetAddressMapping (listener_fields deterministic_servers) ''b3'' 92 2
        (after_mapping deterministic_servers ''b2'' 92 2)
      = (SplitHostPort (lc_AdvertisedAddress (config_at (after_mapping deterministic_servers ''b2'' 92 2) 2)), \<sigma>')
    \<and> accepted_for \<sigma>' 2 = broker_address ''b3'' 92
    \<and> ls_accepting \<sigma>' = ls_accepting (after_mapping deterministic_servers ''b2'' 92 2)
    \<and> map_of (ls_table \<sigma>') = (map_of (ls_table (after_mapping deterministic_servers ''b2'' 92 2)))
        (''b2:92'' := None, broker_address ''b3'' 92 \<mapsto> 2)"
  by (rule moved_broker_keeps_listener [OF mapped [OF sample_listening(2) sample_mapped(2)] moved_sample(5,6,1,2)
      _ _ _ moved_sample(3,4)]) simp_all

subsection \<open>Ports and tables\<close>

lemma uint_rest_of_ports:
  assumes "0 < uint m" "uint m < 65536"
  shows "uint (ucast (65536 - ucast m :: 32 word) :: 16 word) = 65536 - uint (m :: 16 word)"
proof -
  have m: "uint (ucast m :: 32 word) = uint m"
    using uint_lt2p [of m] by (simp add: unsigned_ucast_eq take_bit_eq_mod)
  have "(ucast m :: 32 word) \<le> 65536" using assms by (simp add: word_le_def m)
  then have "uint (65536 - ucast m :: 32 word) = 65536 - uint m"
    using uint_minus_simple_alt [of "ucast m" "65536 :: 32 word"] m by simp
  moreover have "take_bit 16 (65536 - uint m) = 65536 - uint m"
    using assms by (intro take_bit_int_eq_self) simp_all
  ultimately show ?thesis by (simp only: unsigned_ucast_eq) simp
qed

lemma next_port_in_range:
  assumes "0 < uint (lf_dynamicSequentialMaxPorts f)"
    and "uint (lf_dynamicSequentialMinPort f) + uint (lf_dynamicSequentialMaxPorts f) \<le> 65536"
  shows "\<exists>port. nextDynamicPort f k a n = Inr port \<and> uint (lf_dynamicSequentialMinPort f) \<le> uint port
    \<and> uint port < uint (lf_dynamicSequentialMinPort f) + uint (lf_dynamicSequentialMaxPorts f)"
proof -
  let ?max = "lf_dynamicSequentialMaxPorts f" and ?min = "lf_dynamicSequentialMinPort f"
  define r where "r = uint k mod uint ?max"
  have r: "0 \<le> r" "r < uint ?max" using assms(1) by (simp_all add: r_def)
  have "uint (k mod ucast ?max) = r"
    using uint_lt2p [of ?max] by (simp add: r_def uint_mod unsigned_ucast_eq take_bit_eq_mod)
  then have u: "uint (ucast (k mod ucast ?max) :: 16 word) = r"
    using r uint_lt2p [of ?max] by (simp add: unsigned_ucast_eq take_bit_eq_mod)
  then have p: "uint (?min + ucast (k mod ucast ?max)) = uint ?min + r"
    using r assms(2) uint_add_lem [of ?min "ucast (k mod ucast ?max)"] by simp
  have "?max \<noteq> 0" using assms(1) by auto
  then show ?thesis
    using r by (simp add: nextDynamicPort_def Let_def p word_less_def)
qed

text \<open>
  C28: Ports do not run out.  With a configuration that \<open>Validate\<close> accepts, in which listeners on
  demand are enabled, the first port is not 0, and first port and number of ports are at most
  65536 together, the next port always exists and lies in the range of the configuration;
  \<open>Validate\<close> completes a missing number of ports so that the range ends with port 65535.  (The
  condition on the sum is needed: \<open>Validate\<close> accepts a range that goes beyond port 65535.)
\<close>

theorem dynamic_ports_in_range:
  assumes "Validate is_ip cfg = Inr cfg'" "NewListeners order listenFunc template cfg' ext = Inr (f, \<sigma>)"
    and "\<not> Proxy_DisableDynamicListeners cfg" "Proxy_DynamicSequentialMinPort cfg \<noteq> 0"
    and "uint (Proxy_DynamicSequentialMinPort cfg) + uint (Proxy_DynamicSequentialMaxPorts cfg) \<le> 65536"
  shows "\<exists>port. nextDynamicPort f k a n = Inr port \<and> uint (Proxy_DynamicSequentialMinPort cfg) \<le> uint port
    \<and> uint port < uint (Proxy_DynamicSequentialMinPort cfg) +
        (if Proxy_DynamicSequentialMaxPorts cfg = 0 then 65536 - uint (Proxy_DynamicSequentialMinPort cfg)
         else uint (Proxy_DynamicSequentialMaxPorts cfg))"
proof -
  let ?min = "Proxy_DynamicSequentialMinPort cfg" and ?max = "Proxy_DynamicSequentialMaxPorts cfg"
  have min: "0 < uint ?min" "uint ?min < 65536"
    using assms(4) uint_lt2p [of ?min] by (simp_all add: word_neq_0_conv word_less_def)
  have "lf_dynamicSequentialMinPort f = ?min
    \<and> lf_dynamicSequentialMaxPorts f = (if ?max = 0 then ucast (65536 - ucast ?min :: 32 word) else ?max)"
    using assms(1-4)
    by (auto simp: Validate_def NewListeners_def rbind_Inr_conv word_neq_0_conv split: option.splits if_splits)
  then have f: "lf_dynamicSequentialMinPort f = ?min"
    "uint (lf_dynamicSequentialMaxPorts f) = (if ?max = 0 then 65536 - uint ?min else uint ?max)"
    using uint_rest_of_ports [OF min] by auto
  have "0 < uint (lf_dynamicSequentialMaxPorts f)" "uint ?min + uint (lf_dynamicSequentialMaxPorts f) \<le> 65536"
    using min assms(5) f(2) by (auto simp: word_neq_0_conv word_less_def)
  from next_port_in_range [of f k a n] this show ?thesis
    by (auto simp: f)
qed

definition validated_servers :: Config where
  "validated_servers = projr (Validate (\<lambda>ip. True) (sample_servers\<lparr>Proxy_DynamicSequentialMinPort := 30\<rparr>))"

lemma validated_sample:
  "Validate (\<lambda>ip. True) (sample_servers\<lparr>Proxy_DynamicSequentialMinPort := 30\<rparr>) = Inr validated_servers"
  "NewListeners (\<lambda>e. e) sample_listen (\<lambda>t n. Inr t) validated_servers 0
    = Inr (listener_fields validated_servers, snd (fresh_listeners validated_servers))"
proof -
  have "case Validate (\<lambda>ip. True) (sample_servers\<lparr>Proxy_DynamicSequentialMinPort := 30\<rparr>) of Inl e \<Rightarrow> False | Inr c \<Rightarrow> True"
    "case NewListeners (\<lambda>e. e) sample_listen (\<lambda>t n. Inr t) validated_servers 0 of Inl e \<Rightarrow> False | Inr fs \<Rightarrow> True"
    by code_simp+
  then show "Validate (\<lambda>ip. True) (sample_servers\<lparr>Proxy_DynamicSequentialMinPort := 30\<rparr>) = Inr validated_servers"
    "NewListeners (\<lambda>e. e) sample_listen (\<lambda>t n. Inr t) validated_servers 0
      = Inr (listener_fields validated_servers, snd (fresh_listeners validated_servers))"
    by (auto simp: validated_servers_def fresh_listeners_def split: sum.splits)
qed

lemma dynamic_ports_in_range_witness:
  "\<exists>port. nextDynamicPort (listener_fields validated_servers) 70000 ''b2:92'' 2 = Inr port
    \<and> 30 \<le> uint port \<and> uint port < 30 + 65506"
  using dynamic_ports_in_range [OF validated_sample, of 70000 "''b2:92''" 2]
  by (simp add: sample_servers_def NewConfig_def)

text \<open>
  C29: The table of a configuration.  \<open>getBrokerToListenerConfig\<close> succeeds on the consistent
  configurations and refuses the others with an error; its map has one entry for each broker
  address, that of the first bootstrap server for it or, without one, of the first external
  server.  The order in which Go iterates over the external servers is of no account.
\<close>

theorem table_of_configuration:
  assumes "\<And>e. mset (order e) = mset e"
  shows "if consistent_servers cfg
    then \<exists>m. getBrokerToListenerConfig order cfg = Inr m \<and> distinct (map fst m) \<and> map_of m = configured cfg
    else \<exists>e. getBrokerToListenerConfig order cfg = Inl (GoErr e)"
  using getBrokerToListenerConfig_settled [OF assms] .

definition external_servers :: Config where
  "external_servers = sample_servers\<lparr>Proxy_ExternalServers :=
     [\<lparr>sm_BrokerAddress = ''b3:92'', sm_ListenerAddress = ''lb:33'', sm_AdvertisedAddress = ''lb:33''\<rparr>]\<rparr>"

lemma table_of_configuration_witness:
  "\<exists>m. getBrokerToListenerConfig rev external_servers = Inr m \<and> distinct (map fst m)
    \<and> map_of m = configured external_servers"
proof -
  have "consistent_servers external_servers"
    by (simp add: consistent_servers_def external_servers_def sample_servers_def first_for_def)
  then show ?thesis using table_of_configuration [of rev external_servers] by simp
qed

subsection \<open>A host in brackets\<close>

text \<open>An address whose host has brackets of its own is not split again.\<close>

lemma SplitHostPort_bracketed:
  assumes "CHR '':'' \<in> set x" "CHR '']'' \<notin> set x"
  shows "\<exists>e. SplitHostPort (JoinHostPort (CHR ''['' # x @ '']'') (go_itoa i)) = Inl (GoErr e)"
proof -
  let ?a = "JoinHostPort (CHR ''['' # x @ '']'') (go_itoa i)"
  have a: "?a = ''[['' @ x @ '']]:'' @ go_itoa i" using assms(1) by (simp add: JoinHostPort_def)
  have "CHR '':'' \<notin> set (go_itoa i)" using plain_port_itoa by (simp add: plain_port_def)
  then have l: "last_cut CHR '':'' ?a = Some (''[['' @ x @ '']]'', go_itoa i)"
    using last_cut_join [of "CHR '':''" "go_itoa i" "''[['' @ x @ '']]''"] by (simp add: a)
  have "go_cut CHR '']'' ?a = Some (''[['' @ x, '']:'' @ go_itoa i)"
    using go_cut_join [of "CHR '']''" "''[['' @ x" "'']:'' @ go_itoa i"] assms(2) by (simp add: a)
  then show ?thesis
    by (simp add: SplitHostPort_def net_SplitHostPort_def l addr_error_def) (simp add: a)
qed

lemma net_SplitHostPort_brackets:
  assumes "CHR '':'' \<in> set x" "CHR '']'' \<notin> set x"
  shows "\<exists>e. net_SplitHostPort (CHR ''['' # x @ '']'') = Inl e"
proof -
  have "go_cut CHR '']'' (CHR ''['' # x @ '']'') = Some (CHR ''['' # x, [])"
    using go_cut_join [of "CHR '']''" "CHR ''['' # x" "[]"] assms(2) by simp
  then show ?thesis by (auto simp: net_SplitHostPort_def addr_error_def split: option.splits)
qed

text \<open>
  An advertised host in brackets works once.  If the template of the advertised listener
  gives an address of IPv6 in brackets without a port, then the request that starts a listener
  is answered, with the brackets in the host; the address is stored with brackets around the
  brackets, and the same request after it is an error.
\<close>

theorem bracketed_host_works_once:
  assumes "lf_dynamicAdvertisedListener f \<noteq> []" "lf_template f (lf_dynamicAdvertisedListener f) n = Inr (CHR ''['' # x @ '']'')"
    and "CHR '':'' \<in> set x" "CHR '']'' \<notin> set x"
    and "\<not> lf_deterministicListeners f" "\<not> lf_disableDynamicListeners f" "lf_dynamicSequentialMinPort f = 0"
    and "h \<noteq> []" "0 < sint p" "map_of (ls_table \<sigma>) (broker_address h p) = None"
    and "fst (lf_listenFunc f (JoinHostPort (lf_defaultListenerIP f) (go_itoa 0)) (ls_ext \<sigma>)) = Inr port"
  shows "\<exists>\<sigma>' e. GetNetAddressMapping f h p n \<sigma> = (Inr (CHR ''['' # x @ '']'', of_int port), \<sigma>')
    \<and> GetNetAddressMapping f h p n \<sigma>' = (Inl (GoErr e), \<sigma>')"
proof -
  let ?a = "broker_address h p" and ?h = "CHR ''['' # x @ '']''"
  have adv: "getDynamicAdvertisedAddress f n port = Inr (?h, port)"
    using assms(1,2) net_SplitHostPort_brackets [OF assms(3,4)] by (auto simp: getDynamicAdvertisedAddress_def)
  have new: "?a \<notin> fst ` set (ls_table \<sigma>)" using assms(10) by (simp add: map_of_eq_None_iff)
  obtain \<sigma>' where run: "startDynamicListener f ?a n (JoinHostPort (lf_defaultListenerIP f) (go_itoa 0)) \<sigma>
      = (Inr (?h, of_int port), \<sigma>')"
    and t: "ls_table \<sigma>' = ls_table \<sigma> @ [(?a, length (ls_configs \<sigma>))]"
    and c: "lc_AdvertisedAddress (config_at \<sigma>' (length (ls_configs \<sigma>))) = JoinHostPort ?h (go_itoa port)"
    using startDynamicListener_run [OF new, of f n "JoinHostPort (lf_defaultListenerIP f) (go_itoa 0)"] assms(11) adv
    by (cases "lf_listenFunc f (JoinHostPort (lf_defaultListenerIP f) (go_itoa 0)) (ls_ext \<sigma>)")
      (auto simp: Let_def config_at_def advertise_def)
  have first: "GetNetAddressMapping f h p n \<sigma> = (Inr (?h, of_int port), \<sigma>')"
    using assms(5-10) run
    by (simp add: GetNetAddressMapping_def ListenDynamicInstance_def broker_address_def abind_def agets_def Let_def)
  have "map_of (ls_table \<sigma>') ?a = Some (length (ls_configs \<sigma>))"
    using assms(10) by (simp add: t map_add_def)
  moreover obtain e where "SplitHostPort (JoinHostPort ?h (go_itoa port)) = Inl (GoErr e)"
    using SplitHostPort_bracketed [OF assms(3,4)] by blast
  ultimately have "GetNetAddressMapping f h p n \<sigma>' = (Inl (GoErr e), \<sigma>')"
    using assms(8,9)
    by (simp add: GetNetAddressMapping_def broker_address_def abind_def agets_def Let_def advertised_same c)
  with first show ?thesis by blast
qed

definition ipv6_servers :: Config where
  "ipv6_servers = sample_servers\<lparr>Proxy_DynamicAdvertisedListener := ''[::1]''\<rparr>"

lemma bracketed_host_works_once_witness:
  "\<exists>\<sigma>' e. GetNetAddressMapping (listener_fields ipv6_servers) ''b2'' 92 2 (started_listeners ipv6_servers)
      = (Inr (''[::1]'', 41), \<sigma>')
    \<and> GetNetAddressMapping (listener_fields ipv6_servers) ''b2'' 92 2 \<sigma>' = (Inl (GoErr e), \<sigma>')"
proof -
  have "map_of (ls_table (started_listeners ipv6_servers)) (broker_address ''b2'' 92) = None"
    "lf_dynamicAdvertisedListener (listener_fields ipv6_servers) \<noteq> []"
    "lf_template (listener_fields ipv6_servers) (lf_dynamicAdvertisedListener (listener_fields ipv6_servers)) 2
      = Inr (CHR ''['' # ''::1'' @ '']'')"
    "\<not> lf_deterministicListeners (listener_fields ipv6_servers)" "\<not> lf_disableDynamicListeners (listener_fields ipv6_servers)"
    "lf_dynamicSequentialMinPort (listener_fields ipv6_servers) = 0"
    "fst (lf_listenFunc (listener_fields ipv6_servers)
        (JoinHostPort (lf_defaultListenerIP (listener_fields ipv6_servers)) (go_itoa 0)) (ls_ext (started_listeners ipv6_servers))) = Inr 41"
    by code_simp+
  from bracketed_host_works_once [OF this(2,3) _ _ this(4,5,6) _ _ this(1,7)] show ?thesis by simp
qed

end
