(* ===== verification/Dialing.thy ===== *)
theory Dialing
  imports Config ProcessorFacts
begin

section \<open>Connections to the brokers\<close>

text \<open>
  \<open>proxy/dial.go\<close>, \<open>proxy/tcp.go\<close> and the parts of \<open>proxy/client.go\<close> that connect to a broker and
  authenticate there.  The state \<open>up\<close> has the clock, the state of the outside, the number of
  connections that were opened and, in order, those that were closed.  A connection is a value
  that the steps hand on; closing it is recorded, its error is ignored as in the source.

  \<open>net.Dialer\<close> and \<open>crypto/tls\<close> are the outside: \<open>ne_net\<close> dials, \<open>ne_tlsConfig\<close> makes the function that
  gives the current TLS configuration (its server name; nothing for a nil configuration),
  \<open>ne_tlsClient\<close> wraps a connection for a server name and \<open>ne_handshake\<close> runs the handshake on it.
\<close>

record 's up =
  up_clock :: clock
  up_opened :: nat
  up_closed :: "conn list"
  up_world :: 's

type_synonym 's Dialer = "string \<Rightarrow> ('s up, conn) action"
type_synonym 's TLSConfigFunc = "('s, string option) action"

record 's net_env =
  ne_net :: "duration \<Rightarrow> duration \<Rightarrow> string \<Rightarrow> ('s, conn) action"
  ne_tlsConfig :: "Config \<Rightarrow> ('s, 's TLSConfigFunc) action"
  ne_tlsClient :: "string \<Rightarrow> conn \<Rightarrow> conn"
  ne_handshake :: "(conn, unit) action"

definition up_outside :: "('s, 'a) action \<Rightarrow> ('s up, 'a) action" where
  "up_outside = zoom up_world (\<lambda>x. up_world_update (\<lambda>_. x))"

definition up_now :: "('s up, int) action" where
  "up_now = zoom up_clock (\<lambda>c. up_clock_update (\<lambda>_. c)) clock_now"

definition up_close :: "conn \<Rightarrow> ('s up, unit) action" where
  "up_close c = amod (\<lambda>\<sigma>. \<sigma>\<lparr>up_closed := up_closed \<sigma> @ [c]\<rparr>)"

text \<open>
  \<open>if err := conn.f(); err != nil { _ = conn.Close(); return err }\<close>, for the result and the
  connection that the call leaves.  A panic unwinds without the close.
\<close>

definition close_on_error :: "conn \<Rightarrow> gofail \<Rightarrow> ('s up, 'b) action" where
  "close_on_error c f =
     (case f of
        GoErr e \<Rightarrow> abind (up_close c) (\<lambda>_. aerr e)
      | GoPanic msg \<Rightarrow> alift (Inl (GoPanic msg)))"

definition or_close :: "'a result \<times> conn \<Rightarrow> ('a \<Rightarrow> conn \<Rightarrow> ('s up, 'b) action) \<Rightarrow> ('s up, 'b) action" where
  "or_close x k = (case x of (Inl f, c) \<Rightarrow> close_on_error c f | (Inr a, c) \<Rightarrow> k a c)"

subsection \<open>Dialers\<close>

definition directDialer_Dial :: "'s net_env \<Rightarrow> duration \<Rightarrow> duration \<Rightarrow> 's Dialer" where
  "directDialer_Dial env dialTimeout keepAlive addr =
     abind (up_outside (ne_net env dialTimeout keepAlive addr)) (\<lambda>c.
     abind (amod (up_opened_update Suc)) (\<lambda>_. aret c))"

definition tlsDialer_Dial :: "'s net_env \<Rightarrow> duration \<Rightarrow> 's Dialer \<Rightarrow> 's TLSConfigFunc \<Rightarrow> 's Dialer" where
  "tlsDialer_Dial env timeout rawDialer configFunc addr =
     abind (up_outside configFunc) (\<lambda>cfg.
     case cfg of
       None \<Rightarrow> aerr (ErrNew ''nil tls config'')
     | Some serverName \<Rightarrow>
         abind (rawDialer addr) (\<lambda>rawConn.
         case net_SplitHostPort addr of
           Inl e \<Rightarrow> close_on_error rawConn e
         | Inr (host, _) \<Rightarrow>
             (let conn = ne_tlsClient env (if serverName = [] then host else serverName) rawConn in
              abind up_now (\<lambda>now.
              or_close (SetDeadline (time_add now timeout) conn) (\<lambda>_ conn.
              or_close (ne_handshake env conn) (\<lambda>_ conn.
              or_close (SetDeadline None conn) (\<lambda>_ conn. aret conn)))))))"

definition newDialer :: "'s net_env \<Rightarrow> Config \<Rightarrow> 's TLSConfigFunc option \<Rightarrow> ('s up, 's Dialer) action" where
  "newDialer env c tlsConfigFunc =
     (let rawDialer = directDialer_Dial env (Kafka_DialTimeout c) (Kafka_KeepAlive c) in
      if Kafka_TLS_Enable c then
        (case tlsConfigFunc of
           None \<Rightarrow> aerr (ErrNew ''tlsConfigFunc must not be nil'')
         | Some configFunc \<Rightarrow>
             abind (up_outside configFunc) (\<lambda>cfg.
             if cfg = None then aerr (ErrNew ''tlsConfigFunc must not be nil'')
             else aret (tlsDialer_Dial env (Kafka_DialTimeout c) rawDialer configFunc)))
      else aret rawDialer)"

subsection \<open>Options of TCP connections\<close>

datatype tcp_call = SetKeepAlive bool | SetKeepAlivePeriod duration | SetReadBuffer int | SetWriteBuffer int

record TCPConnOptions =
  to_KeepAlive :: duration
  to_ReadBufferSize :: int
  to_WriteBufferSize :: int

text \<open>The calls that are made in this order until one fails; \<open>tcp\<close> stands for the connection.\<close>

fun tcp_calls :: "(tcp_call \<Rightarrow> ('s, unit) action) \<Rightarrow> tcp_call list \<Rightarrow> ('s, unit) action" where
  "tcp_calls tcp [] = aret ()"
| "tcp_calls tcp (c # cs) = abind (tcp c) (\<lambda>_. tcp_calls tcp cs)"

definition setTCPConnOptions :: "TCPConnOptions \<Rightarrow> (tcp_call \<Rightarrow> ('s, unit) action) \<Rightarrow> ('s, unit) action" where
  "setTCPConnOptions opts tcp = tcp_calls tcp
     ((if 0 < sint (to_KeepAlive opts) then [SetKeepAlive True, SetKeepAlivePeriod (to_KeepAlive opts)] else [])
      @ (if 0 < to_ReadBufferSize opts then [SetReadBuffer (to_ReadBufferSize opts)] else [])
      @ (if 0 < to_WriteBufferSize opts then [SetWriteBuffer (to_WriteBufferSize opts)] else []))"

subsection \<open>Authentication\<close>

text \<open>\<open>sendAndReceiveSASLAuth\<close> works on the connection, the clock and the outside.\<close>

definition on_wire :: "conn \<Rightarrow> ('s wire, 'a) action \<Rightarrow> 's up \<Rightarrow> ('a result \<times> conn) \<times> 's up" where
  "on_wire c m \<sigma> =
     (case m \<lparr>w_conn = c, w_clock = up_clock \<sigma>, w_ext = up_world \<sigma>\<rparr> of
        (r, w) \<Rightarrow> ((r, w_conn w), \<sigma>\<lparr>up_clock := w_clock w, up_world := w_ext w\<rparr>))"

definition auth_broker :: "bool \<Rightarrow> 's SASLAuthByProxy \<Rightarrow> conn \<Rightarrow> string \<Rightarrow> ('s up, conn \<times> 64 word) action" where
  "auth_broker enabled sasl conn brokerAddress \<sigma> =
     (if \<not> enabled then aret (conn, 0) \<sigma>
      else
        (case on_wire conn (sa_sendAndReceiveSASLAuth sasl brokerAddress) \<sigma> of
           (x, \<sigma>') \<Rightarrow> or_close x (\<lambda>sessionLifetimeMs conn.
             or_close (SetDeadline None conn) (\<lambda>_ conn. aret (conn, sessionLifetimeMs))) \<sigma>'))"

definition DialAndAuth :: "'s Dialer \<Rightarrow> bool \<Rightarrow> 's SASLAuthByProxy \<Rightarrow> string \<Rightarrow> ('s up, conn \<times> 64 word) action" where
  "DialAndAuth dialer enabled sasl brokerAddress =
     abind (dialer brokerAddress) (\<lambda>conn.
     or_close (SetDeadline None conn) (\<lambda>_ conn. auth_broker enabled sasl conn brokerAddress))"

subsection \<open>No connection is left behind\<close>

definition unclosed :: "'s up \<Rightarrow> int" where
  "unclosed \<sigma> = int (up_opened \<sigma>) - int (length (up_closed \<sigma>))"

text \<open>
  \<open>balanced k m\<close>: \<open>m\<close>, to which the caller hands \<open>k\<close> open connections, returns with one open
  connection, or fails with an error and has closed them all.
\<close>

definition balanced :: "int \<Rightarrow> ('s up, 'a) action \<Rightarrow> bool" where
  "balanced k m \<longleftrightarrow> (\<forall>\<sigma>. case m \<sigma> of
      (Inr _, \<sigma>') \<Rightarrow> unclosed \<sigma>' = unclosed \<sigma> - k + 1
    | (Inl (GoErr _), \<sigma>') \<Rightarrow> unclosed \<sigma>' = unclosed \<sigma> - k
    | (Inl (GoPanic _), \<sigma>') \<Rightarrow> True)"

named_theorems balanced_intros "steps that leave no connection open on an error"

lemma balancedI:
  assumes "\<And>\<sigma> a \<sigma>'. m \<sigma> = (Inr a, \<sigma>') \<Longrightarrow> unclosed \<sigma>' = unclosed \<sigma> - k + 1"
    and "\<And>\<sigma> e \<sigma>'. m \<sigma> = (Inl (GoErr e), \<sigma>') \<Longrightarrow> unclosed \<sigma>' = unclosed \<sigma> - k"
  shows "balanced k m"
  using assms by (auto simp: balanced_def split: prod.splits sum.splits gofail.splits)

lemma balancedD:
  assumes "balanced k m"
  shows "m \<sigma> = (Inr a, \<sigma>') \<Longrightarrow> unclosed \<sigma>' = unclosed \<sigma> - k + 1"
    "m \<sigma> = (Inl (GoErr e), \<sigma>') \<Longrightarrow> unclosed \<sigma>' = unclosed \<sigma> - k"
  using assms [unfolded balanced_def, THEN spec [of _ \<sigma>]] by auto

lemma balanced_ret [balanced_intros]: "balanced 1 (aret a)"
  by (rule balancedI) auto

lemma balanced_err [balanced_intros]: "balanced 0 (aerr e)"
  by (rule balancedI) auto

lemma balanced_close_on_error [balanced_intros]: "balanced 1 (close_on_error c f)"
  by (rule balancedI; cases f)
    (auto simp: close_on_error_def up_close_def unclosed_def abind_Inr_conv abind_Inl_conv)

lemma balanced_or_close [balanced_intros]:
  "(\<And>a c. balanced 1 (k a c)) \<Longrightarrow> balanced 1 (or_close x k)"
  by (auto simp: or_close_def intro: balanced_intros split: prod.splits sum.splits)

text \<open>A step that opens and closes nothing, and one that opens a connection.\<close>

lemma balanced_after_keeps [balanced_intros]:
  assumes "keeps unclosed m" "\<And>a. balanced 0 (f a)"
  shows "balanced 0 (abind m f)"
  by (rule balancedI) (auto simp: abind_Inr_conv abind_Inl_conv dest!: keepsD [OF assms(1)] balancedD [OF assms(2)])

lemma balanced_after_open [balanced_intros]:
  assumes "balanced 0 m" "\<And>a. balanced 1 (f a)"
  shows "balanced 0 (abind m f)"
  by (rule balancedI) (auto simp: abind_Inr_conv abind_Inl_conv dest!: balancedD [OF assms(1)] balancedD [OF assms(2)])

lemma balanced_keeps_1:
  assumes "keeps unclosed m" "\<And>a. balanced 1 (f a)" "\<And>\<sigma> e \<sigma>'. m \<sigma> \<noteq> (Inl e, \<sigma>')"
  shows "balanced 1 (abind m f)"
  by (rule balancedI) (use assms(3) in \<open>auto simp: abind_Inr_conv abind_Inl_conv dest!: keepsD [OF assms(1)] balancedD [OF assms(2)]\<close>)

lemma outside_keeps: "keeps unclosed (up_outside m)" "keeps unclosed up_now"
  by (auto simp: keeps_def up_outside_def up_now_def zoom_def unclosed_def split: prod.splits)

lemma up_now_returns: "up_now \<sigma> \<noteq> (Inl e, \<sigma>')"
  by (simp add: up_now_def zoom_def clock_now_def split: prod.splits)

lemma directDialer_balanced: "balanced 0 (directDialer_Dial env t k addr)"
  unfolding directDialer_Dial_def
  by (rule balanced_after_keeps [OF outside_keeps(1)], rule balancedI)
    (auto simp: abind_Inr_conv abind_Inl_conv unclosed_def)

lemma tlsDialer_balanced:
  assumes "\<And>a. balanced 0 (rawDialer a)"
  shows "balanced 0 (tlsDialer_Dial env t rawDialer cf addr)"
  unfolding tlsDialer_Dial_def Let_def
  by (rule balanced_after_keeps [OF outside_keeps(1)])
    (auto intro!: balanced_after_open [OF assms] balanced_keeps_1 [OF outside_keeps(2)] up_now_returns
      balanced_intros split: option.split sum.split)

lemma newDialer_balanced:
  assumes "newDialer env c tlsConfigFunc \<sigma> = (Inr dialer, \<sigma>')"
  shows "balanced 0 (dialer addr)"
  using assms
  by (auto simp: newDialer_def Let_def abind_Inr_conv directDialer_balanced
      intro!: tlsDialer_balanced split: if_split_asm option.split_asm)

lemma auth_balanced: "balanced 1 (auth_broker enabled sasl conn a)"
proof (rule balancedI)
  fix \<sigma> :: "'a up" and \<sigma>' b
  obtain x \<sigma>1 where x: "on_wire conn (sa_sendAndReceiveSASLAuth sasl a) \<sigma> = (x, \<sigma>1)"
    by (metis surj_pair)
  then have 1: "unclosed \<sigma>1 = unclosed \<sigma>" by (auto simp: on_wire_def unclosed_def split: prod.splits)
  let ?m = "or_close x (\<lambda>ms conn. or_close (SetDeadline None conn) (\<lambda>_ conn. aret (conn, ms)))"
  have 2: "balanced 1 ?m" by (intro balanced_intros)
  note m = auth_broker_def [of enabled sasl conn a \<sigma>, unfolded x prod.case]
  show "unclosed \<sigma>' = unclosed \<sigma> - 1 + 1" if "auth_broker enabled sasl conn a \<sigma> = (Inr b, \<sigma>')"
    using that balancedD(1) [OF 2, of \<sigma>1] 1 unfolding m by (auto split: if_split_asm)
  show "unclosed \<sigma>' = unclosed \<sigma> - 1" if "auth_broker enabled sasl conn a \<sigma> = (Inl (GoErr e), \<sigma>')" for e
    using that balancedD(2) [OF 2, of \<sigma>1] 1 unfolding m by (auto split: if_split_asm)
qed

lemma DialAndAuth_balanced:
  assumes "\<And>a. balanced 0 (dialer a)"
  shows "balanced 0 (DialAndAuth dialer enabled sasl addr)"
  unfolding DialAndAuth_def
  by (intro balanced_after_open [OF assms] balanced_or_close auth_balanced)

end
