(* ===== verification/Loops.thy ===== *)
theory Loops
  imports Teardown
begin

section \<open>The loops to their end\<close>

text \<open>
  \<open>requestsLoop\<close> and \<open>responsesLoop\<close> of \<open>proxy/processor.go\<close> as the loops they are: turns until one of
  them ends the loop.  That they return is a theorem: a turn that goes on has taken something
  off the connection it reads from, so that the loops end when the connection does.  The same
  measure bounds every interleaving of turns of both loops.
\<close>

partial_function (option) requestsLoop ::
  "'s processor \<Rightarrow> 's pstate \<Rightarrow> (((bool \<times> gofail) + unit) \<times> 's pstate) option" where
  "requestsLoop p \<sigma> =
     (case requestsLoop_turn p \<sigma> of (r, \<sigma>') \<Rightarrow>
        (case r of
           Inl f \<Rightarrow> Some (Inl f, \<sigma>')
         | Inr goes_on \<Rightarrow> if goes_on then requestsLoop p \<sigma>' else Some (Inr (), \<sigma>')))"

partial_function (option) responsesLoop ::
  "'s processor \<Rightarrow> 's pstate \<Rightarrow> (((bool \<times> gofail) + unit) \<times> 's pstate) option" where
  "responsesLoop p \<sigma> =
     (case responsesLoop_turn p \<sigma> of (r, \<sigma>') \<Rightarrow>
        (case r of Inl f \<Rightarrow> Some (Inl f, \<sigma>') | Inr _ \<Rightarrow> responsesLoop p \<sigma>'))"

definition RequestsLoop :: "'s processor \<Rightarrow> 's pstate \<Rightarrow> (((bool \<times> gofail) + unit) \<times> 's pstate) option" where
  "RequestsLoop p \<sigma> =
     (case RequestsLoop_start \<sigma> of
        (Inl f, \<sigma>') \<Rightarrow> Some (Inl f, \<sigma>')
      | (Inr _, \<sigma>') \<Rightarrow> requestsLoop p \<sigma>')"

definition ResponsesLoop :: "'s processor \<Rightarrow> 's pstate \<Rightarrow> (((bool \<times> gofail) + unit) \<times> 's pstate) option" where
  "ResponsesLoop p \<sigma> = responsesLoop p \<sigma>"

subsection \<open>What is still to come\<close>

definition client_left :: "'s pstate \<Rightarrow> nat" where
  "client_left \<sigma> = src_size (cn_in (ps_client \<sigma>))"

definition broker_left :: "'s pstate \<Rightarrow> nat" where
  "broker_left \<sigma> = src_size (cn_in (ps_broker \<sigma>))"

text \<open>\<open>lowers f m\<close>: \<open>m\<close> does not raise \<open>f\<close> of the state, whatever its result.\<close>

definition lowers :: "('s \<Rightarrow> nat) \<Rightarrow> ('s \<Rightarrow> 'r \<times> 's) \<Rightarrow> bool" where
  "lowers f m \<longleftrightarrow> (\<forall>\<sigma>. f (snd (m \<sigma>)) \<le> f \<sigma>)"

named_theorems lowers_intros "steps that do not raise a measure"

lemma lowersI: "(\<And>\<sigma> r \<sigma>'. m \<sigma> = (r, \<sigma>') \<Longrightarrow> f \<sigma>' \<le> f \<sigma>) \<Longrightarrow> lowers f m"
  unfolding lowers_def by (metis surj_pair snd_conv)

lemma lowersD: "lowers f m \<Longrightarrow> m \<sigma> = (r, \<sigma>') \<Longrightarrow> f \<sigma>' \<le> f \<sigma>"
  unfolding lowers_def by (metis snd_conv)

lemma lowers_keeps: "keeps f m \<Longrightarrow> lowers f m"
  by (simp add: keeps_def lowers_def)

lemma lowers_basic [lowers_intros]:
  "lowers f (aret a)" "lowers f (aerr e)" "lowers f (alift q)" "lowers f (agets g)"
  by (auto intro!: lowers_keeps keeps_basic)

lemma lowers_abind [lowers_intros]:
  "lowers f m \<Longrightarrow> (\<And>a. lowers f (g a)) \<Longrightarrow> lowers f (abind m g)"
  by (rule lowersI) (auto simp: abind_def split: prod.splits sum.splits dest!: lowersD, metis lowersD order_trans)

lemma lowers_flag [lowers_intros]: "lowers f m \<Longrightarrow> lowers f (flag b m)"
  by (rule lowersI) (auto simp: flag_def split: prod.splits sum.splits dest: lowersD)

lemma lowers_atry [lowers_intros]: "lowers f m \<Longrightarrow> lowers f (atry m)"
  by (rule lowersI) (auto simp: atry_def split: prod.splits dest: lowersD)

lemma lowers_if [lowers_intros]: "lowers f m \<Longrightarrow> lowers f n \<Longrightarrow> lowers f (if b then m else n)"
  by simp

lemma lowers_option [lowers_intros]:
  "lowers f m \<Longrightarrow> (\<And>a. lowers f (n a)) \<Longrightarrow> lowers f (case x of None \<Rightarrow> m | Some a \<Rightarrow> n a)"
  by (cases x) auto

text \<open>The steps that read nothing.\<close>

lemma left_kept [lowers_intros]:
  fixes m :: "conn \<Rightarrow> 'r \<times> conn" and w :: "sink \<Rightarrow> 'q \<times> sink"
  shows "lowers client_left (on_broker m)" "lowers broker_left (on_client m)"
    "lowers client_left now" "lowers broker_left now"
    "lowers client_left (on_ext x)" "lowers broker_left (on_ext x)"
    "lowers client_left (on_open y)" "lowers broker_left (on_open y)"
    "lowers client_left (on_nextRequest z)" "lowers broker_left (on_nextRequest z)"
    "lowers client_left (on_nextResponse u)" "lowers broker_left (on_nextResponse u)"
    "lowers client_left (amod (ps_auth_update a))" "lowers broker_left (amod (ps_auth_update a))"
    "lowers client_left (broker_read v)" "lowers broker_left (client_read v)"
    "lowers client_left (copy_to_client c)" "lowers broker_left (copy_to_broker c)"
  by (rule lowers_keeps, simp add: zooms keeps_def zoom_def amod_def client_left_def broker_left_def split: prod.splits)+

lemma client_steps [lowers_intros]:
  "lowers client_left (on_client (SetReadDeadline t))" "lowers client_left (on_client (SetWriteDeadline t))"
  "lowers client_left (on_client (SetDeadline t))" "lowers client_left (on_client (conn_Write bs))"
  by (rule lowersI; auto simp: zooms conn_Write_def zoom_Inr_conv client_left_def
      dest!: conn_deadline_traffic [rotated, where t = t])+

lemma broker_steps [lowers_intros]:
  "lowers broker_left (on_broker (SetReadDeadline t))" "lowers broker_left (on_broker (SetWriteDeadline t))"
  "lowers broker_left (on_broker (conn_Write bs))"
  by (rule lowersI; auto simp: zooms conn_Write_def zoom_Inr_conv broker_left_def
      dest!: conn_deadline_traffic [rotated, where t = t])+

text \<open>The steps that read.\<close>

lemma reads_lower:
  "less_to_come.moves m \<Longrightarrow> lowers client_left (client_read m)"
  "less_to_come.moves m \<Longrightarrow> lowers broker_left (broker_read m)"
  by (auto simp: lowers_def less_to_come.moves_def zooms zoom_def client_left_def broker_left_def split: prod.splits)
    (metis snd_conv)+

lemma copies_lower [lowers_intros]:
  "lowers client_left (copy_to_broker (myCopyN k b))" "lowers broker_left (copy_to_client (myCopyN k b))"
  by (rule lowersI; auto simp: zooms zoom_Inr_conv client_left_def broker_left_def dest!: less_to_come.myCopyN_R)+

lemma read_full_lower [lowers_intros]:
  "lowers client_left (client_read (read_full n))" "lowers broker_left (broker_read (read_full n))"
  "lowers broker_left (broker_read (MaybeRead h))"
  by (rule reads_lower less_to_come.moves_reads less_to_come.moves_headers)+

lemma mustReply_lower [lowers_intros]: "lowers client_left (client_read (mustReply p rkv))"
  unfolding mustReply_def
  by (rule reads_lower) (auto intro!: less_to_come.moves_intros less_to_come.moves_headers split: prod.splits)

subsection \<open>A turn that goes on takes something\<close>

lemmas handler_defs = handleKeyVersion_def forwardRequest_def onReadTimeout_def runReauth_def
  enqueueReauthResponse_def enqueueReauthMarker_def sendRequestKeyVersion_def putNextHandlers_def
  putNextRequestHandler_def getNextRequestHandler_def getNextResponseHandler_def
  receiveRequestKeyVersion_def forwardResponse_def rewriteResponse_def copyResponse_def
  consumeReauthResponse_def completeReauthHandshake_def

lemma handleKeyVersion_lower: "lowers client_left (handleKeyVersion p kv)"
  unfolding handler_defs by (intro lowers_intros)

lemma runReauth_lower: "lowers client_left (runReauth p)"
  unfolding runReauth_def handler_defs
  by (auto intro!: lowers_intros split: option.splits prod.splits)

lemma onReadTimeout_lower: "lowers client_left (onReadTimeout p)"
  unfolding onReadTimeout_def putNextRequestHandler_def
  by (auto intro!: lowers_intros runReauth_lower split: option.splits)

lemma client_read_full_progress:
  assumes "client_read (read_full n) \<sigma> = (r, \<sigma>')" "0 < n"
  shows "client_left \<sigma>' < client_left \<sigma> \<or> r = Inl (GoErr IoEOF)"
  using assms by (auto simp: zooms zoom_Inr_conv client_left_def dest: read_full_progress)

lemma broker_read_full_progress:
  assumes "broker_read (read_full n) \<sigma> = (r, \<sigma>')" "0 < n"
  shows "broker_left \<sigma>' < broker_left \<sigma> \<or> r = Inl (GoErr IoEOF)"
  using assms by (auto simp: zooms zoom_Inr_conv broker_left_def dest: read_full_progress)

lemma DefaultRequestHandler_progress:
  assumes "DefaultRequestHandler_handleRequest p \<sigma> = (Inr u, \<sigma>')"
  shows "client_left \<sigma>' < client_left \<sigma>"
proof -
  from assms obtain t \<sigma>1 \<sigma>2 r \<sigma>3 where pre: "on_client (SetReadDeadline t) \<sigma> = (Inr (), \<sigma>1)"
      "on_broker (SetWriteDeadline None) \<sigma>1 = (Inr (), \<sigma>2)"
    and rd: "client_read (read_full 8) \<sigma>2 = (r, \<sigma>3)"
    and rest: "(case r of Inr kv \<Rightarrow> handleKeyVersion p kv
      | Inl (GoErr err) \<Rightarrow> if isReadDeadlineTimeout (Some err) then onReadTimeout p else alift (Inl (True, GoErr err))
      | Inl (GoPanic msg) \<Rightarrow> alift (Inl (True, GoPanic msg))) \<sigma>3 = (Inr u, \<sigma>')"
    by (auto simp: DefaultRequestHandler_handleRequest_def abind_Inr_conv flag_Inr_conv)
  have le: "client_left \<sigma>2 \<le> client_left \<sigma>"
    using lowersD [OF client_steps(1) pre(1)] lowersD [OF left_kept(1) pre(2)] by simp
  have "r \<noteq> Inl (GoErr IoEOF)"
    using rest by (auto simp: isReadDeadlineTimeout_def)
  then have lt: "client_left \<sigma>3 < client_left \<sigma>2" using client_read_full_progress [OF rd] by simp
  have "client_left \<sigma>' \<le> client_left \<sigma>3"
    using rest lowersD [OF handleKeyVersion_lower] lowersD [OF onReadTimeout_lower]
    by (auto split: sum.splits gofail.splits if_splits)
  with le lt show ?thesis by linarith
qed

lemma SaslAuthV0RequestHandler_progress:
  assumes "SaslAuthV0RequestHandler_handleRequest p \<sigma> = (Inr u, \<sigma>')"
  shows "client_left \<sigma>' < client_left \<sigma>"
proof -
  let ?rest = "\<lambda>sizeBuf. if sint (get_be32 sizeBuf) > MaxRequestSize
     then flag True (aerr (PacketDecodingError (''auth message of length '' @
            go_itoa (int (unat (get_be32 sizeBuf))) @ '' too large'')))
     else abind (flag False (on_broker (conn_Write sizeBuf))) (\<lambda>_.
         copy_to_broker (myCopyN (int (unat (get_be32 sizeBuf))) (pr_requestBufferSize p)))"
  from assms obtain t \<sigma>0 t1 \<sigma>1 t2 \<sigma>2 b \<sigma>3 \<sigma>4 where pre: "now \<sigma> = ((Inr t :: (bool \<times> gofail) + int), \<sigma>0)"
      "on_broker (SetWriteDeadline t1) \<sigma>0 = (Inr (), \<sigma>1)" "on_client (SetReadDeadline t2) \<sigma>1 = (Inr (), \<sigma>2)"
    and rd: "client_read (read_full 4) \<sigma>2 = (Inr b, \<sigma>3)"
    and rest: "?rest b \<sigma>3 = (Inr (), \<sigma>4)"
    and put: "putNextHandlers p DefaultRequestHandler DefaultResponseHandler \<sigma>4 = (Inr u, \<sigma>')"
    by (auto simp: SaslAuthV0RequestHandler_handleRequest_def copySaslAuthRequest_def abind_Inr_conv flag_Inr_conv)
  have "client_left \<sigma>2 \<le> client_left \<sigma>"
    using lowersD [OF left_kept(3) pre(1)] lowersD [OF left_kept(1) pre(2)] lowersD [OF client_steps(1) pre(3)] by simp
  moreover have "client_left \<sigma>3 < client_left \<sigma>2" using client_read_full_progress [OF rd] by simp
  moreover have "lowers client_left (?rest b)" by (intro lowers_intros)
  then have "client_left \<sigma>4 \<le> client_left \<sigma>3" using rest by (rule lowersD)
  moreover have "lowers client_left (putNextHandlers p DefaultRequestHandler DefaultResponseHandler)"
    unfolding handler_defs by (intro lowers_intros)
  then have "client_left \<sigma>' \<le> client_left \<sigma>4" using put by (rule lowersD)
  ultimately show ?thesis by linarith
qed

lemma response_steps_lower:
  "lowers broker_left (forwardResponse p hb rkv h)" "lowers broker_left (consumeReauthResponse p h)"
  "lowers broker_left receiveRequestKeyVersion"
  unfolding handler_defs Let_def by (intro lowers_intros)+

lemma DefaultResponseHandler_progress:
  assumes "DefaultResponseHandler_handleResponse p \<sigma> = (Inr u, \<sigma>')"
  shows "broker_left \<sigma>' < broker_left \<sigma>"
proof -
  let ?rest = "\<lambda>hb. abind (flag True (alift (Decode (Some hb) ResponseHeader_decode
         \<lparr>rh_Length = 0, rh_CorrelationID = 0\<rparr>))) (\<lambda>h.
     abind (flag True receiveRequestKeyVersion) (\<lambda>rkv.
     if isProxyReauthResponse rkv h then consumeReauthResponse p h else forwardResponse p hb rkv h))"
  from assms obtain \<sigma>1 \<sigma>2 b \<sigma>3 where pre: "on_broker (SetReadDeadline None) \<sigma> = (Inr (), \<sigma>1)"
      "on_client (SetWriteDeadline None) \<sigma>1 = (Inr (), \<sigma>2)"
    and rd: "broker_read (read_full 8) \<sigma>2 = (Inr b, \<sigma>3)" and rest: "?rest b \<sigma>3 = (Inr u, \<sigma>')"
    unfolding DefaultResponseHandler_handleResponse_def
    by (subst (asm) abind_Inr_conv) (auto simp: abind_Inr_conv [of "flag True (on_client _)"]
        abind_Inr_conv [of "flag True (broker_read _)"] flag_Inr_conv)
  have "broker_left \<sigma>2 \<le> broker_left \<sigma>"
    using lowersD [OF broker_steps(1) pre(1)] lowersD [OF left_kept(2) pre(2)] by simp
  moreover have "broker_left \<sigma>3 < broker_left \<sigma>2" using broker_read_full_progress [OF rd] by simp
  moreover have "lowers broker_left (?rest b)" by (intro lowers_intros response_steps_lower)
  then have "broker_left \<sigma>' \<le> broker_left \<sigma>3" using rest by (rule lowersD)
  ultimately show ?thesis by linarith
qed

lemma SaslAuthV0ResponseHandler_progress:
  assumes "SaslAuthV0ResponseHandler_handleResponse p \<sigma> = (Inr u, \<sigma>')"
  shows "broker_left \<sigma>' < broker_left \<sigma>"
proof -
  from assms obtain t \<sigma>0 t1 \<sigma>1 t2 \<sigma>2 b \<sigma>3 where pre: "now \<sigma> = ((Inr t :: (bool \<times> gofail) + int), \<sigma>0)"
      "on_client (SetWriteDeadline t1) \<sigma>0 = (Inr (), \<sigma>1)" "on_broker (SetReadDeadline t2) \<sigma>1 = (Inr (), \<sigma>2)"
    and rd: "broker_read (read_full 4) \<sigma>2 = (Inr b, \<sigma>3)"
    and rest: "on_client (conn_Write b) \<sigma>3 = (Inr u, \<sigma>')"
    by (auto simp: SaslAuthV0ResponseHandler_handleResponse_def copySaslAuthResponse_def abind_Inr_conv flag_Inr_conv)
  show ?thesis
    using lowersD [OF left_kept(4) pre(1)] lowersD [OF left_kept(2) pre(2)] lowersD [OF broker_steps(1) pre(3)]
      broker_read_full_progress [OF rd] lowersD [OF left_kept(2) rest] by simp
qed

lemma requestsLoop_turn_progress:
  assumes "requestsLoop_turn p \<sigma> = (Inr True, \<sigma>')"
  shows "client_left \<sigma>' < client_left \<sigma>"
proof -
  let ?expired = "\<lambda>a. case a of None \<Rightarrow> aret False | Some a \<Rightarrow> abind now (\<lambda>t. aret (InFlightExpired a t))"
  from assms obtain b \<sigma>1 where e: "(?expired (ps_auth \<sigma>) :: ('a, bool) handling) \<sigma> = (Inr b, \<sigma>1)"
    and rest: "(if b then flag False (aerr wedged) else abind (atry getNextRequestHandler) (\<lambda>h.
       case h of Inl _ \<Rightarrow> aret False | Inr h \<Rightarrow> abind (handleRequest p h) (\<lambda>_. aret True))) \<sigma>1 = (Inr True, \<sigma>')"
    unfolding requestsLoop_turn_def by (auto simp only: abind_Inr_conv action_conv_simps)
  then obtain hr \<sigma>2 where g: "getNextRequestHandler \<sigma>1 = (hr, \<sigma>2)"
    and h: "(case hr of Inl _ \<Rightarrow> aret False | Inr h \<Rightarrow> abind (handleRequest p h) (\<lambda>_. aret True)) \<sigma>2 = (Inr True, \<sigma>')"
    by (auto simp: abind_Inr_conv flag_Inr_conv split: if_split_asm)
  then obtain h u where run: "handleRequest p h \<sigma>2 = (Inr u, \<sigma>')"
    by (cases hr) (auto simp: abind_Inr_conv)
  have "lowers client_left (?expired (ps_auth \<sigma>) :: ('a, bool) handling)" by (intro lowers_intros)
  from lowersD [OF this e] have "client_left \<sigma>1 \<le> client_left \<sigma>" .
  moreover have "client_left \<sigma>2 \<le> client_left \<sigma>1"
    using g unfolding getNextRequestHandler_def by (rule lowersD [OF left_kept(9)])
  moreover have "client_left \<sigma>' < client_left \<sigma>2"
    using run DefaultRequestHandler_progress SaslAuthV0RequestHandler_progress by (cases h) auto
  ultimately show ?thesis by linarith
qed

lemma responsesLoop_turn_progress:
  assumes "responsesLoop_turn p \<sigma> = (Inr u, \<sigma>')"
  shows "broker_left \<sigma>' < broker_left \<sigma>"
proof -
  from assms obtain h \<sigma>1 where g: "getNextResponseHandler \<sigma> = (Inr h, \<sigma>1)" and run: "handleResponse p h \<sigma>1 = (Inr u, \<sigma>')"
    by (auto simp: responsesLoop_turn_def abind_Inr_conv flag_Inr_conv)
  have "broker_left \<sigma>1 \<le> broker_left \<sigma>"
    using g unfolding getNextResponseHandler_def by (rule lowersD [OF left_kept(12)])
  moreover have "broker_left \<sigma>' < broker_left \<sigma>1"
    using run DefaultResponseHandler_progress SaslAuthV0ResponseHandler_progress by (cases h) auto
  ultimately show ?thesis by linarith
qed

subsection \<open>The loops return\<close>

lemma requestsLoop_returns: "\<exists>r. requestsLoop p \<sigma> = Some r"
proof (induction "client_left \<sigma>" arbitrary: \<sigma> rule: less_induct)
  case less
  obtain r \<sigma>' where t: "requestsLoop_turn p \<sigma> = (r, \<sigma>')" by force
  show ?case
  proof (cases "r = Inr True")
    case True
    with less.hyps [OF requestsLoop_turn_progress] t show ?thesis
      by (subst requestsLoop.simps) simp
  next
    case False
    with t show ?thesis by (subst requestsLoop.simps) (auto split: sum.splits)
  qed
qed

lemma responsesLoop_returns: "\<exists>r. responsesLoop p \<sigma> = Some r"
proof (induction "broker_left \<sigma>" arbitrary: \<sigma> rule: less_induct)
  case less
  obtain r \<sigma>' where t: "responsesLoop_turn p \<sigma> = (r, \<sigma>')" by force
  show ?case
  proof (cases r)
    case (Inr u)
    with less.hyps [OF responsesLoop_turn_progress] t show ?thesis
      by (subst responsesLoop.simps) simp
  next
    case (Inl f)
    with t show ?thesis by (subst responsesLoop.simps) simp
  qed
qed

text \<open>
  The loops return.  From every state, whatever the connections deliver and however their
  calls fail, \<open>RequestsLoop\<close> and \<open>ResponsesLoop\<close> end once the connection they read from has no
  more to deliver: no turn goes on without having taken something off it.
\<close>

theorem loops_return: "(\<exists>r. RequestsLoop p \<sigma> = Some r) \<and> (\<exists>r. ResponsesLoop p \<tau> = Some r)"
  using requestsLoop_returns [of p] responsesLoop_returns [of p \<tau>]
  by (auto simp: RequestsLoop_def ResponsesLoop_def split: prod.splits sum.splits)

end
