(* ===== verification/Copying.thy ===== *)
theory Copying
  imports Loops
begin

section \<open>Copying between two connections\<close>

text \<open>
  \<open>copyThenClose\<close> of \<open>proxy/common.go\<close>: the request loop in a goroutine of its own, the response loop
  in the caller's.  A schedule says whose turn it is; the function returns when the response loop
  does, whether or not the request loop has returned by then.  What a loop does once it has
  returned is the exit of theory \<open>Teardown\<close>; a panic of the request loop, or of its exit, is caught
  by \<open>withRecover\<close> around it, one of the response loop is a panic of \<open>copyThenClose\<close>.

  Closing a connection makes the next operation on each side of it fail: a loop that is still
  running ends with its first error.
\<close>

datatype request_side = Starting | Looping | Gone

record 's copying =
  cp_state :: "'s pstate"
  cp_teardown :: teardown
  cp_requests :: request_side

definition ErrClosed :: goerror where
  "ErrClosed = NetErr ''use of closed network connection''"

definition shut :: "conn \<Rightarrow> conn" where
  "shut c = c\<lparr>cn_in := (cn_in c)\<lparr>src_events := [Chunk [] (Some ErrClosed)]\<rparr>,
     cn_out := (cn_out c)\<lparr>snk_events := [WFail 0 ErrClosed]\<rparr>, cn_deadlineErrs := [Some ErrClosed]\<rparr>"

definition shut_both :: "'s pstate \<Rightarrow> 's pstate" where
  "shut_both = ps_client_update shut \<circ> ps_broker_update shut"

text \<open>The exit of a loop, with what it closes.\<close>

definition on_exit :: "(teardown, unit) action \<Rightarrow> ('s copying, unit) action" where
  "on_exit exit \<kappa> =
     (case exit (cp_teardown \<kappa>) of (r, td) \<Rightarrow>
        (r, \<kappa>\<lparr>cp_teardown := td,
           cp_state := (if td_remote_closed (cp_teardown \<kappa>) < td_remote_closed td
             then shut_both (cp_state \<kappa>) else cp_state \<kappa>)\<rparr>))"

text \<open>A turn of the goroutine of the request loop.\<close>

definition requests_end :: "string \<Rightarrow> string \<Rightarrow> (bool \<times> gofail) + bool \<Rightarrow> 's copying \<Rightarrow> 's copying" where
  "requests_end remoteDesc localDesc r \<kappa> =
     (case loop_result r of
        None \<Rightarrow> \<kappa>
      | Some x \<Rightarrow> snd (on_exit (requests_exit remoteDesc localDesc x) \<kappa>))\<lparr>cp_requests := Gone\<rparr>"

definition requests_turn :: "'s processor \<Rightarrow> string \<Rightarrow> string \<Rightarrow> 's copying \<Rightarrow> 's copying" where
  "requests_turn p remoteDesc localDesc \<kappa> =
     (case cp_requests \<kappa> of
        Starting \<Rightarrow>
          (case RequestsLoop_start (cp_state \<kappa>) of
             (Inl f, \<sigma>) \<Rightarrow> requests_end remoteDesc localDesc (Inl f) (\<kappa>\<lparr>cp_state := \<sigma>\<rparr>)
           | (Inr _, \<sigma>) \<Rightarrow> \<kappa>\<lparr>cp_state := \<sigma>, cp_requests := Looping\<rparr>)
      | Looping \<Rightarrow>
          (case requestsLoop_turn p (cp_state \<kappa>) of
             (r, \<sigma>) \<Rightarrow>
               if r = Inr True then \<kappa>\<lparr>cp_state := \<sigma>\<rparr>
               else requests_end remoteDesc localDesc r (\<kappa>\<lparr>cp_state := \<sigma>\<rparr>))
      | Gone \<Rightarrow> \<kappa>)"

text \<open>A turn of the response loop: nothing while it goes on, then what \<open>copyThenClose\<close> comes to.\<close>

definition responses_turn ::
  "'s processor \<Rightarrow> string \<Rightarrow> string \<Rightarrow> 's copying \<Rightarrow> unit result option \<times> 's copying" where
  "responses_turn p remoteDesc localDesc \<kappa> =
     (case responsesLoop_turn p (cp_state \<kappa>) of
        (Inr _, \<sigma>) \<Rightarrow> (None, \<kappa>\<lparr>cp_state := \<sigma>\<rparr>)
      | (Inl (readErr, GoErr e), \<sigma>) \<Rightarrow>
          (case on_exit (responses_exit remoteDesc localDesc (readErr, Some e)) (\<kappa>\<lparr>cp_state := \<sigma>\<rparr>) of
             (r, \<kappa>') \<Rightarrow> (Some r, \<kappa>'))
      | (Inl (readErr, GoPanic msg), \<sigma>) \<Rightarrow> (Some (Inl (GoPanic msg)), \<kappa>\<lparr>cp_state := \<sigma>\<rparr>))"

text \<open>\<open>True\<close> in a schedule is a turn of the request loop; nothing is the result of one that is too short.\<close>

fun copy_turns ::
  "'s processor \<Rightarrow> string \<Rightarrow> string \<Rightarrow> bool list \<Rightarrow> 's copying \<Rightarrow> unit result option \<times> 's copying" where
  "copy_turns p remoteDesc localDesc [] \<kappa> = (None, \<kappa>)"
| "copy_turns p remoteDesc localDesc (request # sched) \<kappa> =
     (if request then copy_turns p remoteDesc localDesc sched (requests_turn p remoteDesc localDesc \<kappa>)
      else
        (case responses_turn p remoteDesc localDesc \<kappa> of
           (None, \<kappa>') \<Rightarrow> copy_turns p remoteDesc localDesc sched \<kappa>'
         | (Some r, \<kappa>') \<Rightarrow> (Some r, \<kappa>')))"

definition copyThenClose ::
  "'s ProcessorConfig \<Rightarrow> conn \<Rightarrow> conn \<Rightarrow> string \<Rightarrow> string \<Rightarrow> bool list \<Rightarrow> int \<Rightarrow> clock \<Rightarrow> 's
    \<Rightarrow> unit result option \<times> 's copying" where
  "copyThenClose cfg remote local remoteDesc localDesc sched t clock x =
     copy_turns (newProcessor cfg) remoteDesc localDesc sched
       \<lparr>cp_state = new_pstate cfg t remote local clock x, cp_teardown = new_teardown, cp_requests = Starting\<rparr>"

subsection \<open>It returns\<close>

definition turns_left :: "'s copying \<Rightarrow> nat" where
  "turns_left \<kappa> = broker_left (cp_state \<kappa>) + (if cp_requests \<kappa> = Gone then 0 else 1)"

lemma broker_left_shut: "broker_left (shut_both \<sigma>) = 1"
  by (simp add: broker_left_def shut_both_def shut_def src_size_def)

lemma requests_keep_broker:
  "lowers broker_left RequestsLoop_start" "lowers broker_left (requestsLoop_turn p)"
proof -
  have h: "lowers broker_left (handleRequest p h)" for h
    by (cases h) (auto simp: DefaultRequestHandler_handleRequest_def SaslAuthV0RequestHandler_handleRequest_def
      copySaslAuthRequest_def handler_defs Let_def intro!: lowers_intros split: sum.splits gofail.splits prod.splits option.splits)
  show "lowers broker_left RequestsLoop_start"
    unfolding RequestsLoop_start_def by (intro lowers_intros)
  show "lowers broker_left (requestsLoop_turn p)"
    unfolding requestsLoop_turn_def getNextRequestHandler_def
    by (intro lowers_intros) (auto intro!: lowers_intros h split: sum.split option.split)
qed

lemma on_exit_left: "turns_left (snd (on_exit exit \<kappa>)\<lparr>cp_requests := Gone\<rparr>) \<le> max 1 (broker_left (cp_state \<kappa>))"
  by (auto simp: turns_left_def on_exit_def broker_left_shut split: prod.splits)

lemma requests_end_left: "turns_left (requests_end rd ld r \<kappa>) \<le> max 1 (broker_left (cp_state \<kappa>))"
  using on_exit_left [of "requests_exit rd ld (the (loop_result r))" \<kappa>]
  by (auto simp: requests_end_def turns_left_def split: option.splits)

lemma requests_turn_left: "turns_left (requests_turn p rd ld \<kappa>) \<le> turns_left \<kappa>"
proof (cases "cp_requests \<kappa>")
  case Starting
  obtain r \<sigma> where t: "RequestsLoop_start (cp_state \<kappa>) = (r, \<sigma>)" by force
  note le = lowersD [OF requests_keep_broker(1) t]
  show ?thesis
    using le requests_end_left [of rd ld "Inl (projl r)" "\<kappa>\<lparr>cp_state := \<sigma>\<rparr>"]
    by (cases r) (auto simp: requests_turn_def Starting t turns_left_def)
next
  case Looping
  obtain r \<sigma> where t: "requestsLoop_turn p (cp_state \<kappa>) = (r, \<sigma>)" by force
  note le = lowersD [OF requests_keep_broker(2) t]
  show ?thesis
    using le requests_end_left [of rd ld r "\<kappa>\<lparr>cp_state := \<sigma>\<rparr>"]
    by (auto simp: requests_turn_def Looping t turns_left_def)
qed (simp add: requests_turn_def)

lemma responses_turn_left:
  "responses_turn p rd ld \<kappa> = (None, \<kappa>') \<Longrightarrow> turns_left \<kappa>' < turns_left \<kappa>"
  by (auto simp: responses_turn_def turns_left_def split: prod.splits sum.splits gofail.splits
      dest: responsesLoop_turn_progress)

text \<open>Every schedule with enough turns for the response loop sees its end.\<close>

lemma copy_turns_return:
  "turns_left \<kappa> < length (filter Not sched) \<Longrightarrow> \<exists>r \<kappa>'. copy_turns p rd ld sched \<kappa> = (Some r, \<kappa>')"
proof (induction sched arbitrary: \<kappa>)
  case (Cons request sched)
  show ?case
  proof (cases request)
    case True
    with Cons.prems requests_turn_left [of p rd ld \<kappa>] show ?thesis by (simp add: Cons.IH)
  next
    case False
    obtain r \<kappa>' where t: "responses_turn p rd ld \<kappa> = (r, \<kappa>')" by force
    show ?thesis
    proof (cases r)
      case None
      with t responses_turn_left have "turns_left \<kappa>' < turns_left \<kappa>" by blast
      with Cons.prems False None t show ?thesis by (simp add: Cons.IH)
    qed (simp add: False t)
  qed
qed simp

subsection \<open>It closes both connections\<close>

text \<open>Handlers put one handler for the next request.\<close>

lemma handleRequest_puts_one:
  "wp (handleRequest p h)
    (\<lambda>_ \<sigma>'. length (t_nextRequest (traffic \<sigma>')) = Suc (length (t_nextRequest (traffic \<sigma>)))) (\<lambda>_ _. True) \<sigma>"
proof (cases h)
  case DefaultRequestHandler
  have "wp (DefaultRequestHandler_handleRequest p)
    (\<lambda>_ \<sigma>'. length (t_nextRequest (traffic \<sigma>')) = Suc (length (t_nextRequest (traffic \<sigma>)))) (\<lambda>_ _. True) \<sigma>"
    by (rule wp_conseq [OF DefaultRequestHandler_wp])
      (auto simp: forwards_request_def forwarded_def idle_turn_def)
  with DefaultRequestHandler show ?thesis by simp
next
  case SaslAuthV0RequestHandler
  have "wp (SaslAuthV0RequestHandler_handleRequest p)
    (\<lambda>_ \<sigma>'. length (t_nextRequest (traffic \<sigma>')) = Suc (length (t_nextRequest (traffic \<sigma>)))) (\<lambda>_ _. True) \<sigma>"
    by (rule wp_conseq [OF SaslAuthV0RequestHandler_wp]) auto
  with SaslAuthV0RequestHandler show ?thesis by simp
qed

lemma request_turn_one_handler:
  assumes "length (ps_nextRequest \<sigma>) = 1" "requestsLoop_turn p \<sigma> = (Inr b, \<sigma>')"
  shows "b \<and> length (ps_nextRequest \<sigma>') = 1"
proof -
  from assms(1) obtain h where h: "t_nextRequest (traffic \<sigma>) = [h]"
    by (auto simp: traffic_sel length_Suc_conv)
  have "wp (handleRequest p h) (\<lambda>_ \<sigma>'. length (t_nextRequest (traffic \<sigma>')) = 1) (\<lambda>_ _. True) \<upsilon>"
    if "traffic \<upsilon> = (traffic \<sigma>)\<lparr>t_nextRequest := []\<rparr>" for \<upsilon>
    by (rule wp_conseq [OF handleRequest_puts_one]) (simp_all add: that)
  from wp_InrD [OF one_handler_turn_wp [OF h this] assms(2)] show ?thesis by (simp add: traffic_sel)
qed

lemma start_keeps_handler:
  "RequestsLoop_start \<sigma> = (r, \<sigma>') \<Longrightarrow> ps_nextRequest \<sigma>' = ps_nextRequest \<sigma>"
  by (auto simp: RequestsLoop_start_def flag_def zooms zoom_def split: prod.splits sum.splits)

lemma response_turn_keeps_handler:
  assumes "responsesLoop_turn p \<sigma> = (Inr u, \<sigma>')"
  shows "ps_nextRequest \<sigma>' = ps_nextRequest \<sigma>"
proof -
  have handler: "wp (handleResponse p h) (\<lambda>_ \<sigma>'. t_nextRequest (traffic \<sigma>') = t_nextRequest (traffic \<tau>)) (\<lambda>_ _. True) \<tau>" for h \<tau>
  proof (cases h)
    case DefaultResponseHandler
    then show ?thesis
      by simp (rule wp_conseq [OF DefaultResponseHandler_wp], auto simp: answered_def)
  next
    case SaslAuthV0ResponseHandler
    then show ?thesis
      by simp (rule wp_conseq [OF SaslAuthV0ResponseHandler_wp], auto simp: exchange_def)
  qed
  have "wp (responsesLoop_turn p) (\<lambda>_ \<sigma>'. t_nextRequest (traffic \<sigma>') = t_nextRequest (traffic \<sigma>)) (\<lambda>_ _. True) \<sigma>"
    unfolding responsesLoop_turn_def chan_defs
    by (intro wp_intros allI impI) (auto intro: wp_conseq [OF handler])
  from wp_InrD [OF this assms] show ?thesis by (simp add: traffic_sel)
qed

text \<open>Both connections were closed once, by the one exit that found the channel empty.\<close>

definition closed_once :: "teardown \<Rightarrow> bool" where
  "closed_once td \<longleftrightarrow> length (td_firstErr td) = 1 \<and> length (td_labels td) = 1 \<and> td_remote_closed td = 1 \<and> td_local_closed td = 1"

definition copying_inv :: "'s copying \<Rightarrow> bool" where
  "copying_inv \<kappa> \<longleftrightarrow>
     (if cp_requests \<kappa> = Gone then cp_teardown \<kappa> = new_teardown \<or> closed_once (cp_teardown \<kappa>)
      else cp_teardown \<kappa> = new_teardown \<and> length (ps_nextRequest (cp_state \<kappa>)) = 1)"

lemma exit_closes:
  "loop_exit rename quiet r w (readErr, Some e) new_teardown = (Inr (), td) \<Longrightarrow> closed_once td"
  by (auto simp: loop_exit_error closed_once_def)

lemma requests_end_inv:
  assumes "cp_teardown \<kappa> = new_teardown" "\<And>x. loop_result r = Some x \<Longrightarrow> snd x \<noteq> None"
  shows "copying_inv (requests_end rd ld r \<kappa>)"
proof (cases "loop_result r")
  case (Some x)
  with assms(2) obtain b e where x: "x = (b, Some e)" by (cases x) auto
  show ?thesis
    by (auto simp: requests_end_def Some x copying_inv_def on_exit_def requests_exit_def assms(1) loop_exit_error closed_once_def)
qed (simp add: requests_end_def copying_inv_def assms(1))

lemma requests_turn_inv:
  assumes "copying_inv \<kappa>"
  shows "copying_inv (requests_turn p rd ld \<kappa>)"
proof (cases "cp_requests \<kappa>")
  case Starting
  obtain r \<sigma> where t: "RequestsLoop_start (cp_state \<kappa>) = (r, \<sigma>)" by force
  have fail: "copying_inv (requests_end rd ld (Inl f) (\<kappa>\<lparr>cp_state := \<sigma>\<rparr>))" for f
    by (rule requests_end_inv) (use assms Starting in \<open>auto simp: copying_inv_def elim: loop_result.elims\<close>)
  show ?thesis
    using assms start_keeps_handler [OF t] fail
    by (cases r) (auto simp: requests_turn_def Starting t copying_inv_def)
next
  case Looping
  obtain r \<sigma> where t: "requestsLoop_turn p (cp_state \<kappa>) = (r, \<sigma>)" by force
  have one: "length (ps_nextRequest (cp_state \<kappa>)) = 1" using assms Looping by (simp add: copying_inv_def)
  show ?thesis
  proof (cases r)
    case (Inl f)
    have "copying_inv (requests_end rd ld (Inl f) (\<kappa>\<lparr>cp_state := \<sigma>\<rparr>))"
      by (rule requests_end_inv) (use assms Looping in \<open>auto simp: copying_inv_def elim: loop_result.elims\<close>)
    then show ?thesis by (simp add: requests_turn_def Looping t Inl)
  next
    case (Inr b)
    from request_turn_one_handler [OF one t [unfolded Inr]] assms Looping show ?thesis
      by (simp add: requests_turn_def t Inr copying_inv_def)
  qed
qed (use assms in \<open>simp add: requests_turn_def\<close>)

lemma responses_turn_inv:
  assumes "copying_inv \<kappa>" "responses_turn p rd ld \<kappa> = (r, \<kappa>')"
  shows "case r of
      None \<Rightarrow> copying_inv \<kappa>'
    | Some (Inr _) \<Rightarrow> closed_once (cp_teardown \<kappa>')
    | Some (Inl f) \<Rightarrow> is_panic (Inl f :: unit result)"
proof -
  obtain q \<sigma> where t: "responsesLoop_turn p (cp_state \<kappa>) = (q, \<sigma>)" by force
  show ?thesis
  proof (cases q)
    case (Inr u)
    with assms t response_turn_keeps_handler [OF t [unfolded Inr]] show ?thesis
      by (auto simp: responses_turn_def copying_inv_def split: if_splits)
  next
    case (Inl f)
    obtain b g where f: "f = (b, g)" by force
    show ?thesis
    proof (cases g)
      case (GoPanic msg)
      with assms(2) t Inl f show ?thesis by (auto simp: responses_turn_def)
    next
      case (GoErr e)
      have td: "cp_teardown \<kappa> = new_teardown \<or> closed_once (cp_teardown \<kappa>)"
        using assms(1) by (auto simp: copying_inv_def split: if_splits)
      have second: "closed_once td \<Longrightarrow> td_firstErr td \<noteq> []" for td by (auto simp: closed_once_def)
      from assms(2) t Inl f GoErr td second show ?thesis
        by (auto simp: responses_turn_def on_exit_def responses_exit_def loop_exit_error loop_exit_second closed_once_def)
    qed
  qed
qed

lemma copy_turns_close:
  "copying_inv \<kappa> \<Longrightarrow> copy_turns p rd ld sched \<kappa> = (Some r, \<kappa>') \<Longrightarrow>
   case r of Inr _ \<Rightarrow> closed_once (cp_teardown \<kappa>') | Inl f \<Rightarrow> is_panic (Inl f :: unit result)"
proof (induction sched arbitrary: \<kappa>)
  case (Cons request sched)
  show ?case
  proof (cases request)
    case True
    with Cons.prems show ?thesis by (auto intro: Cons.IH [OF requests_turn_inv])
  next
    case False
    obtain q \<kappa>1 where t: "responses_turn p rd ld \<kappa> = (q, \<kappa>1)" by force
    show ?thesis
    proof (cases q)
      case None
      with responses_turn_inv [OF Cons.prems(1) t] False t Cons.prems(2) show ?thesis
        by (auto intro: Cons.IH)
    next
      case (Some x)
      with responses_turn_inv [OF Cons.prems(1) t] False t Cons.prems(2) show ?thesis by auto
    qed
  qed
qed simp

lemma copyThenClose_closes:
  assumes "copyThenClose cfg remote local rd ld sched t clock x = (Some r, \<kappa>)"
  shows "case r of Inr _ \<Rightarrow> closed_once (cp_teardown \<kappa>) | Inl f \<Rightarrow> is_panic (Inl f :: unit result)"
  by (rule copy_turns_close [OF _ assms [unfolded copyThenClose_def]]) (simp add: copying_inv_def new_pstate_def)

lemma copyThenClose_returns:
  assumes "src_size (cn_in remote) + 1 < length (filter Not sched)"
  shows "\<exists>r \<kappa>. copyThenClose cfg remote local rd ld sched t clock x = (Some r, \<kappa>)"
  unfolding copyThenClose_def
  by (rule copy_turns_return) (use assms in \<open>simp add: turns_left_def broker_left_def new_pstate_def\<close>)

end
