(* ===== verification/ConnSets.thy ===== *)
theory ConnSets
  imports GoAction "HOL-Library.AList" "HOL-Library.Multiset"
begin

section \<open>The set of open connections\<close>

text \<open>
  \<open>ConnSet\<close> of \<open>proxy/common.go\<close>: a map from broker addresses to slices of connections.  The map is an
  association list in the order of the coming iteration; connections are compared by identity,
  so their type is a parameter.  The lock makes each operation atomic.  What a \<open>ConnSet\<close> stands
  for is the multiset of its (address, connection) pairs: \<open>pairs\<close>, which every operation is
  described by.
\<close>

type_synonym 'c connset = "(string \<times> 'c list) list"

definition NewConnSet :: "'c connset" where
  "NewConnSet = []"

text \<open>\<open>c.m[id]\<close>: an absent key gives the nil slice.\<close>

definition at_id :: "'c connset \<Rightarrow> string \<Rightarrow> 'c list" where
  "at_id m i = (case map_of m i of None \<Rightarrow> [] | Some cs \<Rightarrow> cs)"

definition ConnSet_Add :: "string \<Rightarrow> 'c \<Rightarrow> 'c connset \<Rightarrow> 'c connset" where
  "ConnSet_Add i c m = AList.update i (at_id m i @ [c]) m"

definition ConnSet_IDs :: "'c connset \<Rightarrow> string list" where
  "ConnSet_IDs m = map fst m"

definition ConnSet_Conns :: "string list \<Rightarrow> 'c connset \<Rightarrow> 'c list" where
  "ConnSet_Conns is m = concat (map (at_id m) is)"

definition ConnSet_Count :: "'c connset \<Rightarrow> (string \<times> nat) list" where
  "ConnSet_Count m = map (\<lambda>(k, v). (k, length v)) m"

text \<open>The debug string, and the gauges that \<open>Collect\<close> of \<open>proxy/collector.go\<close> makes of the counts.\<close>

definition ConnSet_String :: "('c \<Rightarrow> string) \<Rightarrow> 'c connset \<Rightarrow> string" where
  "ConnSet_String show_conn m =
     concat (map (\<lambda>(i, conns). ''ID '' @ i @ '':'' @
       concat (map (\<lambda>(n, c). [CHR 0x0A, CHR 0x09] @ go_itoa (int n) @ '': '' @ show_conn c) (enumerate 0 conns))) m)"

definition Collect_opened :: "'c connset \<Rightarrow> (string \<times> nat) list" where
  "Collect_opened m = map (\<lambda>(broker, count). (broker, count)) (ConnSet_Count m)"

text \<open>The position of the first occurrence, -1 in the source if there is none.\<close>

fun position :: "'c \<Rightarrow> 'c list \<Rightarrow> nat option" where
  "position c [] = None"
| "position c (x # xs) = (if x = c then Some 0 else map_option Suc (position c xs))"

definition ConnSet_Remove :: "('c \<Rightarrow> string) \<Rightarrow> string \<Rightarrow> 'c \<Rightarrow> ('c connset, unit) action" where
  "ConnSet_Remove show_conn i c m =
     (let conns = at_id m i in
      case position c conns of
        None \<Rightarrow> (Inl (GoErr (ErrNew (''couldn'' @ [CHR 0x27] @ ''t find connection '' @ show_conn c @ '' for id '' @ i))), m)
      | Some pos \<Rightarrow>
          (Inr (), if length conns = 1 then AList.delete i m
                   else AList.update i (take pos conns @ drop (pos + 1) conns) m))"

text \<open>\<open>Close\<close> closes every connection, whatever the others return, and collects the errors.\<close>

fun close_conns :: "('c \<Rightarrow> ('s, unit) action) \<Rightarrow> (gofail \<Rightarrow> string) \<Rightarrow> string \<Rightarrow> 'c list \<Rightarrow> 's \<Rightarrow> string \<times> 's" where
  "close_conns close show_err i [] \<sigma> = ([], \<sigma>)"
| "close_conns close show_err i (c # cs) \<sigma> =
     (case close c \<sigma> of (r, \<sigma>1) \<Rightarrow>
      case close_conns close show_err i cs \<sigma>1 of (errs, \<sigma>2) \<Rightarrow>
        ((case r of Inr _ \<Rightarrow> [] | Inl e \<Rightarrow> i @ '' close error: '' @ show_err e @ [CHR 0x0A]) @ errs, \<sigma>2))"

fun close_all :: "('c \<Rightarrow> ('s, unit) action) \<Rightarrow> (gofail \<Rightarrow> string) \<Rightarrow> 'c connset \<Rightarrow> 's \<Rightarrow> string \<times> 's" where
  "close_all close show_err [] \<sigma> = ([], \<sigma>)"
| "close_all close show_err ((i, cs) # m) \<sigma> =
     (case close_conns close show_err i cs \<sigma> of (errs1, \<sigma>1) \<Rightarrow>
      case close_all close show_err m \<sigma>1 of (errs2, \<sigma>2) \<Rightarrow> (errs1 @ errs2, \<sigma>2))"

definition ConnSet_Close :: "('c \<Rightarrow> ('s, unit) action) \<Rightarrow> (gofail \<Rightarrow> string) \<Rightarrow> 'c connset \<Rightarrow> ('s, unit) action" where
  "ConnSet_Close close show_err m \<sigma> =
     (case close_all close show_err m \<sigma> of (errs, \<sigma>') \<Rightarrow>
        ((if errs = [] then Inr () else Inl (GoErr (ErrNew errs))), \<sigma>'))"

subsection \<open>What a set stands for\<close>

definition connset_ok :: "'c connset \<Rightarrow> bool" where
  "connset_ok m \<longleftrightarrow> distinct (map fst m) \<and> list_all (\<lambda>(i, cs). cs \<noteq> []) m"

definition pairs :: "'c connset \<Rightarrow> (string \<times> 'c) multiset" where
  "pairs m = mset (concat (map (\<lambda>(i, cs). map (Pair i) cs) m))"

lemma pairs_simps [simp]:
  "pairs [] = {#}" "pairs ((i, cs) # m) = image_mset (Pair i) (mset cs) + pairs m"
  by (simp_all add: pairs_def)

lemma connset_ok_simps [simp]:
  "connset_ok []" "connset_ok ((i, cs) # m) \<longleftrightarrow> i \<notin> fst ` set m \<and> cs \<noteq> [] \<and> connset_ok m"
  by (auto simp: connset_ok_def)

lemma at_id_Cons: "at_id ((k, v) # m) i = (if k = i then v else at_id m i)"
  by (simp add: at_id_def)

lemma at_id_absent: "i \<notin> fst ` set m \<Longrightarrow> at_id m i = []"
  by (auto simp: at_id_def map_of_eq_None_iff [symmetric] split: option.split)

lemma update_mset:
  "connset_ok m \<Longrightarrow> pairs (AList.update i cs m) + image_mset (Pair i) (mset (at_id m i))
     = pairs m + image_mset (Pair i) (mset cs)"
  by (induction m) (auto simp: at_id_Cons at_id_absent)

lemma update_ok: "connset_ok m \<Longrightarrow> cs \<noteq> [] \<Longrightarrow> connset_ok (AList.update i cs m)"
  by (induction m) (auto simp: dom_update, force)

lemma delete_mset:
  "connset_ok m \<Longrightarrow> pairs (AList.delete i m) + image_mset (Pair i) (mset (at_id m i)) = pairs m"
proof (induction m)
  case (Cons x m)
  obtain k v where x: "x = (k, v)" by force
  show ?case
  proof (cases "k = i")
    case True
    with Cons.prems x have "AList.delete i m = m" by (force simp: AList.delete_eq filter_id_conv)
    with True x show ?thesis by (simp add: at_id_Cons)
  next
    case False
    with Cons x show ?thesis by (simp add: at_id_Cons)
  qed
qed (simp add: at_id_def)

lemma delete_ok: "connset_ok m \<Longrightarrow> connset_ok (AList.delete i m)"
  by (auto simp: connset_ok_def AList.delete_eq list_all_iff distinct_map_filter)

lemma count_pairs: "connset_ok m \<Longrightarrow> filter_mset (\<lambda>x. fst x = i) (pairs m) = image_mset (Pair i) (mset (at_id m i))"
proof (induction m)
  case (Cons x m)
  obtain k v where x: "x = (k, v)" by force
  have "filter_mset (\<lambda>x. fst x = i) (image_mset (Pair k) (mset v)) = (if k = i then image_mset (Pair i) (mset v) else {#})"
    by (induction v) auto
  with Cons x show ?case by (auto simp: at_id_Cons at_id_absent)
qed (simp add: at_id_def)

lemma pair_in: "connset_ok m \<Longrightarrow> (i, c) \<in># pairs m \<longleftrightarrow> c \<in> set (at_id m i)"
  using arg_cong [OF count_pairs [of m i], of "\<lambda>M. (i, c) \<in># M"] by (auto simp: image_iff)

lemma position_None: "position c cs = None \<longleftrightarrow> c \<notin> set cs"
  by (induction cs) auto

lemma position_Some:
  "position c cs = Some n \<Longrightarrow> n < length cs \<and> mset cs = add_mset c (mset (take n cs @ drop (n + 1) cs))"
  by (induction cs arbitrary: n) (auto split: if_splits)

lemma ConnSet_Add_pairs:
  assumes "connset_ok m"
  shows "connset_ok (ConnSet_Add i c m)" "pairs (ConnSet_Add i c m) = add_mset (i, c) (pairs m)"
  using update_ok [OF assms, of "at_id m i @ [c]" i] update_mset [OF assms, of i "at_id m i @ [c]"]
  by (simp_all add: ConnSet_Add_def)

lemma ConnSet_Remove_present:
  assumes "connset_ok m" "(i, c) \<in># pairs m"
  shows "\<exists>m'. ConnSet_Remove show_conn i c m = (Inr (), m') \<and> connset_ok m' \<and> pairs m' = pairs m - {#(i, c)#}"
proof -
  let ?cs = "at_id m i"
  obtain n where n: "position c ?cs = Some n"
    using assms position_None [of c ?cs] by (auto simp: pair_in)
  note len = position_Some [OF n]
  show ?thesis
  proof (cases "length ?cs = 1")
    case True
    with len have "mset ?cs = {#c#}" by simp
    with delete_mset [OF assms(1), of i] have "pairs m = add_mset (i, c) (pairs (AList.delete i m))" by simp
    then show ?thesis
      using n True delete_ok [OF assms(1)] by (simp add: ConnSet_Remove_def Let_def)
  next
    case False
    let ?rest = "take n ?cs @ drop (n + 1) ?cs"
    from False len have "length ?rest \<noteq> 0" by auto
    then have ok: "connset_ok (AList.update i ?rest m)" by (intro update_ok [OF assms(1)]) auto
    have "pairs (AList.update i ?rest m) + image_mset (Pair i) (mset ?cs) = pairs m + image_mset (Pair i) (mset ?rest)"
      by (rule update_mset [OF assms(1)])
    then have "add_mset (i, c) (pairs (AList.update i ?rest m)) + image_mset (Pair i) (mset ?rest)
        = pairs m + image_mset (Pair i) (mset ?rest)"
      by (simp only: conjunct2 [OF len]) simp
    then have "pairs m = add_mset (i, c) (pairs (AList.update i ?rest m))" by (metis add_right_imp_eq)
    then show ?thesis using n False ok by (simp add: ConnSet_Remove_def Let_def)
  qed
qed

lemma ConnSet_Remove_absent:
  assumes "connset_ok m" "(i, c) \<notin># pairs m"
  shows "\<exists>e. ConnSet_Remove show_conn i c m = (Inl (GoErr e), m)"
  using assms position_None [of c "at_id m i"] by (simp add: pair_in ConnSet_Remove_def)

subsection \<open>Keeping track of the sessions\<close>

text \<open>The contract of a store of open connections, and what it holds after a sequence of calls.\<close>

datatype 'c tracking = Opens string 'c | Ends string 'c

definition track_pairs :: "'c tracking list \<Rightarrow> (string \<times> 'c) multiset \<Rightarrow> (string \<times> 'c) multiset" where
  "track_pairs evs M =
     foldl (\<lambda>M ev. case ev of Opens i c \<Rightarrow> add_mset (i, c) M | Ends i c \<Rightarrow> M - {#(i, c)#}) M evs"

lemma track_pairs_around:
  assumes "Ends i c \<notin> set evs"
  shows "track_pairs evs (add_mset (i, c) M) = add_mset (i, c) (track_pairs evs M)"
  using assms
proof (induction evs rule: rev_induct)
  case (snoc ev evs)
  then show ?case
    by (cases ev) (auto simp: track_pairs_def add_mset_commute intro!: diff_add_mset_swap)
qed (simp add: track_pairs_def)

locale conn_tracker =
  fixes fresh :: 'm
    and add :: "string \<Rightarrow> 'c \<Rightarrow> 'm \<Rightarrow> 'm"
    and remove :: "string \<Rightarrow> 'c \<Rightarrow> ('m, unit) action"
    and valid :: "'m \<Rightarrow> bool"
    and content :: "'m \<Rightarrow> (string \<times> 'c) multiset"
  assumes fresh: "valid fresh" "content fresh = {#}"
    and add: "valid m \<Longrightarrow> valid (add i c m)" "valid m \<Longrightarrow> content (add i c m) = add_mset (i, c) (content m)"
    and remove_present: "valid m \<Longrightarrow> (i, c) \<in># content m \<Longrightarrow>
      \<exists>m'. remove i c m = (Inr (), m') \<and> valid m' \<and> content m' = content m - {#(i, c)#}"
    and remove_absent: "valid m \<Longrightarrow> (i, c) \<notin># content m \<Longrightarrow> \<exists>e. remove i c m = (Inl (GoErr e), m)"
begin

lemma remove_content:
  assumes "valid m"
  shows "valid (snd (remove i c m)) \<and> content (snd (remove i c m)) = content m - {#(i, c)#}"
  using remove_present [OF assms, of i c] remove_absent [OF assms, of i c] assms
  by (cases "(i, c) \<in># content m") auto

lemma add_remove:
  assumes "valid m"
  shows "\<exists>m'. remove i c (add i c m) = (Inr (), m') \<and> valid m' \<and> content m' = content m"
  using remove_present [OF add(1) [OF assms], of i c i c] by (simp add: add(2) [OF assms])

definition track :: "'c tracking list \<Rightarrow> 'm \<Rightarrow> 'm" where
  "track evs m = foldl (\<lambda>m ev. case ev of Opens i c \<Rightarrow> add i c m | Ends i c \<Rightarrow> snd (remove i c m)) m evs"

lemma track_content:
  "valid m \<Longrightarrow> valid (track evs m) \<and> content (track evs m) = track_pairs evs (content m)"
  by (induction evs rule: rev_induct)
    (auto simp: track_def track_pairs_def add remove_content split: tracking.split)

end

interpretation connections: conn_tracker NewConnSet ConnSet_Add "ConnSet_Remove show_conn" connset_ok pairs for show_conn
  by unfold_locales (auto simp: NewConnSet_def ConnSet_Add_pairs intro: ConnSet_Remove_present ConnSet_Remove_absent)

subsection \<open>The refinement\<close>

definition after_calls :: "('c \<Rightarrow> string) \<Rightarrow> 'c tracking list \<Rightarrow> 'c connset \<Rightarrow> 'c connset" where
  "after_calls show_conn evs m =
     foldl (\<lambda>m ev. case ev of Opens i c \<Rightarrow> ConnSet_Add i c m | Ends i c \<Rightarrow> snd (ConnSet_Remove show_conn i c m))
       m evs"

lemma after_calls_track:
  assumes "connset_ok m"
  shows "connset_ok (after_calls show_conn evs m)" "pairs (after_calls show_conn evs m) = track_pairs evs (pairs m)"
  using connections.track_content [OF assms, of show_conn evs]
  by (simp_all add: connections.track_def after_calls_def)

lemma Count_at_id: "connset_ok m \<Longrightarrow> map_of (ConnSet_Count m) i = (if at_id m i = [] then None else Some (length (at_id m i)))"
  by (induction m) (auto simp: ConnSet_Count_def at_id_Cons at_id_def)

lemma length_at_id:
  assumes "connset_ok m"
  shows "length (at_id m i) = size (filter_mset (\<lambda>x. fst x = i) (pairs m))"
  by (simp add: count_pairs [OF assms])

text \<open>
  C27: The connection set is a multiset.  After any sequence of \<open>Add\<close> and \<open>Remove\<close> calls, failing
  ones included, the set holds the pairs that were added and not removed since, as often as that;
  \<open>Count\<close> gives for each broker address with an open connection the number of them and has no
  entry for any other, and \<open>Conns\<close> gives the connections of an address.
\<close>

theorem connset_refines_multiset:
  "pairs (after_calls show_conn evs NewConnSet) = track_pairs evs {#}
   \<and> map_of (ConnSet_Count (after_calls show_conn evs NewConnSet)) i =
       (let n = size (filter_mset (\<lambda>x. fst x = i) (track_pairs evs {#})) in if n = 0 then None else Some n)
   \<and> image_mset (Pair i) (mset (ConnSet_Conns [i] (after_calls show_conn evs NewConnSet)))
       = filter_mset (\<lambda>x. fst x = i) (track_pairs evs {#})"
proof -
  note new = connections.fresh
  note after = after_calls_track [OF new(1), of show_conn evs, unfolded new(2)]
  show ?thesis
    using after count_pairs [OF after(1), of i] length_at_id [OF after(1), of i]
    by (auto simp: Count_at_id ConnSet_Conns_def Let_def)
qed

text \<open>\<open>Close\<close> makes one attempt on every connection of the set, whatever the others return.\<close>

lemma close_conns_closes:
  assumes "\<And>c \<sigma>. log (snd (close c \<sigma>)) = log \<sigma> @ [c]"
  shows "log (snd (close_conns close show_err i cs \<sigma>)) = log \<sigma> @ cs"
  by (induction cs arbitrary: \<sigma>) (auto simp: assms split: prod.splits, metis append_Cons append_Nil append_assoc assms snd_conv)

lemma close_all_closes:
  assumes "\<And>c \<sigma>. log (snd (close c \<sigma>)) = log \<sigma> @ [c]"
  shows "log (snd (close_all close show_err m \<sigma>)) = log \<sigma> @ concat (map snd m)"
proof (induction m arbitrary: \<sigma>)
  case (Cons x m)
  obtain i cs where x: "x = (i, cs)" by force
  obtain e1 \<sigma>1 where 1: "close_conns close show_err i cs \<sigma> = (e1, \<sigma>1)" by force
  have "log \<sigma>1 = log \<sigma> @ cs" using close_conns_closes [where log = log and close = close, OF assms, of show_err i cs \<sigma>] 1 by simp
  with Cons.IH [of \<sigma>1] 1 show ?case by (auto simp: x split: prod.splits)
qed simp

lemma ConnSet_Close_closes:
  assumes "\<And>c \<sigma>. log (snd (close c \<sigma>)) = log \<sigma> @ [c]"
  shows "log (snd (ConnSet_Close close show_err m \<sigma>)) = log \<sigma> @ concat (map snd m)"
  using close_all_closes [where log = log and close = close, OF assms, of show_err m \<sigma>]
  by (auto simp: ConnSet_Close_def split: prod.splits)

lemma mset_pairs: "image_mset snd (pairs m) = mset (concat (map snd m))"
  by (induction m) (auto simp: image_mset.compositionality comp_def)

end
