(* ===== verification/Client.thy ===== *)
theory Client
  imports Dialing Copying ConnSets AddLoop
begin

section \<open>The client of the brokers\<close>

text \<open>
  \<open>proxy/client.go\<close>: \<open>NewClient\<close>, what \<open>handleConn\<close> does with an accepted connection, and \<open>Run\<close>.  The
  state has what dialing works on, the set of open connections and the client connections that
  were closed.  A client connection is known by a number, as Go compares connections by identity.

  The parameter \<open>tcp\<close> of \<open>handleConn\<close> is the type assertion to \<open>*net.TCPConn\<close>: the calls of the
  connection, if it is one (a TLS connection is not).  An error of these calls is only logged.
\<close>

record Conn =
  Conn_BrokerAddress :: string
  Conn_LocalConnection :: nat
  Conn_stream :: conn
  Conn_LocalAddr :: string
  Conn_RemoteAddr :: string

record 's Client =
  cl_config :: Config
  cl_processorConfig :: "'s ProcessorConfig"
  cl_dialer :: "'s Dialer"
  cl_tcpConnOptions :: TCPConnOptions
  cl_saslAuthByProxy :: "'s SASLAuthByProxy"
  cl_dialAddressMapping :: "(string \<times> DialAddressMapping) list"

record 's proxy_state =
  px_up :: "'s up"
  px_conns :: "nat connset"
  px_local_closed :: "nat list"

subsection \<open>Dial address mappings\<close>

definition show_dial_mapping :: "DialAddressMapping \<Rightarrow> string" where
  "show_dial_mapping v = ''{'' @ dm_SourceAddress v @ '' '' @ dm_DestinationAddress v @ ''}''"

definition dial_clash :: "DialAddressMapping \<Rightarrow> DialAddressMapping \<Rightarrow> goerror option" where
  "dial_clash v lc =
     (if dm_SourceAddress lc \<noteq> dm_SourceAddress v \<or> dm_DestinationAddress lc \<noteq> dm_DestinationAddress v
      then Some (ErrNew (''dial address mapping '' @ dm_SourceAddress v @ '' configured twice: ''
             @ show_dial_mapping v @ '' and '' @ show_dial_mapping lc))
      else None)"

definition dial_entry :: "DialAddressMapping \<Rightarrow> DialAddressMapping result" where
  "dial_entry v = Inr v"

definition getAddressToDialAddressMapping :: "Config \<Rightarrow> (string \<times> DialAddressMapping) list result" where
  "getAddressToDialAddressMapping cfg =
     add_all dm_SourceAddress dial_clash dial_entry (Proxy_DialAddressMappings cfg) []"

interpretation dial_mappings: add_loop dm_SourceAddress dial_clash dial_entry
  by unfold_locales (auto simp: dial_clash_def dial_entry_def)

text \<open>The mappings that are accepted: those for one source address have one destination.\<close>

definition consistent_dial_mappings :: "DialAddressMapping list \<Rightarrow> bool" where
  "consistent_dial_mappings vs \<longleftrightarrow> (\<forall>v \<in> set vs. \<forall>w \<in> set vs.
     dm_SourceAddress v = dm_SourceAddress w \<longrightarrow> dm_DestinationAddress v = dm_DestinationAddress w)"

subsection \<open>\<open>NewClient\<close>\<close>

definition NewClient ::
  "'s net_env \<Rightarrow> Config \<Rightarrow> 's netAddressMappingFunc \<Rightarrow> 's tokenProvider option \<Rightarrow> ('s up, 's Client) action" where
  "NewClient env c netAddressMappingFunc saslTokenProvider =
     abind (if Kafka_TLS_Enable c
            then abind (up_outside (ne_tlsConfig env c)) (\<lambda>f. aret (Some f)) else aret None) (\<lambda>tlsConfigFunc.
     abind (newDialer env c tlsConfigFunc) (\<lambda>dialer.
     case (if Kafka_SASL_Enable c then saslTokenProvider else None) of
       None \<Rightarrow> aerr (ErrNew ''SASL must be enabled with a token provider (SASL/OAUTHBEARER via google-access-token-provider)'')
     | Some tokenProvider \<Rightarrow>
         abind (alift (getAddressToDialAddressMapping c)) (\<lambda>dialAddressMapping.
         aret \<lparr>cl_config = c,
           cl_processorConfig =
             \<lparr>pc_MaxOpenRequests = Kafka_MaxOpenRequests c,
              pc_NetAddressMappingFunc = Some netAddressMappingFunc,
              pc_RequestBufferSize = Proxy_RequestBufferSize c,
              pc_ResponseBufferSize = Proxy_ResponseBufferSize c,
              pc_WriteTimeout = Kafka_WriteTimeout c,
              pc_ReadTimeout = Kafka_ReadTimeout c,
              pc_ForbiddenApiKeys = map word_of_int (Kafka_ForbiddenApiKeys c),
              pc_ProducerAcks0Disabled = Kafka_Producer_Acks0Disabled c,
              pc_InitialSessionLifetimeMs = 0, pc_SaslAuthByProxy = None\<rparr>,
           cl_dialer = dialer,
           cl_tcpConnOptions = \<lparr>to_KeepAlive = Kafka_KeepAlive c,
             to_ReadBufferSize = Kafka_ConnectionReadBufferSize c,
             to_WriteBufferSize = Kafka_ConnectionWriteBufferSize c\<rparr>,
           cl_saslAuthByProxy = oauth_by_proxy
             \<lparr>oa_clientID = Kafka_ClientID c, oa_writeTimeout = Kafka_WriteTimeout c,
              oa_readTimeout = Kafka_ReadTimeout c, oa_tokenProvider = tokenProvider\<rparr>,
           cl_dialAddressMapping = dialAddressMapping\<rparr>)))"

subsection \<open>\<open>handleConn\<close>\<close>

definition dial_address :: "'s Client \<Rightarrow> string \<Rightarrow> string" where
  "dial_address c brokerAddress =
     (case map_of (cl_dialAddressMapping c) brokerAddress of
        Some addressMapping \<Rightarrow> dm_DestinationAddress addressMapping
      | None \<Rightarrow> brokerAddress)"

definition client_DialAndAuth :: "'s Client \<Rightarrow> string \<Rightarrow> ('s up, conn \<times> 64 word) action" where
  "client_DialAndAuth c = DialAndAuth (cl_dialer c) (Kafka_SASL_Enable (cl_config c)) (cl_saslAuthByProxy c)"

definition local_desc :: "Conn \<Rightarrow> string" where
  "local_desc conn = ''local connection on '' @ Conn_LocalAddr conn @ '' from '' @ Conn_RemoteAddr conn
     @ '' ('' @ Conn_BrokerAddress conn @ '')''"

definition tcp_options :: "'s Client \<Rightarrow> (conn \<Rightarrow> (tcp_call \<Rightarrow> ('s, unit) action) option) \<Rightarrow> conn \<Rightarrow> 's up \<Rightarrow> 's up" where
  "tcp_options c tcp server u =
     (case tcp server of
        None \<Rightarrow> u
      | Some calls \<Rightarrow> snd (up_outside (setTCPConnOptions (cl_tcpConnOptions c) calls) u))"

text \<open>
  A session: \<open>Add\<close>, \<open>copyThenClose\<close> under a schedule, \<open>Remove\<close>.  Nothing is its result as long as the
  copying goes on.  The set is shared: \<open>others\<close> are the calls of other sessions meanwhile.
\<close>

definition session_copying ::
  "'s Client \<Rightarrow> bool list \<Rightarrow> Conn \<Rightarrow> conn \<Rightarrow> 64 word \<Rightarrow> 's up \<Rightarrow> unit result option \<times> 's copying" where
  "session_copying c sched conn server sessionLifetimeMs u =
     (let cfg = (cl_processorConfig c)\<lparr>pc_InitialSessionLifetimeMs := sessionLifetimeMs,
            pc_SaslAuthByProxy := Some (cl_saslAuthByProxy c)\<rparr>;
          clock = up_clock u
      in copyThenClose cfg server (Conn_stream conn) (Conn_BrokerAddress conn) (local_desc conn) sched
           (ck_times clock (ck_ticks clock)) (clock\<lparr>ck_ticks := Suc (ck_ticks clock)\<rparr>) (up_world u))"

text \<open>What the copying did to the outside, and how often it closed the two connections.\<close>

definition after_copying :: "'s copying \<Rightarrow> 's up \<Rightarrow> 's up" where
  "after_copying \<kappa> u = u\<lparr>up_clock := ps_clock (cp_state \<kappa>), up_world := ps_ext (cp_state \<kappa>),
     up_closed := up_closed u @ replicate (td_remote_closed (cp_teardown \<kappa>)) (ps_broker (cp_state \<kappa>))\<rparr>"

definition run_session ::
  "'s Client \<Rightarrow> (nat \<Rightarrow> string) \<Rightarrow> bool list \<Rightarrow> nat tracking list \<Rightarrow> Conn \<Rightarrow> conn \<Rightarrow> 64 word \<Rightarrow> 's proxy_state
    \<Rightarrow> unit result option \<times> 's proxy_state" where
  "run_session c show_conn sched others conn server sessionLifetimeMs \<sigma> =
     (let conns = after_calls show_conn others
            (ConnSet_Add (Conn_BrokerAddress conn) (Conn_LocalConnection conn) (px_conns \<sigma>))
      in case session_copying c sched conn server sessionLifetimeMs (px_up \<sigma>) of
           (r, \<kappa>) \<Rightarrow>
             (r, \<lparr>px_up = after_copying \<kappa> (px_up \<sigma>),
                  px_conns = (if r = Some (Inr ())
                    then snd (ConnSet_Remove show_conn (Conn_BrokerAddress conn) (Conn_LocalConnection conn) conns)
                    else conns),
                  px_local_closed = px_local_closed \<sigma> @
                    replicate (td_local_closed (cp_teardown \<kappa>)) (Conn_LocalConnection conn)\<rparr>))"

definition handleConn ::
  "'s Client \<Rightarrow> (conn \<Rightarrow> (tcp_call \<Rightarrow> ('s, unit) action) option) \<Rightarrow> (nat \<Rightarrow> string) \<Rightarrow> bool list
    \<Rightarrow> nat tracking list \<Rightarrow> Conn
    \<Rightarrow> 's proxy_state \<Rightarrow> unit result option \<times> 's proxy_state" where
  "handleConn c tcp show_conn sched others conn \<sigma> =
     (case client_DialAndAuth c (dial_address c (Conn_BrokerAddress conn)) (px_up \<sigma>) of
        (Inl (GoErr e), u) \<Rightarrow>
          (Some (Inr ()), \<sigma>\<lparr>px_up := u, px_conns := after_calls show_conn others (px_conns \<sigma>), px_local_closed := px_local_closed \<sigma> @ [Conn_LocalConnection conn]\<rparr>)
      | (Inl (GoPanic msg), u) \<Rightarrow> (Some (Inl (GoPanic msg)), \<sigma>\<lparr>px_up := u, px_conns := after_calls show_conn others (px_conns \<sigma>)\<rparr>)
      | (Inr (server, sessionLifetimeMs), u) \<Rightarrow>
          run_session c show_conn sched others conn server sessionLifetimeMs (\<sigma>\<lparr>px_up := tcp_options c tcp server u\<rparr>))"

subsection \<open>\<open>Run\<close>\<close>

text \<open>
  What the \<open>select\<close> of the loop receives, in order.  \<open>Run\<close> returns the connections that it handed to
  goroutines of their own and whether it returned; \<open>conns\<close> is what is in the set then.
\<close>

datatype run_event = Accepted Conn | Stopped

fun client_Run ::
  "(nat \<Rightarrow> ('s, unit) action) \<Rightarrow> (gofail \<Rightarrow> string) \<Rightarrow> nat connset \<Rightarrow> run_event list \<Rightarrow> 's \<Rightarrow> (Conn list \<times> bool) \<times> 's" where
  "client_Run close show_err conns [] \<sigma> = (([], False), \<sigma>)"
| "client_Run close show_err conns (Accepted conn # evs) \<sigma> =
     (case client_Run close show_err conns evs \<sigma> of ((started, stopped), \<sigma>') \<Rightarrow> ((conn # started, stopped), \<sigma>'))"
| "client_Run close show_err conns (Stopped # evs) \<sigma> =
     (case ConnSet_Close close show_err conns \<sigma> of (_, \<sigma>') \<Rightarrow> (([], True), \<sigma>'))"

end
