(* ===== verification/ClientProps.thy ===== *)
theory ClientProps
  imports Client SaslProps
begin

section \<open>Connections of the client: theorems\<close>

text \<open>
  That a client connection ends, what is left of it then, where a client dials and what it closes
  when it is stopped.
\<close>

subsection \<open>Dialing\<close>

text \<open>
  C17: A connection to a broker that cannot be used is closed.  Whatever the configuration asks for
  (TLS, SASL), when \<open>DialAndAuth\<close> returns an error every connection it opened is closed, and when
  it succeeds exactly the one it returns is open.
\<close>

theorem failed_dial_leaves_nothing_open:
  assumes "newDialer env c tlsConfigFunc \<sigma>0 = (Inr dialer, \<sigma>1)"
    and "DialAndAuth dialer enabled sasl addr \<sigma> = (r, \<sigma>')" "\<not> is_panic r"
  shows "unclosed \<sigma>' = unclosed \<sigma> + (case r of Inl _ \<Rightarrow> 0 | Inr _ \<Rightarrow> 1)"
  using assms(2,3) balancedD [OF DialAndAuth_balanced [OF newDialer_balanced [OF assms(1)]]]
  by (cases r; cases "projl r") auto

lemma NewClient_dialer:
  assumes "NewClient env cfg mapping tp \<sigma>0 = (Inr c, \<sigma>1)"
  shows "balanced 0 (cl_dialer c a)" "Kafka_SASL_Enable cfg" "cl_config c = cfg"
    "getAddressToDialAddressMapping cfg = Inr (cl_dialAddressMapping c)"
  using assms newDialer_balanced
  by (auto simp: NewClient_def abind_Inr_conv split: option.split_asm if_split_asm)

lemma dial_mappings_settled:
  "case getAddressToDialAddressMapping cfg of
     Inr m \<Rightarrow> consistent_dial_mappings (Proxy_DialAddressMappings cfg)
       \<and> map_of m a = find (\<lambda>v. dm_SourceAddress v = a) (Proxy_DialAddressMappings cfg)
   | Inl _ \<Rightarrow> \<not> consistent_dial_mappings (Proxy_DialAddressMappings cfg)"
proof -
  let ?vs = "Proxy_DialAddressMappings cfg"
  have settled: "settled dm_SourceAddress dial_entry ?vs [] a = find (\<lambda>v. dm_SourceAddress v = a) ?vs" for a
    by (simp add: settled_def dial_entry_def split: option.split)
  have "addable dm_SourceAddress dial_clash dial_entry ?vs [] \<longleftrightarrow> consistent_dial_mappings ?vs" (is "?l = ?r")
  proof
    assume ?l
    then have 1: "\<exists>c. find (\<lambda>w. dm_SourceAddress w = dm_SourceAddress v) ?vs = Some c
        \<and> dm_DestinationAddress c = dm_DestinationAddress v" if "v \<in> set ?vs" for v
      using that by (auto simp: addable_def settled dial_clash_def split: if_splits)
    show ?r
      unfolding consistent_dial_mappings_def
    proof (intro ballI impI)
      fix v w assume vw: "v \<in> set ?vs" "w \<in> set ?vs" "dm_SourceAddress v = dm_SourceAddress w"
      from 1 [OF vw(1)] 1 [OF vw(2)] show "dm_DestinationAddress v = dm_DestinationAddress w"
        by (auto simp: vw(3))
    qed
  next
    assume r: ?r
    show ?l
      unfolding addable_def settled
    proof
      fix v assume v: "v \<in> set ?vs"
      then obtain c where c: "find (\<lambda>w. dm_SourceAddress w = dm_SourceAddress v) ?vs = Some c"
        by (cases "find (\<lambda>w. dm_SourceAddress w = dm_SourceAddress v) ?vs") (auto simp: find_None_iff)
      then have "c \<in> set ?vs" "dm_SourceAddress c = dm_SourceAddress v" by (auto simp: find_Some_iff)
      moreover from this r v have "dm_DestinationAddress c = dm_DestinationAddress v"
        unfolding consistent_dial_mappings_def by blast
      ultimately show "\<exists>c. find (\<lambda>w. dm_SourceAddress w = dm_SourceAddress v) ?vs = Some c \<and> dial_clash v c = None"
        using c by (simp add: dial_clash_def)
    qed
  qed
  with dial_mappings.add_all_settled [of "[]" ?vs] consider
      m where "consistent_dial_mappings ?vs" "getAddressToDialAddressMapping cfg = Inr m"
        "map_of m = settled dm_SourceAddress dial_entry ?vs []"
    | e where "\<not> consistent_dial_mappings ?vs" "getAddressToDialAddressMapping cfg = Inl (GoErr e)"
    unfolding getAddressToDialAddressMapping_def by (cases "consistent_dial_mappings ?vs") auto
  then show ?thesis by cases (simp_all add: settled)
qed

text \<open>
  C34: A client authenticates every connection and dials where the mappings say.  \<open>NewClient\<close>
  returns a client only if SASL is enabled and the dial mappings with one source address have one
  destination; the client then dials the destination of the first mapping for the broker
  address, and the address itself if there is none.
\<close>

theorem client_dials_as_configured:
  assumes "NewClient env cfg mapping tp \<sigma>0 = (Inr c, \<sigma>1)"
  shows "client_DialAndAuth c = DialAndAuth (cl_dialer c) True (cl_saslAuthByProxy c)
    \<and> consistent_dial_mappings (Proxy_DialAddressMappings cfg)
    \<and> dial_address c a =
        (case find (\<lambda>v. dm_SourceAddress v = a) (Proxy_DialAddressMappings cfg) of
           Some v \<Rightarrow> dm_DestinationAddress v
         | None \<Rightarrow> a)"
  using NewClient_dialer [OF assms] dial_mappings_settled [of cfg a]
  by (simp add: fun_eq_iff client_DialAndAuth_def dial_address_def)

subsection \<open>Connections end\<close>



subsection \<open>Nothing is left of a connection\<close>

lemma tcp_options_unclosed: "unclosed (tcp_options c tcp server u) = unclosed u"
  using outside_keeps(1) by (auto simp: tcp_options_def keeps_def split: option.split)

lemma run_session_ends:
  assumes "run_session c show_conn sched others conn server ms \<sigma> = (Some (Inr ()), \<sigma>')"
    and "connset_ok (px_conns \<sigma>)" "Ends (Conn_BrokerAddress conn) (Conn_LocalConnection conn) \<notin> set others"
  shows "connset_ok (px_conns \<sigma>') \<and> pairs (px_conns \<sigma>') = track_pairs others (pairs (px_conns \<sigma>))
    \<and> px_local_closed \<sigma>' = px_local_closed \<sigma> @ [Conn_LocalConnection conn]
    \<and> unclosed (px_up \<sigma>') = unclosed (px_up \<sigma>) - 1"
proof -
  let ?i = "Conn_BrokerAddress conn" and ?c = "Conn_LocalConnection conn"
  let ?m = "after_calls show_conn others (ConnSet_Add ?i ?c (px_conns \<sigma>))"
  note add = ConnSet_Add_pairs [OF assms(2), of ?i ?c]
  note m = after_calls_track [OF add(1), of show_conn others, unfolded add(2) track_pairs_around [OF assms(3)]]
  obtain m' where r: "ConnSet_Remove show_conn ?i ?c ?m = (Inr (), m')"
    and m': "connset_ok m'" "pairs m' = track_pairs others (pairs (px_conns \<sigma>))"
    using ConnSet_Remove_present [OF m(1), of ?i ?c show_conn] m(2) by auto
  obtain \<kappa> where k: "session_copying c sched conn server ms (px_up \<sigma>) = (Some (Inr ()), \<kappa>)"
    and s: "px_up \<sigma>' = after_copying \<kappa> (px_up \<sigma>)" "px_conns \<sigma>' = m'"
      "px_local_closed \<sigma>' = px_local_closed \<sigma> @ replicate (td_local_closed (cp_teardown \<kappa>)) ?c"
    using assms(1) r by (auto simp: run_session_def Let_def split: prod.split_asm)
  from copyThenClose_closes [OF k [unfolded session_copying_def Let_def]] m' show ?thesis
    by (simp add: s after_copying_def closed_once_def unclosed_def)
qed

text \<open>
  C8: Nothing is left of a connection that ended.  Whether the broker could not be reached or the
  session was cut short on either side, in any interleaving of its loops, and whatever other
  sessions did to the connection set meanwhile: when \<open>handleConn\<close> returns, the client's connection
  was closed once, every connection to a broker that it opened is closed, and the connection set
  holds what the other sessions have made of it.
\<close>

theorem ended_connection_cleaned_up:
  assumes "NewClient env cfg mapping tp \<sigma>0 = (Inr c, \<sigma>1)"
    and "handleConn c tcp show_conn sched others conn \<sigma> = (Some (Inr ()), \<sigma>')"
    and "connset_ok (px_conns \<sigma>)" "Ends (Conn_BrokerAddress conn) (Conn_LocalConnection conn) \<notin> set others"
  shows "px_local_closed \<sigma>' = px_local_closed \<sigma> @ [Conn_LocalConnection conn]
    \<and> unclosed (px_up \<sigma>') = unclosed (px_up \<sigma>)
    \<and> connset_ok (px_conns \<sigma>') \<and> pairs (px_conns \<sigma>') = track_pairs others (pairs (px_conns \<sigma>))"
proof -
  obtain r u where d: "client_DialAndAuth c (dial_address c (Conn_BrokerAddress conn)) (px_up \<sigma>) = (r, u)"
    by (metis surj_pair)
  have bal: "balanced 0 (client_DialAndAuth c (dial_address c (Conn_BrokerAddress conn)))"
    unfolding client_DialAndAuth_def by (intro DialAndAuth_balanced NewClient_dialer(1) [OF assms(1)])
  show ?thesis
  proof (cases r)
    case (Inl f)
    with assms(2,3) balancedD(2) [OF bal] d show ?thesis
      by (cases f) (auto simp: handleConn_def after_calls_track)
  next
    case (Inr x)
    obtain server ms where x: "x = (server, ms)" by force
    with assms(2) d Inr have
      "run_session c show_conn sched others conn server ms (\<sigma>\<lparr>px_up := tcp_options c tcp server u\<rparr>) = (Some (Inr ()), \<sigma>')"
      by (simp add: handleConn_def)
    from run_session_ends [OF this] assms(3,4) balancedD(1) [OF bal d [unfolded Inr]] show ?thesis
      by (simp add: tcp_options_unclosed)
  qed
qed

subsection \<open>Stopping\<close>

text \<open>
  C35: Stopping the client closes every open connection.  \<open>Run\<close> hands every connection that it
  receives before it is stopped to a goroutine; then it tries to close each connection in the
  set, as often as it is there, even if closing others fails, and returns.
\<close>

theorem stopping_closes_connections:
  assumes "\<And>c \<sigma>. log (snd (close c \<sigma>)) = log \<sigma> @ [c]"
  shows "\<exists>closed \<sigma>'. client_Run close show_err conns (map Accepted cs @ Stopped # evs) \<sigma> = ((cs, True), \<sigma>')
    \<and> log \<sigma>' = log \<sigma> @ closed \<and> mset closed = image_mset snd (pairs conns)"
proof (induction cs)
  case Nil
  show ?case
    using ConnSet_Close_closes [where log = log and close = close, OF assms, of show_err conns \<sigma>]
    by (auto simp: mset_pairs split: prod.splits)
qed (auto split: prod.splits)

subsection \<open>Samples\<close>

text \<open>A broker that accepts the client's token and then closes the connection, and whose TLS handshake fails.\<close>

definition sample_net :: "nat net_env" where
  "sample_net = \<lparr>ne_net = (\<lambda>_ _ _. aret (w_conn sample_wire)), ne_tlsConfig = (\<lambda>_. aret (aret (Some ''kafka''))),
     ne_tlsClient = (\<lambda>_ c. c), ne_handshake = aerr IoEOF\<rparr>"

definition sample_up :: "nat up" where
  "sample_up = \<lparr>up_clock = sample_clock, up_opened = 0, up_closed = [], up_world = 0\<rparr>"

definition tls_client_config :: Config where
  "tls_client_config = NewConfig\<lparr>Kafka_SASL_Enable := True, Kafka_TLS_Enable := True, Kafka_ClientID := ''kp'',
     Kafka_WriteTimeout := 30000000000, Kafka_ReadTimeout := 30000000000,
     Proxy_DialAddressMappings := [\<lparr>dm_SourceAddress = ''b:1'', dm_DestinationAddress = ''broker:9092''\<rparr>]\<rparr>"

definition plain_client_config :: Config where
  "plain_client_config = tls_client_config\<lparr>Kafka_TLS_Enable := False\<rparr>"

definition sample_client_of :: "Config \<Rightarrow> nat Client" where
  "sample_client_of cfg = projr (fst (NewClient sample_net cfg (\<lambda>h p b. aret (h, p)) (Some (oa_tokenProvider sample_oauth)) sample_up))"

lemmas config_samples = tls_client_config_def plain_client_config_def NewConfig_def

lemma sample_dialer:
  "newDialer sample_net tls_client_config (Some (aret (Some ''kafka''))) sample_up =
    (Inr (tlsDialer_Dial sample_net (Kafka_DialTimeout tls_client_config)
       (directDialer_Dial sample_net (Kafka_DialTimeout tls_client_config) (Kafka_KeepAlive tls_client_config))
       (aret (Some ''kafka''))), sample_up)"
  by (simp add: newDialer_def Let_def up_outside_def zoom_def aret_def abind_def config_samples)

definition failed_dial :: "nat up" where
  "failed_dial = snd (DialAndAuth (tlsDialer_Dial sample_net (Kafka_DialTimeout tls_client_config)
       (directDialer_Dial sample_net (Kafka_DialTimeout tls_client_config) (Kafka_KeepAlive tls_client_config))
       (aret (Some ''kafka''))) True (oauth_by_proxy sample_oauth) ''b:1'' sample_up)"

lemma sample_failed_dial:
  "DialAndAuth (tlsDialer_Dial sample_net (Kafka_DialTimeout tls_client_config)
       (directDialer_Dial sample_net (Kafka_DialTimeout tls_client_config) (Kafka_KeepAlive tls_client_config))
       (aret (Some ''kafka''))) True (oauth_by_proxy sample_oauth) ''b:1'' sample_up
     = (Inl (GoErr IoEOF), failed_dial)"
proof -
  have a: "net_SplitHostPort ''b:1'' = Inr (''b'', ''1'')" by code_simp
  have "fst (DialAndAuth (tlsDialer_Dial sample_net (Kafka_DialTimeout tls_client_config)
       (directDialer_Dial sample_net (Kafka_DialTimeout tls_client_config) (Kafka_KeepAlive tls_client_config))
       (aret (Some ''kafka''))) True (oauth_by_proxy sample_oauth) ''b:1'' sample_up) = Inl (GoErr IoEOF)"
    by (simp add: DialAndAuth_def tlsDialer_Dial_def directDialer_Dial_def a up_outside_def up_now_def zoom_def
        aret_def aerr_def abind_def sample_net_def sample_up_def or_close_def close_on_error_def up_close_def
        amod_def clock_now_def SetDeadline_def deadline_call_def sample_wire_def sample_conn_def Let_def)
  then show ?thesis by (simp add: failed_dial_def prod_eq_iff)
qed

lemma failed_dial_leaves_nothing_open_witness:
  "unclosed failed_dial = unclosed sample_up"
  using failed_dial_leaves_nothing_open [OF sample_dialer sample_failed_dial] by simp

lemma sample_mapping:
  "getAddressToDialAddressMapping plain_client_config =
     Inr [(''b:1'', \<lparr>dm_SourceAddress = ''b:1'', dm_DestinationAddress = ''broker:9092''\<rparr>)]"
  by (simp add: getAddressToDialAddressMapping_def config_samples dial_entry_def)

lemma sample_client:
  "NewClient sample_net plain_client_config (\<lambda>h p b. aret (h, p)) (Some (oa_tokenProvider sample_oauth)) sample_up
    = (Inr (sample_client_of plain_client_config), sample_up)"
  by (simp add: sample_client_of_def NewClient_def newDialer_def Let_def sample_mapping)
    (simp add: config_samples aret_def abind_def)

lemma client_dials_as_configured_witness:
  "client_DialAndAuth (sample_client_of plain_client_config) =
      DialAndAuth (cl_dialer (sample_client_of plain_client_config)) True (cl_saslAuthByProxy (sample_client_of plain_client_config))
    \<and> consistent_dial_mappings (Proxy_DialAddressMappings plain_client_config)
    \<and> dial_address (sample_client_of plain_client_config) ''b:1'' = ''broker:9092''"
  using client_dials_as_configured [OF sample_client, of "''b:1''"] by (simp add: config_samples)

lemma stopping_closes_connections_witness:
  "\<exists>closed \<sigma>'. client_Run (\<lambda>c \<sigma>. (Inl (GoErr IoEOF), \<sigma> @ [c])) (\<lambda>_. ''err'') [(''b:1'', [7, 8 :: nat])] (map Accepted [] @ Stopped # []) []
      = (([], True), \<sigma>') \<and> \<sigma>' = [] @ closed \<and> mset closed = image_mset snd (pairs [(''b:1'', [7, 8 :: nat])])"
  by (rule stopping_closes_connections [where log = "\<lambda>l. l"]) simp

text \<open>A session that the broker ends.\<close>

definition sample_Conn :: Conn where
  "sample_Conn = \<lparr>Conn_BrokerAddress = ''b:1'', Conn_LocalConnection = 7, Conn_stream = sample_conn [],
     Conn_LocalAddr = ''127.0.0.1:1'', Conn_RemoteAddr = ''127.0.0.1:2''\<rparr>"

definition sample_proxy :: "nat proxy_state" where
  "sample_proxy = \<lparr>px_up = sample_up, px_conns = NewConnSet, px_local_closed = []\<rparr>"

definition authenticated_conn :: conn where
  "authenticated_conn = (w_conn sample_authenticated)\<lparr>cn_readDeadline := None, cn_writeDeadline := None\<rparr>"

lemma authenticated_calm:
  "src_events (cn_in (w_conn sample_authenticated)) = []" "cn_deadlineErrs (w_conn sample_authenticated) = []"
proof -
  have "\<exists>w'. sendAndReceiveSASLAuth sample_oauth ''broker:9092'' sample_wire = (Inr 3600000, w') \<and> wire_calm [] w'"
    using wp_succeeds [OF sendAndReceiveSASLAuth_calm [OF sample_authentication(1) sample_token(1) _ _
      oauth_encodes(1) [OF sample_token(2)] _ sample_authentication(2,3,4) _ sample_authentication(5),
      where addr = "''broker:9092''"]] oauth_encodes(2) [OF sample_token(2)] by auto
  with sample_authenticated have "wire_calm [] sample_authenticated" by auto
  then show "src_events (cn_in (w_conn sample_authenticated)) = []" "cn_deadlineErrs (w_conn sample_authenticated) = []"
    by (auto simp: wire_calm_def clean_def pending_def list_all_iff split: revent.splits) (metis list.set_intros(1) neq_Nil_conv revent.exhaust)
qed

lemma sample_dial:
  "\<exists>u. client_DialAndAuth (sample_client_of plain_client_config) ''broker:9092'' sample_up = (Inr (authenticated_conn, 3600000), u)"
proof -
  have sasl: "cl_saslAuthByProxy (sample_client_of plain_client_config) = oauth_by_proxy sample_oauth"
    "cl_dialer (sample_client_of plain_client_config) = directDialer_Dial sample_net
       (Kafka_DialTimeout plain_client_config) (Kafka_KeepAlive plain_client_config)"
    "cl_config (sample_client_of plain_client_config) = plain_client_config"
    by (simp_all add: sample_client_of_def NewClient_def newDialer_def Let_def sample_mapping)
      (simp_all add: config_samples sample_oauth_def aret_def)
  have enabled: "Kafka_SASL_Enable plain_client_config" by (simp add: config_samples)
  have wire: "\<lparr>w_conn = w_conn sample_wire, w_clock = sample_clock, w_ext = 0\<rparr> = sample_wire"
    by (simp add: sample_wire_def)
  have deadline: "SetDeadline None (w_conn sample_wire) = (Inr (), w_conn sample_wire)"
    by (simp add: SetDeadline_def deadline_call_def abind_def amod_def sample_wire_def sample_conn_def)
  have deadline2: "SetDeadline None (w_conn sample_authenticated) = (Inr (), authenticated_conn)"
    by (simp add: SetDeadline_def deadline_call_def abind_def amod_def authenticated_calm authenticated_conn_def)
  show ?thesis
    using sample_authenticated
    by (simp add: client_DialAndAuth_def sasl DialAndAuth_def directDialer_Dial_def sample_net_def sample_up_def
        up_outside_def zoom_def abind_def aret_def amod_def or_close_def deadline auth_broker_def on_wire_def wire
        oauth_by_proxy_def deadline2 enabled)
qed

lemma sample_session_ends:
  "\<exists>\<sigma>'. handleConn (sample_client_of plain_client_config) (\<lambda>_. None) (\<lambda>_. ''c'') [False] [Opens ''b:2'' 8] sample_Conn sample_proxy
    = (Some (Inr ()), \<sigma>')"
proof -
  have a: "dial_address (sample_client_of plain_client_config) ''b:1'' = ''broker:9092''"
    by (simp add: dial_address_def NewClient_dialer(4) [OF sample_client, unfolded sample_mapping, symmetric, simplified])
  obtain u where u: "client_DialAndAuth (sample_client_of plain_client_config) ''broker:9092'' sample_up
      = (Inr (authenticated_conn, 3600000), u)" using sample_dial by blast
  have "\<exists>\<kappa>. session_copying (sample_client_of plain_client_config) [False] sample_Conn authenticated_conn 3600000 u
      = (Some (Inr ()), \<kappa>)"
    by (simp add: session_copying_def copyThenClose_def responses_turn_def responsesLoop_turn_def new_pstate_def
        getNextResponseHandler_def on_nextResponse_def chan_get_def flag_def zoom_def abind_def
        DefaultResponseHandler_handleResponse_def zooms SetReadDeadline_def SetWriteDeadline_def deadline_call_def
        amod_def authenticated_conn_def authenticated_calm sample_Conn_def sample_conn_def read_full_def
        read_full_loop.simps src_read_def aret_def on_exit_def responses_exit_def loop_exit_error Let_def)
  then show ?thesis
    by (auto simp: handleConn_def sample_Conn_def sample_proxy_def a u tcp_options_def run_session_def Let_def)
qed

definition after_sample_session :: "nat proxy_state" where
  "after_sample_session = snd (handleConn (sample_client_of plain_client_config) (\<lambda>_. None) (\<lambda>_. ''c'') [False]
     [Opens ''b:2'' 8] sample_Conn sample_proxy)"

lemma ended_connection_cleaned_up_witness:
  "px_local_closed after_sample_session = [7] \<and> unclosed (px_up after_sample_session) = 0
    \<and> connset_ok (px_conns after_sample_session) \<and> pairs (px_conns after_sample_session) = {#(''b:2'', 8)#}"
proof -
  from sample_session_ends have "handleConn (sample_client_of plain_client_config) (\<lambda>_. None) (\<lambda>_. ''c'') [False]
      [Opens ''b:2'' 8] sample_Conn sample_proxy = (Some (Inr ()), after_sample_session)"
    by (auto simp: after_sample_session_def)
  from ended_connection_cleaned_up [OF sample_client this] show ?thesis
    by (simp add: sample_proxy_def NewConnSet_def sample_Conn_def unclosed_def sample_up_def track_pairs_def)
qed

end
