(* ===== verification/OAuthBearer.thy ===== *)
theory OAuthBearer
  imports SaslAuth
begin

section \<open>OAUTHBEARER messages\<close>

text \<open>
  The parsing half of \<open>proxy/sasl_oauthbearer.go\<close>.  The two regular expressions are matched by hand:
  in each, no repeated class holds a character that may follow it, so that the longest match of a
  repetition is the only one, and the match is found from left to right without backtracking.
  \<open>FindSubmatch\<close> tries every position of the text, as neither expression is anchored.
\<close>

subsection \<open>The expressions\<close>

definition in_range :: "nat \<Rightarrow> nat \<Rightarrow> char \<Rightarrow> bool" where
  "in_range a b c \<longleftrightarrow> a \<le> of_char c \<and> of_char c \<le> b"

definition letter :: "char \<Rightarrow> bool" where
  "letter c \<longleftrightarrow> in_range 0x41 0x5A c \<or> in_range 0x61 0x7A c"

definition digit :: "char \<Rightarrow> bool" where
  "digit c \<longleftrightarrow> in_range 0x30 0x39 c"

definition saslOauthSaslName_char :: "char \<Rightarrow> bool" where
  "saslOauthSaslName_char c \<longleftrightarrow> in_range 0x01 0x2B c \<or> in_range 0x2D 0x3C c \<or> in_range 0x3E 0x7F c"

definition saslOauthValue_char :: "char \<Rightarrow> bool" where
  "saslOauthValue_char c \<longleftrightarrow> in_range 0x21 0x7E c \<or> c \<in> set [CHR '' '', CHR 0x09, CHR 0x0D, CHR 0x0A]"

definition word_char :: "char \<Rightarrow> bool" where
  "word_char c \<longleftrightarrow> letter c \<or> digit c \<or> c = CHR ''_''"

definition token_char :: "char \<Rightarrow> bool" where
  "token_char c \<longleftrightarrow> letter c \<or> digit c \<or> c \<in> set ''-_.''"

text \<open>What a repetition consumes, and the rest.\<close>

fun match_saslName :: "string \<Rightarrow> string \<times> string" where
  "match_saslName [] = ([], [])"
| "match_saslName (c # cs) =
     (if saslOauthSaslName_char c then (case match_saslName cs of (w, r) \<Rightarrow> (c # w, r))
      else if c = CHR ''='' \<and> (take 2 cs = ''2C'' \<or> take 2 cs = ''3D'')
      then (case match_saslName (drop 2 cs) of (w, r) \<Rightarrow> (c # take 2 cs @ w, r))
      else ([], c # cs))"

definition match_kvpair :: "string \<Rightarrow> (string \<times> string) option" where
  "match_kvpair s =
     (let k = takeWhile letter s in
      case dropWhile letter s of
        [] \<Rightarrow> None
      | e # r \<Rightarrow>
          (let v = takeWhile saslOauthValue_char r in
           case dropWhile saslOauthValue_char r of
             [] \<Rightarrow> None
           | x # r' \<Rightarrow>
               if k \<noteq> [] \<and> e = CHR ''='' \<and> v \<noteq> [] \<and> x = saslOauthSeparator
               then Some (k @ e # v @ [x], r') else None))"

lemma match_kvpair_shorter: "match_kvpair s = Some (w, r) \<Longrightarrow> length r < length s"
proof -
  assume "match_kvpair s = Some (w, r)"
  then obtain e r1 x where "dropWhile letter s = e # r1" "dropWhile saslOauthValue_char r1 = x # r"
    by (auto simp: match_kvpair_def Let_def split: list.splits if_splits)
  then have "length (e # r1) \<le> length s" "length (x # r) \<le> length r1"
    by (metis length_dropWhile_le)+
  then show ?thesis by simp
qed

function match_kvpairs :: "string \<Rightarrow> string \<times> string" where
  "match_kvpairs s =
     (case match_kvpair s of
        None \<Rightarrow> ([], s)
      | Some (w, r) \<Rightarrow> (case match_kvpairs r of (ws, r') \<Rightarrow> (w @ ws, r')))"
  by pat_completeness auto
termination
  by (relation "measure length") (auto dest: match_kvpair_shorter)

declare match_kvpairs.simps [simp del]

text \<open>\<open>n,(a=(?P<authzid>...))?,\x01(?P<kvpairs>...)\x01\<close> at the start of a text.\<close>

definition saslOauthClientInitialResponse_at :: "string \<Rightarrow> (string \<times> string) option" where
  "saslOauthClientInitialResponse_at s =
     (if take 2 s \<noteq> ''n,'' then None
      else
        (let r = drop 2 s;
             (authzid, r1) = (if take 2 r = ''a='' then match_saslName (drop 2 r) else ([], r))
         in if take 2 r1 \<noteq> [CHR '','', saslOauthSeparator] \<or> (take 2 r = ''a='' \<and> authzid = []) then None
            else
              (case match_kvpairs (drop 2 r1) of
                 (kvpairs, after) \<Rightarrow> if take 1 after = [saslOauthSeparator] then Some (authzid, kvpairs) else None)))"

text \<open>\<open>(?P<scheme>\w+)[ ]+(?P<token>[-_.a-zA-Z0-9]+)\<close>\<close>

definition saslOauthAuth_at :: "string \<Rightarrow> (string \<times> string) option" where
  "saslOauthAuth_at s =
     (let scheme = takeWhile word_char s;
          r = dropWhile word_char s;
          token = takeWhile token_char (dropWhile (\<lambda>c. c = CHR '' '') r)
      in if scheme = [] \<or> take 1 r \<noteq> '' '' \<or> token = [] then None else Some (scheme, token))"

fun FindSubmatch :: "(string \<Rightarrow> 'm option) \<Rightarrow> string \<Rightarrow> 'm option" where
  "FindSubmatch match_at [] = match_at []"
| "FindSubmatch match_at (c # cs) =
     (case match_at (c # cs) of None \<Rightarrow> FindSubmatch match_at cs | Some m \<Rightarrow> Some m)"

subsection \<open>Parsing\<close>

definition to_lower :: "char \<Rightarrow> char" where
  "to_lower c = (if in_range 0x41 0x5A c then char_of (of_char c + 32 :: nat) else c)"

definition EqualFold :: "string \<Rightarrow> string \<Rightarrow> bool" where
  "EqualFold s t \<longleftrightarrow> map to_lower s = map to_lower t"

definition quoted :: "string \<Rightarrow> string" where
  "quoted s = [CHR 0x27] @ s @ [CHR 0x27]"

text \<open>Without a match the slice of the groups is empty: its use is out of range.\<close>

definition parseToken :: "string \<Rightarrow> string result" where
  "parseToken auth =
     (if auth = [] then Inl (GoErr (ErrNew (''invalid OAUTHBEARER initial client response: '' @ quoted ''auth'' @ '' not specified'')))
      else
        (case FindSubmatch saslOauthAuth_at auth of
           None \<Rightarrow> Inl (GoPanic ''runtime error: index out of range'')
         | Some (scheme, token) \<Rightarrow>
             if \<not> EqualFold scheme ''bearer''
             then Inl (GoErr (ErrNew (''invalid scheme in OAUTHBEARER initial client response: '' @ scheme)))
             else if token = []
             then Inl (GoErr (ErrNew (''invalid OAUTHBEARER initial client response: '' @ quoted ''token'' @ '' is missing'')))
             else Inr token))"

definition saslOauthAuthKey :: string where
  "saslOauthAuthKey = ''auth''"

definition GetClientInitialResponse :: "byte list \<Rightarrow> (string \<times> string \<times> (string \<rightharpoonup> string)) result" where
  "GetClientInitialResponse saslAuthBytes =
     (case FindSubmatch saslOauthClientInitialResponse_at (go_string saslAuthBytes) of
        None \<Rightarrow> Inl (GoErr (ErrNew (''invalid OAUTHBEARER initial client response: '' @ quoted ''saslAuthBytes'' @ '' parse error'')))
      | Some (authzid, kvpairs) \<Rightarrow>
          (let properties = parseMap kvpairs CHR ''='' saslOauthSeparator in
           rbind (parseToken (case properties saslOauthAuthKey of None \<Rightarrow> [] | Some auth \<Rightarrow> auth)) (\<lambda>token.
           Inr (token, authzid, properties(saslOauthAuthKey := None)))))"

subsection \<open>Maps of strings\<close>

text \<open>Entries that can be written as \<open>key=value\<close>: no separator in the wrong place.\<close>

definition plain_entry :: "char \<Rightarrow> char \<Rightarrow> string \<times> string \<Rightarrow> bool" where
  "plain_entry kvs els e \<longleftrightarrow> kvs \<notin> set (fst e) \<and> els \<notin> set (fst e) \<and> els \<notin> set (snd e)"

lemma parse_entries:
  "list_all (plain_entry kvs els) es \<Longrightarrow>
   foldl (\<lambda>m e. case go_cut kvs e of None \<Rightarrow> m | Some (k, v) \<Rightarrow> m(k \<mapsto> v)) m0
     (map (\<lambda>(k, v). go_join [k, v] kvs) es) = m0 ++ map_of (rev es)"
proof (induction es arbitrary: m0)
  case (Cons e es)
  obtain k v where e: "e = (k, v)" by force
  with Cons.prems have "go_cut kvs (k @ kvs # v) = Some (k, v)"
    by (simp add: plain_entry_def go_cut_join)
  with Cons e show ?case by simp
qed simp

lemma map_of_rev_distinct:
  assumes "distinct (map fst es)"
  shows "map_of (rev es) = map_of es"
  using assms by (intro map_of_inject_set [THEN iffD2]) (simp_all add: rev_map [symmetric])

lemma go_split_snoc: "go_split c (s @ [c]) = go_split c s @ [[]]"
  by (induction s) (auto split: list.splits)

lemma go_join_nonempty: "ws \<noteq> [] \<Longrightarrow> [] \<notin> set ws \<Longrightarrow> go_join ws c \<noteq> []"
  by (induction ws c rule: go_join.induct) auto

text \<open>
  \<open>parseMap\<close> of what \<open>mkString\<close> makes of the entries of a map, in whatever order they are visited, is
  the map again, also if a last separator follows.
\<close>

lemma parseMap_mkString:
  assumes "list_all (plain_entry kvs els) es" "distinct (map fst es)" "kvs \<noteq> els"
  shows "parseMap (mkString es kvs els) kvs els = map_of es"
    and "es \<noteq> [] \<Longrightarrow> parseMap (mkString es kvs els @ [els]) kvs els = map_of es"
proof -
  let ?ws = "map (\<lambda>(k, v). go_join [k, v] kvs) es"
  have "list_all (\<lambda>w. els \<notin> set w) ?ws"
    using assms(1,3) by (auto simp: list_all_iff plain_entry_def)
  then have sp: "go_split els (go_join ?ws els) = ?ws" if "es \<noteq> []"
    using that by (intro go_split_go_join) auto
  have ne: "go_join ?ws els \<noteq> []" if "es \<noteq> []"
    using that by (intro go_join_nonempty) auto
  have m: "Map.empty ++ map_of (rev es) = map_of es"
    using map_of_rev_distinct [OF assms(2)] by simp
  show "parseMap (mkString es kvs els) kvs els = map_of es"
    using sp ne m parse_entries [OF assms(1), of Map.empty]
    by (cases "es = []") (simp_all add: parseMap_def mkString_def)
  show "parseMap (mkString es kvs els @ [els]) kvs els = map_of es" if "es \<noteq> []"
    using sp ne m parse_entries [OF assms(1), of Map.empty] that
    by (simp add: parseMap_def mkString_def go_split_snoc)
qed

subsection \<open>Reading what \<open>ToBytes\<close> writes\<close>

lemma match_saslName_then:
  "match_saslName w = (w, []) \<Longrightarrow> match_saslName (w @ CHR '','' # r) = (w, CHR '','' # r)"
proof (induction w rule: match_saslName.induct)
  case 1
  show ?case by (simp add: saslOauthSaslName_char_def in_range_def)
next
  case (2 c cs)
  show ?case
  proof (cases "saslOauthSaslName_char c")
    case True
    with 2 show ?thesis by (auto split: prod.splits)
  next
    case False
    with 2 show ?thesis by (cases cs; cases "tl cs") (auto split: prod.splits if_splits)
  qed
qed

definition entry_text :: "string \<times> string \<Rightarrow> string" where
  "entry_text e = fst e @ CHR ''='' # snd e @ [saslOauthSeparator]"

definition readable_entry :: "string \<times> string \<Rightarrow> bool" where
  "readable_entry e \<longleftrightarrow> fst e \<noteq> [] \<and> list_all letter (fst e) \<and> snd e \<noteq> [] \<and> list_all saslOauthValue_char (snd e)"

lemma char_classes [simp]:
  "\<not> letter CHR ''=''" "\<not> saslOauthValue_char saslOauthSeparator" "\<not> letter saslOauthSeparator"
  by (simp_all add: letter_def saslOauthValue_char_def in_range_def saslOauthSeparator_def)

lemma readable_plain: "readable_entry e \<Longrightarrow> plain_entry CHR ''='' saslOauthSeparator e"
  using char_classes by (auto simp: readable_entry_def plain_entry_def list_all_iff)

lemma takeWhile_all: "list_all P k \<Longrightarrow> \<not> P c \<Longrightarrow> takeWhile P (k @ c # r) = k \<and> dropWhile P (k @ c # r) = c # r"
  by (induction k) auto

lemma match_kvpair_entry: "readable_entry e \<Longrightarrow> match_kvpair (entry_text e @ r) = Some (entry_text e, r)"
  using takeWhile_all [of letter "fst e" "CHR ''=''" "snd e @ saslOauthSeparator # r"]
    takeWhile_all [of saslOauthValue_char "snd e" saslOauthSeparator r]
  by (simp add: readable_entry_def match_kvpair_def entry_text_def Let_def)

lemma match_kvpairs_entries:
  "list_all readable_entry es \<Longrightarrow>
   match_kvpairs (concat (map entry_text es) @ [saslOauthSeparator]) = (concat (map entry_text es), [saslOauthSeparator])"
proof (induction es)
  case Nil
  show ?case by (subst match_kvpairs.simps) (simp add: match_kvpair_def)
next
  case (Cons e es)
  then show ?case by (subst match_kvpairs.simps) (simp add: match_kvpair_entry)
qed

lemma mkString_entries:
  "es \<noteq> [] \<Longrightarrow> mkString es CHR ''='' saslOauthSeparator @ [saslOauthSeparator] = concat (map entry_text es)"
proof (induction es)
  case (Cons e es)
  then show ?case
    by (cases es) (auto simp: mkString_def entry_text_def case_prod_beta)
qed simp

lemma FindSubmatch_first: "m s = Some x \<Longrightarrow> FindSubmatch m s = Some x"
  by (cases s) auto

text \<open>What a client may write: the account name, the token and the extensions.\<close>

definition readable_response :: "string \<Rightarrow> string \<Rightarrow> (string \<times> string) list \<Rightarrow> bool" where
  "readable_response token authzid es \<longleftrightarrow>
     token \<noteq> [] \<and> list_all token_char token \<and> match_saslName authzid = (authzid, [])
     \<and> list_all readable_entry es \<and> distinct (map fst es) \<and> saslOauthAuthKey \<notin> fst ` set es"

lemma parseToken_bearer:
  assumes "token \<noteq> []" "list_all token_char token"
  shows "parseToken (''Bearer '' @ token) = Inr token"
proof -
  obtain c t where token: "token = c # t" and c: "token_char c" using assms by (cases token) auto
  have "c \<noteq> CHR '' ''" using c by (auto simp: token_char_def letter_def digit_def in_range_def)
  moreover have "takeWhile token_char token = token" using assms(2) by (induction token) auto
  ultimately have "saslOauthAuth_at (''Bearer '' @ token) = Some (''Bearer'', token)"
    by (simp add: saslOauthAuth_at_def Let_def token word_char_def letter_def digit_def in_range_def)
  note m = FindSubmatch_first [of saslOauthAuth_at, OF this]
  have "EqualFold ''Bearer'' ''bearer''" by code_simp
  with assms(1) show ?thesis
    unfolding parseToken_def m by simp
qed

lemma ToBytes_text:
  "go_string (ToBytes token authzid es) =
     ''n,'' @ (if authzid = [] then [] else ''a='' @ authzid) @ [CHR '','', saslOauthSeparator]
       @ concat (map entry_text ((saslOauthAuthKey, ''Bearer '' @ token) # es)) @ [saslOauthSeparator]"
proof -
  have e: "es \<noteq> [] \<Longrightarrow> mkString es CHR ''='' saslOauthSeparator \<noteq> []"
    by (cases es; cases "tl es") (auto simp: mkString_def)
  have "(let x = mkString es CHR ''='' saslOauthSeparator in if x \<noteq> [] then saslOauthSeparator # x else x) @ [saslOauthSeparator]
      = saslOauthSeparator # concat (map entry_text es)"
    using mkString_entries [of es] e by (cases "es = []") (auto simp: Let_def mkString_def)
  then have x: "(let x = mkString es CHR ''='' saslOauthSeparator in if x \<noteq> [] then saslOauthSeparator # x else x) @ saslOauthSeparator # r
      = saslOauthSeparator # concat (map entry_text es) @ r" for r
    by (metis append.assoc append_Cons append_Nil)
  show ?thesis
    unfolding ToBytes_def Let_def go_string_bytes
    using x [of "[saslOauthSeparator]"] by (simp add: Let_def entry_text_def saslOauthAuthKey_def)
qed

lemma read_back_response:
  assumes "readable_response token authzid es"
  shows "GetClientInitialResponse (ToBytes token authzid es) = Inr (token, authzid, map_of es)"
proof -
  let ?auth = "(saslOauthAuthKey, ''Bearer '' @ token)"
  let ?es = "?auth # es"
  note r = assms [unfolded readable_response_def]
  have chars: "saslOauthValue_char c" if "token_char c" for c
  proof -
    have "in_range 0x21 0x7E c"
      using that unfolding token_char_def letter_def digit_def
      by (elim disjE) (simp_all add: in_range_def, auto)
    then show ?thesis by (simp add: saslOauthValue_char_def)
  qed
  have "readable_entry ?auth"
  proof -
    have "list_all letter ''auth''" "list_all saslOauthValue_char ''Bearer ''" by code_simp+
    moreover have "list_all saslOauthValue_char token" using r chars by (simp add: list_all_iff)
    ultimately show ?thesis unfolding readable_entry_def saslOauthAuthKey_def by simp
  qed
  with r have es: "list_all readable_entry ?es" by simp
  have plain: "list_all (plain_entry CHR ''='' saslOauthSeparator) ?es"
    using es readable_plain by (auto simp: list_all_iff)
  have m: "saslOauthClientInitialResponse_at (go_string (ToBytes token authzid es)) = Some (authzid, concat (map entry_text ?es))"
    using match_kvpairs_entries [OF es] match_saslName_then [of authzid] r
    by (cases "authzid = []") (simp_all add: ToBytes_text saslOauthClientInitialResponse_at_def Let_def)
  have p: "parseMap (concat (map entry_text ?es)) CHR ''='' saslOauthSeparator = map_of ?es"
    using parseMap_mkString(2) [OF plain] mkString_entries [of ?es] r by (simp add: saslOauthSeparator_def)
  have "(map_of ?es)(saslOauthAuthKey := None) = map_of es"
    using r map_of_eq_None_iff [of es saslOauthAuthKey] by (simp add: fun_eq_iff)
  with FindSubmatch_first [of saslOauthClientInitialResponse_at, OF m] p parseToken_bearer [of token] r show ?thesis
    by (simp add: GetClientInitialResponse_def Let_def)
qed

text \<open>
  C26: A bearer token gets through.  What \<open>ToBytes\<close> writes for a token, an account and extensions that
  the grammar of the message allows is read back by \<open>GetClientInitialResponse\<close>, whatever the order
  of the extensions.
\<close>

theorem initial_response_roundtrip:
  assumes "readable_response token authzid es"
  shows "GetClientInitialResponse (ToBytes token authzid es) = Inr (token, authzid, map_of es)"
  using read_back_response [OF assms] .

lemma initial_response_roundtrip_witness:
  "GetClientInitialResponse (ToBytes ''ya29.a_b-c'' ''svc=2Cx'' [(''traceId'', ''a=b 1'')]) =
     Inr (''ya29.a_b-c'', ''svc=2Cx'', map_of [(''traceId'', ''a=b 1'')])"
  by (rule initial_response_roundtrip) code_simp

text \<open>
  An authentication without a token is a panic, not an error.  If no word in the \<open>auth\<close> value is
  followed by spaces and a token, \<open>parseToken\<close> reads a group of a match that was not made.
\<close>

theorem auth_without_token_panics:
  "parseToken ''Bearer'' = Inl (GoPanic ''runtime error: index out of range'')
   \<and> is_panic (GetClientInitialResponse
       (go_bytes (''n,,'' @ [saslOauthSeparator] @ ''auth=Bearer'' @ [saslOauthSeparator, saslOauthSeparator])))"
  by code_simp

end
