(* ===== verification/TokenProvider.thy ===== *)
theory TokenProvider
  imports OAuthBearer "HOL-Library.List_Lexorder" "HOL-Library.Char_ord"
begin

section \<open>The Google access token provider\<close>

text \<open>
  \<open>pkg/libs/google-access-token-provider\<close>: the token provider that \<open>Run\<close> takes from the registry.  It
  wraps an access token into the envelope that the brokers expect: three parts in base64url,
  separated by dots.  Of Go's library the theory has \<open>base64.RawURLEncoding\<close> and what
  \<open>json.Marshal\<close> makes of maps of strings and numbers.

  The sources of tokens and of the account (\<open>golang.org/x/oauth2\<close>, the metadata service, the file
  system with \<open>json.Unmarshal\<close> on the credentials) are the parameters of \<open>google_env\<close>, with the
  clock, as actions on the outside.  \<open>far\<close> writes the numbers that a double does not hold exactly.
\<close>

subsection \<open>\<open>base64.RawURLEncoding\<close>\<close>

definition base64url :: string where
  "base64url = ''ABCDEFGHIJKLMNOPQRSTUVWXYZabcdefghijklmnopqrstuvwxyz0123456789-_''"

text \<open>The groups of six bits, and the bytes of such groups.\<close>

fun sextets :: "nat list \<Rightarrow> nat list" where
  "sextets [] = []"
| "sextets [a] = [a div 4, (a mod 4) * 16]"
| "sextets [a, b] = [a div 4, (a mod 4) * 16 + b div 16, (b mod 16) * 4]"
| "sextets (a # b # c # bs) =
     [a div 4, (a mod 4) * 16 + b div 16, (b mod 16) * 4 + c div 64, c mod 64] @ sextets bs"

fun of_sextets :: "nat list \<Rightarrow> nat list option" where
  "of_sextets [] = Some []"
| "of_sextets [i] = None"
| "of_sextets [i, j] = Some [i * 4 + j div 16]"
| "of_sextets [i, j, k] = Some [i * 4 + j div 16, (j mod 16) * 16 + k div 4]"
| "of_sextets (i # j # k # l # ss) =
     map_option ((@) [i * 4 + j div 16, (j mod 16) * 16 + k div 4, (k mod 4) * 64 + l]) (of_sextets ss)"

definition base64_EncodeToString :: "byte list \<Rightarrow> string" where
  "base64_EncodeToString bs = map (nth base64url) (sextets (map unat bs))"

fun index_of :: "char \<Rightarrow> string \<Rightarrow> nat option" where
  "index_of c [] = None"
| "index_of c (x # xs) = (if x = c then Some 0 else map_option Suc (index_of c xs))"

fun all_some :: "'a option list \<Rightarrow> 'a list option" where
  "all_some [] = Some []"
| "all_some (None # xs) = None"
| "all_some (Some x # xs) = map_option ((#) x) (all_some xs)"

definition base64_DecodeString :: "string \<Rightarrow> byte list option" where
  "base64_DecodeString s =
     (case all_some (map (\<lambda>c. index_of c base64url) s) of
        None \<Rightarrow> None
      | Some ss \<Rightarrow> map_option (map of_nat) (of_sextets ss))"

lemma byte_less: "unat (b :: byte) < 256"
  using unsigned_less [of b, where ?'a = nat] by simp

lemma length_base64url: "length base64url = 64"
  by (simp add: base64url_def)

lemma index_of_nth: "distinct xs \<Longrightarrow> i < length xs \<Longrightarrow> index_of (xs ! i) xs = Some i"
  by (induction xs arbitrary: i) (auto simp: nth_Cons split: nat.splits)

lemma distinct_base64url: "distinct base64url"
  by code_simp

lemma all_some_index: "list_all (\<lambda>i. i < 64) ss \<Longrightarrow> all_some (map (\<lambda>c. index_of c base64url) (map (nth base64url) ss)) = Some ss"
  by (induction ss) (simp_all add: index_of_nth [OF distinct_base64url] length_base64url)

lemma sextets_bound: "list_all (\<lambda>b. b < 256) bs \<Longrightarrow> list_all (\<lambda>i. i < 64) (sextets bs)"
  by (induction bs rule: sextets.induct) auto

lemma of_sextets_sextets: "list_all (\<lambda>b. b < 256) bs \<Longrightarrow> of_sextets (sextets bs) = Some bs"
  by (induction bs rule: sextets.induct) auto

lemma base64_roundtrip: "base64_DecodeString (base64_EncodeToString bs) = Some bs"
proof -
  have bytes: "list_all (\<lambda>b. b < 256) (map unat bs)"
    by (auto simp: list_all_iff byte_less)
  have "map (of_nat \<circ> unat) bs = bs" by (simp add: map_idI)
  then show ?thesis
    by (simp add: base64_DecodeString_def base64_EncodeToString_def all_some_index [OF sextets_bound [OF bytes], unfolded map_map]
        of_sextets_sextets [OF bytes])
qed

lemma base64_chars: "set (base64_EncodeToString bs) \<subseteq> set base64url"
proof -
  have "list_all (\<lambda>b. b < 256) (map unat bs)"
    by (auto simp: list_all_iff byte_less)
  from sextets_bound [OF this] show ?thesis
    by (auto simp: base64_EncodeToString_def list_all_iff length_base64url)
qed

subsection \<open>\<open>json.Marshal\<close>\<close>

definition cont_byte :: "nat \<Rightarrow> bool" where
  "cont_byte b \<longleftrightarrow> 0x80 \<le> b \<and> b \<le> 0xBF"

text \<open>The length of the UTF-8 sequence at the front; 0 if there is none.  (A zero continues no sequence.)\<close>

definition utf8_size :: "nat list \<Rightarrow> nat" where
  "utf8_size bs =
     (let n = length bs; bs = bs @ [0, 0, 0, 0]; b0 = bs ! 0; b1 = bs ! 1 in
      if n \<ge> 1 \<and> b0 < 0x80 then 1
      else if n \<ge> 2 \<and> 0xC2 \<le> b0 \<and> b0 \<le> 0xDF \<and> cont_byte b1 then 2
      else if n \<ge> 3 \<and> 0xE0 \<le> b0 \<and> b0 \<le> 0xEF \<and> (if b0 = 0xE0 then 0xA0 else 0x80) \<le> b1
        \<and> b1 \<le> (if b0 = 0xED then 0x9F else 0xBF) \<and> cont_byte (bs ! 2) then 3
      else if n \<ge> 4 \<and> 0xF0 \<le> b0 \<and> b0 \<le> 0xF4 \<and> (if b0 = 0xF0 then 0x90 else 0x80) \<le> b1
        \<and> b1 \<le> (if b0 = 0xF4 then 0x8F else 0xBF) \<and> cont_byte (bs ! 2) \<and> cont_byte (bs ! 3) then 4
      else 0)"

definition hex_digit :: "nat \<Rightarrow> char" where
  "hex_digit n = ''0123456789abcdef'' ! n"

definition json_escape_char :: "char \<Rightarrow> string" where
  "json_escape_char c =
     (let b = of_char c :: nat; bs = CHR 0x5C in
      if c = CHR 0x22 \<or> c = bs then [bs, c]
      else if b = 0x08 then bs # ''b''
      else if b = 0x0C then bs # ''f''
      else if b = 0x0A then bs # ''n''
      else if b = 0x0D then bs # ''r''
      else if b = 0x09 then bs # ''t''
      else if b < 0x20 \<or> c \<in> set ''<>&'' then bs # ''u00'' @ [hex_digit (b div 16), hex_digit (b mod 16)]
      else [c])"

text \<open>Bytes that are not UTF-8 become U+FFFD; U+2028 and U+2029 are escaped.\<close>

function json_escape :: "string \<Rightarrow> string" where
  "json_escape s =
     (if s = [] then []
      else
        (let n = utf8_size (map of_char s) in
         (if n = 0 then CHR 0x5C # ''ufffd''
          else if n = 1 then json_escape_char (hd s)
          else if map of_char (take 3 s) = [0xE2, 0x80, 0xA8 :: nat] then CHR 0x5C # ''u2028''
          else if map of_char (take 3 s) = [0xE2, 0x80, 0xA9 :: nat] then CHR 0x5C # ''u2029''
          else take n s)
         @ json_escape (drop (max 1 n) s)))"
  by pat_completeness auto
termination
  by (relation "measure length") (auto simp: Let_def)

declare json_escape.simps [simp del]

definition json_string :: "string \<Rightarrow> string" where
  "json_string s = [CHR 0x22] @ json_escape s @ [CHR 0x22]"

definition json_float :: "(int \<Rightarrow> string) \<Rightarrow> int \<Rightarrow> string" where
  "json_float far x = (if \<bar>x\<bar> \<le> 2 ^ 53 then go_itoa x else far x)"

text \<open>A map: its entries in the order of the keys; the values are given as they are written.\<close>

definition json_object :: "(string \<times> string) list \<Rightarrow> string" where
  "json_object kvs =
     ''{'' @ go_join (map (\<lambda>(k, v). json_string k @ '':'' @ v) (sort_key fst kvs)) CHR '','' @ ''}''"

subsection \<open>The envelope\<close>

record oauth_token =
  ot_AccessToken :: string
  ot_Expiry :: gotime

text \<open>\<open>Unix()\<close> of a time in nanoseconds.\<close>

definition time_Unix :: "int \<Rightarrow> int" where
  "time_Unix t = t div second"

definition envelope_header :: string where
  "envelope_header = json_object [(''typ'', json_string ''JWT''), (''alg'', json_string ''GOOG_OAUTH2_TOKEN'')]"

definition envelope_payload :: "(int \<Rightarrow> string) \<Rightarrow> int \<Rightarrow> int \<Rightarrow> string \<Rightarrow> string" where
  "envelope_payload far exp now saEmail = json_object
     [(''exp'', json_float far (time_Unix exp)), (''iss'', json_string ''Google''),
      (''iat'', json_float far (time_Unix now)), (''sub'', json_string saEmail)]"

definition wrapForManagedKafka :: "(int \<Rightarrow> string) \<Rightarrow> int \<Rightarrow> oauth_token \<Rightarrow> string \<Rightarrow> string" where
  "wrapForManagedKafka far now tok saEmail =
     (let header = envelope_header;
          exp = (case ot_Expiry tok of None \<Rightarrow> now + 3600 * second | Some t \<Rightarrow> t);
          payload = envelope_payload far exp now saEmail
      in base64_EncodeToString (go_bytes header) @ ''.'' @ base64_EncodeToString (go_bytes payload)
           @ ''.'' @ base64_EncodeToString (go_bytes (ot_AccessToken tok)))"

subsection \<open>The provider\<close>

type_synonym 's tokenSource = "('s, oauth_token) action"

record 's google_env =
  ge_Setenv :: "string \<Rightarrow> string \<Rightarrow> ('s, unit) action"
  ge_DefaultTokenSource :: "string \<Rightarrow> ('s, 's tokenSource) action"
  ge_ReuseTokenSource :: "'s tokenSource \<Rightarrow> 's tokenSource"
  ge_ReadFile :: "string \<Rightarrow> ('s, byte list) action"
  ge_client_email :: "byte list \<Rightarrow> string result"
  ge_metadata_email :: "('s, string) action"
  ge_now :: "'s \<Rightarrow> int \<times> 's"
  ge_far :: "int \<Rightarrow> string"

record TokenProviderOptions =
  po_Timeout :: int
  po_Adc :: bool
  po_CredentialsFile :: string
  po_Scope :: string

record 's TokenProvider =
  tp_timeout :: duration
  tp_source :: "'s tokenSource"
  tp_serviceAccountEmail :: string

definition StatusOK :: "32 word" where
  "StatusOK = 0"

definition StatusGetTokenFailed :: "32 word" where
  "StatusGetTokenFailed = 1"

definition discoverServiceAccountEmail :: "'s google_env \<Rightarrow> string \<Rightarrow> ('s, string) action" where
  "discoverServiceAccountEmail env credentialsFile =
     (if credentialsFile \<noteq> [] then
        abind (awrap ''reading credentials file'' (ge_ReadFile env credentialsFile)) (\<lambda>raw.
        abind (awrap ''parsing credentials file'' (alift (ge_client_email env raw))) (\<lambda>ClientEmail.
        if ClientEmail = [] then aerr (ErrNew (''credentials file has no client_email '' @
            map char_of [0xE2 :: nat, 0x80, 0x94] @ '' not a service account key?''))
        else aret ClientEmail))
      else awrap ''querying metadata server'' (ge_metadata_email env))"

definition NewTokenProvider :: "'s google_env \<Rightarrow> TokenProviderOptions \<Rightarrow> ('s, 's TokenProvider) action" where
  "NewTokenProvider env options =
     (if po_Scope options = [] then aerr (ErrNew ''parameter scope is required'')
      else if \<not> po_Adc options \<and> po_CredentialsFile options = []
      then aerr (ErrNew ''either --adc=true or --credentials-file must be set'')
      else
        abind (if po_CredentialsFile options \<noteq> []
               then awrap ''setting GOOGLE_APPLICATION_CREDENTIALS''
                 (ge_Setenv env ''GOOGLE_APPLICATION_CREDENTIALS'' (po_CredentialsFile options))
               else aret ()) (\<lambda>_.
        abind (awrap ''creating google default token source'' (ge_DefaultTokenSource env (po_Scope options))) (\<lambda>src.
        abind (awrap ''discovering service account email''
                (discoverServiceAccountEmail env (po_CredentialsFile options))) (\<lambda>email.
        let p = \<lparr>tp_timeout = of_int (po_Timeout options * second), tp_source = ge_ReuseTokenSource env src,
                 tp_serviceAccountEmail = email\<rparr>
        in abind (awrap ''initial google access token fetch failed'' (tp_source p)) (\<lambda>_. aret p)))))"

definition failed_response :: TokenResponse where
  "failed_response = \<lparr>tr_Success = False, tr_Status = StatusGetTokenFailed, tr_Token = []\<rparr>"

definition GetToken :: "'s google_env \<Rightarrow> 's TokenProvider \<Rightarrow> 's tokenProvider" where
  "GetToken env p s =
     (case tp_source p s of
        (Inl (GoErr e), s) \<Rightarrow> (Inr failed_response, s)
      | (Inl (GoPanic msg), s) \<Rightarrow> (Inl (GoPanic msg), s)
      | (Inr tok, s) \<Rightarrow>
          (case ge_now env s of
             (now, s) \<Rightarrow> (Inr \<lparr>tr_Success = True, tr_Status = StatusOK,
                 tr_Token = wrapForManagedKafka (ge_far env) now tok (tp_serviceAccountEmail p)\<rparr>, s)))"

subsection \<open>The factory\<close>

text \<open>
  \<open>factory.go\<close> reads its parameters with Go's \<open>flag\<close> package: the flags from left to right until an
  argument that is none.  \<open>parseInt\<close> is \<open>strconv.ParseInt\<close> with base 0.
\<close>

record pluginMeta =
  pm_timeout :: int
  pm_adc :: bool
  pm_credentialsFile :: string
  pm_scope :: string

definition pluginMeta_defaults :: pluginMeta where
  "pluginMeta_defaults = \<lparr>pm_timeout = 10, pm_adc = False, pm_credentialsFile = [],
     pm_scope = ''https://www.googleapis.com/auth/cloud-platform''\<rparr>"

definition ParseBool :: "string \<Rightarrow> bool option" where
  "ParseBool s =
     (if s \<in> set [''1'', ''t'', ''T'', ''true'', ''TRUE'', ''True''] then Some True
      else if s \<in> set [''0'', ''f'', ''F'', ''false'', ''FALSE'', ''False''] then Some False
      else None)"

definition flag_error :: "string \<Rightarrow> 'a result" where
  "flag_error msg = Inl (GoErr (ErrNew msg))"

definition set_flag :: "(string \<Rightarrow> int option) \<Rightarrow> string \<Rightarrow> string \<Rightarrow> pluginMeta \<Rightarrow> pluginMeta result" where
  "set_flag parseInt name v m =
     (if name = ''adc'' then
        (case ParseBool v of
           None \<Rightarrow> flag_error (''invalid boolean value '' @ [CHR 0x22] @ v @ [CHR 0x22] @ '' for -adc: parse error'')
         | Some b \<Rightarrow> Inr (m\<lparr>pm_adc := b\<rparr>))
      else if name = ''timeout'' then
        (case parseInt v of
           None \<Rightarrow> flag_error (''invalid value '' @ [CHR 0x22] @ v @ [CHR 0x22] @ '' for flag -timeout: parse error'')
         | Some i \<Rightarrow> Inr (m\<lparr>pm_timeout := i\<rparr>))
      else if name = ''credentials-file'' then Inr (m\<lparr>pm_credentialsFile := v\<rparr>)
      else Inr (m\<lparr>pm_scope := v\<rparr>))"

fun flag_Parse :: "(string \<Rightarrow> int option) \<Rightarrow> string list \<Rightarrow> pluginMeta \<Rightarrow> pluginMeta result" where
  "flag_Parse parseInt [] m = Inr m"
| "flag_Parse parseInt (s # args) m =
     (if length s < 2 \<or> hd s \<noteq> CHR ''-'' \<or> s = ''--'' then Inr m
      else
        (let body = (if take 2 s = ''--'' then drop 2 s else drop 1 s);
             (name, v) = (case go_cut CHR ''='' body of Some (n, v) \<Rightarrow> (n, Some v) | None \<Rightarrow> (body, None))
         in if hd body \<in> set ''-='' then flag_error (''bad flag syntax: '' @ s)
            else if name \<notin> set [''timeout'', ''adc'', ''credentials-file'', ''scope''] then
              flag_error (if name \<in> set [''help'', ''h''] then ''flag: help requested''
                          else ''flag provided but not defined: -'' @ name)
            else
              (case v of
                 Some x \<Rightarrow> rbind (set_flag parseInt name x m) (flag_Parse parseInt args)
               | None \<Rightarrow>
                   if name = ''adc'' then flag_Parse parseInt args (m\<lparr>pm_adc := True\<rparr>)
                   else
                     (case args of
                        [] \<Rightarrow> flag_error (''flag needs an argument: -'' @ name)
                      | x # args' \<Rightarrow> rbind (set_flag parseInt name x m) (flag_Parse parseInt args')))))"

definition Factory_New :: "(string \<Rightarrow> int option) \<Rightarrow> 's google_env \<Rightarrow> string list \<Rightarrow> ('s, 's tokenProvider) action" where
  "Factory_New parseInt env params =
     abind (alift (flag_Parse parseInt params pluginMeta_defaults)) (\<lambda>m.
     abind (NewTokenProvider env \<lparr>po_Timeout = pm_timeout m, po_Adc = pm_adc m,
         po_CredentialsFile = pm_credentialsFile m, po_Scope = pm_scope m\<rparr>) (\<lambda>p.
     aret (GetToken env p)))"

subsection \<open>What the envelope holds\<close>

lemma base64_no_dot: "CHR ''.'' \<notin> set (base64_EncodeToString bs)"
proof -
  have "CHR ''.'' \<notin> set base64url" by code_simp
  with base64_chars show ?thesis by blast
qed

text \<open>
  C24: The envelope gives back what was put into it.  For every access token, account and time, cut
  at its dots it has exactly three parts, which decode to the header, to the claims (with an
  expiry of one hour from now if the token has none) and to the access token.
\<close>

theorem envelope_roundtrip:
  "\<exists>h p t. go_split CHR ''.'' (wrapForManagedKafka far now tok saEmail) = [h, p, t]
    \<and> base64_DecodeString h = Some (go_bytes envelope_header)
    \<and> base64_DecodeString p = Some (go_bytes (envelope_payload far
        (case ot_Expiry tok of None \<Rightarrow> now + 3600 * second | Some x \<Rightarrow> x) now saEmail))
    \<and> base64_DecodeString t = Some (go_bytes (ot_AccessToken tok))"
  using base64_no_dot
  by (simp add: wrapForManagedKafka_def Let_def go_split_join go_split_plain base64_roundtrip)

lemma base64_token_chars: "list_all token_char (base64_EncodeToString bs)"
proof -
  have "list_all token_char base64url" by code_simp
  with base64_chars show ?thesis by (auto simp: list_all_iff)
qed

lemma envelope_readable:
  "list_all token_char (wrapForManagedKafka far now tok saEmail)" "wrapForManagedKafka far now tok saEmail \<noteq> []"
proof -
  have "token_char CHR ''.''" by code_simp
  then show "list_all token_char (wrapForManagedKafka far now tok saEmail)"
    using base64_token_chars by (simp add: wrapForManagedKafka_def Let_def)
qed (simp add: wrapForManagedKafka_def Let_def)

text \<open>
  C25: A token that was fetched gets through.  The message that the proxy sends for a token of the
  provider, for every access token, account and time, is read back as that token with no account
  and no extensions; the token is never empty, and its envelope ends with the access token.
\<close>

theorem provided_token_is_readable:
  assumes "GetToken env p s = (Inr resp, s')" "tr_Success resp"
  shows "tr_Token resp \<noteq> [] \<and> GetClientInitialResponse (ToBytes (tr_Token resp) [] []) = Inr (tr_Token resp, [], Map.empty)"
proof -
  obtain now tok where "tr_Token resp = wrapForManagedKafka (ge_far env) now tok (tp_serviceAccountEmail p)"
    using assms by (auto simp: GetToken_def failed_response_def split: prod.splits sum.splits gofail.splits)
  with envelope_readable [of "ge_far env" now tok "tp_serviceAccountEmail p"]
  have "readable_response (tr_Token resp) [] []" "tr_Token resp \<noteq> []" by (simp_all add: readable_response_def)
  from read_back_response [OF this(1)] this(2) show ?thesis by simp
qed

text \<open>
  C37: Without a token nothing is sent.  If the access token cannot be fetched, the authentication of
  a connection fails with the provider's status and has not touched the connection.
\<close>

theorem failed_fetch_sends_nothing:
  assumes "oa_tokenProvider b = GetToken env p" "tp_source p (w_ext w) = (Inl (GoErr e), x)"
  shows "sendAndReceiveSASLAuth b addr w =
    (Inl (GoErr (ErrNew ''get sasl token failed with status: 1'')), w\<lparr>w_ext := x\<rparr>)"
proof -
  have "go_itoa (sint StatusGetTokenFailed) = ''1''" by code_simp
  then show ?thesis
    by (simp add: sendAndReceiveSASLAuth_def getOAuthBearerToken_def assms GetToken_def failed_response_def
        wire_ext_def zoom_def abind_def aerr_def)
qed

subsection \<open>Samples\<close>

text \<open>The metadata server gives the account; a token the first time only.\<close>

definition sample_google :: "nat google_env" where
  "sample_google = \<lparr>ge_Setenv = (\<lambda>_ _. aret ()),
     ge_DefaultTokenSource = (\<lambda>_. aret (\<lambda>n. (if n < 2 then Inr \<lparr>ot_AccessToken = ''ya29.x'', ot_Expiry = None\<rparr>
        else Inl (GoErr (ErrNew ''expired'')), Suc n))),
     ge_ReuseTokenSource = (\<lambda>s. s), ge_ReadFile = (\<lambda>_. aret []), ge_client_email = (\<lambda>_. Inr []),
     ge_metadata_email = aret ''a@c'', ge_now = (\<lambda>n. (1000000000, n)), ge_far = (\<lambda>_. [])\<rparr>"

definition sample_provider :: "nat TokenProvider" where
  "sample_provider = \<lparr>tp_timeout = of_int (10 * second),
     tp_source = (\<lambda>n. (if n < 2 then Inr \<lparr>ot_AccessToken = ''ya29.x'', ot_Expiry = None\<rparr>
        else Inl (GoErr (ErrNew ''expired'')), Suc n)),
     tp_serviceAccountEmail = ''a@c''\<rparr>"

definition sample_envelope :: string where
  "sample_envelope = wrapForManagedKafka (\<lambda>_. []) 1000000000 \<lparr>ot_AccessToken = ''ya29.x'', ot_Expiry = None\<rparr> ''a@c''"

lemma sample_GetToken:
  "GetToken sample_google sample_provider 1 = (Inr \<lparr>tr_Success = True, tr_Status = StatusOK, tr_Token = sample_envelope\<rparr>, 2)"
  by (simp add: GetToken_def sample_provider_def sample_google_def sample_envelope_def)

lemma provided_token_is_readable_witness:
  "sample_envelope \<noteq> [] \<and> GetClientInitialResponse (ToBytes sample_envelope [] []) = Inr (sample_envelope, [], Map.empty)"
  using provided_token_is_readable [OF sample_GetToken] by simp

definition late_oauth :: "nat SASLOAuthBearerAuth" where
  "late_oauth = \<lparr>oa_clientID = [], oa_writeTimeout = 0, oa_readTimeout = 0, oa_tokenProvider = GetToken sample_google sample_provider\<rparr>"

definition late_wire :: "nat wire" where
  "late_wire = \<lparr>w_conn = \<lparr>cn_in = \<lparr>src_events = [], src_consumed = []\<rparr>, cn_out = \<lparr>snk_events = [], snk_out = []\<rparr>,
        cn_readDeadline = None, cn_writeDeadline = None, cn_deadlineErrs = []\<rparr>,
     w_clock = \<lparr>ck_times = int, ck_ticks = 0\<rparr>, w_ext = 2\<rparr>"

lemma failed_fetch_sends_nothing_witness:
  "sendAndReceiveSASLAuth late_oauth ''b:1'' late_wire =
    (Inl (GoErr (ErrNew ''get sasl token failed with status: 1'')), late_wire\<lparr>w_ext := 3\<rparr>)"
proof (rule failed_fetch_sends_nothing)
  show "oa_tokenProvider late_oauth = GetToken sample_google sample_provider"
    by (simp add: late_oauth_def)
  show "tp_source sample_provider (w_ext late_wire) = (Inl (GoErr (ErrNew ''expired'')), 3)"
    by (simp add: late_wire_def sample_provider_def)
qed

end
