(* ===== verification/Server.thy ===== *)
theory Server
  imports Client ListenerTable TokenProvider
begin

section \<open>The server command\<close>

text \<open>
  \<open>cmd/kafka-proxy/server.go\<close>: the defaults of the command line, the configuration \<open>PreRunE\<close> makes of
  the flags and the environment, and the order in which \<open>Run\<close> builds the proxy, up to the point
  where the group of goroutines is started; \<open>pkg/registry/registry.go\<close>, from which \<open>Run\<close> takes the token
  provider.  \<open>logrus.Fatal\<close> ends the program: it is an error here.  The parsing of the flags
  (\<open>cobra\<close>) is not modelled: a \<open>ServerFlags\<close> is what it leaves.
\<close>

record ServerFlags =
  sf_c :: Config
  sf_bootstrapServersMapping :: "string list"
  sf_externalServersMapping :: "string list"
  sf_dialAddressMapping :: "string list"
  sf_tokenProviderCommand :: string
  sf_tokenProviderParams :: "string list"

text \<open>\<open>new(config.Config)\<close>\<close>

definition zero_Config :: Config where
  "zero_Config = \<lparr>Http_ListenAddress = [], Http_MetricsPath = [], Http_HealthPath = [],
     Http_Disable = False, Debug_ListenAddress = [], Debug_DebugPath = [], Debug_Enabled = False,
     Log_Format = [], Log_Level = [], Proxy_DefaultListenerIP = [],
     Proxy_BootstrapServers = [], Proxy_ExternalServers = [], Proxy_DeterministicListeners = False,
     Proxy_DialAddressMappings = [], Proxy_DisableDynamicListeners = False,
     Proxy_DynamicAdvertisedListener = [], Proxy_DynamicSequentialMinPort = 0,
     Proxy_DynamicSequentialMaxPorts = 0, Proxy_RequestBufferSize = 0,
     Proxy_ResponseBufferSize = 0, Proxy_ListenerReadBufferSize = 0,
     Proxy_ListenerWriteBufferSize = 0, Proxy_ListenerKeepAlive = 0,
     Kafka_ClientID = [], Kafka_MaxOpenRequests = 0, Kafka_ForbiddenApiKeys = [],
     Kafka_DialTimeout = 0, Kafka_WriteTimeout = 0, Kafka_ReadTimeout = 0,
     Kafka_KeepAlive = 0, Kafka_ConnectionReadBufferSize = 0,
     Kafka_ConnectionWriteBufferSize = 0, Kafka_TLS_Enable = False, Kafka_TLS_Refresh = 0,
     Kafka_TLS_InsecureSkipVerify = False, Kafka_TLS_CAChainCertFile = [],
     Kafka_TLS_SystemCertPool = False, Kafka_SASL_Enable = False, Kafka_Producer_Acks0Disabled = False\<rparr>"

definition initFlags :: ServerFlags where
  "initFlags = \<lparr>sf_c = zero_Config
      \<lparr>Proxy_DefaultListenerIP := ''127.0.0.1'', Proxy_DynamicAdvertisedListener := [],
       Proxy_DeterministicListeners := False, Proxy_DisableDynamicListeners := False,
       Proxy_DynamicSequentialMinPort := 0, Proxy_DynamicSequentialMaxPorts := 0,
       Proxy_RequestBufferSize := 4096, Proxy_ResponseBufferSize := 4096,
       Proxy_ListenerReadBufferSize := 0, Proxy_ListenerWriteBufferSize := 0,
       Proxy_ListenerKeepAlive := seconds 60,
       Kafka_ClientID := ''kafka-gcp-proxy'', Kafka_MaxOpenRequests := 256,
       Kafka_DialTimeout := seconds 15, Kafka_WriteTimeout := seconds 30, Kafka_ReadTimeout := seconds 30,
       Kafka_KeepAlive := seconds 60, Kafka_ConnectionReadBufferSize := 0,
       Kafka_ConnectionWriteBufferSize := 0, Kafka_ForbiddenApiKeys := [],
       Kafka_Producer_Acks0Disabled := False,
       Kafka_TLS_Enable := True, Kafka_TLS_Refresh := seconds 0, Kafka_TLS_InsecureSkipVerify := False,
       Kafka_TLS_CAChainCertFile := [], Kafka_TLS_SystemCertPool := True,
       Http_Disable := False, Http_ListenAddress := ''0.0.0.0:9080'', Http_MetricsPath := ''/metrics'',
       Http_HealthPath := ''/health'', Debug_Enabled := False, Debug_ListenAddress := ''0.0.0.0:6060'',
       Log_Format := ''text'', Log_Level := ''info''\<rparr>,
     sf_bootstrapServersMapping = [], sf_externalServersMapping = [], sf_dialAddressMapping = [],
     sf_tokenProviderCommand = ''google-access-token-provider'',
     sf_tokenProviderParams = [''--adc=true'']\<rparr>"

subsection \<open>Log levels\<close>

text \<open>Both libraries order their levels: \<open>logrus\<close> from the most severe, \<open>slog\<close> by the severity.\<close>

datatype logrus_level = PanicLevel | FatalLevel | ErrorLevel | WarnLevel | InfoLevel | DebugLevel | TraceLevel
datatype slog_level = LevelDebug | LevelInfo | LevelWarn | LevelError

fun logrus_verbosity :: "logrus_level \<Rightarrow> nat" where
  "logrus_verbosity PanicLevel = 0"
| "logrus_verbosity FatalLevel = 1"
| "logrus_verbosity ErrorLevel = 2"
| "logrus_verbosity WarnLevel = 3"
| "logrus_verbosity InfoLevel = 4"
| "logrus_verbosity DebugLevel = 5"
| "logrus_verbosity TraceLevel = 6"

fun slog_severity :: "slog_level \<Rightarrow> int" where
  "slog_severity LevelDebug = -4"
| "slog_severity LevelInfo = 0"
| "slog_severity LevelWarn = 4"
| "slog_severity LevelError = 8"

lemma slog_severity_inj: "slog_severity l = slog_severity m \<longleftrightarrow> l = m"
  by (cases l; cases m) simp_all

instantiation slog_level :: linorder
begin

definition less_eq_slog_level :: "slog_level \<Rightarrow> slog_level \<Rightarrow> bool" where
  "less_eq_slog_level l m \<longleftrightarrow> slog_severity l \<le> slog_severity m"

definition less_slog_level :: "slog_level \<Rightarrow> slog_level \<Rightarrow> bool" where
  "less_slog_level l m \<longleftrightarrow> slog_severity l < slog_severity m"

instance
  by standard (auto simp: less_eq_slog_level_def less_slog_level_def slog_severity_inj)

end

definition toSlogLevel :: "logrus_level \<Rightarrow> slog_level" where
  "toSlogLevel level =
     (case level of
        TraceLevel \<Rightarrow> LevelDebug
      | DebugLevel \<Rightarrow> LevelDebug
      | InfoLevel \<Rightarrow> LevelInfo
      | WarnLevel \<Rightarrow> LevelWarn
      | ErrorLevel \<Rightarrow> LevelError
      | PanicLevel \<Rightarrow> LevelError
      | _ \<Rightarrow> LevelInfo)"

text \<open>Less verbose levels are at least as severe, but for the fatal level, which has no case of its own.\<close>

lemma toSlogLevel_mono:
  "logrus_verbosity l \<le> logrus_verbosity m \<Longrightarrow> l \<noteq> FatalLevel \<Longrightarrow> m \<noteq> FatalLevel \<Longrightarrow> toSlogLevel m \<le> toSlogLevel l"
  by (cases l; cases m) (simp_all add: toSlogLevel_def less_eq_slog_level_def)

lemma fatal_logs_more: "toSlogLevel FatalLevel < toSlogLevel WarnLevel"
  by (simp add: toSlogLevel_def less_slog_level_def)

subsection \<open>\<open>PreRunE\<close>\<close>

text \<open>\<open>strings.Fields\<close> on the ASCII spaces.\<close>

definition go_space :: "char \<Rightarrow> bool" where
  "go_space c \<longleftrightarrow> c \<in> set [CHR 0x09, CHR 0x0A, CHR 0x0B, CHR 0x0C, CHR 0x0D, CHR '' '']"

fun go_fields :: "string \<Rightarrow> string list" where
  "go_fields [] = []"
| "go_fields (c # cs) =
     (if go_space c then go_fields cs
      else (case cs of
              [] \<Rightarrow> [[c]]
            | d # ds \<Rightarrow>
                if go_space d then [c] # go_fields cs
                else (case go_fields cs of [] \<Rightarrow> [[c]] | w # ws \<Rightarrow> (c # w) # ws)))"

definition getOrEnvStringSlice :: "(string \<Rightarrow> string) \<Rightarrow> string list \<Rightarrow> string \<Rightarrow> string list" where
  "getOrEnvStringSlice getenv value envKey = (if value \<noteq> [] then value else go_fields (getenv envKey))"

text \<open>The handlers of the flags work on the one configuration; an error keeps what they did.\<close>

definition validate_in_place :: "(string \<Rightarrow> bool) \<Rightarrow> (Config, unit) action" where
  "validate_in_place is_ip c = (case Validate is_ip c of Inl e \<Rightarrow> (Inl e, c) | Inr c' \<Rightarrow> (Inr (), c'))"

definition PreRunE :: "(string \<Rightarrow> string) \<Rightarrow> (string \<Rightarrow> bool) \<Rightarrow> ServerFlags \<Rightarrow> (Config, unit) action" where
  "PreRunE getenv is_ip fl =
     abind (amod (Kafka_SASL_Enable_update (\<lambda>_. True))) (\<lambda>_.
     abind (InitBootstrapServers (getOrEnvStringSlice getenv (sf_bootstrapServersMapping fl) ''BOOTSTRAP_SERVER_MAPPING'')) (\<lambda>_.
     abind (InitExternalServers (getOrEnvStringSlice getenv (sf_externalServersMapping fl) ''EXTERNAL_SERVER_MAPPING'')) (\<lambda>_.
     abind (InitDialAddressMappings (getOrEnvStringSlice getenv (sf_dialAddressMapping fl) ''DIAL_ADDRESS_MAPPING'')) (\<lambda>_.
     validate_in_place is_ip))))"

subsection \<open>The registry\<close>

text \<open>
  Interfaces by name, each with the components registered for it; a component carries the names of
  the interfaces it implements and of its type, which the source asks of \<open>reflect\<close>.
\<close>

type_synonym 'c registry = "string \<rightharpoonup> (string \<rightharpoonup> 'c)"

definition NewComponentInterface :: "string \<Rightarrow> 'c registry \<Rightarrow> 'c registry" where
  "NewComponentInterface iface reg =
     (case reg iface of None \<Rightarrow> reg(iface \<mapsto> Map.empty) | Some prev \<Rightarrow> reg)"

definition register_component :: "string \<Rightarrow> 'c \<Rightarrow> string \<Rightarrow> (string \<rightharpoonup> 'c) \<Rightarrow> bool \<times> (string \<rightharpoonup> 'c)" where
  "register_component typeName component name components =
     (let name = (if name = [] then typeName else name) in
      case components name of
        Some _ \<Rightarrow> (False, components)
      | None \<Rightarrow> (True, components(name \<mapsto> component)))"

text \<open>\<open>ifaces\<close> are the interfaces that \<open>implements\<close> finds, in the order of its iteration.\<close>

fun Register :: "string \<Rightarrow> 'c \<Rightarrow> string \<Rightarrow> string list \<Rightarrow> 'c registry \<Rightarrow> string list \<times> 'c registry" where
  "Register typeName component name [] reg = ([], reg)"
| "Register typeName component name (iface # ifaces) reg =
     (case reg iface of
        None \<Rightarrow> Register typeName component name ifaces reg
      | Some components \<Rightarrow>
          (case register_component typeName component name components of
             (ok, components') \<Rightarrow>
               (case Register typeName component name ifaces (reg(iface \<mapsto> components')) of
                  (done, reg') \<Rightarrow> ((if ok then iface # done else done), reg'))))"

definition GetComponent :: "string \<Rightarrow> string \<Rightarrow> 'c registry \<Rightarrow> 'c option" where
  "GetComponent iface name reg = (case reg iface of None \<Rightarrow> None | Some components \<Rightarrow> components name)"

text \<open>What is registered under a name stays: a later component of the same name is refused.\<close>

lemma Register_keeps:
  "GetComponent iface name reg = Some c \<Longrightarrow> name \<noteq> [] \<Longrightarrow>
     GetComponent iface name (snd (Register typeName component name ifaces reg)) = Some c"
proof (induction ifaces arbitrary: reg)
  case (Cons i ifaces)
  show ?case
  proof (cases "reg i")
    case (Some components)
    obtain ok components' where r: "register_component typeName component name components = (ok, components')" by force
    with Some Cons.prems have "GetComponent iface name (reg(i \<mapsto> components')) = Some c"
      by (auto simp: GetComponent_def register_component_def Let_def split: option.splits)
    from Cons.IH [OF this Cons.prems(2)] Some r show ?thesis by (simp add: split_beta del: fun_upd_apply)
  qed (use Cons in simp)
qed simp

subsection \<open>\<open>Run\<close>\<close>

type_synonym 's TokenProviderFactory = "string list \<Rightarrow> ('s, 's tokenProvider) action"

definition TokenProviderFactory_name :: string where
  "TokenProviderFactory_name = ''TokenProviderFactory''"

text \<open>The registration that \<open>factory.go\<close> makes when the program starts.\<close>

definition builtin_registry ::
  "(string \<Rightarrow> int option) \<Rightarrow> 's google_env \<Rightarrow> 's TokenProviderFactory registry \<Rightarrow> 's TokenProviderFactory registry" where
  "builtin_registry parseInt google reg =
     snd (Register ''Factory'' (Factory_New parseInt google) ''google-access-token-provider'' [TokenProviderFactory_name]
       (NewComponentInterface TokenProviderFactory_name reg))"

lemma builtin_provider:
  "GetComponent TokenProviderFactory_name ''google-access-token-provider'' (builtin_registry parseInt google Map.empty)
     = Some (Factory_New parseInt google)"
  by (simp add: builtin_registry_def NewComponentInterface_def register_component_def GetComponent_def)

definition unknown_provider :: "string \<Rightarrow> goerror" where
  "unknown_provider name = ErrNew (''unknown built-in token provider '' @ [CHR 0x22] @ name @ [CHR 0x22])"

text \<open>
  The proxy that is started: the fields of its listeners and its client.  For the client the outside
  is the state of the listeners with, in it, that of the operating system and the token provider.
\<close>

definition os_env :: "'s net_env \<Rightarrow> 's listeners net_env" where
  "os_env env = \<lparr>ne_net = (\<lambda>dialTimeout keepAlive addr. on_os (ne_net env dialTimeout keepAlive addr)),
     ne_tlsConfig = (\<lambda>c. abind (on_os (ne_tlsConfig env c)) (\<lambda>configFunc. aret (on_os configFunc))),
     ne_tlsClient = ne_tlsClient env, ne_handshake = ne_handshake env\<rparr>"

record 's proxy =
  sp_listeners :: "'s listeners_config"
  sp_client :: "'s listeners Client"

text \<open>The HTTP and the debug endpoint: \<open>netListen\<close> is \<open>net.Listen\<close>, and what they serve is not modelled.\<close>

definition web_listeners :: "(string \<Rightarrow> ('s, unit) action) \<Rightarrow> Config \<Rightarrow> ('s, unit) action" where
  "web_listeners netListen c =
     abind (if \<not> Http_Disable c then netListen (Http_ListenAddress c) else aret ()) (\<lambda>_.
     if Debug_Enabled c then netListen (Debug_ListenAddress c) else aret ())"

definition server_Run ::
  "(string \<Rightarrow> ('s, unit) action) \<Rightarrow> 's net_env \<Rightarrow> iteration \<Rightarrow> (string \<Rightarrow> ('s, int) action) \<Rightarrow> (string \<Rightarrow> 32 word \<Rightarrow> string result)
    \<Rightarrow> 's TokenProviderFactory registry \<Rightarrow> ServerFlags \<Rightarrow> clock \<Rightarrow> 's \<Rightarrow> ('s proxy \<times> 's listeners up) result" where
  "server_Run netListen env order listenFunc template reg fl clock x =
     (let c = sf_c fl in
      case GetComponent TokenProviderFactory_name (sf_tokenProviderCommand fl) reg of
        None \<Rightarrow> Inl (GoErr (unknown_provider (sf_tokenProviderCommand fl)))
      | Some new \<Rightarrow>
          (case new (sf_tokenProviderParams fl) x of
             (Inl e, x) \<Rightarrow> Inl e
           | (Inr tokenProvider, x) \<Rightarrow>
               rbind (NewListeners order listenFunc template c x) (\<lambda>(f, \<sigma>).
               case ListenInstances f (Proxy_BootstrapServers c) \<sigma> of
                 (Inl e, \<sigma>) \<Rightarrow> Inl e
               | (Inr _, \<sigma>) \<Rightarrow>
                   (case NewClient (os_env env) c (GetNetAddressMapping f) (Some (on_os tokenProvider))
                           \<lparr>up_clock = clock, up_opened = 0, up_closed = [], up_world = \<sigma>\<rparr> of
                      (Inl e, u) \<Rightarrow> Inl e
                    | (Inr client, u) \<Rightarrow>
                        (case up_outside (on_os (web_listeners netListen c)) u of
                           (Inl e, u) \<Rightarrow> Inl e
                         | (Inr _, u) \<Rightarrow> Inr (\<lparr>sp_listeners = f, sp_client = client\<rparr>, u))))))"

end
