(* ===== verification/OutsideInv.thy ===== *)
theory OutsideInv
  imports Client ResponseProps
begin

section \<open>What a connection does to the outside\<close>

text \<open>
  A connection works on the outside only through the dialer, the token provider and the address
  mapping.  The locale states this as the contract of an invariant of the outside that these three
  keep; inside it, every part of a connection keeps the invariant, whatever its result.
\<close>

abbreviation breaks :: "('s \<Rightarrow> bool) \<Rightarrow> 's \<Rightarrow> nat" where
  "breaks P \<sigma> \<equiv> (if P \<sigma> then 0 else 1)"

abbreviation preserves :: "('s \<Rightarrow> bool) \<Rightarrow> ('s \<Rightarrow> 'r \<times> 's) \<Rightarrow> bool" where
  "preserves P m \<equiv> lowers (breaks P) m"

lemma preservesI: "(\<And>\<sigma> r \<sigma>'. P \<sigma> \<Longrightarrow> m \<sigma> = (r, \<sigma>') \<Longrightarrow> P \<sigma>') \<Longrightarrow> preserves P m"
  by (rule lowersI) auto

lemma preservesD: "preserves P m \<Longrightarrow> P \<sigma> \<Longrightarrow> m \<sigma> = (r, \<sigma>') \<Longrightarrow> P \<sigma>'"
  using lowersD [of "breaks P" m \<sigma> r \<sigma>'] by (simp split: if_splits)

lemma lowers_awrap [lowers_intros]: "lowers f m \<Longrightarrow> lowers f (awrap msg m)"
  by (rule lowersI) (auto simp: awrap_def split: prod.splits sum.splits gofail.splits dest: lowersD)

lemma lowers_after_lift: "(\<And>a. q = Inr a \<Longrightarrow> lowers f (g a)) \<Longrightarrow> lowers f (abind (flag b (alift q)) g)"
  by (cases q) (auto simp: flag_def alift_def aret_def abind_def lowers_def)

subsection \<open>Rewriting a response\<close>

lemma modify_elements_preserves:
  assumes "\<And>s. preserves P (g s)"
  shows "preserves P (modify_elements g vs)"
proof (induction vs)
  case (Cons v vs)
  then show ?case by (cases v) (auto intro!: lowers_intros assms)
qed (auto intro!: lowers_intros)

lemma modify_preserves:
  assumes "\<And>h q n. preserves P (fn h q n)"
  shows "preserves P (modifyMetadataResponse_broker fn s)" "preserves P (modifyCoordinator fn s)"
    "preserves P (modifyMetadataResponse t (Some fn))" "preserves P (modifyFindCoordinatorResponse t (Some fn))"
proof -
  show b: "preserves P (modifyMetadataResponse_broker fn s)" and c: "preserves P (modifyCoordinator fn s)" for s
    unfolding modifyMetadataResponse_broker_def modifyCoordinator_def
    by (auto intro!: lowers_intros assms split: gvalue.split prod.split)
  show "preserves P (modifyMetadataResponse t (Some fn))" "preserves P (modifyFindCoordinatorResponse t (Some fn))"
    unfolding modifyMetadataResponse_def modifyFindCoordinatorResponse_def
    by (auto intro!: lowers_intros modify_elements_preserves b c split: option.split gvalue.split)
qed

lemma Apply_preserves:
  assumes "GetResponseModifier k v (Some fn) = Inr (Some m)" "\<And>h q n. preserves P (fn h q n)"
  shows "preserves P (responseModifier_Apply m resp)"
  using GetResponseModifier_Some [OF assms(1)] modify_preserves [where fn = fn and P = P, OF assms(2)]
  by (auto simp: responseModifier_Apply_def intro!: lowers_intros)

subsection \<open>Steps that do not look outside\<close>

lemma world_kept [lowers_intros]:
  fixes m :: "conn \<Rightarrow> 'r \<times> conn" and w :: "sink \<Rightarrow> 'q \<times> sink"
  shows "preserves (\<lambda>\<sigma>. P (ps_ext \<sigma>)) (on_broker m)" "preserves (\<lambda>\<sigma>. P (ps_ext \<sigma>)) (on_client m)"
    "preserves (\<lambda>\<sigma>. P (ps_ext \<sigma>)) now" "preserves (\<lambda>\<sigma>. P (ps_ext \<sigma>)) (on_open y)"
    "preserves (\<lambda>\<sigma>. P (ps_ext \<sigma>)) (on_nextRequest z)" "preserves (\<lambda>\<sigma>. P (ps_ext \<sigma>)) (on_nextResponse u)"
    "preserves (\<lambda>\<sigma>. P (ps_ext \<sigma>)) (amod (ps_auth_update a))" "preserves (\<lambda>\<sigma>. P (ps_ext \<sigma>)) (broker_read v)"
    "preserves (\<lambda>\<sigma>. P (ps_ext \<sigma>)) (client_read v)" "preserves (\<lambda>\<sigma>. P (ps_ext \<sigma>)) (copy_to_client c)"
    "preserves (\<lambda>\<sigma>. P (ps_ext \<sigma>)) (copy_to_broker c)"
  by (rule lowers_keeps, simp add: zooms keeps_def zoom_def amod_def split: prod.splits)+

lemma on_ext_preserves [lowers_intros]:
  "preserves P m \<Longrightarrow> preserves (\<lambda>\<sigma>. P (ps_ext \<sigma>)) (on_ext m)"
  by (rule preservesI) (auto simp: zooms zoom_def split: prod.splits dest: preservesD)

lemma wire_preserves [lowers_intros]:
  "preserves (\<lambda>\<sigma>. P (w_ext \<sigma>)) (wire_conn m)" "preserves (\<lambda>\<sigma>. P (w_ext \<sigma>)) wire_now"
  "preserves P q \<Longrightarrow> preserves (\<lambda>\<sigma>. P (w_ext \<sigma>)) (wire_ext q)"
  by (rule preservesI; auto simp: wire_conn_def wire_now_def wire_ext_def zoom_def split: prod.splits dest: preservesD)+

lemma up_preserves [lowers_intros]:
  "preserves P m \<Longrightarrow> preserves (\<lambda>\<sigma>. P (up_world \<sigma>)) (up_outside m)"
  "preserves (\<lambda>\<sigma>. P (up_world \<sigma>)) up_now" "preserves (\<lambda>\<sigma>. P (up_world \<sigma>)) (up_close c)"
  "preserves (\<lambda>\<sigma>. P (up_world \<sigma>)) (amod (up_opened_update g))"
  by (rule preservesI; auto simp: up_outside_def up_now_def up_close_def zoom_def amod_def split: prod.splits dest: preservesD)+

lemma or_close_preserves [lowers_intros]:
  "preserves (\<lambda>\<sigma>. P (up_world \<sigma>)) (close_on_error c e)"
  "(\<And>a c. preserves (\<lambda>\<sigma>. P (up_world \<sigma>)) (k a c)) \<Longrightarrow> preserves (\<lambda>\<sigma>. P (up_world \<sigma>)) (or_close x k)"
  by (auto simp: or_close_def close_on_error_def intro!: lowers_intros split: prod.splits sum.splits gofail.splits)

subsection \<open>The contract\<close>

locale outside_invariant =
  fixes P :: "'s \<Rightarrow> bool"
    and fn :: "'s netAddressMappingFunc"
    and tokenProvider :: "'s tokenProvider"
  assumes mapping_keeps: "preserves P (fn h q n)"
    and token_keeps: "preserves P tokenProvider"
begin

lemma token_preserves:
  assumes "oa_tokenProvider b = tokenProvider"
  shows "preserves P (getOAuthBearerToken b)" "preserves P (buildReauthHandshakeRequest b i)"
    "preserves P (buildReauthRequest b i)" "preserves (\<lambda>\<sigma>. P (w_ext \<sigma>)) (sendAndReceiveSASLAuth b a)"
proof -
  show t: "preserves P (getOAuthBearerToken b)"
    unfolding getOAuthBearerToken_def assms by (intro lowers_intros token_keeps)
  show "preserves P (buildReauthHandshakeRequest b i)" "preserves P (buildReauthRequest b i)"
    unfolding buildReauthHandshakeRequest_def buildReauthRequest_def by (intro lowers_intros t)+
  show "preserves (\<lambda>\<sigma>. P (w_ext \<sigma>)) (sendAndReceiveSASLAuth b a)"
    unfolding sendAndReceiveSASLAuth_def sendAndReceiveHandshake_def sendSaslAuthenticateRequest_def read_reply_def
    by (intro lowers_intros t)
qed

text \<open>A processor that has this mapping and this provider.\<close>

definition uses :: "'s processor \<Rightarrow> bool" where
  "uses p \<longleftrightarrow> pr_netAddressMappingFunc p = Some fn \<and>
     (\<exists>b. oa_tokenProvider b = tokenProvider \<and> pr_saslAuthByProxy p = Some (oauth_by_proxy b))"

lemma runReauth_preserves:
  assumes "uses p"
  shows "preserves (\<lambda>\<sigma>. P (ps_ext \<sigma>)) (runReauth p)"
  using assms
  by (auto simp: uses_def runReauth_def handler_defs oauth_by_proxy_def
      intro!: lowers_intros token_preserves split: option.splits)

lemma request_turn_preserves:
  assumes "uses p"
  shows "preserves (\<lambda>\<sigma>. P (ps_ext \<sigma>)) (requestsLoop_turn p)" "preserves (\<lambda>\<sigma>. P (ps_ext \<sigma>)) RequestsLoop_start"
proof -
  note reauth = runReauth_preserves [OF assms]
  have idle: "preserves (\<lambda>\<sigma>. P (ps_ext \<sigma>)) (onReadTimeout p)"
    unfolding onReadTimeout_def putNextRequestHandler_def by (auto intro!: lowers_intros reauth split: option.splits)
  have h: "preserves (\<lambda>\<sigma>. P (ps_ext \<sigma>)) (handleRequest p h)" for h
    by (cases h) (auto simp: DefaultRequestHandler_handleRequest_def SaslAuthV0RequestHandler_handleRequest_def
      copySaslAuthRequest_def handleKeyVersion_def forwardRequest_def putNextHandlers_def putNextRequestHandler_def
      sendRequestKeyVersion_def Let_def intro!: lowers_intros idle split: sum.splits gofail.splits prod.splits option.splits)
  show "preserves (\<lambda>\<sigma>. P (ps_ext \<sigma>)) (requestsLoop_turn p)"
    unfolding requestsLoop_turn_def getNextRequestHandler_def
    by (intro lowers_intros) (auto intro!: lowers_intros h split: sum.split option.split)
  show "preserves (\<lambda>\<sigma>. P (ps_ext \<sigma>)) RequestsLoop_start"
    unfolding RequestsLoop_start_def by (intro lowers_intros)
qed

lemma response_turn_preserves:
  assumes "uses p"
  shows "preserves (\<lambda>\<sigma>. P (ps_ext \<sigma>)) (responsesLoop_turn p)"
proof -
  have fn: "pr_netAddressMappingFunc p = Some fn" using assms by (simp add: uses_def)
  have rewrite: "preserves (\<lambda>\<sigma>. P (ps_ext \<sigma>)) (rewriteResponse p h t m)"
    if "GetResponseModifier k v (Some fn) = Inr (Some m)" for h t k v m
    unfolding rewriteResponse_def Let_def
    by (intro lowers_intros Apply_preserves [OF that] mapping_keeps)
  have reply: "preserves (\<lambda>\<sigma>. P (ps_ext \<sigma>)) (abind (flag True (alift (GetResponseModifier k v (Some fn)))) (\<lambda>rm.
      case rm of Some m \<Rightarrow> rewriteResponse p h t m | None \<Rightarrow> copyResponse p hb h t))" for k v h t hb
    by (rule lowers_after_lift) (auto simp: copyResponse_def intro!: rewrite lowers_intros split: option.split)
  have forward: "preserves (\<lambda>\<sigma>. P (ps_ext \<sigma>)) (forwardResponse p hb rkv h)" for hb rkv h
    unfolding forwardResponse_def fn by (rule reply lowers_intros)+
  have consume: "preserves (\<lambda>\<sigma>. P (ps_ext \<sigma>)) (consumeReauthResponse p h)" for h
    unfolding consumeReauthResponse_def completeReauthHandshake_def by (intro lowers_intros)
  have h: "preserves (\<lambda>\<sigma>. P (ps_ext \<sigma>)) (handleResponse p h)" for h
    by (cases h) (auto simp: DefaultResponseHandler_handleResponse_def SaslAuthV0ResponseHandler_handleResponse_def
      copySaslAuthResponse_def receiveRequestKeyVersion_def intro!: lowers_intros forward consume)
  show ?thesis
    unfolding responsesLoop_turn_def getNextResponseHandler_def by (intro lowers_intros h)
qed

lemma requests_turn_preserves:
  assumes "uses p" "P (ps_ext (cp_state \<kappa>))"
  shows "P (ps_ext (cp_state (requests_turn p rd ld \<kappa>)))"
proof -
  have e: "ps_ext (cp_state (requests_end rd ld r \<kappa>')) = ps_ext (cp_state \<kappa>')" for r and \<kappa>' :: "'s copying"
    by (auto simp: requests_end_def on_exit_def shut_both_def split: option.split prod.splits)
  note t = preservesD [where P = "\<lambda>\<sigma>. P (ps_ext \<sigma>)", OF request_turn_preserves(1) [OF assms(1)] assms(2)]
    preservesD [where P = "\<lambda>\<sigma>. P (ps_ext \<sigma>)", OF request_turn_preserves(2) [OF assms(1)] assms(2)]
  show ?thesis
    using assms(2) t by (auto simp: requests_turn_def e split: request_side.split prod.splits sum.splits)
qed

lemma responses_turn_preserves:
  assumes "uses p" "P (ps_ext (cp_state \<kappa>))" "responses_turn p rd ld \<kappa> = (r, \<kappa>')"
  shows "P (ps_ext (cp_state \<kappa>'))"
proof -
  note t = preservesD [where P = "\<lambda>\<sigma>. P (ps_ext \<sigma>)", OF response_turn_preserves [OF assms(1)] assms(2)]
  show ?thesis
    using assms(3) t
    by (auto simp: responses_turn_def on_exit_def shut_both_def split: prod.splits sum.splits gofail.splits if_splits)
qed

lemma copy_turns_preserves:
  "uses p \<Longrightarrow> P (ps_ext (cp_state \<kappa>)) \<Longrightarrow> copy_turns p rd ld sched \<kappa> = (r, \<kappa>') \<Longrightarrow> P (ps_ext (cp_state \<kappa>'))"
proof (induction sched arbitrary: \<kappa>)
  case (Cons request sched)
  obtain q \<kappa>1 where t: "responses_turn p rd ld \<kappa> = (q, \<kappa>1)" by force
  show ?case
    using Cons.prems Cons.IH requests_turn_preserves [OF Cons.prems(1,2)] responses_turn_preserves [OF Cons.prems(1,2) t] t
    by (cases q) (auto split: if_splits)
qed simp

lemma session_copying_preserves:
  assumes "pc_NetAddressMappingFunc (cl_processorConfig c) = Some fn" "cl_saslAuthByProxy c = oauth_by_proxy b"
    and "oa_tokenProvider b = tokenProvider" "P (up_world u)"
    and "session_copying c sched conn server ms u = (r, \<kappa>)"
  shows "P (ps_ext (cp_state \<kappa>))"
  using assms(5) unfolding session_copying_def copyThenClose_def Let_def
  by (rule copy_turns_preserves [rotated 2])
    (use assms(1-4) in \<open>auto simp: uses_def newProcessor_def Let_def new_pstate_def\<close>)

lemma auth_preserves:
  assumes "oa_tokenProvider b = tokenProvider"
  shows "preserves (\<lambda>\<sigma>. P (up_world \<sigma>)) (auth_broker enabled (oauth_by_proxy b) conn a)"
proof (rule preservesI)
  fix \<sigma> \<sigma>' r
  assume P: "P (up_world \<sigma>)" and run: "auth_broker enabled (oauth_by_proxy b) conn a \<sigma> = (r, \<sigma>')"
  obtain x \<sigma>1 where x: "on_wire conn (sendAndReceiveSASLAuth b a) \<sigma> = (x, \<sigma>1)" by (metis surj_pair)
  from x P have P1: "P (up_world \<sigma>1)"
    by (auto simp: on_wire_def split: prod.splits
        dest!: preservesD [where P = "\<lambda>\<sigma>. P (w_ext \<sigma>)", OF token_preserves(4) [OF assms], rotated])
  have m: "preserves (\<lambda>\<sigma>. P (up_world \<sigma>)) (or_close x (\<lambda>ms conn. or_close (SetDeadline None conn) (\<lambda>_ conn. aret (conn, ms))))"
    by (intro lowers_intros)
  show "P (up_world \<sigma>')"
    using run P preservesD [where P = "\<lambda>\<sigma>. P (up_world \<sigma>)", OF m P1]
    by (auto simp: auth_broker_def oauth_by_proxy_def x aret_def split: if_splits)
qed

end

text \<open>With a network that keeps the invariant too.\<close>

locale outside_network = outside_invariant P fn tokenProvider
  for P :: "'s \<Rightarrow> bool" and fn and tokenProvider +
  fixes env :: "'s net_env"
  assumes net_keeps: "preserves P (ne_net env t k a)"
    and tls_keeps: "preserves P (ne_tlsConfig env c)"
    and config_keeps: "ne_tlsConfig env c \<sigma> = (Inr configFunc, \<sigma>') \<Longrightarrow> preserves P configFunc"
begin

lemma direct_preserves: "preserves (\<lambda>\<sigma>. P (up_world \<sigma>)) (directDialer_Dial env t k a)"
  unfolding directDialer_Dial_def by (intro lowers_intros net_keeps)

lemma tls_preserves:
  assumes "preserves P cf"
  shows "preserves (\<lambda>\<sigma>. P (up_world \<sigma>)) (tlsDialer_Dial env t (directDialer_Dial env t' k) cf a)"
  unfolding tlsDialer_Dial_def Let_def
  by (auto intro!: lowers_intros direct_preserves assms split: option.split sum.split)

text \<open>A client that \<open>NewClient\<close> made.\<close>

lemma NewClient_preserves:
  assumes "NewClient env cfg fn (Some tokenProvider) \<sigma> = (Inr c, \<sigma>')"
  shows "preserves (\<lambda>\<sigma>. P (up_world \<sigma>)) (cl_dialer c a)"
    "pc_NetAddressMappingFunc (cl_processorConfig c) = Some fn"
    "\<exists>b. oa_tokenProvider b = tokenProvider \<and> cl_saslAuthByProxy c = oauth_by_proxy b"
    "P (up_world \<sigma>) \<Longrightarrow> P (up_world \<sigma>')"
proof -
  let ?tls = "if Kafka_TLS_Enable cfg then abind (up_outside (ne_tlsConfig env cfg)) (\<lambda>f. aret (Some f)) else aret None"
  have tls: "preserves P cf" if "?tls \<sigma>0 = (Inr (Some cf), \<sigma>1)" for cf \<sigma>0 \<sigma>1
    using that config_keeps
    by (auto simp: abind_Inr_conv up_outside_def zoom_Inr_conv split: if_splits)
  have tls2: "preserves (\<lambda>\<sigma>. P (up_world \<sigma>)) ?tls" by (auto intro!: lowers_intros tls_keeps)
  from assms obtain f \<sigma>1 dialer \<sigma>2 where 1: "?tls \<sigma> = (Inr f, \<sigma>1)"
    and 2: "newDialer env cfg f \<sigma>1 = (Inr dialer, \<sigma>2)" and d: "cl_dialer c = dialer" and s: "\<sigma>' = \<sigma>2"
    and rest: "pc_NetAddressMappingFunc (cl_processorConfig c) = Some fn"
      "cl_saslAuthByProxy c = oauth_by_proxy \<lparr>oa_clientID = Kafka_ClientID cfg, oa_writeTimeout = Kafka_WriteTimeout cfg,
         oa_readTimeout = Kafka_ReadTimeout cfg, oa_tokenProvider = tokenProvider\<rparr>"
    unfolding NewClient_def
    by (subst (asm) abind_Inr_conv) (auto simp: abind_Inr_conv [of "newDialer _ _ _"] abind_Inr_conv [of "alift _"]
        split: option.split_asm if_split_asm)
  show "preserves (\<lambda>\<sigma>. P (up_world \<sigma>)) (cl_dialer c a)"
    using 2 tls [of \<sigma> _ \<sigma>1] 1
    by (auto simp: d newDialer_def Let_def abind_Inr_conv direct_preserves
        intro!: tls_preserves split: if_split_asm option.split_asm)
  show "P (up_world \<sigma>')" if "P (up_world \<sigma>)"
  proof -
    from preservesD [where P = "\<lambda>\<sigma>. P (up_world \<sigma>)", OF tls2 that 1] have "P (up_world \<sigma>1)" .
    moreover have "preserves (\<lambda>\<sigma>. P (up_world \<sigma>)) (newDialer env cfg f)"
    proof (cases f)
      case (Some cf)
      from tls [of \<sigma> cf \<sigma>1] 1 Some show ?thesis
        unfolding newDialer_def Let_def by (auto intro!: lowers_intros)
    qed (auto simp: newDialer_def Let_def intro!: lowers_intros)
    ultimately show ?thesis using 2 unfolding s by (blast intro: preservesD [where P = "\<lambda>\<sigma>. P (up_world \<sigma>)"])
  qed
  show "\<exists>b. oa_tokenProvider b = tokenProvider \<and> cl_saslAuthByProxy c = oauth_by_proxy b"
    by (intro exI conjI, rule SASLOAuthBearerAuth.select_convs) (rule rest(2))
  show "pc_NetAddressMappingFunc (cl_processorConfig c) = Some fn" by (rule rest(1))
qed

lemma handleConn_preserves:
  assumes "NewClient env cfg fn (Some tokenProvider) \<sigma>0 = (Inr c, \<sigma>1)"
    and tcp: "\<And>server calls k. tcp server = Some calls \<Longrightarrow> preserves P (calls k)"
    and "handleConn c tcp show_conn sched others conn \<sigma> = (r, \<sigma>')" "P (up_world (px_up \<sigma>))"
  shows "P (up_world (px_up \<sigma>'))"
proof -
  note c = NewClient_preserves [OF assms(1)]
  obtain b where b: "oa_tokenProvider b = tokenProvider" "cl_saslAuthByProxy c = oauth_by_proxy b" using c(3) by blast
  obtain d u where d: "client_DialAndAuth c (dial_address c (Conn_BrokerAddress conn)) (px_up \<sigma>) = (d, u)"
    by (metis surj_pair)
  have "preserves (\<lambda>\<sigma>. P (up_world \<sigma>)) (client_DialAndAuth c a)" for a
    unfolding client_DialAndAuth_def DialAndAuth_def b(2) by (intro lowers_intros c(1) auth_preserves b(1))
  then have P1: "P (up_world u)" using d assms(4) by (blast intro: preservesD [where P = "\<lambda>\<sigma>. P (up_world \<sigma>)"])
  have calls: "preserves P (tcp_calls calls ks)" if "\<And>k. preserves P (calls k)" for calls ks
    by (induction ks) (auto intro!: lowers_intros that)
  have P2: "P (up_world (tcp_options c tcp server u))" for server
  proof (cases "tcp server")
    case (Some calls)
    have "preserves (\<lambda>\<sigma>. P (up_world \<sigma>)) (up_outside (setTCPConnOptions (cl_tcpConnOptions c) calls))"
      unfolding setTCPConnOptions_def by (intro lowers_intros calls tcp [OF Some])
    from preservesD [where P = "\<lambda>\<sigma>. P (up_world \<sigma>)", OF this P1] show ?thesis
      by (simp add: tcp_options_def Some) (metis prod.collapse)
  qed (simp add: tcp_options_def P1)
  show ?thesis
  proof (cases d)
    case (Inl f)
    with d P1 assms(3) show ?thesis by (cases f) (auto simp: handleConn_def)
  next
    case (Inr x)
    obtain server ms where x: "x = (server, ms)" by force
    obtain q \<kappa> where k: "session_copying c sched conn server ms (tcp_options c tcp server u) = (q, \<kappa>)" by force
    from session_copying_preserves [OF c(2) b(2,1) P2 k] show ?thesis
      using assms(3) d Inr x k by (auto simp: handleConn_def run_session_def Let_def after_copying_def)
  qed
qed

end

end
