(* ===== verification/Serving.thy ===== *)
theory Serving
  imports Server OutsideInv ListenerProps ClientProps
begin

section \<open>The started proxy\<close>

text \<open>
  The parts together: the configuration that the command line gives, the proxy that \<open>Run\<close> starts with
  it, and its states as connections are handled.
\<close>

subsection \<open>The configuration\<close>

lemma PreRunE_steps:
  "InitBootstrapServers ms c = (Inr (), c') \<longleftrightarrow> (\<exists>l. getListenerConfigs ms = Inr l \<and> c' = c\<lparr>Proxy_BootstrapServers := l\<rparr>)"
  "InitExternalServers ms c = (Inr (), c') \<longleftrightarrow> (\<exists>l. getListenerConfigs ms = Inr l \<and> c' = c\<lparr>Proxy_ExternalServers := l\<rparr>)"
  "InitDialAddressMappings ms c = (Inr (), c') \<longleftrightarrow> (\<exists>l. getDialAddressMappings ms = Inr l \<and> c' = c\<lparr>Proxy_DialAddressMappings := l\<rparr>)"
  "validate_in_place is_ip c = (Inr (), c') \<longleftrightarrow> Validate is_ip c = Inr c'"
  by (auto simp: InitBootstrapServers_def InitExternalServers_def InitDialAddressMappings_def validate_in_place_def
      split: sum.splits)

lemma Validate_ports:
  assumes "Validate is_ip c = Inr c'"
  shows "if \<not> Proxy_DisableDynamicListeners c \<and> Proxy_DynamicSequentialMaxPorts c = 0 \<and> Proxy_DynamicSequentialMinPort c \<noteq> 0
    then uint (Proxy_DynamicSequentialMaxPorts c') = 65536 - uint (Proxy_DynamicSequentialMinPort c)
    else Proxy_DynamicSequentialMaxPorts c' = Proxy_DynamicSequentialMaxPorts c"
proof -
  let ?m = "Proxy_DynamicSequentialMinPort c"
  have "uint (ucast (65536 - ucast ?m :: 32 word) :: 16 word) = 65536 - uint ?m" if "?m \<noteq> 0"
  proof (rule uint_rest_of_ports)
    show "0 < uint ?m" using that by (simp add: word_neq_0_conv word_less_def)
    show "uint ?m < 65536" using uint_lt2p [of ?m] by simp
  qed
  with assms show ?thesis
    by (auto simp: Validate_def word_gt_0 split: option.splits if_splits)
qed

text \<open>
  C30: The configuration is the one asked for.  When \<open>PreRunE\<close> succeeds, SASL is enabled whatever
  the flags said, the bootstrap servers, of which there is one at least, the external servers and
  the dial mappings are those of the flags or, without a flag, of the environment, and nothing
  else was changed but the number of dynamic ports, and this only if it was left out, dynamic
  listeners are enabled and a first port is given: then the range ends with port 65535.
\<close>

theorem configuration_of_flags:
  assumes "PreRunE getenv is_ip fl c = (Inr (), c')"
  shows "\<exists>bs es ds. getListenerConfigs (getOrEnvStringSlice getenv (sf_bootstrapServersMapping fl) ''BOOTSTRAP_SERVER_MAPPING'') = Inr bs
    \<and> getListenerConfigs (getOrEnvStringSlice getenv (sf_externalServersMapping fl) ''EXTERNAL_SERVER_MAPPING'') = Inr es
    \<and> getDialAddressMappings (getOrEnvStringSlice getenv (sf_dialAddressMapping fl) ''DIAL_ADDRESS_MAPPING'') = Inr ds
    \<and> bs \<noteq> []
    \<and> c' = c\<lparr>Kafka_SASL_Enable := True, Proxy_BootstrapServers := bs, Proxy_ExternalServers := es,
           Proxy_DialAddressMappings := ds, Proxy_DynamicSequentialMaxPorts := Proxy_DynamicSequentialMaxPorts c'\<rparr>
    \<and> (if \<not> Proxy_DisableDynamicListeners c \<and> Proxy_DynamicSequentialMaxPorts c = 0 \<and> Proxy_DynamicSequentialMinPort c \<noteq> 0
       then uint (Proxy_DynamicSequentialMaxPorts c') = 65536 - uint (Proxy_DynamicSequentialMinPort c)
       else Proxy_DynamicSequentialMaxPorts c' = Proxy_DynamicSequentialMaxPorts c)"
proof -
  from assms obtain bs es ds where m: "getListenerConfigs (getOrEnvStringSlice getenv (sf_bootstrapServersMapping fl) ''BOOTSTRAP_SERVER_MAPPING'') = Inr bs"
      "getListenerConfigs (getOrEnvStringSlice getenv (sf_externalServersMapping fl) ''EXTERNAL_SERVER_MAPPING'') = Inr es"
      "getDialAddressMappings (getOrEnvStringSlice getenv (sf_dialAddressMapping fl) ''DIAL_ADDRESS_MAPPING'') = Inr ds"
    and v: "Validate is_ip (c\<lparr>Kafka_SASL_Enable := True, Proxy_BootstrapServers := bs, Proxy_ExternalServers := es,
           Proxy_DialAddressMappings := ds\<rparr>) = Inr c'"
    by (auto simp: PreRunE_def abind_Inr_conv PreRunE_steps)
  from Validate_no_error [OF v] have "bs \<noteq> []"
    by (auto simp: config_errors_def)
  moreover from v have "c' = c\<lparr>Kafka_SASL_Enable := True, Proxy_BootstrapServers := bs, Proxy_ExternalServers := es,
           Proxy_DialAddressMappings := ds, Proxy_DynamicSequentialMaxPorts := Proxy_DynamicSequentialMaxPorts c'\<rparr>"
    by (auto simp: Validate_def split: option.splits if_splits)
  moreover have "if \<not> Proxy_DisableDynamicListeners c \<and> Proxy_DynamicSequentialMaxPorts c = 0 \<and> Proxy_DynamicSequentialMinPort c \<noteq> 0
      then uint (Proxy_DynamicSequentialMaxPorts c') = 65536 - uint (Proxy_DynamicSequentialMinPort c)
      else Proxy_DynamicSequentialMaxPorts c' = Proxy_DynamicSequentialMaxPorts c"
    using Validate_ports [OF v] by simp
  ultimately show ?thesis using m by blast
qed

subsection \<open>The states of the proxy\<close>

definition os_tcp ::
  "(conn \<Rightarrow> (tcp_call \<Rightarrow> ('s, unit) action) option) \<Rightarrow> conn \<Rightarrow> (tcp_call \<Rightarrow> ('s listeners, unit) action) option" where
  "os_tcp tcp server = map_option (\<lambda>calls k. on_os (calls k)) (tcp server)"

text \<open>
  A started proxy and its states between connections and rounds of its accept loops; the calls of
  other sessions on the connection set do not remove a connection that is not theirs.
\<close>

inductive serving :: "Config \<Rightarrow> 's proxy \<Rightarrow> 's listeners proxy_state \<Rightarrow> bool" for cfg px where
  started: "(\<And>e. mset (order e) = mset e) \<Longrightarrow> sf_c fl = cfg \<Longrightarrow>
    server_Run netListen env order listenFunc template reg fl clock x = Inr (px, u) \<Longrightarrow>
    serving cfg px \<lparr>px_up = u, px_conns = NewConnSet, px_local_closed = []\<rparr>"
| handled: "serving cfg px \<sigma> \<Longrightarrow>
    Ends (Conn_BrokerAddress conn) (Conn_LocalConnection conn) \<notin> set others \<Longrightarrow>
    handleConn (sp_client px) (os_tcp tcp) show_conn sched others conn \<sigma> = (r, \<sigma>') \<Longrightarrow>
    serving cfg px \<sigma>'"
| accepting: "serving cfg px \<sigma> \<Longrightarrow> loop \<in> set (ls_accepting (up_world (px_up \<sigma>))) \<Longrightarrow>
    accept_turn loop acc (up_world (px_up \<sigma>)) = (handed, w) \<Longrightarrow>
    serving cfg px (\<sigma>\<lparr>px_up := (px_up \<sigma>)\<lparr>up_world := w\<rparr>\<rparr>)"

text \<open>The listeners are in a state they can reach, the loops in \<open>running\<close> run, and \<open>closed\<close> are those that have ended.\<close>

definition kept :: "Config \<Rightarrow> 's listeners_config \<Rightarrow> (nat \<times> int) set \<Rightarrow> (nat \<times> int) list \<Rightarrow> 's listeners \<Rightarrow> bool" where
  "kept cfg f running closed \<sigma> \<longleftrightarrow>
     listening cfg f \<sigma> \<and> running \<subseteq> set (ls_accepting \<sigma>) \<and> ls_closed \<sigma> = closed"

lemma kept_self: "listening cfg f \<sigma> \<Longrightarrow> kept cfg f (set (ls_accepting \<sigma>)) (ls_closed \<sigma>) \<sigma>"
  by (simp add: kept_def)

lemma on_os_kept: "preserves (kept cfg f running closed) (on_os m)"
  by (rule preservesI) (auto simp: kept_def on_os_def zoom_def split: prod.splits intro: outside)

lemma mapping_kept: "preserves (kept cfg f running closed) (GetNetAddressMapping f h q n)"
proof (rule preservesI)
  fix \<sigma> r \<sigma>' assume k: "kept cfg f running closed \<sigma>" and run: "GetNetAddressMapping f h q n \<sigma> = (r, \<sigma>')"
  then have l: "listening cfg f \<sigma>" by (simp add: kept_def)
  from table_step_loops [OF GetNetAddressMapping_step [OF listening_inv [OF l] run]] mapped [OF l run] k
  show "kept cfg f running closed \<sigma>'" unfolding kept_def by blast
qed

interpretation listeners_outside: outside_network "kept cfg f running closed" "GetNetAddressMapping f" "on_os tp" "os_env env"
  for cfg f running closed tp env
proof unfold_locales
  show "preserves (kept cfg f running closed) (GetNetAddressMapping f h q n)" for h q n
    by (rule mapping_kept)
  show "preserves (kept cfg f running closed) (ne_tlsConfig (os_env env) c)" for c
    unfolding os_env_def by (simp add: lowers_intros on_os_kept)
  show "preserves (kept cfg f running closed) configFunc" if "ne_tlsConfig (os_env env) c \<sigma> = (Inr configFunc, \<sigma>')" for c \<sigma> configFunc \<sigma>'
    using that on_os_kept by (auto simp: os_env_def abind_Inr_conv)
qed (simp_all add: on_os_kept os_env_def)

text \<open>What \<open>Run\<close> leaves.\<close>

lemma run_Inr_conv:
  "(case m of (r, s) \<Rightarrow> (case r of Inl e \<Rightarrow> Inl e | Inr a \<Rightarrow> g a s)) = Inr b \<longleftrightarrow> (\<exists>a s. m = (Inr a, s) \<and> g a s = Inr b)"
  by (auto split: prod.splits sum.splits)

lemma server_Run_parts:
  assumes "server_Run netListen env order listenFunc template reg fl clock x = Inr (px, u)" "\<And>e. mset (order e) = mset e"
  obtains u0 tp u1 where "listening (sf_c fl) (sp_listeners px) (up_world u0)"
    "NewClient (os_env env) (sf_c fl) (GetNetAddressMapping (sp_listeners px)) (Some (on_os tp)) u0 = (Inr (sp_client px), u1)"
    "up_outside (on_os (web_listeners netListen (sf_c fl))) u1 = (Inr (), u)"
proof -
  from assms(1) obtain new tp x1 f \<sigma> \<sigma>' u1 where
      n: "NewListeners order listenFunc template (sf_c fl) x1 = Inr (f, \<sigma>)"
    and l: "ListenInstances f (Proxy_BootstrapServers (sf_c fl)) \<sigma> = (Inr (), \<sigma>')"
    and f: "sp_listeners px = f"
    and c: "NewClient (os_env env) (sf_c fl) (GetNetAddressMapping f) (Some (on_os tp))
        \<lparr>up_clock = clock, up_opened = 0, up_closed = [], up_world = \<sigma>'\<rparr> = (Inr (sp_client px), u1)"
    and w: "up_outside (on_os (web_listeners netListen (sf_c fl))) u1 = (Inr (), u)"
    by (auto simp: server_Run_def Let_def rbind_Inr_conv run_Inr_conv split: option.split_asm)
  show thesis
    by (rule that [OF _ c [folded f] w]) (simp add: f listening.started [OF assms(2) n l])
qed

definition client_of :: "Config \<Rightarrow> 's proxy \<Rightarrow> bool" where
  "client_of cfg px \<longleftrightarrow> (\<exists>env tp u0 u. NewClient (os_env env) cfg (GetNetAddressMapping (sp_listeners px))
     (Some (on_os tp)) u0 = (Inr (sp_client px), u))"

lemma handleConn_connset_ok:
  assumes "handleConn c tcp show_conn sched others conn \<sigma> = (r, \<sigma>')" "connset_ok (px_conns \<sigma>)"
  shows "connset_ok (px_conns \<sigma>')"
proof -
  note ok = after_calls_track(1)
  have rm: "connset_ok m \<Longrightarrow> connset_ok (snd (ConnSet_Remove show_conn i k m))" for i k m
    using connections.remove_content [of m show_conn i k] by blast
  show ?thesis
    using assms ok [OF ConnSet_Add_pairs(1)] ok
    by (auto simp: handleConn_def run_session_def Let_def split: prod.splits sum.splits gofail.splits intro!: rm)
qed

lemma handleConn_kept:
  assumes "client_of cfg px" "kept cfg (sp_listeners px) running closed (up_world (px_up \<sigma>))"
    and "handleConn (sp_client px) (os_tcp tcp) show_conn sched others conn \<sigma> = (r, \<sigma>')"
  shows "kept cfg (sp_listeners px) running closed (up_world (px_up \<sigma>'))"
proof -
  from assms(1) obtain env tp u0 u where c: "NewClient (os_env env) cfg (GetNetAddressMapping (sp_listeners px)) (Some (on_os tp)) u0 = (Inr (sp_client px), u)"
    by (auto simp: client_of_def)
  have tcp: "preserves (kept cfg (sp_listeners px) running closed) (calls k)" if "os_tcp tcp server = Some calls" for server calls k
    using that on_os_kept by (auto simp: os_tcp_def)
  from tcp assms(3,2) show ?thesis
    by (rule listeners_outside.handleConn_preserves [where tcp = "os_tcp tcp", OF c])
qed

lemma serving_inv:
  "serving cfg px \<sigma> \<Longrightarrow> client_of cfg px \<and> listening cfg (sp_listeners px) (up_world (px_up \<sigma>)) \<and> connset_ok (px_conns \<sigma>)"
proof (induction rule: serving.induct)
  case (started order fl netListen env listenFunc template reg clock x u)
  from server_Run_parts [OF started(3,1)] obtain u0 tp u1
    where l: "listening cfg (sp_listeners px) (up_world u0)"
      and c: "NewClient (os_env env) cfg (GetNetAddressMapping (sp_listeners px)) (Some (on_os tp)) u0 = (Inr (sp_client px), u1)"
      and w: "up_outside (on_os (web_listeners netListen cfg)) u1 = (Inr (), u)"
    using started(2) by metis
  note listeners_outside.NewClient_preserves(4) [OF c kept_self [OF l]]
  moreover from w have "on_os (web_listeners netListen cfg) (up_world u1) = (Inr (), up_world u)"
    by (auto simp: up_outside_def zoom_def split: prod.splits)
  ultimately have "kept cfg (sp_listeners px) (set (ls_accepting (up_world u0))) (ls_closed (up_world u0)) (up_world u)"
    by (rule preservesD [OF on_os_kept])
  then have "listening cfg (sp_listeners px) (up_world u)" by (simp add: kept_def)
  with c show ?case
    by (auto simp: client_of_def NewConnSet_def)
next
  case (handled \<sigma> conn others tcp show_conn sched r \<sigma>')
  then have c: "client_of cfg px" and l: "listening cfg (sp_listeners px) (up_world (px_up \<sigma>))" by blast+
  from handleConn_kept [OF c kept_self [OF l] handled(3)] have "listening cfg (sp_listeners px) (up_world (px_up \<sigma>'))"
    by (simp add: kept_def)
  with handled.IH handleConn_connset_ok [OF handled(3)] show ?case by blast
next
  case (accepting \<sigma> loop acc handed w)
  then show ?case by (auto intro: accepted)
qed

text \<open>
  C13: The listeners outlive every session.  Take a started proxy that has handled any connections,
  in any interleaving of their loops and however they ended, and whose accept loops have gone
  through any rounds.  When it handles one more connection, every accept loop that runs keeps
  running and none is closed: a loop ends only by an error of its own \<open>Accept\<close>.  The table is then
  in a state that the start, address mappings and rounds of accept loops lead to, and each
  bootstrap server still has the accept loop that was started for it, running or closed by such
  an error.
\<close>

theorem sessions_keep_the_listeners:
  assumes "serving cfg px \<sigma>" "Ends (Conn_BrokerAddress conn) (Conn_LocalConnection conn) \<notin> set others"
    and "handleConn (sp_client px) (os_tcp tcp) show_conn sched others conn \<sigma> = (r, \<sigma>')"
  shows "set (ls_accepting (up_world (px_up \<sigma>))) \<subseteq> set (ls_accepting (up_world (px_up \<sigma>')))
    \<and> ls_closed (up_world (px_up \<sigma>')) = ls_closed (up_world (px_up \<sigma>))
    \<and> listening cfg (sp_listeners px) (up_world (px_up \<sigma>'))
    \<and> (\<forall>v \<in> set (Proxy_BootstrapServers cfg). bootstrap_loop (up_world (px_up \<sigma>')) v)
    \<and> connset_ok (px_conns \<sigma>')"
proof -
  from serving_inv [OF assms(1)] have c: "client_of cfg px" "listening cfg (sp_listeners px) (up_world (px_up \<sigma>))"
    by blast+
  from handleConn_kept [OF c(1) kept_self [OF c(2)] assms(3)]
    serving_inv [OF handled [OF assms]] listening_inv
  show ?thesis by (auto simp: kept_def listeners_inv_def)
qed

subsection \<open>A proxy to try the theorems on\<close>

definition sample_getenv :: "string \<Rightarrow> string" where
  "sample_getenv key = (if key = ''BOOTSTRAP_SERVER_MAPPING'' then ''b:1,127.0.0.1:31 '' else [])"

definition sample_configuration :: Config where
  "sample_configuration = snd (PreRunE sample_getenv (\<lambda>_. True) initFlags (sf_c initFlags))"

lemma sample_PreRunE:
  "PreRunE sample_getenv (\<lambda>_. True) initFlags (sf_c initFlags) = (Inr (), sample_configuration)"
proof -
  have "fst (PreRunE sample_getenv (\<lambda>_. True) initFlags (sf_c initFlags)) = Inr ()" by code_simp
  then show ?thesis by (simp add: sample_configuration_def prod_eq_iff)
qed

lemma configuration_of_flags_witness:
  "\<exists>bs. getListenerConfigs (getOrEnvStringSlice sample_getenv [] ''BOOTSTRAP_SERVER_MAPPING'') = Inr bs
    \<and> Proxy_BootstrapServers sample_configuration = bs \<and> bs \<noteq> [] \<and> Kafka_SASL_Enable sample_configuration"
proof -
  have f: "sf_bootstrapServersMapping initFlags = []" by (simp add: initFlags_def)
  from configuration_of_flags [OF sample_PreRunE, unfolded f] obtain bs es ds where
      bs: "getListenerConfigs (getOrEnvStringSlice sample_getenv [] ''BOOTSTRAP_SERVER_MAPPING'') = Inr bs" "bs \<noteq> []"
    and c: "sample_configuration = (sf_c initFlags)\<lparr>Kafka_SASL_Enable := True, Proxy_BootstrapServers := bs,
      Proxy_ExternalServers := es, Proxy_DialAddressMappings := ds,
      Proxy_DynamicSequentialMaxPorts := Proxy_DynamicSequentialMaxPorts sample_configuration\<rparr>" by metis
  have "Proxy_BootstrapServers sample_configuration = bs" "Kafka_SASL_Enable sample_configuration"
    by (subst c, simp)+
  with bs show ?thesis by blast
qed

definition sample_flags :: ServerFlags where
  "sample_flags = initFlags\<lparr>sf_c := sample_configuration\<rparr>"

definition sample_started :: "nat proxy \<times> nat listeners up" where
  "sample_started = projr (server_Run (\<lambda>_. aret ()) sample_net (\<lambda>e. e) sample_listen (\<lambda>t n. Inr t)
     (builtin_registry (\<lambda>_. None) sample_google Map.empty) sample_flags sample_clock 0)"

lemma sample_server_Run:
  "server_Run (\<lambda>_. aret ()) sample_net (\<lambda>e. e) sample_listen (\<lambda>t n. Inr t) (builtin_registry (\<lambda>_. None) sample_google Map.empty)
     sample_flags sample_clock 0 = Inr (fst sample_started, snd sample_started)"
proof -
  have "case server_Run (\<lambda>_. aret ()) sample_net (\<lambda>e. e) sample_listen (\<lambda>t n. Inr t) (builtin_registry (\<lambda>_. None) sample_google Map.empty)
      sample_flags sample_clock 0 of Inl _ \<Rightarrow> False | Inr _ \<Rightarrow> True" by code_simp
  then show ?thesis by (auto simp: sample_started_def split: sum.splits)
qed

definition after_connection :: "nat listeners proxy_state" where
  "after_connection = snd (handleConn (sp_client (fst sample_started)) (os_tcp (\<lambda>_. None)) (\<lambda>_. ''c'') [True, False] [] sample_Conn
     \<lparr>px_up = snd sample_started, px_conns = NewConnSet, px_local_closed = []\<rparr>)"

lemma sessions_keep_the_listeners_witness:
  "set (ls_accepting (up_world (snd sample_started))) \<subseteq> set (ls_accepting (up_world (px_up after_connection)))
    \<and> ls_closed (up_world (px_up after_connection)) = ls_closed (up_world (snd sample_started))
    \<and> listening sample_configuration (sp_listeners (fst sample_started)) (up_world (px_up after_connection))
    \<and> bootstrap_loop (up_world (px_up after_connection)) (hd (Proxy_BootstrapServers sample_configuration))
    \<and> connset_ok (px_conns after_connection)"
proof -
  have start: "serving sample_configuration (fst sample_started) \<lparr>px_up = snd sample_started, px_conns = NewConnSet, px_local_closed = []\<rparr>"
    by (rule serving.started [OF _ _ sample_server_Run]) (simp_all add: sample_flags_def)
  note kept = sessions_keep_the_listeners [OF start, where others = "[]" and conn = sample_Conn]
  have "handleConn (sp_client (fst sample_started)) (os_tcp (\<lambda>_. None)) (\<lambda>_. ''c'') [True, False] [] sample_Conn
      \<lparr>px_up = snd sample_started, px_conns = NewConnSet, px_local_closed = []\<rparr>
    = (fst (handleConn (sp_client (fst sample_started)) (os_tcp (\<lambda>_. None)) (\<lambda>_. ''c'') [True, False] [] sample_Conn
      \<lparr>px_up = snd sample_started, px_conns = NewConnSet, px_local_closed = []\<rparr>), after_connection)"
    by (simp add: after_connection_def)
  note kept = kept [OF _ this]
  have "Proxy_BootstrapServers sample_configuration \<noteq> []" by code_simp
  with kept show ?thesis by simp
qed

end
