(* ===== verification/Watcher.thy ===== *)
theory Watcher
  imports GoNet
begin

section \<open>Watching a file\<close>

text \<open>
  \<open>pkg/libs/util/watcher.go\<close>: \<open>WatchForUpdates\<close> starts a goroutine that runs an action when a file,
  or the target of a link, has changed.  The file system and the watch that \<open>fsnotify\<close> keeps are the
  parameters of \<open>watch_env\<close>, on a state of their own.  What \<open>select\<close> takes from the channels of the
  goroutine is a list of messages, so that every order of them is a run; the goroutine is stopped in
  \<open>waitForReplacement\<close> as long as the file is missing, and a wait without end is \<open>None\<close>.
\<close>

subsection \<open>\<open>path/filepath\<close> on Unix\<close>

fun clean_parts :: "bool \<Rightarrow> string list \<Rightarrow> string list \<Rightarrow> string list" where
  "clean_parts rooted [] out = rev out"
| "clean_parts rooted (p # ps) out =
     (if p = [] \<or> p = ''.'' then clean_parts rooted ps out
      else if p = ''..'' then
        (if out \<noteq> [] \<and> hd out \<noteq> ''..'' then clean_parts rooted ps (tl out)
         else if rooted then clean_parts rooted ps out
         else clean_parts rooted ps (p # out))
      else clean_parts rooted ps (p # out))"

definition Clean :: "string \<Rightarrow> string" where
  "Clean path =
     (let rooted = (path \<noteq> [] \<and> hd path = CHR ''/'');
          out = go_join (clean_parts rooted (go_split CHR ''/'' path) []) CHR ''/''
      in if rooted then CHR ''/'' # out else if out = [] then ''.'' else out)"

text \<open>The part up to the last slash, cleaned.\<close>

definition Dir :: "string \<Rightarrow> string" where
  "Dir path = Clean (rev (dropWhile (\<lambda>c. c \<noteq> CHR ''/'') (rev path)))"

subsection \<open>The outside\<close>

datatype fs_op = FsCreate | FsWrite | FsRemove | FsRename | FsChmod

datatype watch_msg =
    WDone
  | WEvent "fs_op list" string
  | WError goerror

type_synonym ('s, 'a) fs_call = "'s \<Rightarrow> (goerror + 'a) \<times> 's"

text \<open>
  \<open>we_Lstat\<close> tells whether the mode of the file has \<open>os.ModeSymlink\<close>.  \<open>we_Takes\<close> is what has happened
  outside when the goroutine takes a message: a file that was removed or renamed has lost its watch
  by then.
\<close>

record 's watch_env =
  we_Lstat :: "string \<Rightarrow> ('s, bool) fs_call"
  we_Stat :: "string \<Rightarrow> ('s, unit) fs_call"
  we_EvalSymlinks :: "string \<Rightarrow> ('s, string) fs_call"
  we_NewWatcher :: "('s, unit) fs_call"
  we_Add :: "string \<Rightarrow> ('s, unit) fs_call"
  we_Remove :: "string \<Rightarrow> ('s, unit) fs_call"
  we_Close :: "'s \<Rightarrow> 's"
  we_Sleep :: "'s \<Rightarrow> 's"
  we_Takes :: "watch_msg \<Rightarrow> 's \<Rightarrow> 's"

text \<open>The action of the caller returns nothing; it may panic.\<close>

type_synonym 's watch_action = "'s \<Rightarrow> string option \<times> 's"

definition op_has :: "fs_op list \<Rightarrow> fs_op list \<Rightarrow> bool" where
  "op_has op wanted \<longleftrightarrow> list_ex (\<lambda>x. x \<in> set wanted) op"

subsection \<open>Waiting for a replacement\<close>

text \<open>One round of the loop: whether the watch was resumed.\<close>

definition wait_round :: "'s watch_env \<Rightarrow> string \<Rightarrow> 's \<Rightarrow> bool \<times> 's" where
  "wait_round env filename s =
     (case we_Stat env filename s of
        (Inl _, s) \<Rightarrow> (False, we_Sleep env s)
      | (Inr _, s) \<Rightarrow>
          (case we_Add env filename s of
             (Inl _, s) \<Rightarrow> (False, we_Sleep env s)
           | (Inr _, s) \<Rightarrow> (True, s)))"

partial_function (option) wait_loop :: "'s watch_env \<Rightarrow> string \<Rightarrow> 's \<Rightarrow> 's option" where
  "wait_loop env filename s =
     (let r = wait_round env filename s
      in if fst r then Some (snd r) else wait_loop env filename (snd r))"

definition waitForReplacement :: "'s watch_env \<Rightarrow> string \<Rightarrow> fs_op list \<Rightarrow> 's \<Rightarrow> 's option" where
  "waitForReplacement env filename op s =
     wait_loop env filename (if op_has op [FsChmod] then we_Sleep env s else s)"

subsection \<open>The goroutines\<close>

definition interrupted :: "'s watch_env \<Rightarrow> string \<Rightarrow> fs_op list \<Rightarrow> 's \<Rightarrow> 's option" where
  "interrupted env name op s =
     (if op_has op [FsRemove, FsRename, FsChmod]
      then waitForReplacement env name op (snd (we_Remove env name s))
      else Some s)"

definition file_event ::
  "'s watch_env \<Rightarrow> string \<Rightarrow> 's watch_action \<Rightarrow> fs_op list \<Rightarrow> string \<Rightarrow> 's \<Rightarrow> (string option \<times> 's) option" where
  "file_event env filename act op name s = map_option act (interrupted env filename op s)"

definition link_event ::
  "'s watch_env \<Rightarrow> string \<Rightarrow> 's watch_action \<Rightarrow> fs_op list \<Rightarrow> string \<Rightarrow> 's \<Rightarrow> (string option \<times> 's) option" where
  "link_event env filename act op name s =
     map_option (\<lambda>s.
       if op_has op [FsRemove] then (None, s)
       else
         (case we_EvalSymlinks env filename s of
            (Inl _, s) \<Rightarrow> (None, s)
          | (Inr targetname, s) \<Rightarrow>
              (case we_EvalSymlinks env name s of
                 (Inl _, s) \<Rightarrow> (None, s)
               | (Inr name, s) \<Rightarrow> if name = targetname then act s else (None, s))))
       (interrupted env (Dir filename) op s)"

text \<open>
  The loop, for the messages it takes: it has taken them all and waits for another, or it has
  returned.  A panic of the action leaves the loop; it is recovered above it.
\<close>

datatype watch_exit = Watching | Ended

fun watch_loop ::
  "'s watch_env \<Rightarrow> (fs_op list \<Rightarrow> string \<Rightarrow> 's \<Rightarrow> (string option \<times> 's) option) \<Rightarrow> watch_msg list \<Rightarrow> 's
    \<Rightarrow> (watch_exit \<times> 's) option" where
  "watch_loop env event [] s = Some (Watching, s)"
| "watch_loop env event (m # ms) s =
     (let s = we_Takes env m s in
      case m of
        WDone \<Rightarrow> Some (Ended, s)
      | WEvent op name \<Rightarrow>
          (case event op name s of
             None \<Rightarrow> None
           | Some (Some _, s) \<Rightarrow> Some (Ended, s)
           | Some (None, s) \<Rightarrow> watch_loop env event ms s)
      | WError e \<Rightarrow> watch_loop env event ms s)"

text \<open>\<open>defer watcher.Close()\<close>\<close>

definition watch_goroutine ::
  "'s watch_env \<Rightarrow> (fs_op list \<Rightarrow> string \<Rightarrow> 's \<Rightarrow> (string option \<times> 's) option) \<Rightarrow> watch_msg list \<Rightarrow> 's \<Rightarrow> (watch_exit \<times> 's) option" where
  "watch_goroutine env event ms s =
     map_option (\<lambda>(x, s). (x, if x = Ended then we_Close env s else s)) (watch_loop env event ms s)"

subsection \<open>Starting to watch\<close>

text \<open>The result of the call, and the goroutine if one was started: it is started before the file is added.\<close>

type_synonym 's goroutine = "watch_msg list \<Rightarrow> 's \<Rightarrow> (watch_exit \<times> 's) option"

definition start_watching ::
  "'s watch_env \<Rightarrow> string \<Rightarrow> string \<Rightarrow> 's goroutine \<Rightarrow> 's \<Rightarrow> (goerror + unit) \<times> 's goroutine option \<times> 's" where
  "start_watching env failed_to_create added run s =
     (case we_NewWatcher env s of
        (Inl e, s) \<Rightarrow> (Inl (WrapErr failed_to_create e), None, s)
      | (Inr _, s) \<Rightarrow>
          (case we_Add env added s of
             (Inl e, s) \<Rightarrow> (Inl (WrapErr (''failed to add '' @ added @ '' watcher'') e), Some run, s)
           | (Inr _, s) \<Rightarrow> (Inr (), Some run, s)))"

definition watchFileForUpdates ::
  "'s watch_env \<Rightarrow> string \<Rightarrow> 's watch_action \<Rightarrow> 's \<Rightarrow> (goerror + unit) \<times> 's goroutine option \<times> 's" where
  "watchFileForUpdates env filename act =
     (let filename = Clean filename in
      start_watching env (''failed to create watcher for '' @ filename) filename
        (watch_goroutine env (file_event env filename act)))"

definition watchLinkForUpdates ::
  "'s watch_env \<Rightarrow> string \<Rightarrow> 's watch_action \<Rightarrow> 's \<Rightarrow> (goerror + unit) \<times> 's goroutine option \<times> 's" where
  "watchLinkForUpdates env filename act =
     (let filename = Clean filename; dirname = Dir filename in
      start_watching env (''failed to create watcher for file '' @ filename @ '' in dir '' @ dirname) dirname
        (watch_goroutine env (link_event env filename act)))"

definition WatchForUpdates ::
  "'s watch_env \<Rightarrow> string \<Rightarrow> 's watch_action \<Rightarrow> 's \<Rightarrow> (goerror + unit) \<times> 's goroutine option \<times> 's" where
  "WatchForUpdates env filename act s =
     (case we_Lstat env filename s of
        (Inl e, s) \<Rightarrow> (Inl e, None, s)
      | (Inr symlink, s) \<Rightarrow>
          if symlink then watchLinkForUpdates env filename act s
          else watchFileForUpdates env filename act s)"


subsection \<open>Waiting\<close>

abbreviation after_rounds :: "'s watch_env \<Rightarrow> string \<Rightarrow> nat \<Rightarrow> 's \<Rightarrow> 's" where
  "after_rounds env filename n \<equiv> ((\<lambda>s. snd (wait_round env filename s)) ^^ n)"

lemma after_rounds_Suc:
  "after_rounds env f (Suc n) s = after_rounds env f n (snd (wait_round env f s))"
  by (simp only: funpow_Suc_right o_apply)

lemma wait_loop_cases:
  "fst (wait_round env f s) \<Longrightarrow> wait_loop env f s = Some (snd (wait_round env f s))"
  "\<not> fst (wait_round env f s) \<Longrightarrow> wait_loop env f s = wait_loop env f (snd (wait_round env f s))"
  by (subst wait_loop.simps, simp)+

lemma wait_loop_Some:
  assumes "wait_loop env f s = Some s'"
  shows "\<exists>n. fst (wait_round env f (after_rounds env f n s)) \<and> s' = after_rounds env f (Suc n) s"
  using assms
proof (induction env f s s' rule: wait_loop.raw_induct [rotated, consumes 1, case_names round])
  case (round wl env f s s')
  show ?case
  proof (cases "fst (wait_round env f s)")
    case True
    with round(2) have "s' = snd (wait_round env f s)" by (simp add: Let_def)
    with True show ?thesis by (auto intro: exI [of _ 0])
  next
    case False
    with round(2) have "wl env f (snd (wait_round env f s)) = Some s'" by (simp add: Let_def)
    from round(1) [OF this] obtain n where "fst (wait_round env f (after_rounds env f n (snd (wait_round env f s))))"
        "s' = after_rounds env f (Suc n) (snd (wait_round env f s))" by blast
    then show ?thesis by (intro exI [of _ "Suc n"]) (simp only: after_rounds_Suc simp_thms)
  qed
qed

lemma wait_loop_returns:
  "fst (wait_round env f (after_rounds env f n s)) \<Longrightarrow> \<exists>s'. wait_loop env f s = Some s'"
proof (induction n arbitrary: s)
  case 0
  then show ?case by (simp add: wait_loop_cases)
next
  case (Suc n)
  show ?case
  proof (cases "fst (wait_round env f s)")
    case True
    then show ?thesis by (simp add: wait_loop_cases)
  next
    case False
    from Suc.prems have "fst (wait_round env f (after_rounds env f n (snd (wait_round env f s))))"
      by (simp only: after_rounds_Suc)
    from Suc.IH [OF this] False show ?thesis by (simp add: wait_loop_cases)
  qed
qed

text \<open>The wait ends exactly when some round finds the file and can add it.\<close>

lemma wait_loop_ends:
  "(\<exists>s'. wait_loop env f s = Some s') \<longleftrightarrow> (\<exists>n. fst (wait_round env f (after_rounds env f n s)))"
  using wait_loop_Some wait_loop_returns by metis

subsection \<open>Every change is answered\<close>

text \<open>What a state that only the calls on the file system and on the watch change keeps through them.\<close>

definition calls_keep :: "'s watch_env \<Rightarrow> string \<Rightarrow> ('s \<Rightarrow> 'a) \<Rightarrow> bool" where
  "calls_keep env filename f \<longleftrightarrow> (\<forall>s. f (snd (we_Stat env filename s)) = f s \<and> f (snd (we_Add env filename s)) = f s
     \<and> f (snd (we_Remove env filename s)) = f s \<and> f (we_Sleep env s) = f s \<and> (\<forall>m. f (we_Takes env m s) = f s))"

definition replaced :: "'s watch_env \<Rightarrow> string \<Rightarrow> bool" where
  "replaced env filename \<longleftrightarrow> (\<forall>s. \<exists>n. fst (wait_round env filename (after_rounds env filename n s)))"

definition arms :: "'s watch_env \<Rightarrow> string \<Rightarrow> ('s \<Rightarrow> bool) \<Rightarrow> bool" where
  "arms env filename armed \<longleftrightarrow> (\<forall>s s'. we_Add env filename s = (Inr (), s') \<longrightarrow> armed s')"

text \<open>
  The watch is lost outside only by what comes as an event of a removal, a renaming or a change of
  the mode, as the documentation of \<open>fsnotify\<close> has it.
\<close>

definition interrupts :: "watch_msg \<Rightarrow> bool" where
  "interrupts m = (case m of WEvent op name \<Rightarrow> op_has op [FsRemove, FsRename, FsChmod] | _ \<Rightarrow> False)"

definition stays_armed :: "'s watch_env \<Rightarrow> ('s \<Rightarrow> bool) \<Rightarrow> bool" where
  "stays_armed env armed \<longleftrightarrow> (\<forall>m s. armed s \<longrightarrow> \<not> interrupts m \<longrightarrow> armed (we_Takes env m s))"

fun events :: "watch_msg list \<Rightarrow> nat" where
  "events [] = 0"
| "events (WEvent op name # ms) = Suc (events ms)"
| "events (m # ms) = events ms"

lemma wait_round_keeps:
  "calls_keep env f g \<Longrightarrow> g (snd (wait_round env f s)) = g s"
  by (auto simp: wait_round_def calls_keep_def split: prod.splits sum.splits) (metis snd_conv)+

lemma after_rounds_keeps: "calls_keep env f g \<Longrightarrow> g (after_rounds env f n s) = g s"
  by (induction n) (simp_all add: wait_round_keeps)

lemma wait_round_arms: "arms env f armed \<Longrightarrow> fst (wait_round env f s) \<Longrightarrow> armed (snd (wait_round env f s))"
  by (auto simp: wait_round_def arms_def split: prod.splits sum.splits)

lemma interrupted_ends:
  assumes "calls_keep env f g" "replaced env f" "arms env f armed"
    and "\<not> op_has op [FsRemove, FsRename, FsChmod] \<longrightarrow> armed s"
  shows "\<exists>s'. interrupted env f op s = Some s' \<and> g s' = g s \<and> armed s'"
proof (cases "op_has op [FsRemove, FsRename, FsChmod]")
  case True
  obtain s1 where s1: "interrupted env f op s = wait_loop env f s1" and g: "g s1 = g s"
    using True assms(1) by (auto simp: interrupted_def waitForReplacement_def calls_keep_def)
  from assms(2) obtain s' where w: "wait_loop env f s1 = Some s'"
    unfolding replaced_def wait_loop_ends [symmetric] by blast
  from wait_loop_Some [OF w] obtain n where n: "fst (wait_round env f (after_rounds env f n s1))"
      "s' = snd (wait_round env f (after_rounds env f n s1))" by auto
  then have "armed s'" using wait_round_arms [OF assms(3)] by simp
  moreover have "g s' = g s" using n(2) g by (simp add: wait_round_keeps [OF assms(1)] after_rounds_keeps [OF assms(1)])
  ultimately show ?thesis using s1 w by simp
next
  case False
  then show ?thesis using assms(4) by (simp add: interrupted_def)
qed

lemma file_events_answered:
  assumes env: "calls_keep env f runs" "replaced env f" "arms env f armed" "stays_armed env armed"
    and act: "\<And>s. armed s \<Longrightarrow> \<exists>s'. act s = (None, s') \<and> armed s' \<and> runs s' = Suc (runs s)"
  shows "WDone \<notin> set ms \<Longrightarrow> armed s \<Longrightarrow>
    \<exists>s'. watch_loop env (file_event env f act) ms s = Some (Watching, s') \<and> armed s' \<and> runs s' = runs s + events ms"
proof (induction ms arbitrary: s)
  case (Cons m ms)
  let ?s = "we_Takes env m s"
  have r: "runs ?s = runs s" using env(1) by (simp add: calls_keep_def)
  have armed: "armed ?s" if "\<not> interrupts m" using env(4) that Cons.prems(2) by (simp add: stays_armed_def)
  show ?case
  proof (cases m)
    case (WEvent op name)
    from interrupted_ends [OF env(1-3), of op ?s] armed obtain s1
      where i: "interrupted env f op ?s = Some s1" "runs s1 = runs s" "armed s1"
      using r by (auto simp: interrupts_def WEvent)
    from act [OF i(3)] obtain s2 where a: "act s1 = (None, s2)" "armed s2" "runs s2 = Suc (runs s1)" by blast
    from Cons.IH [of s2] Cons.prems(1) a(2) obtain s' where "watch_loop env (file_event env f act) ms s2 = Some (Watching, s')"
        "armed s'" "runs s' = runs s2 + events ms" by auto
    moreover have "file_event env f act op name ?s = Some (None, s2)"
      by (simp add: file_event_def i a)
    ultimately show ?thesis using i a by (simp add: WEvent Let_def)
  next
    case (WError e)
    with Cons.IH [of ?s] Cons.prems(1) armed r show ?thesis by (simp add: interrupts_def)
  qed (use Cons.prems in simp)
qed simp

text \<open>
  C40: Every change of a watched file is answered.  If the file comes back each time it was removed or
  replaced, adding it to the watch arms it, nothing but a removal, a renaming or a change of its mode
  disarms it from outside, and the action neither panics nor disturbs the watch, then the goroutine
  that \<open>watchFileForUpdates\<close> has started gets through every sequence of events and errors that has no
  stop in it: it runs the action once for each event, and then the file is still watched, even if
  every removal has taken its watch away.
\<close>

theorem changes_are_answered:
  assumes "watchFileForUpdates env filename act s = (Inr (), Some run, s')"
    and "calls_keep env (Clean filename) runs" "replaced env (Clean filename)" "arms env (Clean filename) armed"
    and "stays_armed env armed"
    and "\<And>s. armed s \<Longrightarrow> \<exists>s'. act s = (None, s') \<and> armed s' \<and> runs s' = Suc (runs s)"
    and "WDone \<notin> set ms"
  shows "\<exists>t. run ms s' = Some (Watching, t) \<and> armed t \<and> runs t = runs s' + events ms"
proof -
  from assms(1) have run: "run = watch_goroutine env (file_event env (Clean filename) act)"
    and added: "\<exists>s1. we_Add env (Clean filename) s1 = (Inr (), s')"
    by (auto simp: watchFileForUpdates_def start_watching_def Let_def split: prod.splits sum.splits)
  from added assms(4) have "armed s'" by (auto simp: arms_def)
  from file_events_answered [OF assms(2-6) assms(7) this] show ?thesis
    by (auto simp: run watch_goroutine_def)
qed

text \<open>
  A file that loses its watch when it is removed or renamed, and is then missing for two rounds.  The
  state: armed, runs, missing for.
\<close>

definition sample_watch :: "(bool \<times> nat \<times> nat) watch_env" where
  "sample_watch = \<lparr>we_Lstat = (\<lambda>_ s. (Inr False, s)),
     we_Stat = (\<lambda>_ s. case s of (a, r, n) \<Rightarrow> (if n = 0 then Inr () else Inl IoEOF, s)),
     we_EvalSymlinks = (\<lambda>name s. (Inr name, s)), we_NewWatcher = (\<lambda>s. (Inr (), s)),
     we_Add = (\<lambda>_ (a, r, n). (Inr (), True, r, n)), we_Remove = (\<lambda>_ (a, r, n). (Inr (), False, r, n)),
     we_Close = (\<lambda>(a, r, n). (False, r, n)), we_Sleep = (\<lambda>(a, r, n). (a, r, n - 1)),
     we_Takes = (\<lambda>m (a, r, n). if interrupts m then (False, r, 2) else (a, r, n))\<rparr>"

definition sample_act :: "(bool \<times> nat \<times> nat) watch_action" where
  "sample_act = (\<lambda>(a, r, n). (None, a, Suc r, n))"

lemma sample_replaced: "replaced sample_watch f"
proof -
  have "after_rounds sample_watch f n (a, r, n) = (a, r, 0)" for a r n
  proof (induction n)
    case (Suc n)
    have "wait_round sample_watch f (a, r, Suc n) = (False, a, r, n)"
      by (simp add: wait_round_def sample_watch_def)
    with Suc show ?case by (simp only: after_rounds_Suc snd_conv)
  qed simp
  then have "fst (wait_round sample_watch f (after_rounds sample_watch f n (a, r, n)))" for a r n
    by (simp add: wait_round_def sample_watch_def)
  then show ?thesis by (auto simp: replaced_def)
qed

lemma changes_are_answered_witness:
  "\<exists>t. watch_goroutine sample_watch (file_event sample_watch (Clean ''x//f'') sample_act)
       [WEvent [FsWrite] ''x/f'', WError IoEOF, WEvent [FsRemove] ''x/f''] (True, 0, 0) = Some (Watching, t)
     \<and> fst t \<and> fst (snd t) = Suc (Suc 0)"
proof -
  have start: "watchFileForUpdates sample_watch ''x//f'' sample_act (False, 0, 0)
      = (Inr (), Some (watch_goroutine sample_watch (file_event sample_watch (Clean ''x//f'') sample_act)), (True, 0, 0))"
    by (simp add: watchFileForUpdates_def start_watching_def Let_def) (simp add: sample_watch_def)
  have keep: "calls_keep sample_watch (Clean ''x//f'') (\<lambda>t. fst (snd t))"
    by (simp add: calls_keep_def sample_watch_def split_beta)
  have arms: "arms sample_watch (Clean ''x//f'') fst"
    by (auto simp: arms_def sample_watch_def)
  have stays: "stays_armed sample_watch fst"
    by (auto simp: stays_armed_def sample_watch_def)
  have act: "\<exists>s'. sample_act s = (None, s') \<and> fst s' \<and> fst (snd s') = Suc (fst (snd s))" if "fst s" for s
    using that by (auto simp: sample_act_def split_beta)
  from changes_are_answered [OF start keep sample_replaced arms stays act, of "[WEvent [FsWrite] ''x/f'', WError IoEOF, WEvent [FsRemove] ''x/f'']"]
  show ?thesis by simp
qed

end
